(* ===== verification/Go_Utf8.thy ===== *)
theory Go_Utf8
  imports Go_Prelude
begin

section \<open>UTF-8\<close>

text \<open>
  The part of Go's unicode/utf8 that the truncating code relies on. \<open>rune_len s\<close> is
  the length of the well-formed encoding at the front of \<open>s\<close>, and 0 when the front is
  not well formed (Go then decodes one byte as the replacement character). The table is the
  one of the Unicode standard: no overlong forms, no surrogates, nothing above U+10FFFF.

  The lemmas about a cut in a well-formed string (\<open>to_valid_take\<close>) serve both the tool
  output limit of pkg/tools and the event limit of internal/telemetry.
\<close>

definition cont :: "nat \<Rightarrow> bool" where
  "cont b \<longleftrightarrow> 128 \<le> b \<and> b \<le> 191"

definition lead_len :: "nat \<Rightarrow> nat" where
  "lead_len b =
     (if b < 128 then 1 else if b < 194 then 0 else if b < 224 then 2
      else if b < 240 then 3 else if b < 245 then 4 else 0)"

text \<open>The range of the second byte depends on the first.\<close>

definition second_ok :: "nat \<Rightarrow> nat \<Rightarrow> bool" where
  "second_ok a b \<longleftrightarrow> cont b \<and> (a = 224 \<longrightarrow> 160 \<le> b) \<and> (a = 237 \<longrightarrow> b \<le> 159)
     \<and> (a = 240 \<longrightarrow> 144 \<le> b) \<and> (a = 244 \<longrightarrow> b \<le> 143)"

definition wf_rune :: "nat list \<Rightarrow> bool" where
  "wf_rune bs = (case bs of
       [] \<Rightarrow> False
     | a # r \<Rightarrow> lead_len a = Suc (length r)
         \<and> (case r of [] \<Rightarrow> True | b # r' \<Rightarrow> second_ok a b \<and> list_all cont r'))"

definition rune_len :: "string \<Rightarrow> nat" where
  "rune_len s = (case s of [] \<Rightarrow> 0
     | c # _ \<Rightarrow> (let k = lead_len (of_char c) in
         if k \<le> length s \<and> wf_rune (map of_char (take k s)) then k else 0))"

text \<open>The step of a \<open>range\<close> loop over a string: a malformed byte counts as one rune.\<close>

definition rune_step :: "string \<Rightarrow> nat" where
  "rune_step s = max 1 (rune_len s)"

lemma rune_len_le: "rune_len s \<le> length s"
  by (auto simp: rune_len_def Let_def split: list.splits)

lemma rune_len_le4: "rune_len s \<le> 4"
  by (auto simp: rune_len_def Let_def lead_len_def split: list.splits)

lemma rune_len_Nil [simp]: "rune_len [] = 0"
  by (simp add: rune_len_def)

lemma rune_step_pos [simp]: "0 < rune_step s"
  by (simp add: rune_step_def)

lemma rune_step_le: "s \<noteq> [] \<Longrightarrow> rune_step s \<le> length s"
  using rune_len_le [of s] by (cases s) (auto simp: rune_step_def)

function valid_utf8 :: "string \<Rightarrow> bool" where
  "valid_utf8 s =
     (if s = [] then True
      else if rune_len s = 0 then False
      else valid_utf8 (drop (rune_len s) s))"
  by pat_completeness auto
termination
  by (relation "measure length") auto

text \<open>\<open>strings.ToValidUTF8(s, "")\<close> removes every malformed byte.\<close>

function to_valid_utf8 :: "string \<Rightarrow> string" where
  "to_valid_utf8 s =
     (if s = [] then []
      else if rune_len s = 0 then to_valid_utf8 (tl s)
      else take (rune_len s) s @ to_valid_utf8 (drop (rune_len s) s))"
  by pat_completeness auto
termination
  by (relation "measure length") auto

text \<open>\<open>utf8.RuneCountInString\<close>.\<close>

function rune_count :: "string \<Rightarrow> nat" where
  "rune_count s = (if s = [] then 0 else Suc (rune_count (drop (rune_step s) s)))"
  by pat_completeness auto
termination
  by (relation "measure length") auto

declare valid_utf8.simps [simp del] to_valid_utf8.simps [simp del] rune_count.simps [simp del]

lemma valid_utf8_Nil [simp]: "valid_utf8 []"
  by (simp add: valid_utf8.simps)

lemma to_valid_utf8_Nil [simp]: "to_valid_utf8 [] = []"
  by (simp add: to_valid_utf8.simps)

lemma rune_count_Nil [simp]: "rune_count [] = 0"
  by (simp add: rune_count.simps)

subsection \<open>Locality of decoding\<close>

lemma rune_len_pos_iff:
  "rune_len s = k \<and> 0 < k \<longleftrightarrow>
     s \<noteq> [] \<and> k = lead_len (of_char (hd s)) \<and> 0 < k \<and> k \<le> length s \<and> wf_rune (map of_char (take k s))"
  by (cases s) (auto simp: rune_len_def Let_def)

lemma rune_len_posD:
  assumes "rune_len s \<noteq> 0"
  obtains c r where "s = c # r" "lead_len (of_char c) = rune_len s"
    "wf_rune (map of_char (take (rune_len s) s))"
  using assms rune_len_pos_iff [of s "rune_len s"] by (cases s) auto

lemma rune_len_eqI:
  "lead_len (of_char (hd s)) = k \<Longrightarrow> 0 < k \<Longrightarrow> k \<le> length s \<Longrightarrow> wf_rune (map of_char (take k s))
   \<Longrightarrow> rune_len s = k"
  using rune_len_pos_iff [of s k] by auto

lemma rune_len_same:
  assumes "rune_len s \<noteq> 0" "take (rune_len s) u = take (rune_len s) s"
  shows "rune_len u = rune_len s"
proof -
  let ?k = "rune_len s"
  from assms(1) obtain c r where s: "s = c # r" "lead_len (of_char c) = ?k"
    "wf_rune (map of_char (take ?k s))" by (rule rune_len_posD)
  have "length (take ?k u) = ?k" using assms rune_len_le [of s] by simp
  then have "?k \<le> length u" by simp
  moreover have "hd u = c"
  proof -
    have "hd (take ?k u) = hd (take ?k s)" using assms by simp
    then show ?thesis using assms(1) s(1) by (simp add: hd_take)
  qed
  ultimately show ?thesis using s assms by (intro rune_len_eqI) auto
qed

lemma rune_len_append: "rune_len s \<noteq> 0 \<Longrightarrow> rune_len (s @ t) = rune_len s"
  using rune_len_le [of s] by (intro rune_len_same) auto

lemma rune_len_take: "rune_len s \<noteq> 0 \<Longrightarrow> rune_len (take (rune_len s) s) = rune_len s"
  by (intro rune_len_same) auto

lemma rune_len_take_append: "rune_len s \<noteq> 0 \<Longrightarrow> rune_len (take (rune_len s) s @ t) = rune_len s"
  by (metis rune_len_append rune_len_take)

lemma valid_utf8_rune: "rune_len s \<noteq> 0 \<Longrightarrow> valid_utf8 (take (rune_len s) s @ t) = valid_utf8 t"
  using rune_len_le [of s]
  by (subst valid_utf8.simps) (auto simp: rune_len_take_append)

lemma to_valid_utf8_rune:
  "rune_len s \<noteq> 0 \<Longrightarrow> to_valid_utf8 (take (rune_len s) s @ t) = take (rune_len s) s @ to_valid_utf8 t"
  using rune_len_le [of s]
  by (subst to_valid_utf8.simps) (auto simp: rune_len_take_append)

lemma valid_to_valid_utf8: "valid_utf8 (to_valid_utf8 s)"
proof (induction s rule: to_valid_utf8.induct)
  case (1 s)
  then show ?case
    by (subst to_valid_utf8.simps) (auto simp: valid_utf8_rune)
qed

lemma to_valid_utf8_id: "valid_utf8 s \<Longrightarrow> to_valid_utf8 s = s"
proof (induction s rule: to_valid_utf8.induct)
  case (1 s)
  then show ?case
    by (subst to_valid_utf8.simps) (auto simp: valid_utf8.simps [of s] split: if_splits)
qed

lemma length_to_valid_utf8: "length (to_valid_utf8 s) \<le> length s"
proof (induction s rule: to_valid_utf8.induct)
  case (1 s)
  show ?case
  proof (cases "s = [] \<or> rune_len s = 0")
    case True
    with 1 show ?thesis
      by (subst to_valid_utf8.simps) (auto intro: order_trans)
  next
    case False
    with 1 rune_len_le [of s] show ?thesis
      by (subst to_valid_utf8.simps) auto
  qed
qed

subsection \<open>Cutting a well-formed string\<close>

text \<open>Every proper nonempty part of an encoding is malformed at each of its bytes.\<close>

lemma cont_lead_len: "cont b \<Longrightarrow> lead_len b = 0"
  by (simp add: cont_def lead_len_def)

lemma wf_rune_tail_cont: "wf_rune (a # r) \<Longrightarrow> list_all cont r"
  by (auto simp: wf_rune_def second_ok_def split: list.splits)

lemma to_valid_conts: "list_all (\<lambda>c. cont (of_char c)) s \<Longrightarrow> to_valid_utf8 s = []"
proof (induction s)
  case (Cons c s)
  then have "rune_len (c # s) = 0"
    by (auto simp: rune_len_def cont_lead_len wf_rune_def)
  with Cons show ?case by (subst to_valid_utf8.simps) simp
qed simp

lemma to_valid_partial:
  assumes "rune_len s \<noteq> 0" "n < rune_len s"
  shows "to_valid_utf8 (take n s) = []"
proof (cases n)
  case (Suc m)
  from assms(1) obtain c r where s: "s = c # r" "lead_len (of_char c) = rune_len s"
    "wf_rune (map of_char (take (rune_len s) s))"
    by (rule rune_len_posD)
  obtain k' where k': "rune_len s = Suc k'" using assms(1) by (cases "rune_len s") auto
  with s have "list_all cont (map of_char (take k' r))"
    by (auto dest: wf_rune_tail_cont)
  then have "list_all (\<lambda>c. cont (of_char c)) (take k' r)"
    by (simp add: list.pred_map comp_def)
  then have "list_all (\<lambda>c. cont (of_char c)) (take m (take k' r))"
    unfolding list_all_iff by (blast dest: in_set_takeD)
  then have conts: "list_all (\<lambda>c. cont (of_char c)) (take m r)"
    using Suc assms(2) k' by (simp add: min_def)
  have eq: "take n s = c # take m r" using s Suc by simp
  have "rune_len (take n s) = 0"
    unfolding eq using s(2) assms(2) k' Suc by (simp add: rune_len_def Let_def)
  then show ?thesis
    using conts by (subst to_valid_utf8.simps) (simp add: eq to_valid_conts)
qed simp

text \<open>
  A cut of a well-formed string after \<open>n\<close> bytes loses at most the last, incomplete
  character: what remains is well formed, a prefix, and within three bytes of the limit.
\<close>

lemma to_valid_take:
  "valid_utf8 s \<Longrightarrow>
   has_prefix s (to_valid_utf8 (take n s)) \<and> min n (length s) \<le> length (to_valid_utf8 (take n s)) + 3"
proof (induction s arbitrary: n rule: valid_utf8.induct)
  case (1 s)
  show ?case
  proof (cases "s = []")
    case False
    let ?k = "rune_len s"
    from False "1.prems" have k: "?k \<noteq> 0" and v: "valid_utf8 (drop ?k s)"
      by (auto simp: valid_utf8.simps [of s] split: if_splits)
    show ?thesis
    proof (cases "n < ?k")
      case True
      then show ?thesis using to_valid_partial [OF k True] rune_len_le4 [of s] by auto
    next
      case ge: False
      let ?d = "drop ?k s"
      let ?r = "to_valid_utf8 (take (n - ?k) ?d)"
      have IH: "has_prefix ?d ?r" "min (n - ?k) (length ?d) \<le> length ?r + 3"
        using "1.IH" [OF False k v, of "n - ?k"] by blast+
      have "take n s = take ?k s @ take (n - ?k) ?d"
        using ge take_add [of ?k "n - ?k" s] by simp
      then have eq: "to_valid_utf8 (take n s) = take ?k s @ ?r"
        by (simp add: to_valid_utf8_rune k)
      from IH(1) obtain t where "?d = ?r @ t" by (auto simp: has_prefix_iff)
      then have "s = (take ?k s @ ?r) @ t" by (metis append.assoc append_take_drop_id)
      then have "has_prefix s (take ?k s @ ?r)" by (auto simp: has_prefix_iff)
      with IH(2) show ?thesis using ge rune_len_le [of s] by (auto simp: eq)
    qed
  qed simp
qed

end
