(* ===== verification/Go_Json.thy ===== *)
theory Go_Json
  imports Complex_Main Go_Utf8
begin

section \<open>JSON values\<close>

text \<open>
  The values of Go's \<open>any\<close> after encoding/json has decoded a document. Numbers are
  rationals (a float64 is one); an object is an association list, read with
  \<open>map_of\<close>, so a repeated key is a matter of the decoder.
\<close>

datatype json =
    JNull
  | JBool bool
  | JNum rat
  | JStr string
  | JArr "json list"
  | JObj "(string \<times> json) list"

text \<open>The type assertions \<open>v, ok := x.(T)\<close> on a map entry; a missing key is nil.\<close>

definition get_str :: "string \<Rightarrow> (string \<times> json) list \<Rightarrow> string option" where
  "get_str k m = (case map_of m k of Some (JStr s) \<Rightarrow> Some s | _ \<Rightarrow> None)"

definition get_num :: "string \<Rightarrow> (string \<times> json) list \<Rightarrow> rat option" where
  "get_num k m = (case map_of m k of Some (JNum n) \<Rightarrow> Some n | _ \<Rightarrow> None)"

definition get_obj :: "string \<Rightarrow> (string \<times> json) list \<Rightarrow> (string \<times> json) list option" where
  "get_obj k m = (case map_of m k of Some (JObj ob) \<Rightarrow> Some ob | _ \<Rightarrow> None)"

definition get_arr :: "string \<Rightarrow> (string \<times> json) list \<Rightarrow> json list option" where
  "get_arr k m = (case map_of m k of Some (JArr xs) \<Rightarrow> Some xs | _ \<Rightarrow> None)"

text \<open>The form \<open>v, _ := x.(string)\<close>, with the zero value when the assertion fails.\<close>

definition str_or_empty :: "string \<Rightarrow> (string \<times> json) list \<Rightarrow> string" where
  "str_or_empty k m = (case get_str k m of Some s \<Rightarrow> s | None \<Rightarrow> [])"

lemma str_or_empty_cons [simp]:
  "str_or_empty k ((k', v) # m) =
     (if k = k' then (case v of JStr s \<Rightarrow> s | _ \<Rightarrow> []) else str_or_empty k m)"
  by (auto simp: str_or_empty_def get_str_def split: json.splits)

subsection \<open>Encoding and decoding again\<close>

text \<open>
  \<open>json.Marshal\<close> writes U+FFFD for every malformed byte of a string and sorts the keys of
  a map; \<open>json.Unmarshal\<close> into a map keeps the last of equal keys. \<open>recode v\<close> is the
  value read back from the text of \<open>v\<close>; on a canonical value it is \<open>v\<close> itself.
\<close>

function coerce_utf8 :: "string \<Rightarrow> string" where
  "coerce_utf8 s =
     (if s = [] then []
      else if rune_len s = 0 then [CHR 0xEF, CHR 0xBF, CHR 0xBD] @ coerce_utf8 (tl s)
      else take (rune_len s) s @ coerce_utf8 (drop (rune_len s) s))"
  by pat_completeness auto
termination
  by (relation "measure length") auto

declare coerce_utf8.simps [simp del]

lemma coerce_utf8_id: "valid_utf8 s \<Longrightarrow> coerce_utf8 s = s"
proof (induction s rule: coerce_utf8.induct)
  case (1 s)
  then show ?case
    by (subst coerce_utf8.simps) (auto simp: valid_utf8.simps [of s] split: if_splits)
qed

definition of_pairs :: "('k \<times> 'v) list \<Rightarrow> ('k \<times> 'v) list" where
  "of_pairs kvs = fold (\<lambda>(k, v). map_put k v) kvs []"

lemma map_put_twice [simp]: "map_put k v (map_put k v' m) = map_put k v m"
  by (induction m) auto

lemma map_put_new: "k \<notin> fst ` set m \<Longrightarrow> map_put k v m = m @ [(k, v)]"
  by (induction m) auto

lemma fold_map_put_distinct:
  "distinct (map fst (m @ kvs)) \<Longrightarrow> fold (\<lambda>(k, v). map_put k v) kvs m = m @ kvs"
  by (induction kvs arbitrary: m) (auto simp: map_put_new)

lemma of_pairs_distinct: "distinct (map fst kvs) \<Longrightarrow> of_pairs kvs = kvs"
  by (simp add: of_pairs_def fold_map_put_distinct)

fun recode :: "json \<Rightarrow> json" where
  "recode (JStr s) = JStr (coerce_utf8 s)"
| "recode (JArr xs) = JArr (map recode xs)"
| "recode (JObj kvs) =
     JObj (of_pairs (map (\<lambda>(k, v). (coerce_utf8 k, v)) (sort_key fst (map (\<lambda>(k, v). (k, recode v)) kvs))))"
| "recode JNull = JNull"
| "recode (JBool b) = JBool b"
| "recode (JNum n) = JNum n"

definition recode_args :: "(string \<times> json) list \<Rightarrow> (string \<times> json) list" where
  "recode_args kvs = of_pairs (map (\<lambda>(k, v). (coerce_utf8 k, v)) (sort_key fst (map (\<lambda>(k, v). (k, recode v)) kvs)))"

fun canonical :: "json \<Rightarrow> bool" where
  "canonical (JStr s) = valid_utf8 s"
| "canonical (JArr xs) = list_all canonical xs"
| "canonical (JObj kvs) =
     (sorted (map fst kvs) \<and> distinct (map fst kvs) \<and> list_all (\<lambda>(k, v). valid_utf8 k \<and> canonical v) kvs)"
| "canonical JNull = True"
| "canonical (JBool b) = True"
| "canonical (JNum n) = True"

definition canonical_args :: "(string \<times> json) list \<Rightarrow> bool" where
  "canonical_args kvs \<longleftrightarrow> canonical (JObj kvs)"

lemma recode_pairs_id:
  assumes "\<And>k v. (k, v) \<in> set kvs \<Longrightarrow> valid_utf8 k \<and> recode v = v"
    "sorted (map fst kvs)" "distinct (map fst kvs)"
  shows "of_pairs (map (\<lambda>(k, v). (coerce_utf8 k, v)) (sort_key fst (map (\<lambda>(k, v). (k, recode v)) kvs))) = kvs"
proof -
  have "map (\<lambda>(k, v). (k, recode v)) kvs = kvs" using assms(1) by (auto intro!: map_idI)
  moreover have "sort_key fst kvs = kvs" using assms(2) by (rule sort_key_id_if_sorted)
  moreover have "map (\<lambda>(k, v). (coerce_utf8 k, v)) kvs = kvs"
    using assms(1) by (auto intro!: map_idI simp: coerce_utf8_id)
  ultimately show ?thesis by (simp add: of_pairs_distinct assms(3))
qed

lemma recode_canonical: "canonical v \<Longrightarrow> recode v = v"
proof (induction v rule: canonical.induct)
  case (2 xs)
  then show ?case by (auto simp: list_all_iff intro!: map_idI)
next
  case (3 kvs)
  then show ?case
    unfolding recode.simps
    by (intro arg_cong [of _ _ JObj] recode_pairs_id) (force simp: list_all_iff)+
qed (simp_all add: coerce_utf8_id)

lemma recode_args_canonical: "canonical_args kvs \<Longrightarrow> recode_args kvs = kvs"
  using recode_canonical [of "JObj kvs"] by (simp add: canonical_args_def recode_args_def)

subsection \<open>Writing strings\<close>

text \<open>
  The string form of \<open>json.Marshal\<close> with its HTML escapes: the bytes of malformed UTF-8 and the
  line separators U+2028 and U+2029 are written as escapes too.
\<close>

definition hex_digit :: "nat \<Rightarrow> char" where
  "hex_digit n = (if n < 10 then char_of (48 + n) else char_of (87 + n))"

definition json_escape :: "char \<Rightarrow> string" where
  "json_escape c = (let n = (of_char c :: nat) in
     if c = CHR 0x22 then [CHR 0x5C, CHR 0x22]
     else if c = CHR 0x5C then [CHR 0x5C, CHR 0x5C]
     else if n = 8 then [CHR 0x5C, CHR ''b'']
     else if n = 12 then [CHR 0x5C, CHR ''f'']
     else if n = 10 then [CHR 0x5C, CHR ''n'']
     else if n = 13 then [CHR 0x5C, CHR ''r'']
     else if n = 9 then [CHR 0x5C, CHR ''t'']
     else if n < 32 \<or> c \<in> {CHR ''<'', CHR ''>'', CHR ''&''}
       then [CHR 0x5C] @ ''u00'' @ [hex_digit (n div 16), hex_digit (n mod 16)]
     else [c])"

function json_chars :: "string \<Rightarrow> string" where
  "json_chars s =
     (if s = [] then []
      else if rune_len s = 0 then [CHR 0x5C] @ ''ufffd'' @ json_chars (tl s)
      else if rune_len s = 1 then json_escape (hd s) @ json_chars (tl s)
      else if take 3 s = [CHR 0xE2, CHR 0x80, CHR 0xA8] then [CHR 0x5C] @ ''u2028'' @ json_chars (drop 3 s)
      else if take 3 s = [CHR 0xE2, CHR 0x80, CHR 0xA9] then [CHR 0x5C] @ ''u2029'' @ json_chars (drop 3 s)
      else take (rune_len s) s @ json_chars (drop (rune_len s) s))"
  by pat_completeness auto
termination
  by (relation "measure length") auto

declare json_chars.simps [simp del]

definition json_quote :: "string \<Rightarrow> string" where
  "json_quote s = [CHR 0x22] @ json_chars s @ [CHR 0x22]"

subsection \<open>Writing values\<close>

text \<open>
  \<open>json.Marshal\<close> of a value of type \<open>any\<close>; \<open>ft\<close> is the text of a float64 that is not an
  integer below 1e21.
\<close>

definition num_text :: "(rat \<Rightarrow> string) \<Rightarrow> rat \<Rightarrow> string" where
  "num_text ft r = (let n = \<lfloor>r\<rfloor> in
     if r = of_int n \<and> \<bar>n\<bar> < 10 ^ 21 then itoa n else ft r)"

fun json_text :: "(rat \<Rightarrow> string) \<Rightarrow> json \<Rightarrow> string" where
  "json_text ft JNull = ''null''"
| "json_text ft (JBool b) = (if b then ''true'' else ''false'')"
| "json_text ft (JNum r) = num_text ft r"
| "json_text ft (JStr s) = json_quote s"
| "json_text ft (JArr xs) = ''['' @ str_join '','' (map (json_text ft) xs) @ '']''"
| "json_text ft (JObj kvs) = ''{'' @ str_join '',''
     (map (\<lambda>(k, t). json_quote k @ '':'' @ t) (sort_key fst (map (\<lambda>(k, v). (k, json_text ft v)) kvs))) @ ''}''"

subsection \<open>Reading\<close>

text \<open>
  \<open>json.Unmarshal\<close> into a value of type \<open>any\<close>. A number is read as the rational it denotes;
  float64 rounding, the error of a number beyond its range and the nesting limit of 10000 are
  left out. The parsers return the value and the rest; the fuel bounds the number of values and
  separators, so the length of the text is enough.
\<close>

definition json_ws :: "char \<Rightarrow> bool" where
  "json_ws c \<longleftrightarrow> c \<in> {CHR 0x20, CHR 0x09, CHR 0x0A, CHR 0x0D}"

definition hex_val :: "char \<Rightarrow> nat option" where
  "hex_val c = (let n = (of_char c :: nat) in
     if 48 \<le> n \<and> n \<le> 57 then Some (n - 48)
     else if 97 \<le> n \<and> n \<le> 102 then Some (n - 87)
     else if 65 \<le> n \<and> n \<le> 70 then Some (n - 55) else None)"

definition hex4 :: "string \<Rightarrow> nat option" where
  "hex4 s = (case s of a # b # c # d # _ \<Rightarrow>
       (case (hex_val a, hex_val b, hex_val c, hex_val d) of
          (Some w, Some x, Some y, Some z) \<Rightarrow> Some (((w * 16 + x) * 16 + y) * 16 + z)
        | _ \<Rightarrow> None)
     | _ \<Rightarrow> None)"

text \<open>The UTF-8 encoding of a code point; surrogates become U+FFFD.\<close>

definition utf8_of :: "nat \<Rightarrow> string" where
  "utf8_of r =
     (if r < 128 then [char_of r]
      else if r < 2048 then [char_of (192 + r div 64), char_of (128 + r mod 64)]
      else if (55296 \<le> r \<and> r < 57344) \<or> 1114111 < r then [CHR 0xEF, CHR 0xBF, CHR 0xBD]
      else if r < 65536 then
        [char_of (224 + r div 4096), char_of (128 + r div 64 mod 64), char_of (128 + r mod 64)]
      else [char_of (240 + r div 262144), char_of (128 + r div 4096 mod 64),
            char_of (128 + r div 64 mod 64), char_of (128 + r mod 64)])"

definition unescape :: "char \<Rightarrow> char option" where
  "unescape c =
     (if c \<in> {CHR 0x22, CHR 0x5C, CHR ''/''} then Some c
      else if c = CHR ''b'' then Some (CHR 0x08)
      else if c = CHR ''f'' then Some (CHR 0x0C)
      else if c = CHR ''n'' then Some (CHR 0x0A)
      else if c = CHR ''r'' then Some (CHR 0x0D)
      else if c = CHR ''t'' then Some (CHR 0x09) else None)"

definition cons_str :: "string \<Rightarrow> (string \<times> string) option \<Rightarrow> (string \<times> string) option" where
  "cons_str a r = map_option (\<lambda>(x, rest). (a @ x, rest)) r"

text \<open>The contents of a string after its opening quote.\<close>

function read_chars :: "string \<Rightarrow> (string \<times> string) option" where
  "read_chars s =
     (if s = [] then None
      else let c = hd s; r = tl s in
        if c = CHR 0x22 then Some ([], r)
        else if c = CHR 0x5C then
          (if r = [] then None
           else if hd r = CHR ''u'' then
             (case hex4 (tl r) of
                None \<Rightarrow> None
              | Some hi \<Rightarrow>
                  if 55296 \<le> hi \<and> hi < 56320 \<and> take 2 (drop 5 r) = [CHR 0x5C, CHR ''u''] \<and>
                     (case hex4 (drop 7 r) of Some lo \<Rightarrow> 56320 \<le> lo \<and> lo < 57344 | None \<Rightarrow> False)
                  then cons_str (utf8_of ((hi - 55296) * 1024 + (the (hex4 (drop 7 r)) - 56320) + 65536))
                         (read_chars (drop 11 r))
                  else cons_str (utf8_of hi) (read_chars (drop 5 r)))
           else (case unescape (hd r) of None \<Rightarrow> None | Some x \<Rightarrow> cons_str [x] (read_chars (tl r))))
        else if (of_char c :: nat) < 32 then None
        else if rune_len s = 0 then cons_str [CHR 0xEF, CHR 0xBF, CHR 0xBD] (read_chars r)
        else cons_str (take (rune_len s) s) (read_chars (drop (rune_len s) s)))"
  by pat_completeness auto
termination
  by (relation "measure length") (auto simp: less_Suc_eq_le)

declare read_chars.simps [simp del]

definition nat_val :: "string \<Rightarrow> int" where
  "nat_val s = foldl (\<lambda>v c. 10 * v + (of_char c - 48)) 0 s"

definition read_digits :: "string \<Rightarrow> (string \<times> string) option" where
  "read_digits s = (let ds = takeWhile is_digit s in
     if ds = [] then None else Some (ds, dropWhile is_digit s))"

definition read_number :: "string \<Rightarrow> (rat \<times> string) option" where
  "read_number s0 =
     (let neg = has_prefix s0 ''-''; s1 = trim_prefix s0 ''-'' in
      Option.bind (read_digits s1) (\<lambda>(ds, s2).
        if length ds > 1 \<and> hd ds = CHR ''0'' then
          Some (0, tl s1)
        else
          Option.bind (if has_prefix s2 ''.'' then read_digits (tl s2) else Some ([], s2)) (\<lambda>(fs, s3).
          Option.bind (if s3 \<noteq> [] \<and> hd s3 \<in> {CHR ''e'', CHR ''E''}
            then (let s4 = tl s3; sg = (if has_prefix s4 ''-'' then - 1 else 1) in
                  map_option (\<lambda>(es, s5). (sg * nat_val es, s5))
                    (read_digits (if has_prefix s4 ''-'' \<or> has_prefix s4 ''+'' then tl s4 else s4)))
            else Some (0, s3)) (\<lambda>(ex, rest).
            let m = of_int (nat_val (ds @ fs)) / 10 ^ length fs;
                v = (if ex \<ge> 0 then m * 10 ^ nat ex else m / 10 ^ nat (- ex))
            in Some (if neg then - v else v, rest)))))"

definition read_word :: "string \<Rightarrow> 'a \<Rightarrow> string \<Rightarrow> ('a \<times> string) option" where
  "read_word w v s = (if has_prefix s w then Some (v, drop (length w) s) else None)"

abbreviation skip_ws :: "string \<Rightarrow> string" where
  "skip_ws \<equiv> dropWhile json_ws"

fun read_value :: "nat \<Rightarrow> string \<Rightarrow> (json \<times> string) option"
  and read_elems :: "nat \<Rightarrow> string \<Rightarrow> (json list \<times> string) option"
  and read_members :: "nat \<Rightarrow> string \<Rightarrow> ((string \<times> json) list \<times> string) option" where
  "read_value 0 s = None"
| "read_value (Suc n) s0 =
     (let s = skip_ws s0 in
      if s = [] then None
      else if hd s = CHR 0x22 then map_option (\<lambda>(x, r). (JStr x, r)) (read_chars (tl s))
      else if hd s = CHR ''['' then
        (let r = skip_ws (tl s) in
         if has_prefix r '']'' then Some (JArr [], tl r)
         else map_option (\<lambda>(xs, r'). (JArr xs, r')) (read_elems n r))
      else if hd s = CHR ''{'' then
        (let r = skip_ws (tl s) in
         if has_prefix r ''}'' then Some (JObj [], tl r)
         else map_option (\<lambda>(kvs, r'). (JObj (of_pairs kvs), r')) (read_members n r))
      else if hd s = CHR ''t'' then read_word ''true'' (JBool True) s
      else if hd s = CHR ''f'' then read_word ''false'' (JBool False) s
      else if hd s = CHR ''n'' then read_word ''null'' JNull s
      else map_option (\<lambda>(x, r). (JNum x, r)) (read_number s))"
| "read_elems 0 s = None"
| "read_elems (Suc n) s =
     Option.bind (read_value n s) (\<lambda>(x, r0). let r = skip_ws r0 in
       if has_prefix r '']'' then Some ([x], tl r)
       else if has_prefix r '','' then map_option (\<lambda>(xs, r'). (x # xs, r')) (read_elems n (tl r))
       else None)"
| "read_members 0 s = None"
| "read_members (Suc n) s0 =
     (let s = skip_ws s0 in
      if \<not> has_prefix s [CHR 0x22] then None
      else Option.bind (read_chars (tl s)) (\<lambda>(k, r1). let r2 = skip_ws r1 in
        if \<not> has_prefix r2 '':'' then None
        else Option.bind (read_value n (tl r2)) (\<lambda>(v, r3). let r = skip_ws r3 in
          if has_prefix r ''}'' then Some ([(k, v)], tl r)
          else if has_prefix r '','' then map_option (\<lambda>(kvs, r'). ((k, v) # kvs, r')) (read_members n (tl r))
          else None)))"

text \<open>A whole document: one value with white space around it.\<close>

definition json_parse :: "string \<Rightarrow> json option" where
  "json_parse s =
     (case read_value (Suc (length s)) s of
        Some (v, r) \<Rightarrow> if skip_ws r = [] then Some v else None
      | None \<Rightarrow> None)"

lemma json_parse_demo:
  "json_parse (''{'' @ json_quote ''a'' @ '': [1, -2.5e1, true, null],'' @ nl @ json_quote ''b'' @ '':'' @
      json_quote (''x<'' @ nl) @ ''} '') =
   Some (JObj [(''a'', JArr [JNum 1, JNum (- 25), JBool True, JNull]), (''b'', JStr (''x<'' @ nl))])"
  by code_simp

end
