(* ===== verification/Llm.thy ===== *)
theory Llm
  imports Go_Json
begin

section \<open>pkg/llm: conversation data, provider configuration\<close>

text \<open>
  The data types of pkg/llm/types.go (messages, tool calls, tool results, usage), the
  provider configuration of config.go with its defaults, and the dispatch of factory.go. A
  provider is whatever answers a conversation: its network side is an argument of the
  definitions that use it (see \<open>Tool_Loop\<close>).
\<close>

subsection \<open>Messages and responses\<close>

type_synonym args = "(string \<times> json) list"

record tool_definition =
  td_name :: string
  td_description :: string
  td_parameters :: args

record tool_call =
  tc_id :: string
  tc_name :: string
  tc_args :: args

record tool_result_content =
  tr_tool_use_id :: string
  tr_output :: string
  tr_is_error :: bool

record message =
  msg_role :: string
  msg_content :: string
  msg_tool_calls :: "tool_call list"
  msg_tool_results :: "tool_result_content list"

record usage =
  input_tokens :: int
  output_tokens :: int
  cache_read_tokens :: int
  cache_write_tokens :: int
  total_tokens :: int

definition zero_usage :: usage where
  "zero_usage = \<lparr>input_tokens = 0, output_tokens = 0, cache_read_tokens = 0,
     cache_write_tokens = 0, total_tokens = 0\<rparr>"

datatype stop_reason = StopReasonEndTurn | StopReasonToolUse

record response =
  resp_stop_reason :: stop_reason
  resp_content :: string
  resp_tool_calls :: "tool_call list"
  resp_usage :: usage

definition has_tool_calls :: "response \<Rightarrow> bool" where
  "has_tool_calls r \<longleftrightarrow> length (resp_tool_calls r) > 0"

datatype stream_event =
    StreamTextDelta string
  | StreamDone usage
  | StreamError string

text \<open>The composite literals \<open>Message{Role: r, Content: c}\<close> leave the lists nil.\<close>

definition text_message :: "string \<Rightarrow> string \<Rightarrow> message" where
  "text_message r c = \<lparr>msg_role = r, msg_content = c, msg_tool_calls = [], msg_tool_results = []\<rparr>"

lemma text_message_sel [simp]:
  "msg_role (text_message r c) = r" "msg_content (text_message r c) = c"
  "msg_tool_calls (text_message r c) = []" "msg_tool_results (text_message r c) = []"
  by (simp_all add: text_message_def)

lemma has_tool_calls_iff: "has_tool_calls r \<longleftrightarrow> resp_tool_calls r \<noteq> []"
  by (simp add: has_tool_calls_def)

subsection \<open>Configuration\<close>

record llm_config =
  cfg_provider :: string
  cfg_api_key :: string
  cfg_base_url :: string
  cfg_model :: string
  cfg_max_tokens :: int
  cfg_timeout :: int

definition default_config :: llm_config where
  "default_config =
     \<lparr>cfg_provider = ''anthropic'', cfg_api_key = [], cfg_base_url = [],
      cfg_model = ''claude-sonnet-4-6'', cfg_max_tokens = 4096, cfg_timeout = 45\<rparr>"

definition default_config_for_provider :: "string \<Rightarrow> llm_config" where
  "default_config_for_provider p =
     (let cfg = default_config\<lparr>cfg_provider := p\<rparr> in
      if p = ''anthropic'' \<or> p = [] then cfg\<lparr>cfg_model := ''claude-sonnet-4-6''\<rparr>
      else if p = ''openai'' then
        cfg\<lparr>cfg_model := ''gpt-4o'', cfg_base_url := ''https://api.openai.com/v1''\<rparr>
      else if p = ''litellm'' then cfg\<lparr>cfg_model := ''qwen3-14b''\<rparr>
      else cfg)"

subsection \<open>Provider factory\<close>

text \<open>
  The constructors the internal packages register are package variables, nil until
  registered; a constructor may itself fail with an error text.
\<close>

record 'p provider_ctors =
  new_anthropic :: "(llm_config \<Rightarrow> string + 'p) option"
  new_openai_compat :: "(llm_config \<Rightarrow> string + 'p) option"

datatype factory_error =
    AnthropicNotRegistered
  | OpenAINotRegistered
  | UnknownProvider string
  | ConstructorFailed string

fun lift_ctor :: "string + 'p \<Rightarrow> factory_error + 'p" where
  "lift_ctor (Inl e) = Inl (ConstructorFailed e)"
| "lift_ctor (Inr p) = Inr p"

definition register_anthropic_provider ::
  "(llm_config \<Rightarrow> string + 'p) \<Rightarrow> 'p provider_ctors \<Rightarrow> 'p provider_ctors" where
  "register_anthropic_provider fn c = c\<lparr>new_anthropic := Some fn\<rparr>"

definition register_openai_compat_provider ::
  "(llm_config \<Rightarrow> string + 'p) \<Rightarrow> 'p provider_ctors \<Rightarrow> 'p provider_ctors" where
  "register_openai_compat_provider fn c = c\<lparr>new_openai_compat := Some fn\<rparr>"

definition new_provider :: "'p provider_ctors \<Rightarrow> llm_config \<Rightarrow> factory_error + 'p" where
  "new_provider c cfg =
     (let p = cfg_provider cfg in
      if p = ''anthropic'' then
        (case new_anthropic c of
           None \<Rightarrow> Inl AnthropicNotRegistered
         | Some fn \<Rightarrow> lift_ctor (fn cfg))
      else if p = ''openai'' \<or> p = ''litellm'' \<or> p = [] then
        (case new_openai_compat c of
           None \<Rightarrow> Inl OpenAINotRegistered
         | Some fn \<Rightarrow> lift_ctor (fn cfg))
      else Inl (UnknownProvider p))"

text \<open>
  The two places that resolve an empty provider name disagree: the defaults of config.go
  treat it as anthropic, the factory builds the OpenAI-compatible client.
\<close>

lemma empty_provider_defaults_vs_factory:
  "cfg_model (default_config_for_provider []) = ''claude-sonnet-4-6''
   \<and> new_provider (register_openai_compat_provider (\<lambda>c. Inr (cfg_model c)) \<lparr>new_anthropic = None, new_openai_compat = None\<rparr>)
       (default_config_for_provider []) = Inr ''claude-sonnet-4-6''"
  by (simp add: default_config_for_provider_def default_config_def new_provider_def
      register_openai_compat_provider_def)

end
