(* ===== verification/Session_Store.thy ===== *)
theory Session_Store
  imports Llm
begin

section \<open>internal/session/store.go: the session interface and the in-memory store\<close>

text \<open>
  \<open>SessionStore\<close> is an interface of the code with two implementations. Its contract is the
  locale \<open>session_store\<close> over the abstract state "conversation per session id": an operation
  that succeeds has exactly its effect, one that fails has none. What the clients need
  (isolation between sessions, the conversation a series of operations leaves, the snapshot of
  a turn) is proved once inside it. This theory interprets it for \<open>MemoryStore\<close>, the theory
  \<open>Session_Sqlite\<close> for \<open>SQLiteStore\<close>.

  Times are nanoseconds since the epoch; the current time is an argument of every operation
  that reads the clock. Each operation runs under the store's lock, so it is one step. The
  argument of type \<open>'f\<close> decides which of the operation's accesses to a database fail.
\<close>

record session =
  sess_id :: string
  sess_messages :: "message list"
  sess_created_at :: int
  sess_last_active :: int

definition new_session :: "string \<Rightarrow> string \<Rightarrow> int \<Rightarrow> session" where
  "new_session sid prompt now =
     \<lparr>sess_id = sid, sess_messages = [text_message ''system'' prompt],
      sess_created_at = now, sess_last_active = now\<rparr>"

subsection \<open>The abstract store\<close>

type_synonym sessions_spec = "string \<rightharpoonup> message list"

definition spec_create :: "string \<Rightarrow> string \<Rightarrow> sessions_spec \<Rightarrow> sessions_spec" where
  "spec_create sid prompt a =
     (case a sid of Some _ \<Rightarrow> a | None \<Rightarrow> a(sid \<mapsto> [text_message ''system'' prompt]))"

definition spec_append :: "string \<Rightarrow> message \<Rightarrow> sessions_spec \<Rightarrow> sessions_spec" where
  "spec_append sid m a = (case a sid of None \<Rightarrow> a | Some ms \<Rightarrow> a(sid \<mapsto> ms @ [m]))"

text \<open>The operations of the interface that change the store, as commands.\<close>

datatype store_op =
    OpCreate string string int
  | OpAppend string message int

fun spec_op :: "store_op \<Rightarrow> sessions_spec \<Rightarrow> sessions_spec" where
  "spec_op (OpCreate sid prompt now) a = spec_create sid prompt a"
| "spec_op (OpAppend sid m now) a = spec_append sid m a"

fun op_id :: "store_op \<Rightarrow> string" where
  "op_id (OpCreate sid _ _) = sid"
| "op_id (OpAppend sid _ _) = sid"

fun spec_run :: "store_op list \<Rightarrow> sessions_spec \<Rightarrow> sessions_spec" where
  "spec_run [] a = a"
| "spec_run (c # cs) a = spec_run cs (spec_op c a)"

lemma spec_op_other: "op_id c \<noteq> sid \<Longrightarrow> spec_op c a sid = a sid"
  by (cases c) (auto simp: spec_create_def spec_append_def split: option.splits)

lemma spec_op_cong: "a sid = b sid \<Longrightarrow> op_id c = sid \<Longrightarrow> spec_op c a sid = spec_op c b sid"
  by (cases c) (auto simp: spec_create_def spec_append_def split: option.splits)

text \<open>A session sees only its own operations.\<close>

lemma spec_run_isolated:
  "a sid = b sid \<Longrightarrow> spec_run cs a sid = spec_run (filter (\<lambda>c. op_id c = sid) cs) b sid"
proof (induction cs arbitrary: a b)
  case (Cons c cs)
  show ?case
  proof (cases "op_id c = sid")
    case True
    have "spec_op c a sid = spec_op c b sid" using Cons.prems True by (rule spec_op_cong)
    with Cons.IH [of "spec_op c a" "spec_op c b"] True show ?thesis by simp
  next
    case False
    have "spec_op c a sid = b sid" using Cons.prems by (simp add: spec_op_other [OF False])
    with Cons.IH False show ?thesis by simp
  qed
qed simp

text \<open>The messages appended to a session, in order.\<close>

fun appended :: "store_op list \<Rightarrow> message list" where
  "appended [] = []"
| "appended (OpCreate _ _ _ # cs) = appended cs"
| "appended (OpAppend _ m _ # cs) = m # appended cs"

lemma spec_run_existing:
  "a sid = Some ms \<Longrightarrow> \<forall>c \<in> set cs. op_id c = sid \<Longrightarrow> spec_run cs a sid = Some (ms @ appended cs)"
proof (induction cs arbitrary: a ms)
  case (Cons c cs)
  show ?case
  proof (cases c)
    case (OpCreate i p n)
    with Cons show ?thesis by (simp add: spec_create_def)
  next
    case (OpAppend i m n)
    with Cons.prems have "spec_op c a sid = Some (ms @ [m])" by (simp add: spec_append_def)
    with Cons.IH [of "spec_op c a" "ms @ [m]"] Cons.prems OpAppend show ?thesis by simp
  qed
qed simp

subsection \<open>The contract\<close>

text \<open>
  \<open>storable\<close> says which messages survive the store unchanged: every message in memory,
  messages of well-formed text in the database. Expiry only ever removes sessions; when it
  does so is up to the store.
\<close>

locale session_store =
  fixes get_or_create :: "'f \<Rightarrow> string \<Rightarrow> string \<Rightarrow> int \<Rightarrow> 's \<Rightarrow> ('e + session) \<times> 's"
    and get :: "'f \<Rightarrow> string \<Rightarrow> 's \<Rightarrow> 'e + session option"
    and append :: "'f \<Rightarrow> string \<Rightarrow> message \<Rightarrow> int \<Rightarrow> 's \<Rightarrow> ('e + unit) \<times> 's"
    and append_and_snapshot ::
      "'f \<Rightarrow> string \<Rightarrow> message \<Rightarrow> int \<Rightarrow> 's \<Rightarrow> ('e + message list option) \<times> 's"
    and reap :: "'f \<Rightarrow> int \<Rightarrow> 's \<Rightarrow> 's"
    and spec :: "'s \<Rightarrow> sessions_spec"
    and inv :: "'s \<Rightarrow> bool"
    and storable :: "message \<Rightarrow> bool"
  assumes create_ok:
      "inv s \<Longrightarrow> get_or_create f sid prompt now s = (Inr sess, s') \<Longrightarrow>
       spec s' = spec_create sid prompt (spec s) \<and> spec s' sid = Some (sess_messages sess)"
    and create_failed:
      "inv s \<Longrightarrow> get_or_create f sid prompt now s = (Inl e, s') \<Longrightarrow> spec s' = spec s"
    and get_ok: "inv s \<Longrightarrow> get f sid s = Inr found \<Longrightarrow> map_option sess_messages found = spec s sid"
    and append_ok:
      "inv s \<Longrightarrow> storable m \<Longrightarrow> append f sid m now s = (Inr u, s') \<Longrightarrow> spec s' = spec_append sid m (spec s)"
    and append_failed: "inv s \<Longrightarrow> append f sid m now s = (Inl e, s') \<Longrightarrow> spec s' = spec s"
    and snapshot_state: "inv s \<Longrightarrow> snd (append_and_snapshot f sid m now s) = snd (append f sid m now s)"
    and snapshot_ok:
      "inv s \<Longrightarrow> append_and_snapshot f sid m now s = (Inr ms, s') \<Longrightarrow>
       append f sid m now s = (Inr (), s') \<and> ms = spec s' sid"
    and reap_removes: "inv s \<Longrightarrow> spec (reap f now s) \<subseteq>\<^sub>m spec s"
    and inv_create: "inv s \<Longrightarrow> inv (snd (get_or_create f sid prompt now s))"
    and inv_append: "inv s \<Longrightarrow> inv (snd (append f sid m now s))"
    and inv_reap: "inv s \<Longrightarrow> inv (reap f now s)"
begin

text \<open>Running commands, each under its own faults; the commands that succeeded are returned.\<close>

fun exec_op :: "'f \<Rightarrow> store_op \<Rightarrow> 's \<Rightarrow> bool \<times> 's" where
  "exec_op f (OpCreate sid prompt now) s =
     (case get_or_create f sid prompt now s of (r, s') \<Rightarrow> (\<not> is_err r, s'))"
| "exec_op f (OpAppend sid m now) s =
     (case append f sid m now s of (r, s') \<Rightarrow> (\<not> is_err r, s'))"

fun exec_ops :: "('f \<times> store_op) list \<Rightarrow> 's \<Rightarrow> store_op list \<times> 's" where
  "exec_ops [] s = ([], s)"
| "exec_ops ((f, c) # cs) s =
     (let (ok, s1) = exec_op f c s; (done, s2) = exec_ops cs s1
      in (if ok then c # done else done, s2))"

definition op_storable :: "store_op \<Rightarrow> bool" where
  "op_storable c = (case c of OpAppend _ m _ \<Rightarrow> storable m | _ \<Rightarrow> True)"

lemma exec_op_refines:
  assumes "inv s" "op_storable c"
  shows "inv (snd (exec_op f c s)) \<and>
    spec (snd (exec_op f c s)) = (if fst (exec_op f c s) then spec_op c (spec s) else spec s)"
proof (cases c)
  case (OpCreate sid prompt now)
  show ?thesis
  proof (cases "get_or_create f sid prompt now s")
    case (Pair r s')
    then show ?thesis
      using assms OpCreate inv_create [OF assms(1), of f sid prompt now]
        create_ok [OF assms(1), of f sid prompt now] create_failed [OF assms(1), of f sid prompt now]
      by (cases r) auto
  qed
next
  case (OpAppend sid m now)
  then have m: "storable m" using assms(2) by (simp add: op_storable_def)
  show ?thesis
  proof (cases "append f sid m now s")
    case (Pair r s')
    then show ?thesis
      using assms OpAppend inv_append [OF assms(1), of f sid m now]
        append_ok [OF assms(1) m, of f sid now] append_failed [OF assms(1), of f sid m now]
      by (cases r) auto
  qed
qed

lemma exec_ops_refine:
  "inv s \<Longrightarrow> list_all (op_storable \<circ> snd) cs \<Longrightarrow>
   inv (snd (exec_ops cs s)) \<and> spec (snd (exec_ops cs s)) = spec_run (fst (exec_ops cs s)) (spec s)"
proof (induction cs arbitrary: s)
  case (Cons p cs)
  obtain f c where p: "p = (f, c)" by fastforce
  with Cons.prems exec_op_refines [of s c f] Cons.IH [of "snd (exec_op f c s)"] show ?case
    by (auto split: prod.splits)
qed simp

text \<open>
  Whatever the interleaving with other sessions and whatever operations fail, the conversation
  of a session that existed is what it was followed by the messages of the successful appends
  to it, in order.
\<close>

lemma history:
  assumes "inv s" "list_all (op_storable \<circ> snd) cs" "spec s sid = Some ms"
  shows "spec (snd (exec_ops cs s)) sid =
    Some (ms @ appended (filter (\<lambda>c. op_id c = sid) (fst (exec_ops cs s))))"
proof -
  let ?done = "fst (exec_ops cs s)"
  have "spec (snd (exec_ops cs s)) sid = spec_run ?done (spec s) sid"
    using exec_ops_refine [OF assms(1,2)] by simp
  also have "\<dots> = spec_run (filter (\<lambda>c. op_id c = sid) ?done) (spec s) sid"
    by (rule spec_run_isolated) simp
  finally show ?thesis
    using spec_run_existing [of "spec s" sid ms "filter (\<lambda>c. op_id c = sid) ?done"] assms(3) by simp
qed

text \<open>The turn of a conversation the A2A executor makes: create, append, snapshot.\<close>

lemma turn_snapshot:
  assumes "inv s" "storable m"
    "get_or_create f sid prompt t s = (Inr sess, s1)"
    "append_and_snapshot g sid m now s1 = (Inr r, s2)"
  shows "r = Some ((case spec s sid of Some ms \<Rightarrow> ms | None \<Rightarrow> [text_message ''system'' prompt]) @ [m])"
proof -
  have inv1: "inv s1" using inv_create [OF assms(1), of f sid prompt t] assms(3) by simp
  have "spec s1 sid = Some (case spec s sid of Some ms \<Rightarrow> ms | None \<Rightarrow> [text_message ''system'' prompt])"
    using create_ok [OF assms(1,3)] by (auto simp: spec_create_def split: option.splits)
  moreover have "spec s2 = spec_append sid m (spec s1)" "r = spec s2 sid"
    using snapshot_ok [OF inv1 assms(4)] append_ok [OF inv1 assms(2)] by blast+
  ultimately show ?thesis by (simp add: spec_append_def)
qed

text \<open>A failed snapshot may still have appended the message: the two effects it can have.\<close>

lemma snapshot_failed:
  assumes "inv s" "storable m" "append_and_snapshot f sid m now s = (Inl e, s')"
  shows "spec s' = spec s \<or> spec s' = spec_append sid m (spec s)"
proof -
  have s': "s' = snd (append f sid m now s)"
    using snapshot_state [OF assms(1), of f sid m now] assms(3) by simp
  show ?thesis
  proof (cases "append f sid m now s")
    case (Pair r s1)
    then show ?thesis
      using s' append_ok [OF assms(1,2)] append_failed [OF assms(1)] by (cases r) auto
  qed
qed

end

text \<open>
  A store whose expiry is exact: a session goes when it has been idle for longer than the TTL.
  \<open>active\<close> is the time of the last activity.
\<close>

locale exact_store = session_store +
  fixes active :: "'b \<Rightarrow> string \<rightharpoonup> int"
    and ttl :: "'b \<Rightarrow> int"
  assumes reap_exact: "inv s \<Longrightarrow> spec (reap f now s) =
      (\<lambda>sid. case active s sid of Some t \<Rightarrow> if now - t > ttl s then None else spec s sid | None \<Rightarrow> None)"
    and active_dom: "inv s \<Longrightarrow> dom (active s) = dom (spec s)"
    and touched: "inv s \<Longrightarrow> sid \<in> dom (spec s) \<Longrightarrow> append f sid m now s = (Inr u, s') \<Longrightarrow>
      active s' = (active s)(sid \<mapsto> now)"
begin

lemma active_survives:
  "inv s \<Longrightarrow> active s sid = Some t \<Longrightarrow> now - t \<le> ttl s \<Longrightarrow> spec (reap f now s) sid = spec s sid"
  by (simp add: reap_exact)

lemma idle_expires:
  "inv s \<Longrightarrow> active s sid = Some t \<Longrightarrow> now - t > ttl s \<Longrightarrow> spec (reap f now s) sid = None"
  by (simp add: reap_exact)

lemma touched_survives:
  assumes "inv s" "sid \<in> dom (spec s)" "append f sid m t s = (Inr u, s')" "now - t \<le> ttl s'"
  shows "spec (reap g now s') sid = spec s' sid"
proof -
  have "inv s'" using inv_append [OF assms(1), of f sid m t] assms(3) by simp
  moreover have "active s' sid = Some t" using touched [OF assms(1-3)] by simp
  ultimately show ?thesis using assms(4) by (rule active_survives)
qed

end

subsection \<open>MemoryStore\<close>

text \<open>The error results of \<open>MemoryStore\<close> are always nil.\<close>

record memory_store =
  ms_sessions :: "(string \<times> session) list"
  ms_ttl :: int

definition new_memory_store :: "int \<Rightarrow> memory_store" where
  "new_memory_store ttl = \<lparr>ms_sessions = [], ms_ttl = ttl\<rparr>"

definition mem_get_or_create ::
  "string \<Rightarrow> string \<Rightarrow> int \<Rightarrow> memory_store \<Rightarrow> (string + session) \<times> memory_store" where
  "mem_get_or_create sid prompt now st =
     (case map_of (ms_sessions st) sid of
        Some sess \<Rightarrow> (Inr sess, st)
      | None \<Rightarrow> (let sess = new_session sid prompt now in
          (Inr sess, st\<lparr>ms_sessions := map_put sid sess (ms_sessions st)\<rparr>)))"

definition mem_get :: "string \<Rightarrow> memory_store \<Rightarrow> string + session option" where
  "mem_get sid st = Inr (map_of (ms_sessions st) sid)"

definition mem_append ::
  "string \<Rightarrow> message \<Rightarrow> int \<Rightarrow> memory_store \<Rightarrow> (string + unit) \<times> memory_store" where
  "mem_append sid msg now st =
     (case map_of (ms_sessions st) sid of
        None \<Rightarrow> (Inr (), st)
      | Some sess \<Rightarrow> (Inr (),
          st\<lparr>ms_sessions := map_put sid
               (sess\<lparr>sess_messages := sess_messages sess @ [msg], sess_last_active := now\<rparr>)
               (ms_sessions st)\<rparr>))"

definition mem_append_and_snapshot ::
  "string \<Rightarrow> message \<Rightarrow> int \<Rightarrow> memory_store \<Rightarrow> (string + message list option) \<times> memory_store" where
  "mem_append_and_snapshot sid msg now st =
     (case map_of (ms_sessions st) sid of
        None \<Rightarrow> (Inr None, st)
      | Some sess \<Rightarrow>
          (let sess1 = sess\<lparr>sess_messages := sess_messages sess @ [msg], sess_last_active := now\<rparr> in
           (Inr (Some (sess_messages sess1)),
            st\<lparr>ms_sessions := map_put sid sess1 (ms_sessions st)\<rparr>)))"

definition mem_len :: "memory_store \<Rightarrow> nat" where
  "mem_len st = length (ms_sessions st)"

definition mem_reap :: "int \<Rightarrow> memory_store \<Rightarrow> memory_store" where
  "mem_reap now st =
     st\<lparr>ms_sessions := filter (\<lambda>(sid, sess). \<not> now - sess_last_active sess > ms_ttl st) (ms_sessions st)\<rparr>"

text \<open>The reaper of \<open>StartReaper\<close> after \<open>n\<close> ticks of 60 s from its start.\<close>

definition tick_ns :: int where
  "tick_ns = 60 * 1000000000"

fun mem_reaper :: "nat \<Rightarrow> int \<Rightarrow> memory_store \<Rightarrow> memory_store" where
  "mem_reaper 0 start st = st"
| "mem_reaper (Suc n) start st = mem_reaper n (start + tick_ns) (mem_reap (start + tick_ns) st)"

subsection \<open>The in-memory store meets the contract\<close>

definition mem_spec :: "memory_store \<Rightarrow> sessions_spec" where
  "mem_spec st sid = map_option sess_messages (map_of (ms_sessions st) sid)"

definition mem_active :: "memory_store \<Rightarrow> string \<rightharpoonup> int" where
  "mem_active st sid = map_option sess_last_active (map_of (ms_sessions st) sid)"

definition mem_inv :: "memory_store \<Rightarrow> bool" where
  "mem_inv st \<longleftrightarrow> distinct (map fst (ms_sessions st))"

lemmas mem_ops = mem_get_or_create_def mem_get_def mem_append_def mem_append_and_snapshot_def
  mem_len_def mem_reap_def

lemma mem_inv_new: "mem_inv (new_memory_store ttl)"
  by (simp add: mem_inv_def new_memory_store_def)

lemma mem_inv_ops:
  "mem_inv s \<Longrightarrow> mem_inv (snd (mem_get_or_create sid prompt now s))"
  "mem_inv s \<Longrightarrow> mem_inv (snd (mem_append sid m now s))"
  "mem_inv s \<Longrightarrow> mem_inv (mem_reap now s)"
  by (auto simp: mem_inv_def mem_ops Let_def distinct_map_filter split: option.splits)

lemma mem_reap_sessions:
  "mem_inv s \<Longrightarrow> map_of (ms_sessions (mem_reap now s)) sid =
     (case map_of (ms_sessions s) sid of None \<Rightarrow> None
      | Some sess \<Rightarrow> if now - sess_last_active sess > ms_ttl s then None else Some sess)"
  by (auto simp: mem_inv_def mem_reap_def map_of_filter_key split: option.splits)

lemma mem_reap_exact:
  "mem_inv s \<Longrightarrow> mem_spec (mem_reap now s) = (\<lambda>sid. case mem_active s sid of
     Some t \<Rightarrow> if now - t > ms_ttl s then None else mem_spec s sid | None \<Rightarrow> None)"
  by (rule ext) (auto simp: mem_spec_def mem_active_def mem_reap_sessions split: option.splits)

lemma mem_len_card: "mem_inv s \<Longrightarrow> mem_len s = card (dom (mem_spec s))"
proof -
  assume inv: "mem_inv s"
  have "dom (mem_spec s) = fst ` set (ms_sessions s)"
    by (auto simp: mem_spec_def dom_map_of_conv_image_fst [symmetric])
  moreover have "card (fst ` set (ms_sessions s)) = length (ms_sessions s)"
    using inv distinct_card [of "map fst (ms_sessions s)"] by (simp add: mem_inv_def)
  ultimately show ?thesis by (simp add: mem_len_def)
qed

interpretation mem: exact_store "\<lambda>_. mem_get_or_create" "\<lambda>_. mem_get" "\<lambda>_. mem_append"
  "\<lambda>_. mem_append_and_snapshot" "\<lambda>_. mem_reap" mem_spec mem_inv "\<lambda>_. True" mem_active ms_ttl
proof unfold_locales
  fix s s' :: memory_store and sid prompt now m and sess :: session and e :: string and r ro u and f :: 'f
  assume inv: "mem_inv s"
  show "mem_get_or_create sid prompt now s = (Inr sess, s') \<Longrightarrow>
      mem_spec s' = spec_create sid prompt (mem_spec s) \<and> mem_spec s' sid = Some (sess_messages sess)"
    by (auto simp: mem_ops mem_spec_def spec_create_def fun_eq_iff new_session_def Let_def
        split: option.splits)
  show "mem_get_or_create sid prompt now s = (Inl e, s') \<Longrightarrow> mem_spec s' = mem_spec s"
    by (auto simp: mem_ops Let_def split: option.splits)
  show "mem_get sid s = Inr ro \<Longrightarrow> map_option sess_messages ro = mem_spec s sid"
    by (auto simp: mem_ops mem_spec_def)
  show "mem_append sid m now s = (Inr u, s') \<Longrightarrow> mem_spec s' = spec_append sid m (mem_spec s)"
    by (auto simp: mem_ops mem_spec_def spec_append_def fun_eq_iff split: option.splits)
  show "mem_append sid m now s = (Inl e, s') \<Longrightarrow> mem_spec s' = mem_spec s"
    by (auto simp: mem_ops split: option.splits)
  show "snd (mem_append_and_snapshot sid m now s) = snd (mem_append sid m now s)"
    by (simp add: mem_ops Let_def split: option.splits)
  show "mem_append_and_snapshot sid m now s = (Inr r, s') \<Longrightarrow>
      mem_append sid m now s = (Inr (), s') \<and> r = mem_spec s' sid"
    by (auto simp: mem_ops mem_spec_def Let_def split: option.splits)
  show "mem_spec (mem_reap now s) \<subseteq>\<^sub>m mem_spec s"
    by (auto simp: mem_reap_exact [OF inv] map_le_def split: option.splits if_splits)
  show "mem_spec (mem_reap now s) = (\<lambda>sid. case mem_active s sid of
     Some t \<Rightarrow> if now - t > ms_ttl s then None else mem_spec s sid | None \<Rightarrow> None)"
    by (rule mem_reap_exact [OF inv])
  show "dom (mem_active s) = dom (mem_spec s)"
    by (auto simp: mem_active_def mem_spec_def)
  show "sid \<in> dom (mem_spec s) \<Longrightarrow> mem_append sid m now s = (Inr u, s') \<Longrightarrow>
      mem_active s' = (mem_active s)(sid \<mapsto> now)"
    by (auto simp: mem_ops mem_active_def mem_spec_def fun_eq_iff split: option.splits)
qed (simp_all add: mem_inv_ops)

subsection \<open>Properties of the in-memory store\<close>

fun mem_step :: "store_op \<Rightarrow> memory_store \<Rightarrow> memory_store" where
  "mem_step (OpCreate sid prompt now) st = snd (mem_get_or_create sid prompt now st)"
| "mem_step (OpAppend sid m now) st = snd (mem_append sid m now st)"

definition mem_run :: "store_op list \<Rightarrow> memory_store \<Rightarrow> memory_store" where
  "mem_run cs st = fold mem_step cs st"

lemma mem_exec_op: "mem.exec_op f c s = (True, mem_step c s)"
proof (cases c)
  case (OpCreate sid prompt now)
  then show ?thesis by (simp add: mem_get_or_create_def Let_def split: option.splits)
next
  case (OpAppend sid m now)
  then show ?thesis by (simp add: mem_append_def split: option.splits)
qed

lemma mem_exec_ops: "mem.exec_ops (map (Pair f) cs) s = (cs, mem_run cs s)"
  by (induction cs arbitrary: s) (simp_all add: mem_exec_op mem_run_def)

lemma mem_run_history:
  "mem_inv s \<Longrightarrow> mem_spec s sid = Some ms \<Longrightarrow>
   mem_spec (mem_run cs s) sid = Some (ms @ appended (filter (\<lambda>c. op_id c = sid) cs))"
  using mem.history [of s "map (Pair ()) cs" sid ms]
  by (simp add: mem_exec_ops mem.op_storable_def list_all_iff split: store_op.splits)

lemma mem_reaper_active:
  "mem_inv s \<Longrightarrow> map_of (ms_sessions s) sid = Some sess \<Longrightarrow>
   map_of (ms_sessions (mem_reaper n start s)) sid =
     (if start + int n * tick_ns - sess_last_active sess > ms_ttl s \<and> 0 < n then None else Some sess)"
proof (induction n arbitrary: start s)
  case (Suc n)
  let ?s1 = "mem_reap (start + tick_ns) s"
  have pos: "0 < tick_ns" by (simp add: tick_ns_def)
  have inv1: "mem_inv ?s1" using Suc.prems(1) by (rule mem_inv_ops(3))
  have ttl1: "ms_ttl (mem_reap v s) = ms_ttl s" for v by (simp add: mem_reap_def)
  have later: "start + tick_ns \<le> start + int (Suc n) * tick_ns"
    using pos by (simp add: algebra_simps)
  show ?case
  proof (cases "start + tick_ns - sess_last_active sess > ms_ttl s")
    case True
    have gone: "map_of (ms_sessions v) sid = None \<Longrightarrow> mem_inv v \<Longrightarrow>
        map_of (ms_sessions (mem_reaper k t v)) sid = None" for k t v
      by (induction k arbitrary: t v) (simp_all add: mem_reap_sessions mem_inv_ops)
    have "map_of (ms_sessions ?s1) sid = None"
      using Suc.prems True by (simp add: mem_reap_sessions)
    with gone inv1 have "map_of (ms_sessions (mem_reaper (Suc n) start s)) sid = None" by simp
    with True later show ?thesis by simp
  next
    case False
    then have "map_of (ms_sessions ?s1) sid = Some sess"
      using Suc.prems by (simp add: mem_reap_sessions)
    from Suc.IH [OF inv1 this, of "start + tick_ns"] False show ?thesis
      by (cases n) (auto simp: ttl1 algebra_simps)
  qed
qed simp

text \<open>
  Operations of the store as the program makes them, the reaper's among them, and what one session
  is made of: its messages and the time of its last activity, by its own operations and the reaper.
\<close>

datatype mem_event = MemCreate string string int | MemAppend string message int | MemSnapshot string message int | MemReap int

fun mem_event_step :: "mem_event \<Rightarrow> memory_store \<Rightarrow> memory_store" where
  "mem_event_step (MemCreate sid prompt now) st = snd (mem_get_or_create sid prompt now st)"
| "mem_event_step (MemAppend sid m now) st = snd (mem_append sid m now st)"
| "mem_event_step (MemSnapshot sid m now) st = snd (mem_append_and_snapshot sid m now st)"
| "mem_event_step (MemReap now) st = mem_reap now st"

definition mem_events :: "mem_event list \<Rightarrow> memory_store \<Rightarrow> memory_store" where
  "mem_events es st = fold mem_event_step es st"

fun one_session :: "int \<Rightarrow> string \<Rightarrow> mem_event \<Rightarrow> (message list \<times> int) option \<Rightarrow> (message list \<times> int) option" where
  "one_session ttl k (MemCreate sid prompt now) x =
     (if sid = k \<and> x = None then Some ([text_message ''system'' prompt], now) else x)"
| "one_session ttl k (MemAppend sid m now) x = (if sid = k then map_option (\<lambda>(ms, t). (ms @ [m], now)) x else x)"
| "one_session ttl k (MemSnapshot sid m now) x = (if sid = k then map_option (\<lambda>(ms, t). (ms @ [m], now)) x else x)"
| "one_session ttl k (MemReap now) x = (case x of Some (ms, t) \<Rightarrow> if now - t > ttl then None else x | None \<Rightarrow> None)"

definition seen_session :: "memory_store \<Rightarrow> string \<Rightarrow> (message list \<times> int) option" where
  "seen_session st sid = map_option (\<lambda>s. (sess_messages s, sess_last_active s)) (map_of (ms_sessions st) sid)"

lemma mem_event_seen:
  assumes "mem_inv st"
  shows "mem_inv (mem_event_step e st)" "ms_ttl (mem_event_step e st) = ms_ttl st"
    "seen_session (mem_event_step e st) k = one_session (ms_ttl st) k e (seen_session st k)"
  using assms mem_reap_sessions [OF assms]
  by (cases e; auto simp: mem_inv_def mem_ops seen_session_def new_session_def Let_def distinct_map_filter split: option.splits)+

lemma mem_events_seen:
  "mem_inv st \<Longrightarrow> mem_inv (mem_events es st) \<and> seen_session (mem_events es st) k = fold (one_session (ms_ttl st) k) es (seen_session st k)"
  by (induction es arbitrary: st) (simp_all add: mem_events_def mem_event_seen)

text \<open>
  C8. The in-memory store loses and mixes up nothing: after any interleaving of creations, appends,
  appends with a snapshot and runs of the reaper, on any sessions, Get shows of every session exactly
  what its own operations and the reaper make of it: it starts at its creation with its own system
  prompt, gets its own messages in their order, and goes when it has been idle for longer than the
  TTL as the reaper runs. A snapshot returns the messages the session has then, the new one included.
\<close>

theorem memory_store_history:
  "(case mem_get sid (mem_events es (new_memory_store ttl)) of
      Inl e \<Rightarrow> False
    | Inr found \<Rightarrow> map_option (\<lambda>s. (sess_messages s, sess_last_active s)) found = fold (one_session ttl sid) es None)
   \<and> fst (mem_append_and_snapshot sid m now (mem_events es (new_memory_store ttl)))
      = Inr (map_option (\<lambda>(ms, t). ms @ [m]) (fold (one_session ttl sid) es None))"
proof -
  let ?st = "mem_events es (new_memory_store ttl)"
  have "fold (one_session ttl sid) es None = seen_session ?st sid"
    using mem_events_seen [OF mem_inv_new, of es ttl sid] by (simp add: seen_session_def new_memory_store_def)
  then show ?thesis
    by (cases "map_of (ms_sessions ?st) sid") (simp_all add: seen_session_def mem_get_def mem_append_and_snapshot_def Let_def)
qed

text \<open>
  Idle sessions are removed on time and no other is: a session that is not
  used while the reaper makes its \<open>n\<close> ticks of 60 s is gone afterwards exactly when at the last tick
  it has been idle for longer than the TTL.
\<close>

lemma memory_store_expiry:
  assumes "mem_inv s" "mem_get sid s = Inr (Some sess)" "0 < n"
  shows "mem_get sid (mem_reaper n start s) =
    Inr (if start + int n * tick_ns - sess_last_active sess > ms_ttl s then None else Some sess)"
  using assms mem_reaper_active [of s sid sess n start] by (simp add: mem_get_def)

lemma memory_store_expiry_witness:
  "mem_get ''a'' (mem_reaper 2 5 (mem_run [OpCreate ''a'' ''p'' 3] (new_memory_store (100 * 10 ^ 9)))) = Inr None"
proof -
  let ?s = "mem_run [OpCreate ''a'' ''p'' 3] (new_memory_store (100 * 10 ^ 9))"
  have "mem_inv ?s" by (simp add: mem_run_def mem_inv_ops mem_inv_new)
  moreover have "mem_get ''a'' ?s = Inr (Some (new_session ''a'' ''p'' 3))"
    by (simp add: mem_run_def mem_get_def mem_get_or_create_def new_memory_store_def Let_def)
  ultimately have "mem_get ''a'' (mem_reaper 2 5 ?s) =
    Inr (if 5 + int 2 * tick_ns - sess_last_active (new_session ''a'' ''p'' 3) > ms_ttl ?s
         then None else Some (new_session ''a'' ''p'' 3))"
    by (rule memory_store_expiry) simp
  then show ?thesis
    by (simp add: mem_run_def mem_get_or_create_def new_memory_store_def new_session_def tick_ns_def Let_def)
qed

end
