(* ===== verification/Go_Time.thy ===== *)
theory Go_Time
  imports Go_Prelude
begin

section \<open>Formatted times\<close>

text \<open>
  Go's \<open>time.Time\<close> as nanoseconds since 1970-01-01T00:00:00Z, and the layouts RFC3339 and
  RFC3339Nano of package time. The zone is an offset in seconds, as the local zone gives it for
  the instant. RFC3339Nano drops trailing zeros of the fraction, and the whole fraction when it
  is zero, so texts of different instants have different lengths.
\<close>

definition civil_from_days :: "int \<Rightarrow> int \<times> int \<times> int" where
  "civil_from_days z0 =
     (let z = z0 + 719468;
          era = z div 146097;
          doe = z mod 146097;
          c = min 3 (doe div 36524);
          r = doe - 36524 * c;
          q = r div 1461;
          s = r - 1461 * q;
          a = min 3 (s div 365);
          doy = s - 365 * a;
          mp = (5 * doy + 2) div 153;
          d = doy - (153 * mp + 2) div 5 + 1;
          m = (if mp < 10 then mp + 3 else mp - 9)
      in (100 * c + 4 * q + a + era * 400 + (if m \<le> 2 then 1 else 0), m, d))"

definition days_from_civil :: "int \<Rightarrow> int \<Rightarrow> int \<Rightarrow> int" where
  "days_from_civil y m d =
     (let y1 = y - (if m \<le> 2 then 1 else 0);
          era = y1 div 400;
          yoe = y1 mod 400;
          mp = (if m > 2 then m - 3 else m + 9);
          doy = (153 * mp + 2) div 5 + d - 1
      in era * 146097 + (yoe * 365 + yoe div 4 - yoe div 100 + doy) - 719468)"

definition pad :: "nat \<Rightarrow> int \<Rightarrow> string" where
  "pad w n = (let s = itoa n in replicate (w - length s) (CHR ''0'') @ s)"

definition second_ns :: int where
  "second_ns = 1000000000"

definition clock_text :: "int \<Rightarrow> string" where
  "clock_text secs =
     (let (y, m, d) = civil_from_days (secs div 86400); s = secs mod 86400 in
      pad 4 y @ ''-'' @ pad 2 m @ ''-'' @ pad 2 d @ ''T'' @
      pad 2 (s div 3600) @ '':'' @ pad 2 (s mod 3600 div 60) @ '':'' @ pad 2 (s mod 60))"

definition zone_text :: "int \<Rightarrow> string" where
  "zone_text off =
     (if off = 0 then ''Z''
      else (if off < 0 then ''-'' else ''+'') @ pad 2 (abs off div 3600) @ '':'' @
           pad 2 (abs off mod 3600 div 60))"

definition fraction_text :: "int \<Rightarrow> string" where
  "fraction_text ns =
     (if ns = 0 then [] else CHR ''.'' # trim_right_set {CHR ''0''} (pad 9 ns))"

definition rfc3339 :: "int \<Rightarrow> int \<Rightarrow> string" where
  "rfc3339 off t = clock_text (t div second_ns + off) @ zone_text off"

definition rfc3339_nano :: "int \<Rightarrow> int \<Rightarrow> string" where
  "rfc3339_nano off t =
     clock_text (t div second_ns + off) @ fraction_text (t mod second_ns) @ zone_text off"

subsection \<open>Reading a time back\<close>

text \<open>
  \<open>time.Parse\<close> with these layouts, for texts of the strict form the standard asks for (the
  form \<open>Format\<close> writes); \<open>None\<close> is the error, with which Go returns the zero time.
\<close>

definition digit_val :: "char \<Rightarrow> int" where
  "digit_val c = of_char c - 48"

definition dec_val :: "string \<Rightarrow> int" where
  "dec_val s = foldl (\<lambda>v c. 10 * v + digit_val c) 0 s"

text \<open>A field of \<open>w\<close> digits with a value in a range, and what follows it.\<close>

definition read_field :: "nat \<Rightarrow> int \<Rightarrow> int \<Rightarrow> string \<Rightarrow> (int \<times> string) option" where
  "read_field w lo hi s =
     (let ds = take w s; v = dec_val ds in
      if length ds = w \<and> list_all is_digit ds \<and> lo \<le> v \<and> v \<le> hi then Some (v, drop w s) else None)"

definition read_lit :: "char \<Rightarrow> string \<Rightarrow> string option" where
  "read_lit c s = (case s of x # r \<Rightarrow> if x = c then Some r else None | [] \<Rightarrow> None)"

definition days_in :: "int \<Rightarrow> int \<Rightarrow> int" where
  "days_in m y =
     (if m = 2 then (if y mod 4 = 0 \<and> (y mod 100 \<noteq> 0 \<or> y mod 400 = 0) then 29 else 28)
      else if m \<in> {4, 6, 9, 11} then 30 else 31)"

definition read_fraction :: "string \<Rightarrow> int \<times> string" where
  "read_fraction s =
     (case s of x # r \<Rightarrow>
        if x = CHR ''.'' \<and> takeWhile is_digit r \<noteq> []
        then (let ds = take 9 (takeWhile is_digit r) in
              (dec_val (ds @ replicate (9 - length ds) (CHR ''0'')), dropWhile is_digit r))
        else (0, s)
      | [] \<Rightarrow> (0, s))"

definition read_zone :: "string \<Rightarrow> int option" where
  "read_zone s =
     (if s = ''Z'' then Some 0
      else case s of [] \<Rightarrow> None
        | sign # s0 \<Rightarrow>
          Option.bind (read_field 2 0 23 s0) (\<lambda>(hh, s1).
          Option.bind (read_lit (CHR '':'') s1) (\<lambda>s2.
          Option.bind (read_field 2 0 59 s2) (\<lambda>(mm, s3).
            let off = (hh * 60 + mm) * 60 in
            if s3 \<noteq> [] then None
            else if sign = CHR ''+'' then Some off
            else if sign = CHR ''-'' then Some (- off) else None))))"

definition parse_rfc3339 :: "string \<Rightarrow> int option" where
  "parse_rfc3339 t0 =
     Option.bind (read_field 4 0 9999 t0) (\<lambda>(y, t1). Option.bind (read_lit (CHR ''-'') t1) (\<lambda>t2.
     Option.bind (read_field 2 1 12 t2) (\<lambda>(m, t3). Option.bind (read_lit (CHR ''-'') t3) (\<lambda>t4.
     Option.bind (read_field 2 1 (days_in m y) t4) (\<lambda>(d, t5). Option.bind (read_lit (CHR ''T'') t5) (\<lambda>t6.
     Option.bind (read_field 2 0 23 t6) (\<lambda>(hh, t7). Option.bind (read_lit (CHR '':'') t7) (\<lambda>t8.
     Option.bind (read_field 2 0 59 t8) (\<lambda>(mm, t9). Option.bind (read_lit (CHR '':'') t9) (\<lambda>t10.
     Option.bind (read_field 2 0 59 t10) (\<lambda>(ss, t11).
       let (ns, t12) = read_fraction t11 in
       Option.bind (read_zone t12) (\<lambda>off.
         Some ((days_from_civil y m d * 86400 + hh * 3600 + mm * 60 + ss - off) * second_ns + ns)))))))))))))"

definition zero_time :: int where
  "zero_time = - 62135596800 * second_ns"

definition time_parse :: "string \<Rightarrow> int" where
  "time_parse s = (case parse_rfc3339 s of Some t \<Rightarrow> t | None \<Rightarrow> zero_time)"

lemma days_from_civil_from_days:
  "civil_from_days z = (y, m, d) \<Longrightarrow> days_from_civil y m d = z"
proof -
  define era doe c r q s a doy mp where defs:
    "era = (z + 719468) div 146097" "doe = (z + 719468) mod 146097" "c = min 3 (doe div 36524)"
    "r = doe - 36524 * c" "q = r div 1461" "s = r - 1461 * q" "a = min 3 (s div 365)"
    "doy = s - 365 * a" "mp = (5 * doy + 2) div 153"
  assume civ: "civil_from_days z = (y, m, d)"
  have doe: "0 \<le> doe" "doe < 146097" "z + 719468 = 146097 * era + doe" by (simp_all add: defs(1,2))
  have c: "0 \<le> c" "c \<le> 3" "0 \<le> r" "r \<le> 36524"
    using doe unfolding defs(3,4) by (auto simp: min_def)
  have q: "0 \<le> q" "q \<le> 24" "0 \<le> s" "s \<le> 1460" using c unfolding defs(5,6) by auto
  have a: "0 \<le> a" "a \<le> 3" "0 \<le> doy" "doy \<le> 365" using q unfolding defs(7,8) by (auto simp: min_def)
  have mp: "0 \<le> mp" "mp \<le> 11" using a unfolding defs(9) by auto
  note E = civ [unfolded civil_from_days_def Let_def, folded defs(1,2), folded defs(3), folded defs(4),
    folded defs(5), folded defs(6), folded defs(7), folded defs(8), folded defs(9), unfolded prod.inject]
  have m: "m = (if mp < 10 then mp + 3 else mp - 9)" and d: "d = doy - (153 * mp + 2) div 5 + 1"
    using E by (simp_all only:)
  have y: "y = 100 * c + 4 * q + a + era * 400 + (if m \<le> 2 then 1 else 0)"
    using E by (simp only: m)
  define yoe where "yoe = 100 * c + 4 * q + a"
  have yoe: "0 \<le> yoe" "yoe < 400" using c q a by (auto simp: yoe_def)
  have y1: "y - (if m \<le> 2 then 1 else 0) = yoe + era * 400" using y by (simp add: yoe_def)
  have mp': "(if m > 2 then m - 3 else m + 9) = mp" using m mp by auto
  have "yoe div 4 = 25 * c + q" "yoe div 100 = c" using c q a by (auto simp: yoe_def)
  then have "yoe * 365 + yoe div 4 - yoe div 100 + doy = doe"
    by (simp add: yoe_def defs(4,6,8))
  then show ?thesis
    using yoe doe(3) d by (simp add: days_from_civil_def Let_def y1 mp')
qed

subsection \<open>Printing and reading agree\<close>

lemma dec_val_append: "dec_val (s @ [c]) = 10 * dec_val s + digit_val c"
  by (simp add: dec_val_def)

lemma digit_val_char: "0 \<le> d \<Longrightarrow> d < 10 \<Longrightarrow> digit_val (digit_char d) = d"
  by (simp add: digit_val_def digit_char_def of_char_of)

lemma dec_val_digits: "0 \<le> n \<Longrightarrow> dec_val (digits n) = n"
proof (induction n rule: digits.induct)
  case (1 n)
  show ?case
  proof (cases "n < 10")
    case True
    then show ?thesis using 1 by (simp add: digits.simps [of n] dec_val_def digit_val_char)
  next
    case False
    then show ?thesis using 1 by (simp add: digits.simps [of n] dec_val_append digit_val_char)
  qed
qed

lemma length_digits: "0 \<le> n \<Longrightarrow> n < 10 ^ w \<Longrightarrow> 0 < w \<Longrightarrow> length (digits n) \<le> w"
proof (induction w arbitrary: n)
  case (Suc w)
  show ?case
  proof (cases "n < 10")
    case False
    have "w \<noteq> 0" using Suc.prems False by (cases w) auto
    moreover have "n div 10 < 10 ^ w" using Suc.prems by (simp add: div_less_iff_less_mult)
    ultimately have "length (digits (n div 10)) \<le> w" using Suc.IH [of "n div 10"] Suc.prems by simp
    with False show ?thesis by (simp add: digits.simps [of n])
  qed (simp add: digits.simps [of n])
qed simp

lemma dec_val_zeros: "dec_val (replicate k (CHR ''0'') @ s) = dec_val s"
  by (induction k) (simp_all add: dec_val_def digit_val_def)

lemma list_all_is_digit_zeros: "list_all is_digit (replicate k (CHR ''0''))"
  by (simp add: list_all_length is_digit_def)

lemma pad_props:
  assumes "0 \<le> n" "n < 10 ^ w" "0 < w"
  shows "dec_val (pad w n) = n" "length (pad w n) = w" "list_all is_digit (pad w n)"
  using assms length_digits [OF assms] digits_digits [OF assms(1)]
  by (simp_all add: pad_def Let_def itoa_def dec_val_zeros dec_val_digits list_all_is_digit_zeros,
      simp add: list_all_iff)

lemma field_pad:
  "0 \<le> n \<Longrightarrow> n < 10 ^ w \<Longrightarrow> 0 < w \<Longrightarrow> lo \<le> n \<Longrightarrow> n \<le> hi \<Longrightarrow> read_field w lo hi (pad w n @ r) = Some (n, r)"
  by (simp add: read_field_def Let_def pad_props)

lemma field_pad2: "0 \<le> n \<Longrightarrow> n < 100 \<Longrightarrow> lo \<le> n \<Longrightarrow> n \<le> hi \<Longrightarrow> read_field 2 lo hi (pad 2 n @ r) = Some (n, r)"
  by (rule field_pad) simp_all

lemma lit_Cons [simp]: "read_lit c (c # r) = Some r"
  by (simp add: read_lit_def)

lemma trim_zeros_fill:
  "length s = w \<Longrightarrow>
   trim_right_set {c} s @ replicate (w - length (trim_right_set {c} s)) c = s"
proof -
  assume l: "length s = w"
  let ?t = "takeWhile (\<lambda>x. x \<in> {c}) (rev s)"
  have "s = rev (dropWhile (\<lambda>x. x \<in> {c}) (rev s)) @ rev ?t"
    by (metis rev_append rev_rev_ident takeWhile_dropWhile_id)
  moreover have "rev ?t = replicate (length ?t) c"
    by (metis (no_types, lifting) length_rev replicate_eqI set_rev set_takeWhileD singletonD)
  moreover have "length ?t = w - length (rev (dropWhile (\<lambda>x. x \<in> {c}) (rev s)))"
    using l by (metis (no_types) add_diff_cancel_left' calculation(1) length_append length_rev)
  ultimately show ?thesis by (simp add: trim_right_set_def)
qed

lemma fraction_fraction_text:
  assumes "0 \<le> ns" "ns < second_ns" "z \<noteq> []" "\<not> is_digit (hd z)" "hd z \<noteq> CHR ''.''"
  shows "read_fraction (fraction_text ns @ z) = (ns, z)"
proof (cases "ns = 0")
  case True
  with assms show ?thesis by (cases z) (simp_all add: fraction_text_def read_fraction_def)
next
  case False
  define t where "t = trim_right_set {CHR ''0''} (pad 9 ns)"
  have p: "dec_val (pad 9 ns) = ns" "length (pad 9 ns) = 9" "list_all is_digit (pad 9 ns)"
    using assms(1,2) by (simp_all add: pad_props second_ns_def)
  have fill: "t @ replicate (9 - length t) (CHR ''0'') = pad 9 ns"
    unfolding t_def using p(2) by (rule trim_zeros_fill)
  have "list_all is_digit (t @ replicate (9 - length t) (CHR ''0''))" using p(3) by (simp add: fill)
  then have dig: "\<forall>c \<in> set t. is_digit c" by (simp add: list_all_iff)
  have "t \<noteq> []"
  proof
    assume "t = []"
    then have "pad 9 ns = replicate 9 (CHR ''0'')" using fill by simp
    then have "ns = 0" using p(1) dec_val_zeros [of 9 "[]"] by (simp add: dec_val_def)
    with False show False by simp
  qed
  have len: "length t \<le> 9" using fill p(2) by (metis length_append le_add1)
  have tw: "takeWhile is_digit (t @ z) = t" "dropWhile is_digit (t @ z) = z"
    using dig assms(3,4) by (cases z; simp add: takeWhile_append dropWhile_append; fail)+
  show ?thesis
    using False \<open>t \<noteq> []\<close> len p(1) fill
    by (simp add: fraction_text_def t_def [symmetric] read_fraction_def tw Let_def)
qed

lemma zone_text_facts:
  "zone_text off \<noteq> []" "\<not> is_digit (hd (zone_text off))" "hd (zone_text off) \<noteq> CHR ''.''"
  by (simp_all add: zone_text_def is_digit_def)

lemma zone_zone_text:
  assumes "off mod 60 = 0" "\<bar>off\<bar> < 86400"
  shows "read_zone (zone_text off) = Some off"
proof (cases "off = 0")
  case False
  have eq: "(\<bar>off\<bar> div 3600 * 60 + \<bar>off\<bar> mod 3600 div 60) * 60 = \<bar>off\<bar>"
  proof -
    have "\<bar>off\<bar> mod 60 = 0" using assms(1) by (auto simp: abs_if mod_eq_0_iff_dvd)
    moreover have "\<bar>off\<bar> div 3600 = \<bar>off\<bar> div 60 div 60" using zdiv_zmult2_eq [of 60 "\<bar>off\<bar>" 60] by simp
    moreover have "\<bar>off\<bar> mod 3600 = 60 * (\<bar>off\<bar> div 60 mod 60) + \<bar>off\<bar> mod 60"
      using zmod_zmult2_eq [of 60 "\<bar>off\<bar>" 60] by simp
    moreover have "\<bar>off\<bar> div 60 * 60 = \<bar>off\<bar>" using \<open>\<bar>off\<bar> mod 60 = 0\<close> by auto
    ultimately show ?thesis by simp
  qed
  define hh mm where "hh = \<bar>off\<bar> div 3600" and "mm = \<bar>off\<bar> mod 3600 div 60"
  have b: "0 \<le> hh" "hh \<le> 23" "0 \<le> mm" "mm \<le> 59"
    using assms(2) by (auto simp: hh_def mm_def)
  have f1: "read_field 2 0 23 (pad 2 hh @ r) = Some (hh, r)" for r
    using b by (intro field_pad2) auto
  have f2: "read_field 2 0 59 (pad 2 mm) = Some (mm, [])"
    using field_pad2 [of mm 0 59 "[]"] b by simp
  have off: "(hh * 60 + mm) * 60 = \<bar>off\<bar>" using eq by (simp only: hh_def mm_def)
  have "zone_text off = (if off < 0 then ''-'' else ''+'') @ pad 2 hh @ '':'' @ pad 2 mm"
    using False by (simp only: zone_text_def hh_def mm_def if_False)
  then have "read_zone (zone_text off) = Some (if off < 0 then - \<bar>off\<bar> else \<bar>off\<bar>)"
    unfolding off [symmetric] by (simp add: read_zone_def f1 f2)
  then show ?thesis by (simp split: if_splits)
qed (simp add: zone_text_def read_zone_def)

text \<open>The date of a day is a date of the calendar.\<close>

lemma civil_bounds:
  assumes "civil_from_days z = (y, m, d)"
  shows "1 \<le> m \<and> m \<le> 12 \<and> 1 \<le> d \<and> d \<le> days_in m y"
proof -
  define era doe c r q s a doy mp where defs:
    "era = (z + 719468) div 146097" "doe = (z + 719468) mod 146097" "c = min 3 (doe div 36524)"
    "r = doe - 36524 * c" "q = r div 1461" "s = r - 1461 * q" "a = min 3 (s div 365)"
    "doy = s - 365 * a" "mp = (5 * doy + 2) div 153"
  have doe: "0 \<le> doe" "doe < 146097" by (simp_all add: defs(1,2))
  have c: "0 \<le> c" "c \<le> 3" "0 \<le> r" "r \<le> 36524" "c < 3 \<Longrightarrow> r \<le> 36523"
    using doe unfolding defs(3,4) by (auto simp: min_def split: if_splits)
  have q: "0 \<le> q" "q \<le> 24" "0 \<le> s" "s \<le> 1460" "c < 3 \<Longrightarrow> q = 24 \<Longrightarrow> s \<le> 1459"
    using c unfolding defs(5,6) by auto
  have a: "0 \<le> a" "a \<le> 3" "0 \<le> doy" "doy \<le> 365" "doy = 365 \<Longrightarrow> a = 3 \<and> s = 1460"
    using q unfolding defs(7,8) by (auto simp: min_def split: if_splits)
  have mp: "0 \<le> mp" "mp \<le> 11" using a unfolding defs(9) by auto
  note E = assms [unfolded civil_from_days_def Let_def, folded defs(1,2), folded defs(3), folded defs(4),
    folded defs(5), folded defs(6), folded defs(7), folded defs(8), folded defs(9), unfolded prod.inject]
  have m: "m = (if mp < 10 then mp + 3 else mp - 9)" and d: "d = doy - (153 * mp + 2) div 5 + 1"
    using E by (simp_all only:)
  have y: "y = 100 * c + 4 * q + a + era * 400 + (if m \<le> 2 then 1 else 0)"
    using E by (simp only: m)
  have leap: "m = 2 \<Longrightarrow> doy = 365 \<Longrightarrow> y mod 4 = 0 \<and> (y mod 100 \<noteq> 0 \<or> y mod 400 = 0)"
  proof -
    assume m2: "m = 2" and d365: "doy = 365"
    from a(5) [OF d365] have a3: "a = 3" "s = 1460" by simp_all
    have yy: "y = 100 * c + 4 * q + 4 + era * 400" using y m2 a3 by simp
    have "y = 4 * (25 * c + q + 1 + 100 * era)" using yy by simp
    then have four: "y mod 4 = 0" by simp
    show ?thesis
    proof (cases "q = 24")
      case True
      then have "c = 3" using q(5) c(2) a3 by (cases "c < 3") auto
      then have "y = 400 * (era + 1)" using yy True by simp
      with four show ?thesis by simp
    next
      case False
      have "y = 4 * (q + 1) + 100 * (c + 4 * era)" using yy by simp
      then have "y mod 100 = 4 * (q + 1) mod 100" by (simp only: mod_mult_self2)
      then have "y mod 100 = 4 * (q + 1)" using False q by simp
      with four q show ?thesis by simp
    qed
  qed
  have doy: "doy = 365 \<or> doy \<le> 364" using a(4) by auto
  have "mp \<in> {0, 1, 2, 3, 4, 5, 6, 7, 8, 9, 10, 11}"
    using mp by (simp only: insert_iff empty_iff) presburger
  then have "1 \<le> d \<and> d \<le> days_in m y"
    unfolding insert_iff empty_iff
    by (elim disjE) (use defs(9) a(3,4) m d leap doy in \<open>simp_all add: days_in_def\<close>, auto)
  then show ?thesis using m mp by auto
qed

lemma parse_rfc3339_nano:
  assumes "off mod 60 = 0" "\<bar>off\<bar> < 86400"
    "0 \<le> fst (civil_from_days ((t div second_ns + off) div 86400))"
    "fst (civil_from_days ((t div second_ns + off) div 86400)) \<le> 9999"
  shows "parse_rfc3339 (rfc3339_nano off t) = Some t"
proof -
  define secs where "secs = t div second_ns + off"
  obtain y m d where civ: "civil_from_days (secs div 86400) = (y, m, d)" by (metis prod_cases3)
  define hh mm ss where "hh = secs mod 86400 div 3600" and "mm = secs mod 86400 mod 3600 div 60"
    and "ss = secs mod 86400 mod 60"
  have y: "0 \<le> y" "y \<le> 9999" using assms(3,4) civ by (simp_all add: secs_def)
  have md: "1 \<le> m" "m \<le> 12" "1 \<le> d" "d \<le> days_in m y" using civil_bounds [OF civ] by simp_all
  have d31: "days_in m y \<le> 31" by (simp add: days_in_def)
  have clock: "0 \<le> hh" "hh \<le> 23" "0 \<le> mm" "mm \<le> 59" "0 \<le> ss" "ss \<le> 59"
    by (simp_all add: hh_def mm_def ss_def)
  have ns: "0 \<le> t mod second_ns" "t mod second_ns < second_ns" by (simp_all add: second_ns_def)
  have sum: "secs div 86400 * 86400 + hh * 3600 + mm * 60 + ss = secs"
  proof -
    define x where "x = secs mod 86400"
    have "x mod 60 = x mod 3600 mod 60" by (simp add: mod_mod_cancel)
    then have "x div 3600 * 3600 + x mod 3600 div 60 * 60 + x mod 60 = x"
      using div_mult_mod_eq [of x 3600] div_mult_mod_eq [of "x mod 3600" 60] by linarith
    moreover have "secs = secs div 86400 * 86400 + x" by (simp add: x_def)
    ultimately show ?thesis unfolding hh_def mm_def ss_def x_def [symmetric] by linarith
  qed
  have fy: "read_field 4 0 9999 (pad 4 y @ r) = Some (y, r)" for r using y by (intro field_pad) simp_all
  have fm: "read_field 2 1 12 (pad 2 m @ r) = Some (m, r)" for r using md by (intro field_pad2) simp_all
  have fd: "read_field 2 1 (days_in m y) (pad 2 d @ r) = Some (d, r)" for r using md d31 by (intro field_pad2) simp_all
  have fh: "read_field 2 0 23 (pad 2 hh @ r) = Some (hh, r)" for r using clock by (intro field_pad2) simp_all
  have fi: "read_field 2 0 59 (pad 2 mm @ r) = Some (mm, r)" for r using clock by (intro field_pad2) simp_all
  have fs: "read_field 2 0 59 (pad 2 ss @ r) = Some (ss, r)" for r using clock by (intro field_pad2) simp_all
  have fr: "read_fraction (fraction_text (t mod second_ns) @ zone_text off) = (t mod second_ns, zone_text off)"
    using ns zone_text_facts by (rule fraction_fraction_text)
  have shape: "rfc3339_nano off t = pad 4 y @ ''-'' @ pad 2 m @ ''-'' @ pad 2 d @ ''T'' @ pad 2 hh @ '':'' @
      pad 2 mm @ '':'' @ pad 2 ss @ fraction_text (t mod second_ns) @ zone_text off"
    by (simp add: rfc3339_nano_def clock_text_def Let_def civ secs_def [symmetric] hh_def mm_def ss_def)
  show ?thesis
    unfolding shape parse_rfc3339_def
    using sum days_from_civil_from_days [OF civ]
    by (simp add: fy fm fd fh fi fs fr zone_zone_text [OF assms(1,2)] secs_def)
qed

end
