(* ===== verification/Session_Sqlite.thy ===== *)
theory Session_Sqlite
  imports Session_Store Go_Time
begin

section \<open>internal/session/sqlite_store.go: the persistent session store\<close>

text \<open>
  The database is the two tables of the schema: the rows of \<open>sessions\<close> by primary key and the
  rows of \<open>messages\<close> in insertion order. The JSON columns hold the value their text decodes to
  (\<open>recode\<close>), times hold the RFC3339Nano text the code writes in the zone of the host.

  Every statement can fail: the fault oracle gives the error text of a statement that does.
  A transaction works on a copy of the tables; the copy replaces the tables when the commit
  succeeds and is dropped on every other path, as the deferred Rollback does.
\<close>

datatype sql_stmt =
    SelectSession | SelectMessages | ScanMessage nat | IterateMessages
  | BeginTx | InsertSession | InsertSystemMessage | CommitTx
  | CheckSession | NextSeq | InsertMessage | UpdateActive | CountSessions | DeleteIdle

type_synonym sql_faults = "sql_stmt \<Rightarrow> string option"

datatype sql_error =
    SqlFailed sql_stmt string
  | UniqueViolation
  | ForeignKeyViolation

record session_row =
  sr_system_prompt :: string
  sr_created_at :: string
  sr_last_active :: string

record message_row =
  mr_session_id :: string
  mr_seq :: int
  mr_role :: string
  mr_content :: string
  mr_tool_calls :: "tool_call list option"
  mr_tool_results :: "tool_result_content list option"

record sql_store =
  db_sessions :: "(string \<times> session_row) list"
  db_messages :: "message_row list"
  db_ttl :: int
  db_zone :: "int \<Rightarrow> int"

definition new_sqlite_store :: "int \<Rightarrow> (int \<Rightarrow> int) \<Rightarrow> sql_store" where
  "new_sqlite_store ttl zone =
     \<lparr>db_sessions = [], db_messages = [], db_ttl = ttl, db_zone = zone\<rparr>"

text \<open>\<open>t.Format(time.RFC3339Nano)\<close> of an instant in the zone of the host.\<close>

definition stamp :: "sql_store \<Rightarrow> int \<Rightarrow> string" where
  "stamp st t = rfc3339_nano (db_zone st t) t"

text \<open>Running a statement under the oracle.\<close>

definition stmt :: "sql_faults \<Rightarrow> sql_stmt \<Rightarrow> sql_error + unit" where
  "stmt f q = (case f q of None \<Rightarrow> Inr () | Some e \<Rightarrow> Inl (SqlFailed q e))"

subsection \<open>Reading\<close>

definition recode_call :: "tool_call \<Rightarrow> tool_call" where
  "recode_call c = \<lparr>tc_id = coerce_utf8 (tc_id c), tc_name = coerce_utf8 (tc_name c),
     tc_args = recode_args (tc_args c)\<rparr>"

definition recode_result :: "tool_result_content \<Rightarrow> tool_result_content" where
  "recode_result r = \<lparr>tr_tool_use_id = coerce_utf8 (tr_tool_use_id r),
     tr_output = coerce_utf8 (tr_output r), tr_is_error = tr_is_error r\<rparr>"

definition row_message :: "message_row \<Rightarrow> message" where
  "row_message r =
     \<lparr>msg_role = mr_role r, msg_content = mr_content r,
      msg_tool_calls = (case mr_tool_calls r of None \<Rightarrow> [] | Some cs \<Rightarrow> cs),
      msg_tool_results = (case mr_tool_results r of None \<Rightarrow> [] | Some rs \<Rightarrow> rs)\<rparr>"

text \<open>The rows of a session in the order of \<open>ORDER BY seq\<close>.\<close>

definition session_rows :: "string \<Rightarrow> message_row list \<Rightarrow> message_row list" where
  "session_rows sid rows = sort_key mr_seq (filter (\<lambda>r. mr_session_id r = sid) rows)"

text \<open>The loop over \<open>rows.Next\<close>; a failing scan ends it with an error.\<close>

fun scan_rows :: "sql_faults \<Rightarrow> nat \<Rightarrow> message_row list \<Rightarrow> sql_error + message list" where
  "scan_rows f i [] = bind_res (stmt f IterateMessages) (\<lambda>_. Inr [])"
| "scan_rows f i (r # rs) =
     bind_res (stmt f (ScanMessage i)) (\<lambda>_.
     bind_res (scan_rows f (Suc i) rs) (\<lambda>ms. Inr (row_message r # ms)))"

definition load_session ::
  "sql_faults \<Rightarrow> string \<Rightarrow> sql_store \<Rightarrow> sql_error + session option" where
  "load_session f sid st =
     bind_res (stmt f SelectSession) (\<lambda>_.
       (case map_of (db_sessions st) sid of
          None \<Rightarrow> Inr None
        | Some row \<Rightarrow>
            bind_res (stmt f SelectMessages) (\<lambda>_.
            bind_res (scan_rows f 0 (session_rows sid (db_messages st))) (\<lambda>ms.
              Inr (Some \<lparr>sess_id = sid, sess_messages = ms,
                sess_created_at = time_parse (sr_created_at row),
                sess_last_active = time_parse (sr_last_active row)\<rparr>)))))"

subsection \<open>Writing\<close>

definition insert_session :: "string \<Rightarrow> session_row \<Rightarrow> sql_store \<Rightarrow> sql_error + sql_store" where
  "insert_session sid row st =
     (if sid \<in> fst ` set (db_sessions st) then Inl UniqueViolation
      else Inr (st\<lparr>db_sessions := db_sessions st @ [(sid, row)]\<rparr>))"

definition insert_message :: "message_row \<Rightarrow> sql_store \<Rightarrow> sql_error + sql_store" where
  "insert_message r st =
     (if list_ex (\<lambda>q. mr_session_id q = mr_session_id r \<and> mr_seq q = mr_seq r) (db_messages st)
      then Inl UniqueViolation
      else if mr_session_id r \<notin> fst ` set (db_sessions st) then Inl ForeignKeyViolation
      else Inr (st\<lparr>db_messages := db_messages st @ [r]\<rparr>))"

text \<open>The row of \<open>INSERT INTO messages (session_id, seq, role, content)\<close>.\<close>

definition system_row :: "string \<Rightarrow> string \<Rightarrow> message_row" where
  "system_row sid prompt =
     \<lparr>mr_session_id = sid, mr_seq = 0, mr_role = ''system'', mr_content = prompt,
      mr_tool_calls = None, mr_tool_results = None\<rparr>"

definition create_tx ::
  "sql_faults \<Rightarrow> string \<Rightarrow> string \<Rightarrow> int \<Rightarrow> sql_store \<Rightarrow> sql_error + sql_store" where
  "create_tx f sid prompt now st =
     bind_res (stmt f BeginTx) (\<lambda>_.
     bind_res (stmt f InsertSession) (\<lambda>_.
     bind_res (insert_session sid \<lparr>sr_system_prompt = prompt, sr_created_at = stamp st now,
                 sr_last_active = stamp st now\<rparr> st) (\<lambda>st1.
     bind_res (stmt f InsertSystemMessage) (\<lambda>_.
     bind_res (insert_message (system_row sid prompt) st1) (\<lambda>st2.
     bind_res (stmt f CommitTx) (\<lambda>_. Inr st2))))))"

definition sql_get_or_create ::
  "sql_faults \<Rightarrow> string \<Rightarrow> string \<Rightarrow> int \<Rightarrow> sql_store \<Rightarrow>
   (sql_error + session) \<times> sql_store" where
  "sql_get_or_create f sid prompt now st =
     (case load_session f sid st of
        Inl e \<Rightarrow> (Inl e, st)
      | Inr (Some sess) \<Rightarrow> (Inr sess, st)
      | Inr None \<Rightarrow>
          (case create_tx f sid prompt now st of
             Inl e \<Rightarrow> (Inl e, st)
           | Inr st' \<Rightarrow> (Inr (new_session sid prompt now), st')))"

definition sql_get ::
  "sql_faults \<Rightarrow> string \<Rightarrow> sql_store \<Rightarrow> sql_error + session option" where
  "sql_get f sid st = load_session f sid st"

definition next_seq :: "string \<Rightarrow> message_row list \<Rightarrow> int" where
  "next_seq sid rows =
     fold max (map mr_seq (filter (\<lambda>r. mr_session_id r = sid) rows)) (- 1) + 1"

definition message_row_of :: "string \<Rightarrow> int \<Rightarrow> message \<Rightarrow> message_row" where
  "message_row_of sid seq m =
     \<lparr>mr_session_id = sid, mr_seq = seq, mr_role = msg_role m, mr_content = msg_content m,
      mr_tool_calls = (if length (msg_tool_calls m) > 0
                       then Some (map recode_call (msg_tool_calls m)) else None),
      mr_tool_results = (if length (msg_tool_results m) > 0
                         then Some (map recode_result (msg_tool_results m)) else None)\<rparr>"

definition update_active :: "string \<Rightarrow> string \<Rightarrow> sql_store \<Rightarrow> sql_store" where
  "update_active text sid st =
     st\<lparr>db_sessions := map (\<lambda>(k, row). (k, if k = sid then row\<lparr>sr_last_active := text\<rparr> else row))
          (db_sessions st)\<rparr>"

text \<open>The transaction of \<open>appendMessage\<close>; \<open>None\<close> is its early return for an unknown session.\<close>

definition append_tx ::
  "sql_faults \<Rightarrow> string \<Rightarrow> message \<Rightarrow> int \<Rightarrow> sql_store \<Rightarrow> sql_error + sql_store option" where
  "append_tx f sid m now st =
     bind_res (stmt f BeginTx) (\<lambda>_.
     bind_res (stmt f CheckSession) (\<lambda>_.
     if sid \<notin> fst ` set (db_sessions st) then Inr None
     else
       bind_res (stmt f NextSeq) (\<lambda>_.
       bind_res (stmt f InsertMessage) (\<lambda>_.
       bind_res (insert_message (message_row_of sid (next_seq sid (db_messages st)) m) st) (\<lambda>st1.
       bind_res (stmt f UpdateActive) (\<lambda>_.
       bind_res (stmt f CommitTx) (\<lambda>_. Inr (Some (update_active (stamp st now) sid st1)))))))))"

definition append_message ::
  "sql_faults \<Rightarrow> string \<Rightarrow> message \<Rightarrow> int \<Rightarrow> sql_store \<Rightarrow> (sql_error + unit) \<times> sql_store" where
  "append_message f sid m now st =
     (case append_tx f sid m now st of
        Inl e \<Rightarrow> (Inl e, st)
      | Inr None \<Rightarrow> (Inr (), st)
      | Inr (Some st') \<Rightarrow> (Inr (), st'))"

definition sql_append ::
  "sql_faults \<Rightarrow> string \<Rightarrow> message \<Rightarrow> int \<Rightarrow> sql_store \<Rightarrow> (sql_error + unit) \<times> sql_store" where
  "sql_append f sid m now st = append_message f sid m now st"

text \<open>The reads after the append run under their own faults \<open>g\<close>.\<close>

definition sql_append_and_snapshot ::
  "sql_faults \<Rightarrow> string \<Rightarrow> message \<Rightarrow> int \<Rightarrow> sql_store \<Rightarrow>
   (sql_error + message list option) \<times> sql_store" where
  "sql_append_and_snapshot f sid m now st =
     (case append_message f sid m now st of
        (Inl e, st1) \<Rightarrow> (Inl e, st1)
      | (Inr _, st1) \<Rightarrow>
          (bind_res (load_session f sid st1) (\<lambda>sess. Inr (map_option sess_messages sess)), st1))"

text \<open>\<open>Len\<close> logs a failing query and returns the zero count.\<close>

definition sql_len :: "sql_faults \<Rightarrow> sql_store \<Rightarrow> nat" where
  "sql_len f st = (case f CountSessions of None \<Rightarrow> length (db_sessions st) | Some _ \<Rightarrow> 0)"

text \<open>
  \<open>DELETE FROM sessions WHERE last_active < ?\<close> compares texts, byte by byte; the deletes
  cascade to the messages.
\<close>

definition sql_reap :: "sql_faults \<Rightarrow> int \<Rightarrow> sql_store \<Rightarrow> sql_store" where
  "sql_reap f now st =
     (let cutoff = stamp st (now - db_ttl st);
          gone = map fst (filter (\<lambda>(sid, row). sr_last_active row < cutoff) (db_sessions st))
      in case f DeleteIdle of
           Some _ \<Rightarrow> st
         | None \<Rightarrow> st\<lparr>db_sessions := filter (\<lambda>(sid, row). sid \<notin> set gone) (db_sessions st),
             db_messages := filter (\<lambda>r. mr_session_id r \<notin> set gone) (db_messages st)\<rparr>)"

text \<open>The ticks of the reaper, each with the faults of its statement.\<close>

fun sql_reaper :: "nat \<Rightarrow> (nat \<Rightarrow> sql_faults) \<Rightarrow> int \<Rightarrow> sql_store \<Rightarrow> sql_store" where
  "sql_reaper 0 fs start st = st"
| "sql_reaper (Suc n) fs start st =
     sql_reaper n (\<lambda>k. fs (Suc k)) (start + tick_ns) (sql_reap (fs 0) (start + tick_ns) st)"

subsection \<open>The invariant of the tables\<close>

definition sql_rows :: "string \<Rightarrow> sql_store \<Rightarrow> message_row list" where
  "sql_rows sid st = filter (\<lambda>r. mr_session_id r = sid) (db_messages st)"

text \<open>
  The constraints of the schema, and what the statements keep beyond them: the sequence numbers
  of a session count from 0 in insertion order.
\<close>

definition sql_inv :: "sql_store \<Rightarrow> bool" where
  "sql_inv st \<longleftrightarrow> distinct (map fst (db_sessions st))
     \<and> (\<forall>r \<in> set (db_messages st). mr_session_id r \<in> fst ` set (db_sessions st))
     \<and> (\<forall>sid. map mr_seq (sql_rows sid st) = map int [0..<length (sql_rows sid st)])"

definition sql_spec :: "sql_store \<Rightarrow> sessions_spec" where
  "sql_spec st sid = (if sid \<in> fst ` set (db_sessions st)
     then Some (map row_message (sql_rows sid st)) else None)"

definition sql_storable :: "message \<Rightarrow> bool" where
  "sql_storable m \<longleftrightarrow> map recode_call (msg_tool_calls m) = msg_tool_calls m \<and>
     map recode_result (msg_tool_results m) = msg_tool_results m"

lemma sql_storable_canonical:
  assumes "\<And>c. c \<in> set (msg_tool_calls m) \<Longrightarrow>
      valid_utf8 (tc_id c) \<and> valid_utf8 (tc_name c) \<and> canonical_args (tc_args c)"
    "\<And>r. r \<in> set (msg_tool_results m) \<Longrightarrow> valid_utf8 (tr_tool_use_id r) \<and> valid_utf8 (tr_output r)"
  shows "sql_storable m"
  using assms
  by (auto simp: sql_storable_def recode_call_def recode_result_def coerce_utf8_id recode_args_canonical
      intro!: map_idI)

lemma stmt_Inr [simp]: "stmt f q = Inr u \<longleftrightarrow> f q = None"
  by (simp add: stmt_def split: option.splits)

lemma scan_rows_ok: "scan_rows f i rs = Inr ms \<Longrightarrow> ms = map row_message rs"
  by (induction f i rs arbitrary: ms rule: scan_rows.induct) (auto simp: bind_res_Inr_iff)

lemma sql_inv_sorted: "sql_inv st \<Longrightarrow> session_rows sid (db_messages st) = sql_rows sid st"
proof -
  assume "sql_inv st"
  then have "sorted (map mr_seq (sql_rows sid st))" by (simp add: sql_inv_def sorted_map)
  then show ?thesis by (simp add: session_rows_def sql_rows_def sort_key_id_if_sorted)
qed

lemma load_session_ok:
  assumes "sql_inv st" "load_session f sid st = Inr r"
  shows "map_option sess_messages r = sql_spec st sid"
proof (cases "map_of (db_sessions st) sid")
  case None
  then have "sid \<notin> fst ` set (db_sessions st)" by (simp add: map_of_eq_None_iff)
  with None show ?thesis
    using assms by (auto simp: load_session_def bind_res_Inr_iff sql_spec_def)
next
  case (Some row)
  then have "sid \<in> fst ` set (db_sessions st)" by (metis domI dom_map_of_conv_image_fst)
  then show ?thesis
    using assms Some
    by (auto simp: load_session_def bind_res_Inr_iff sql_spec_def sql_inv_sorted dest!: scan_rows_ok)
qed

lemma load_session_none:
  "load_session f sid st = Inr None \<Longrightarrow> sid \<notin> fst ` set (db_sessions st)"
  by (auto simp: load_session_def bind_res_Inr_iff map_of_eq_None_iff split: option.splits)

lemma sql_rows_fresh: "sql_inv st \<Longrightarrow> sid \<notin> fst ` set (db_sessions st) \<Longrightarrow> sql_rows sid st = []"
  by (auto simp: sql_inv_def sql_rows_def filter_empty_conv)

lemma next_seq_length:
  assumes "sql_inv st"
  shows "next_seq sid (db_messages st) = int (length (sql_rows sid st))"
proof -
  have "fold max (map int [0..<n]) (- 1) + 1 = int n" for n
    by (induction n) auto
  moreover have "map mr_seq (sql_rows sid st) = map int [0..<length (sql_rows sid st)]"
    using assms by (simp add: sql_inv_def)
  ultimately show ?thesis by (simp add: next_seq_def sql_rows_def)
qed

text \<open>The two effects a transaction can commit.\<close>

definition created :: "string \<Rightarrow> string \<Rightarrow> int \<Rightarrow> sql_store \<Rightarrow> sql_store" where
  "created sid prompt now st =
     st\<lparr>db_sessions := db_sessions st @ [(sid, \<lparr>sr_system_prompt = prompt,
          sr_created_at = stamp st now, sr_last_active = stamp st now\<rparr>)],
        db_messages := db_messages st @ [system_row sid prompt]\<rparr>"

definition appended_row :: "string \<Rightarrow> message \<Rightarrow> int \<Rightarrow> sql_store \<Rightarrow> sql_store" where
  "appended_row sid m now st = update_active (stamp st now) sid
     (st\<lparr>db_messages := db_messages st @ [message_row_of sid (next_seq sid (db_messages st)) m]\<rparr>)"

lemma created_keys [simp]:
  "fst ` set (db_sessions (created sid prompt now st)) = insert sid (fst ` set (db_sessions st))"
  by (simp add: created_def)

lemma create_tx_ok: "create_tx f sid prompt now st = Inr st' \<Longrightarrow>
    st' = created sid prompt now st \<and> sid \<notin> fst ` set (db_sessions st)"
  by (auto simp: create_tx_def bind_res_Inr_iff insert_session_def insert_message_def created_def
      split: if_splits)

lemma append_tx_ok: "append_tx f sid m now st = Inr (Some st') \<Longrightarrow>
    st' = appended_row sid m now st \<and> sid \<in> fst ` set (db_sessions st)"
  by (auto simp: append_tx_def bind_res_Inr_iff insert_message_def appended_row_def split: if_splits)

lemma append_tx_none: "append_tx f sid m now st = Inr None \<Longrightarrow> sid \<notin> fst ` set (db_sessions st)"
  by (auto simp: append_tx_def bind_res_Inr_iff split: if_splits)

lemma sql_rows_created:
  "sql_rows k (created sid prompt now st) = sql_rows k st @ (if k = sid then [system_row sid prompt] else [])"
  by (simp add: sql_rows_def created_def system_row_def)

lemma update_active_rows [simp]: "db_messages (update_active text sid st) = db_messages st"
  by (simp add: update_active_def)

lemma update_active_keys [simp]: "map fst (db_sessions (update_active text sid st)) = map fst (db_sessions st)"
  by (simp add: update_active_def comp_def case_prod_unfold)

lemma update_active_key_set [simp]:
  "fst ` set (db_sessions (update_active text sid st)) = fst ` set (db_sessions st)"
  by (metis update_active_keys list.set_map)

lemma sql_rows_appended:
  "sql_rows k (appended_row sid m now st) =
     sql_rows k st @ (if k = sid then [message_row_of sid (next_seq sid (db_messages st)) m] else [])"
  by (simp add: sql_rows_def appended_row_def message_row_of_def)

lemma row_message_of:
  "sql_storable m \<Longrightarrow> row_message (message_row_of sid n m) = m"
  by (auto simp: row_message_def message_row_of_def sql_storable_def)

lemma row_message_system: "row_message (system_row sid prompt) = text_message ''system'' prompt"
  by (simp add: row_message_def system_row_def text_message_def)

lemma sql_inv_created:
  assumes "sql_inv st" "sid \<notin> fst ` set (db_sessions st)"
  shows "sql_inv (created sid prompt now st)"
  unfolding sql_inv_def
proof (intro conjI allI)
  show "distinct (map fst (db_sessions (created sid prompt now st)))"
    using assms by (simp add: sql_inv_def created_def)
  show "\<forall>r \<in> set (db_messages (created sid prompt now st)).
      mr_session_id r \<in> fst ` set (db_sessions (created sid prompt now st))"
    using assms(1) by (auto simp: sql_inv_def created_def system_row_def)
  fix k
  have rows: "map mr_seq (sql_rows k st) = map int [0..<length (sql_rows k st)]"
    using assms(1) by (simp add: sql_inv_def)
  show "map mr_seq (sql_rows k (created sid prompt now st)) =
      map int [0..<length (sql_rows k (created sid prompt now st))]"
    using rows sql_rows_fresh [OF assms] by (auto simp: sql_rows_created system_row_def)
qed

lemma sql_inv_appended:
  assumes "sql_inv st" "sid \<in> fst ` set (db_sessions st)"
  shows "sql_inv (appended_row sid m now st)"
  unfolding sql_inv_def
proof (intro conjI allI)
  show "distinct (map fst (db_sessions (appended_row sid m now st)))"
    using assms(1) by (simp add: sql_inv_def appended_row_def)
  show "\<forall>r \<in> set (db_messages (appended_row sid m now st)).
      mr_session_id r \<in> fst ` set (db_sessions (appended_row sid m now st))"
    using assms by (auto simp: sql_inv_def appended_row_def message_row_of_def)
  fix k
  have rows: "map mr_seq (sql_rows k st) = map int [0..<length (sql_rows k st)]"
    using assms(1) by (simp add: sql_inv_def)
  show "map mr_seq (sql_rows k (appended_row sid m now st)) =
      map int [0..<length (sql_rows k (appended_row sid m now st))]"
    using rows by (simp add: sql_rows_appended next_seq_length [OF assms(1)] message_row_of_def)
qed

lemma sql_spec_created:
  assumes "sql_inv st" "sid \<notin> fst ` set (db_sessions st)"
  shows "sql_spec (created sid prompt now st) = spec_create sid prompt (sql_spec st)"
proof
  fix k
  show "sql_spec (created sid prompt now st) k = spec_create sid prompt (sql_spec st) k"
    using assms sql_rows_fresh [OF assms]
    by (auto simp: sql_spec_def spec_create_def sql_rows_created row_message_system)
qed

lemma sql_spec_appended:
  assumes "sql_storable m" "sid \<in> fst ` set (db_sessions st)"
  shows "sql_spec (appended_row sid m now st) = spec_append sid m (sql_spec st)"
proof
  fix k
  have "fst ` set (db_sessions (appended_row sid m now st)) = fst ` set (db_sessions st)"
    by (simp add: appended_row_def)
  then show "sql_spec (appended_row sid m now st) k = spec_append sid m (sql_spec st) k"
    using assms by (auto simp: sql_spec_def spec_append_def sql_rows_appended row_message_of)
qed

lemma sql_reap_rows:
  "f DeleteIdle = None \<Longrightarrow>
   sql_rows k (sql_reap f now st) =
     filter (\<lambda>r. mr_session_id r \<notin> fst ` {p \<in> set (db_sessions st). sr_last_active (snd p) < stamp st (now - db_ttl st)})
       (sql_rows k st)"
  by (simp add: sql_rows_def sql_reap_def Let_def case_prod_unfold conj_commute)

text \<open>The rows the reaper deletes.\<close>

definition idle_rows :: "int \<Rightarrow> sql_store \<Rightarrow> string set" where
  "idle_rows now st = fst ` {p \<in> set (db_sessions st). sr_last_active (snd p) < stamp st (now - db_ttl st)}"

lemma sql_reap_eq:
  "f DeleteIdle = None \<Longrightarrow> sql_reap f now st =
     st\<lparr>db_sessions := filter (\<lambda>p. fst p \<notin> idle_rows now st) (db_sessions st),
        db_messages := filter (\<lambda>r. mr_session_id r \<notin> idle_rows now st) (db_messages st)\<rparr>"
  by (simp add: sql_reap_def idle_rows_def Let_def case_prod_unfold)

lemma sql_reap_fault: "f DeleteIdle = Some e \<Longrightarrow> sql_reap f now st = st"
  by (simp add: sql_reap_def Let_def)

lemma sql_reap_spec:
  "f DeleteIdle = None \<Longrightarrow>
   sql_spec (sql_reap f now st) = (\<lambda>sid. if sid \<in> idle_rows now st then None else sql_spec st sid)"
  by (rule ext) (auto simp: sql_reap_eq sql_spec_def sql_rows_def conj_commute cong: conj_cong
      intro!: arg_cong [of _ _ "map row_message"] filter_cong)

lemma sql_inv_reap: "sql_inv st \<Longrightarrow> sql_inv (sql_reap f now st)"
proof (cases "f DeleteIdle")
  case None
  assume inv: "sql_inv st"
  have rows: "sql_rows k (sql_reap f now st) = (if k \<in> idle_rows now st then [] else sql_rows k st)" for k
    by (auto simp: sql_reap_eq [of f, OF None] sql_rows_def conj_commute filter_empty_conv intro!: filter_cong)
  have keys: "fst ` {p \<in> A. fst p \<notin> I} = fst ` A - I" for A :: "(string \<times> session_row) set" and I
    by auto
  show ?thesis
    unfolding sql_inv_def rows
    using inv by (auto simp: sql_inv_def sql_reap_eq [of f, OF None] distinct_map_filter keys)
qed (simp add: sql_reap_fault)

lemma sql_reap_shrinks: "sql_spec (sql_reap f now st) \<subseteq>\<^sub>m sql_spec st"
  by (cases "f DeleteIdle") (auto simp: sql_reap_spec sql_reap_fault map_le_def split: if_splits)

lemma sql_reaper_only_removes:
  "sql_inv st \<Longrightarrow> sql_inv (sql_reaper n fs start st) \<and> sql_spec (sql_reaper n fs start st) \<subseteq>\<^sub>m sql_spec st"
proof (induction n arbitrary: fs start st)
  case (Suc n)
  show ?case
    using Suc.IH [OF sql_inv_reap [OF Suc.prems], of "\<lambda>k. fs (Suc k)" "start + tick_ns" "fs 0" "start + tick_ns"]
      sql_reap_shrinks [of "fs 0" "start + tick_ns" st]
    by (auto intro: map_le_trans)
qed simp

subsection \<open>The store meets the contract\<close>

lemma sql_append_cases:
  obtains e where "sql_append f sid m now st = (Inl e, st)"
  | "sql_append f sid m now st = (Inr (), st)" "sid \<notin> fst ` set (db_sessions st)"
  | "sql_append f sid m now st = (Inr (), appended_row sid m now st)" "sid \<in> fst ` set (db_sessions st)"
proof (cases "append_tx f sid m now st")
  case (Inl e)
  then show ?thesis using that(1) by (simp add: sql_append_def append_message_def)
next
  case (Inr r)
  then show ?thesis
    using that(2,3) append_tx_ok [of f sid m now st] append_tx_none [of f sid m now st]
    by (cases r) (auto simp: sql_append_def append_message_def)
qed

lemma sql_create_cases:
  obtains e where "sql_get_or_create f sid prompt now st = (Inl e, st)"
  | sess where "sql_get_or_create f sid prompt now st = (Inr sess, st)"
      "load_session f sid st = Inr (Some sess)"
  | "sql_get_or_create f sid prompt now st = (Inr (new_session sid prompt now), created sid prompt now st)"
      "sid \<notin> fst ` set (db_sessions st)"
proof (cases "load_session f sid st")
  case (Inl e)
  then show ?thesis using that(1) by (simp add: sql_get_or_create_def)
next
  case (Inr r)
  show ?thesis
  proof (cases r)
    case (Some sess)
    then show ?thesis using Inr that(2) by (simp add: sql_get_or_create_def)
  next
    case None
    then show ?thesis
      using Inr that(1,3) create_tx_ok [of f sid prompt now st]
      by (cases "create_tx f sid prompt now st") (auto simp: sql_get_or_create_def)
  qed
qed

lemma spec_append_missing: "sid \<notin> fst ` set (db_sessions st) \<Longrightarrow> spec_append sid m (sql_spec st) = sql_spec st"
  by (simp add: spec_append_def sql_spec_def)

lemma spec_create_present: "a sid = Some ms \<Longrightarrow> spec_create sid prompt a = a"
  by (simp add: spec_create_def)

interpretation sql: session_store sql_get_or_create sql_get sql_append sql_append_and_snapshot
  sql_reap sql_spec sql_inv sql_storable
proof unfold_locales
  fix s s' :: sql_store and sid prompt now m and sess :: session and e r ro u and f :: sql_faults
  assume inv: "sql_inv s"
  show "sql_get_or_create f sid prompt now s = (Inr sess, s') \<Longrightarrow>
      sql_spec s' = spec_create sid prompt (sql_spec s) \<and> sql_spec s' sid = Some (sess_messages sess)"
  proof (rule sql_create_cases [of f sid prompt now s])
    fix v assume "sql_get_or_create f sid prompt now s = (Inr v, s)" "load_session f sid s = Inr (Some v)"
      "sql_get_or_create f sid prompt now s = (Inr sess, s')"
    then show ?thesis
      using load_session_ok [OF inv, of f sid "Some v", symmetric] by (auto simp: spec_create_present)
  next
    assume new: "sid \<notin> fst ` set (db_sessions s)"
      "sql_get_or_create f sid prompt now s = (Inr (new_session sid prompt now), created sid prompt now s)"
      "sql_get_or_create f sid prompt now s = (Inr sess, s')"
    then show ?thesis
      using sql_spec_created [OF inv new(1), of prompt now]
      by (auto simp: new_session_def spec_create_def sql_spec_def)
  qed simp
  show "sql_get_or_create f sid prompt now s = (Inl e, s') \<Longrightarrow> sql_spec s' = sql_spec s"
    by (rule sql_create_cases [of f sid prompt now s]) simp_all
  show "sql_get f sid s = Inr ro \<Longrightarrow> map_option sess_messages ro = sql_spec s sid"
    using inv by (simp add: sql_get_def load_session_ok)
  show "sql_storable m \<Longrightarrow> sql_append f sid m now s = (Inr u, s') \<Longrightarrow> sql_spec s' = spec_append sid m (sql_spec s)"
    by (rule sql_append_cases [of f sid m now s])
      (use sql_spec_appended [of m sid s now] spec_append_missing [of sid s m] in auto)
  show "sql_append f sid m now s = (Inl e, s') \<Longrightarrow> sql_spec s' = sql_spec s"
    by (rule sql_append_cases [of f sid m now s]) simp_all
  show "snd (sql_append_and_snapshot f sid m now s) = snd (sql_append f sid m now s)"
    by (simp add: sql_append_and_snapshot_def sql_append_def split: prod.splits sum.splits)
  show "sql_spec (sql_reap f now s) \<subseteq>\<^sub>m sql_spec s"
    by (rule sql_reap_shrinks)
  show inv': "sql_inv (snd (sql_append f sid m now s))"
    by (rule sql_append_cases [of f sid m now s]) (simp_all add: inv sql_inv_appended)
  show "sql_append_and_snapshot f sid m now s = (Inr r, s') \<Longrightarrow>
      sql_append f sid m now s = (Inr (), s') \<and> r = sql_spec s' sid"
    using inv' load_session_ok [of s' f sid]
    by (auto simp: sql_append_and_snapshot_def sql_append_def bind_res_Inr_iff split: prod.splits sum.splits)
  show "sql_inv (snd (sql_get_or_create f sid prompt now s))"
    by (rule sql_create_cases [of f sid prompt now s]) (simp_all add: inv sql_inv_created)
  show "sql_inv (sql_reap f now s)" using inv by (rule sql_inv_reap)
qed


subsection \<open>Properties of the persistent store\<close>

fun sql_step :: "sql_faults \<Rightarrow> store_op \<Rightarrow> sql_store \<Rightarrow> bool \<times> sql_store" where
  "sql_step f (OpCreate sid prompt now) st =
     (case sql_get_or_create f sid prompt now st of (r, st') \<Rightarrow> (\<not> is_err r, st'))"
| "sql_step f (OpAppend sid m now) st =
     (case sql_append f sid m now st of (r, st') \<Rightarrow> (\<not> is_err r, st'))"

text \<open>A run of commands under their faults: the commands that succeeded, and the store.\<close>

fun sql_run :: "(sql_faults \<times> store_op) list \<Rightarrow> sql_store \<Rightarrow> store_op list \<times> sql_store" where
  "sql_run [] st = ([], st)"
| "sql_run ((f, c) # cs) st =
     (let (ok, st1) = sql_step f c st; (done, st2) = sql_run cs st1
      in (if ok then c # done else done, st2))"

definition ops_storable :: "(sql_faults \<times> store_op) list \<Rightarrow> bool" where
  "ops_storable cs \<longleftrightarrow> list_all (\<lambda>(f, c). case c of OpAppend _ m _ \<Rightarrow> sql_storable m | _ \<Rightarrow> True) cs"

lemma sql_step_exec: "sql_step f c st = sql.exec_op f c st"
  by (cases c) simp_all

lemma sql_run_exec: "sql_run cs st = sql.exec_ops cs st"
  by (induction cs st rule: sql_run.induct) (simp_all add: sql_step_exec split: prod.splits)

lemma ops_storable_exec: "ops_storable cs = list_all (sql.op_storable \<circ> snd) cs"
  by (auto simp: ops_storable_def sql.op_storable_def list_all_iff comp_def case_prod_unfold)

lemma sql_inv_new: "sql_inv (new_sqlite_store ttl zone)"
  by (simp add: sql_inv_def new_sqlite_store_def sql_rows_def)

lemma sql_run_inv: "ops_storable cs \<Longrightarrow> sql_inv st \<Longrightarrow> sql_inv (snd (sql_run cs st))"
  using sql.exec_ops_refine [of st cs] by (simp add: sql_run_exec ops_storable_exec)

text \<open>
  C6. The database store keeps conversations through failures: after any run
  of creates and appends on any sessions, each statement of which may fail, loading a session
  gives what it held before followed by the messages of exactly those appends to it that
  reported success, in order. A failed operation leaves no trace.
\<close>

theorem sqlite_store_history:
  assumes "sql_inv st" "ops_storable cs" "sql_spec st sid = Some ms"
    "sql_get f sid (snd (sql_run cs st)) = Inr r"
  shows "map_option sess_messages r =
    Some (ms @ appended (filter (\<lambda>c. op_id c = sid) (fst (sql_run cs st))))"
proof -
  have "sql_inv (snd (sql_run cs st))" using assms(2,1) by (rule sql_run_inv)
  from sql.get_ok [OF this assms(4)] have "map_option sess_messages r = sql_spec (snd (sql_run cs st)) sid" .
  also have "\<dots> = Some (ms @ appended (filter (\<lambda>c. op_id c = sid) (fst (sql_run cs st))))"
    using sql.history [OF assms(1) _ assms(3)] assms(2) by (simp add: sql_run_exec ops_storable_exec)
  finally show ?thesis .
qed

definition no_faults :: sql_faults where
  "no_faults = (\<lambda>_. None)"

definition demo_run :: "(sql_faults \<times> store_op) list" where
  "demo_run =
     [(no_faults, OpAppend ''a'' (text_message ''user'' ''1'') 1),
      (no_faults(CommitTx \<mapsto> ''disk full''), OpAppend ''a'' (text_message ''user'' ''2'') 2),
      (no_faults, OpCreate ''b'' ''q'' 3),
      (no_faults, OpAppend ''a'' (text_message ''user'' ''3'') 4)]"

definition demo_store :: sql_store where
  "demo_store = snd (sql_get_or_create no_faults ''a'' ''p'' 0 (new_sqlite_store 60 (\<lambda>_. 0)))"

theorem sqlite_store_history_witness:
  "\<exists>sess. sql_get no_faults ''a'' (snd (sql_run demo_run demo_store)) = Inr (Some sess) \<and>
     sess_messages sess = [text_message ''system'' ''p'', text_message ''user'' ''1'', text_message ''user'' ''3'']"
proof -
  have inv: "sql_inv demo_store"
    unfolding demo_store_def using sql_inv_new by (rule sql.inv_create)
  have ops: "ops_storable demo_run"
    by (simp add: ops_storable_def demo_run_def sql_storable_def)
  have start: "sql_spec demo_store ''a'' = Some [text_message ''system'' ''p'']" by code_simp
  have done_: "filter (\<lambda>c. op_id c = ''a'') (fst (sql_run demo_run demo_store)) =
      [OpAppend ''a'' (text_message ''user'' ''1'') 1, OpAppend ''a'' (text_message ''user'' ''3'') 4]"
    by code_simp
  have "\<not> is_err (sql_get no_faults ''a'' (snd (sql_run demo_run demo_store)))" by code_simp
  then obtain r where r: "sql_get no_faults ''a'' (snd (sql_run demo_run demo_store)) = Inr r"
    by (metis is_err.elims(3))
  from sqlite_store_history [OF inv ops start r] r show ?thesis
    by (cases r) (simp_all add: done_)
qed

text \<open>
  C7. An operation of the database store that reports an error has changed
  nothing, with one exception that the code allows: \<open>AppendAndSnapshot\<close> commits the message
  before it reads the conversation back, so its error leaves the tables as they were or the
  message appended, and nothing else.
\<close>

theorem sqlite_store_errors:
  assumes "sql_inv st" "sql_storable m"
  shows "(is_err (fst (sql_get_or_create f sid prompt now st)) \<longrightarrow> snd (sql_get_or_create f sid prompt now st) = st)
    \<and> (is_err (fst (sql_append f sid m now st)) \<longrightarrow> snd (sql_append f sid m now st) = st)
    \<and> (is_err (fst (sql_append_and_snapshot f sid m now st)) \<longrightarrow>
         sql_spec (snd (sql_append_and_snapshot f sid m now st)) \<in> {sql_spec st, spec_append sid m (sql_spec st)})"
proof (intro conjI impI)
  show "snd (sql_get_or_create f sid prompt now st) = st" if "is_err (fst (sql_get_or_create f sid prompt now st))"
    using that by (rule_tac sql_create_cases [of f sid prompt now st]) simp_all
  show "snd (sql_append f sid m now st) = st" if "is_err (fst (sql_append f sid m now st))"
    using that by (rule_tac sql_append_cases [of f sid m now st]) simp_all
  show "sql_spec (snd (sql_append_and_snapshot f sid m now st)) \<in> {sql_spec st, spec_append sid m (sql_spec st)}"
    if "is_err (fst (sql_append_and_snapshot f sid m now st))"
    using that sql.snapshot_failed [OF assms, of f sid now]
    by (cases "sql_append_and_snapshot f sid m now st"; cases "fst (sql_append_and_snapshot f sid m now st)") auto
qed

theorem sqlite_store_errors_witness:
  "is_err (fst (sql_append_and_snapshot (no_faults(SelectSession \<mapsto> ''io'')) ''a'' (text_message ''user'' ''1'') 1 demo_store))
   \<and> sql_spec (snd (sql_append_and_snapshot (no_faults(SelectSession \<mapsto> ''io'')) ''a'' (text_message ''user'' ''1'') 1 demo_store))
       \<in> {sql_spec demo_store, spec_append ''a'' (text_message ''user'' ''1'') (sql_spec demo_store)}
   \<and> length (db_messages (snd (sql_append_and_snapshot (no_faults(SelectSession \<mapsto> ''io'')) ''a'' (text_message ''user'' ''1'') 1 demo_store))) = 2"
proof -
  have inv: "sql_inv demo_store"
    unfolding demo_store_def using sql_inv_new by (rule sql.inv_create)
  have st: "sql_storable (text_message ''user'' ''1'')" by (simp add: sql_storable_def)
  have err: "is_err (fst (sql_append_and_snapshot (no_faults(SelectSession \<mapsto> ''io'')) ''a'' (text_message ''user'' ''1'') 1 demo_store))"
    by code_simp
  moreover have "length (db_messages (snd (sql_append_and_snapshot (no_faults(SelectSession \<mapsto> ''io'')) ''a'' (text_message ''user'' ''1'') 1 demo_store))) = 2"
    by code_simp
  ultimately show ?thesis
    using sqlite_store_errors [OF inv st, of "no_faults(SelectSession \<mapsto> ''io'')" "''a''" "''p''" 1] by blast
qed

lemma map_of_update_active:
  "map_of (db_sessions (update_active text sid st)) k =
     (if k = sid then map_option (\<lambda>row. row\<lparr>sr_last_active := text\<rparr>) (map_of (db_sessions st) sid)
      else map_of (db_sessions st) k)"
proof -
  have "map_of (map (\<lambda>(k, row). (k, if k = sid then row\<lparr>sr_last_active := text\<rparr> else row)) ps) k =
     (if k = sid then map_option (\<lambda>row. row\<lparr>sr_last_active := text\<rparr>) (map_of ps sid) else map_of ps k)" for ps
    by (induction ps) auto
  from this [of "db_sessions st"] show ?thesis by (simp add: update_active_def)
qed

text \<open>The instants the four-digit year of the layout can express, in a zone of whole minutes.\<close>

definition time_ok :: "sql_store \<Rightarrow> int \<Rightarrow> bool" where
  "time_ok st t \<longleftrightarrow> db_zone st t mod 60 = 0 \<and> \<bar>db_zone st t\<bar> < 86400 \<and>
     (let y = fst (civil_from_days ((t div second_ns + db_zone st t) div 86400)) in 0 \<le> y \<and> y \<le> 9999)"

lemma time_parse_stamp: "time_ok st t \<Longrightarrow> time_parse (stamp st t) = t"
  by (simp add: time_ok_def time_parse_def stamp_def parse_rfc3339_nano Let_def)

text \<open>
  Times survive the database: a session read back after an append
  carries the instant of that append as its last activity, to the nanosecond, although it is
  stored as a text in the zone of the host.
\<close>

lemma sqlite_last_active_roundtrip:
  assumes "sql_append f sid m now st = (Inr (), st')" "sql_get g sid st' = Inr (Some sess)" "time_ok st now"
  shows "sess_last_active sess = now"
proof (rule sql_append_cases [of f sid m now st])
  assume "sql_append f sid m now st = (Inr (), appended_row sid m now st)"
  then have st': "st' = appended_row sid m now st" using assms(1) by simp
  have "map_of (db_sessions st') sid =
      map_option (\<lambda>row. row\<lparr>sr_last_active := stamp st now\<rparr>) (map_of (db_sessions st) sid)"
    by (simp add: st' appended_row_def map_of_update_active)
  then show ?thesis
    using assms(2) time_parse_stamp [OF assms(3)]
    by (auto simp: sql_get_def load_session_def bind_res_Inr_iff split: option.splits)
next
  assume "sid \<notin> fst ` set (db_sessions st)" "sql_append f sid m now st = (Inr (), st)"
  then have "map_of (db_sessions st') sid = None" using assms(1) by (simp add: map_of_eq_None_iff)
  then show ?thesis
    using assms(2) by (auto simp: sql_get_def load_session_def bind_res_Inr_iff)
qed (use assms(1) in simp)

lemma sqlite_last_active_roundtrip_witness:
  "sess_last_active (the (projr (sql_get no_faults ''a''
     (snd (sql_append no_faults ''a'' (text_message ''user'' ''1'') 1760000000500000000 demo_store))))) = 1760000000500000000"
proof -
  let ?a = "sql_append no_faults ''a'' (text_message ''user'' ''1'') 1760000000500000000 demo_store"
  have "fst ?a = Inr ()" by code_simp
  then have a: "?a = (Inr (), snd ?a)" by (metis prod.collapse)
  have "case sql_get no_faults ''a'' (snd ?a) of Inr (Some _) \<Rightarrow> True | _ \<Rightarrow> False" by code_simp
  then obtain sess where g: "sql_get no_faults ''a'' (snd ?a) = Inr (Some sess)"
    by (auto split: sum.splits option.splits)
  have "time_ok demo_store 1760000000500000000" by code_simp
  from sqlite_last_active_roundtrip [OF a g this] g show ?thesis by simp
qed

text \<open>
  The reaper of the database store compares texts of local times, not
  times, so a session can go long before its TTL. When the host's clock falls back by an hour
  (here from UTC-4 to UTC-5 at 1762063200 s), a session with a TTL of 30 minutes that was used
  10 minutes ago is deleted, because 01:10-05:00 sorts before 01:50-04:00; and at any time of the year an
  instant within a second sorts before the whole second, whose text has no fraction.
\<close>

lemma sqlite_reaper_expires_early:
  "\<exists>st now t. sql_inv st \<and> db_ttl st = 1800 * second_ns \<and> now - t = 600 * second_ns \<and>
     sql_spec st ''a'' = Some [text_message ''system'' ''p''] \<and>
     map_option sess_last_active (projr (sql_get no_faults ''a'' st)) = Some t \<and>
     sql_spec (sql_reap no_faults now st) ''a'' = None \<and>
     rfc3339_nano 0 (t + second_ns div 2) < rfc3339_nano 0 t"
proof -
  define zone where "zone t = (if t < 1762063200 * second_ns then - 14400 else - 18000 :: int)" for t :: int
  define t where "t = (1762063800 * 1000000000 :: int)"
  define st where "st = snd (sql_get_or_create no_faults ''a'' ''p'' t (new_sqlite_store (1800 * second_ns) zone))"
  define now where "now = t + 600 * second_ns"
  have inv: "sql_inv st"
    unfolding st_def using sql_inv_new by (rule sql.inv_create)
  note defs = st_def zone_def t_def now_def
  have "db_ttl st = 1800 * second_ns" unfolding defs by code_simp
  moreover have "sql_spec st ''a'' = Some [text_message ''system'' ''p'']" unfolding defs by code_simp
  moreover have "map_option sess_last_active (projr (sql_get no_faults ''a'' st)) = Some t" unfolding defs by code_simp
  moreover have "sql_spec (sql_reap no_faults now st) ''a'' = None" unfolding defs by code_simp
  moreover have "rfc3339_nano 0 (t + second_ns div 2) < rfc3339_nano 0 t" unfolding defs by code_simp
  ultimately show ?thesis using inv by (intro exI [of _ st] exI [of _ now] exI [of _ t]) (simp add: now_def)
qed

end
