(* ===== verification/Go_Http.thy ===== *)
theory Go_Http
  imports Go_Json
begin

section \<open>HTTP messages\<close>

text \<open>
  Requests and responses of package net/http. Header names are in canonical form; a header maps
  a name to the list of its values. \<open>'c\<close> is what the handlers store in the request's context.
\<close>

type_synonym headers = "(string \<times> string list) list"

record 'c http_request =
  rq_method :: string
  rq_path :: string
  rq_headers :: headers
  rq_body :: string
  rq_context :: 'c

record http_response =
  rs_status :: int
  rs_headers :: headers
  rs_body :: string

definition header_values :: "string \<Rightarrow> headers \<Rightarrow> string list" where
  "header_values k h = (case map_of h k of Some vs \<Rightarrow> vs | None \<Rightarrow> [])"

definition header_get :: "string \<Rightarrow> headers \<Rightarrow> string" where
  "header_get k h = (case header_values k h of v # _ \<Rightarrow> v | [] \<Rightarrow> [])"

definition header_set :: "string \<Rightarrow> string \<Rightarrow> headers \<Rightarrow> headers" where
  "header_set k v h = map_put k [v] h"

definition header_del :: "string \<Rightarrow> headers \<Rightarrow> headers" where
  "header_del k h = map_del k h"

lemma header_values_del [simp]:
  "header_values k (header_del k' h) = (if k = k' then [] else header_values k h)"
  by (simp add: header_values_def header_del_def)

lemma header_values_set [simp]:
  "header_values k (header_set k' v h) = (if k = k' then [v] else header_values k h)"
  by (simp add: header_values_def header_set_def)

text \<open>
  The outcome of a client request, as the code looks at it: the exchange fails, or a response
  arrives whose body can be read up to a point.
\<close>

datatype http_result =
    HttpFailed string
  | HttpReply int headers string
  | HttpBroken int headers string string

text \<open>A whole read of the body through \<open>io.LimitReader\<close>; \<open>HttpBroken\<close> carries what was read before the error.\<close>

definition read_limited :: "nat \<Rightarrow> http_result \<Rightarrow> string + string" where
  "read_limited n r = (case r of
       HttpFailed e \<Rightarrow> Inl e
     | HttpReply st h body \<Rightarrow> Inr (take n body)
     | HttpBroken st h body e \<Rightarrow> if n \<le> length body then Inr (take n body) else Inl e)"

text \<open>\<open>http.StatusText\<close>.\<close>

definition status_texts :: "(int \<times> string) list" where
  "status_texts =
     [(100, ''Continue''), (101, ''Switching Protocols''), (102, ''Processing''), (103, ''Early Hints''),
      (200, ''OK''), (201, ''Created''), (202, ''Accepted''), (203, ''Non-Authoritative Information''),
      (204, ''No Content''), (205, ''Reset Content''), (206, ''Partial Content''), (207, ''Multi-Status''),
      (208, ''Already Reported''), (226, ''IM Used''), (300, ''Multiple Choices''), (301, ''Moved Permanently''),
      (302, ''Found''), (303, ''See Other''), (304, ''Not Modified''), (305, ''Use Proxy''),
      (307, ''Temporary Redirect''), (308, ''Permanent Redirect''), (400, ''Bad Request''),
      (401, ''Unauthorized''), (402, ''Payment Required''), (403, ''Forbidden''), (404, ''Not Found''),
      (405, ''Method Not Allowed''), (406, ''Not Acceptable''), (407, ''Proxy Authentication Required''),
      (408, ''Request Timeout''), (409, ''Conflict''), (410, ''Gone''), (411, ''Length Required''),
      (412, ''Precondition Failed''), (413, ''Request Entity Too Large''), (414, ''Request URI Too Long''),
      (415, ''Unsupported Media Type''), (416, ''Requested Range Not Satisfiable''),
      (417, ''Expectation Failed''), (418, ''I'' @ [CHR 0x27] @ ''m a teapot''), (421, ''Misdirected Request''),
      (422, ''Unprocessable Entity''), (423, ''Locked''), (424, ''Failed Dependency''), (425, ''Too Early''),
      (426, ''Upgrade Required''), (428, ''Precondition Required''), (429, ''Too Many Requests''),
      (431, ''Request Header Fields Too Large''), (451, ''Unavailable For Legal Reasons''),
      (500, ''Internal Server Error''), (501, ''Not Implemented''), (502, ''Bad Gateway''),
      (503, ''Service Unavailable''), (504, ''Gateway Timeout''), (505, ''HTTP Version Not Supported''),
      (506, ''Variant Also Negotiates''), (507, ''Insufficient Storage''), (508, ''Loop Detected''),
      (510, ''Not Extended''), (511, ''Network Authentication Required'')]"

definition status_text :: "int \<Rightarrow> string" where
  "status_text st = (case map_of status_texts st of Some t \<Rightarrow> t | None \<Rightarrow> [])"

end
