(* ===== verification/Go_Path.thy ===== *)
theory Go_Path
  imports Go_Prelude
begin

section \<open>Slash-separated paths\<close>

text \<open>
  The lexical functions of packages path and path/filepath (on Unix they agree): \<open>Clean\<close>,
  \<open>Join\<close>, \<open>Base\<close>, \<open>Dir\<close>, \<open>Ext\<close>, \<open>IsAbs\<close>. A path is cleaned element by element: empty and
  "." elements go, ".." takes the element before it away, and goes itself at the root.
\<close>

definition dot :: string where "dot = ''.''"
definition dotdot :: string where "dotdot = ''..''"

fun clean_elems :: "bool \<Rightarrow> string list \<Rightarrow> string list \<Rightarrow> string list" where
  "clean_elems rooted acc [] = rev acc"
| "clean_elems rooted acc (e # es) =
     (if e = [] \<or> e = dot then clean_elems rooted acc es
      else if e = dotdot then
        (case acc of
           a # as \<Rightarrow> if a = dotdot then clean_elems rooted (dotdot # acc) es
                     else clean_elems rooted as es
         | [] \<Rightarrow> if rooted then clean_elems rooted [] es else clean_elems rooted [dotdot] es)
      else clean_elems rooted (e # acc) es)"

definition is_abs :: "string \<Rightarrow> bool" where
  "is_abs p = has_prefix p ''/''"

definition path_clean :: "string \<Rightarrow> string" where
  "path_clean p =
     (let es = clean_elems (is_abs p) [] (split_on (CHR ''/'') p);
          res = (if is_abs p then ''/'' else []) @ str_join ''/'' es
      in if res = [] then dot else res)"

definition path_join :: "string list \<Rightarrow> string" where
  "path_join ps = (let qs = filter (\<lambda>p. p \<noteq> []) ps in
     if qs = [] then [] else path_clean (str_join ''/'' qs))"

definition path_base :: "string \<Rightarrow> string" where
  "path_base p =
     (if p = [] then dot
      else let q = trim_right_set {CHR ''/''} p in
        if q = [] then ''/'' else last (split_on (CHR ''/'') q))"

definition path_dir :: "string \<Rightarrow> string" where
  "path_dir p =
     path_clean (rev (dropWhile (\<lambda>c. c \<noteq> CHR ''/'') (rev p)))"

definition path_ext :: "string \<Rightarrow> string" where
  "path_ext p = (let e = last (split_on (CHR ''/'') p) in
     if CHR ''.'' \<in> set e then CHR ''.'' # rev (takeWhile (\<lambda>c. c \<noteq> CHR ''.'') (rev e)) else [])"

subsection \<open>Cleaned paths\<close>

definition elem_ok :: "string \<Rightarrow> bool" where
  "elem_ok e \<longleftrightarrow> e \<noteq> [] \<and> e \<noteq> dot \<and> CHR ''/'' \<notin> set e"

text \<open>The elements of a cleaned path: names, with ".." only at the front of a relative one.\<close>

fun clean_shape :: "bool \<Rightarrow> string list \<Rightarrow> bool" where
  "clean_shape rooted [] = True"
| "clean_shape rooted (e # es) =
     (elem_ok e \<and> (if e = dotdot then \<not> rooted \<and> clean_shape rooted es
                   else list_all (\<lambda>x. elem_ok x \<and> x \<noteq> dotdot) es))"

lemma clean_shape_names: "list_all (\<lambda>x. elem_ok x \<and> x \<noteq> dotdot) es \<Longrightarrow> clean_shape rooted es"
  by (cases es) auto

lemma clean_shape_snoc_name:
  "clean_shape rooted es \<Longrightarrow> elem_ok e \<Longrightarrow> e \<noteq> dotdot \<Longrightarrow> clean_shape rooted (es @ [e])"
  by (induction es) auto

lemma clean_shape_snoc_dotdot:
  "clean_shape False (es @ [dotdot]) \<Longrightarrow> clean_shape False (es @ [dotdot, dotdot])"
  by (induction es) (auto simp: elem_ok_def dotdot_def dot_def split: if_splits)

lemma clean_shape_butlast: "clean_shape rooted (es @ [e]) \<Longrightarrow> clean_shape rooted es"
  by (induction es) (auto split: if_splits)

lemma clean_elems_shape:
  "clean_shape rooted (rev acc) \<Longrightarrow> \<forall>e \<in> set es. CHR ''/'' \<notin> set e \<Longrightarrow>
   clean_shape rooted (clean_elems rooted acc es)"
proof (induction rooted acc es rule: clean_elems.induct)
  case (2 rooted acc e es)
  have dd: "elem_ok dotdot" by (simp add: elem_ok_def dotdot_def dot_def)
  show ?case
  proof (cases "e = [] \<or> e = dot")
    case True
    with 2 show ?thesis by simp
  next
    case False
    show ?thesis
    proof (cases "e = dotdot")
      case True
      show ?thesis
      proof (cases acc)
        case Nil
        with 2 False True dd show ?thesis by auto
      next
        case (Cons a as)
        show ?thesis
        proof (cases "a = dotdot")
          case True
          have "\<not> rooted"
          proof
            assume "rooted"
            with "2.prems"(1) Cons True have "clean_shape True (rev as @ [dotdot])" by simp
            moreover have "\<not> clean_shape True (es @ [dotdot])" for es
              by (induction es) auto
            ultimately show False by blast
          qed
          with 2 Cons True False \<open>e = dotdot\<close> show ?thesis
            by (auto intro: clean_shape_snoc_dotdot)
        next
          case False
          with 2 Cons \<open>e = dotdot\<close> \<open>\<not> (e = [] \<or> e = dot)\<close> show ?thesis
            by (auto dest: clean_shape_butlast)
        qed
      qed
    next
      case name: False
      have "elem_ok e" using False "2.prems"(2) by (simp add: elem_ok_def)
      with 2 False name show ?thesis by (simp add: clean_shape_snoc_name)
    qed
  qed
qed simp

lemma clean_elems_id:
  "clean_shape rooted (rev acc @ es) \<Longrightarrow> clean_elems rooted acc es = rev acc @ es"
proof (induction es arbitrary: acc)
  case (Cons e es)
  have split: "clean_shape rooted (xs @ e # ys) \<Longrightarrow>
      elem_ok e \<and> (e = dotdot \<longrightarrow> \<not> rooted \<and> (xs = [] \<or> last xs = dotdot))" for xs ys
    by (induction xs) (auto split: if_splits)
  have IH: "clean_elems rooted (e # acc) es = rev acc @ e # es"
    using Cons.IH [of "e # acc"] Cons.prems by simp
  have "elem_ok e" and dd: "e = dotdot \<Longrightarrow> \<not> rooted \<and> (rev acc = [] \<or> last (rev acc) = dotdot)"
    using split [OF Cons.prems] by auto
  then have "e \<noteq> []" "e \<noteq> dot" by (auto simp: elem_ok_def)
  then show ?case
    using IH dd by (cases acc) auto
qed simp

lemma elem_ok_split: "clean_shape rooted es \<Longrightarrow> e \<in> set es \<Longrightarrow> CHR ''/'' \<notin> set e"
  by (induction es) (auto simp: elem_ok_def list_all_iff split: if_splits)

lemma clean_elems_split_join:
  assumes "clean_shape rooted es" "es \<noteq> []"
  shows "clean_elems rooted [] (split_on (CHR ''/'') (str_join ''/'' es)) = es"
proof -
  have "split_on (CHR ''/'') (str_join ''/'' es) = es"
    using assms by (intro split_on_join) (auto dest: elem_ok_split)
  then show ?thesis using clean_elems_id [of rooted "[]" es] assms by simp
qed

lemma not_abs_join: "clean_shape rooted es \<Longrightarrow> \<not> is_abs (str_join ''/'' es)"
proof (cases es)
  case (Cons e r)
  assume "clean_shape rooted es"
  with Cons have "e \<noteq> []" "hd e \<noteq> CHR ''/''" by (auto simp: elem_ok_def neq_Nil_conv)
  then have "hd (str_join ''/'' es) = hd e"
    using Cons by (cases r) simp_all
  with \<open>hd e \<noteq> CHR ''/''\<close> \<open>e \<noteq> []\<close> Cons show ?thesis
    by (cases r; cases e) (simp_all add: is_abs_def has_prefix_def)
qed (simp add: is_abs_def has_prefix_def)

definition clean_parts :: "string \<Rightarrow> string list" where
  "clean_parts p = clean_elems (is_abs p) [] (split_on (CHR ''/'') p)"

lemma clean_parts_shape: "clean_shape (is_abs p) (clean_parts p)"
  unfolding clean_parts_def by (rule clean_elems_shape) (simp_all add: split_on_free)

lemma path_clean_parts:
  "path_clean p = (if is_abs p then ''/'' @ str_join ''/'' (clean_parts p)
     else if clean_parts p = [] then dot else str_join ''/'' (clean_parts p))"
proof -
  have "clean_shape r es \<Longrightarrow> es \<noteq> [] \<Longrightarrow> str_join ''/'' es \<noteq> []" for r es
    by (cases es; cases "tl es") (auto simp: elem_ok_def)
  then show ?thesis
    using clean_parts_shape [of p] by (auto simp: path_clean_def clean_parts_def [symmetric] Let_def)
qed

lemma is_abs_clean [simp]: "is_abs (path_clean p) = is_abs p"
  using not_abs_join [OF clean_parts_shape [of p]]
  by (auto simp: path_clean_parts is_abs_def has_prefix_def dot_def)

lemma split_slash_Cons: "split_on c (c # s) = [] # split_on c s"
  by simp

lemma clean_parts_clean [simp]: "clean_parts (path_clean p) = clean_parts p"
proof (cases "clean_parts p = []")
  case True
  have "clean_parts ''/'' = []" "clean_parts ''.'' = []" by code_simp+
  with True show ?thesis by (simp add: path_clean_parts [of p] dot_def)
next
  case False
  have s: "clean_elems (is_abs p) [] (split_on (CHR ''/'') (str_join ''/'' (clean_parts p))) = clean_parts p"
    using clean_elems_split_join [OF clean_parts_shape False] .
  show ?thesis
  proof (cases "is_abs p")
    case True
    have "is_abs (CHR ''/'' # str_join ''/'' (clean_parts p))" by (simp add: is_abs_def has_prefix_def)
    then show ?thesis
      using s True by (simp add: path_clean_parts [of p] clean_parts_def [of "CHR ''/'' # str_join ''/'' (clean_parts p)"])
  next
    case na: False
    have "\<not> is_abs (str_join ''/'' (clean_parts p))" using not_abs_join [OF clean_parts_shape] .
    then show ?thesis
      using s na False by (simp add: path_clean_parts [of p] clean_parts_def [of "str_join ''/'' (clean_parts p)"])
  qed
qed

lemma path_clean_idem [simp]: "path_clean (path_clean p) = path_clean p"
  by (simp add: path_clean_parts [of "path_clean p"]) (simp add: path_clean_parts)

lemma clean_abs_no_dotdot: "is_abs p \<Longrightarrow> dotdot \<notin> set (clean_parts p)"
proof -
  assume "is_abs p"
  then have "clean_shape True (clean_parts p)" using clean_parts_shape [of p] by simp
  then show ?thesis by (cases "clean_parts p") (auto simp: list_all_iff split: if_splits)
qed

end
