(* ===== verification/Go_Url.thy ===== *)
theory Go_Url
  imports Go_Json
begin

section \<open>URLs\<close>

text \<open>
  \<open>url.Parse\<close> of package net/url as far as the code looks at its result: whether the parse
  fails, and the scheme, host, path and query. The user information is checked and dropped.
\<close>

record url =
  u_scheme :: string
  u_opaque :: string
  u_host :: string
  u_path :: string
  u_query :: string

definition is_letter :: "char \<Rightarrow> bool" where
  "is_letter c \<longleftrightarrow> (let n = (of_char c :: nat) in (65 \<le> n \<and> n \<le> 90) \<or> (97 \<le> n \<and> n \<le> 122))"

definition is_alnum :: "char \<Rightarrow> bool" where
  "is_alnum c \<longleftrightarrow> is_letter c \<or> is_digit c"

subsection \<open>Percent escapes\<close>

text \<open>
  In a host only "%25" and escapes of bytes outside ASCII are decoded, and an ASCII byte that
  would have to be escaped is an error.
\<close>

definition host_char :: "char \<Rightarrow> bool" where
  "host_char c \<longleftrightarrow> is_alnum c \<or> \<not> ascii c \<or> c \<in> set ''-_.~!$&()*+,;=:[]<>'' \<union> {CHR 0x22, CHR 0x27}"

fun unescape_url :: "bool \<Rightarrow> string \<Rightarrow> string option" where
  "unescape_url hostm [] = Some []"
| "unescape_url hostm (c # s) =
     (if c = CHR 0x25 then
        (case s of a # b # r \<Rightarrow>
           (case (hex_val a, hex_val b) of
              (Some x, Some y) \<Rightarrow>
                if hostm \<and> x < 8 \<and> \<not> (a = CHR ''2'' \<and> b = CHR ''5'') then None
                else map_option ((#) (char_of (x * 16 + y))) (unescape_url hostm r)
            | _ \<Rightarrow> None)
         | _ \<Rightarrow> None)
      else if hostm \<and> \<not> host_char c then None
      else map_option ((#) c) (unescape_url hostm s))"

subsection \<open>IP literals\<close>

definition ip4_part :: "string \<Rightarrow> bool" where
  "ip4_part s \<longleftrightarrow> s \<noteq> [] \<and> length s \<le> 3 \<and> list_all is_digit s \<and> nat_val s \<le> 255 \<and>
     (length s > 1 \<longrightarrow> hd s \<noteq> CHR ''0'')"

definition is_ip4 :: "string \<Rightarrow> bool" where
  "is_ip4 s \<longleftrightarrow> (let ps = split_on (CHR ''.'') s in length ps = 4 \<and> list_all ip4_part ps)"

definition ip6_group :: "string \<Rightarrow> bool" where
  "ip6_group s \<longleftrightarrow> s \<noteq> [] \<and> length s \<le> 4 \<and> list_all (\<lambda>c. hex_val c \<noteq> None) s"

text \<open>The number of 16-bit groups a list of fields stands for; the last may be an IPv4 address.\<close>

fun ip6_groups :: "bool \<Rightarrow> string list \<Rightarrow> nat option" where
  "ip6_groups tail4 [] = Some 0"
| "ip6_groups tail4 (f # fs) =
     (if ip6_group f then map_option Suc (ip6_groups tail4 fs)
      else if fs = [] \<and> tail4 \<and> is_ip4 f then Some 2 else None)"

definition ip6_side :: "bool \<Rightarrow> string \<Rightarrow> nat option" where
  "ip6_side tail4 s = (if s = [] then Some 0 else ip6_groups tail4 (split_on (CHR '':'') s))"

definition is_ip6 :: "string \<Rightarrow> bool" where
  "is_ip6 s0 =
     (let (s, zone_ok) = (case str_cut (CHR 0x25) s0 of None \<Rightarrow> (s0, True) | Some (a, z) \<Rightarrow> (a, z \<noteq> [])) in
      zone_ok \<and>
      (case str_index s ''::'' of
         None \<Rightarrow> s \<noteq> [] \<and> ip6_side True s = Some 8
       | Some i \<Rightarrow>
           (case (ip6_side False (take i s), ip6_side True (drop (i + 2) s)) of
              (Some a, Some b) \<Rightarrow> a + b < 8
            | _ \<Rightarrow> False)))"

subsection \<open>The parser\<close>

text \<open>The scheme, \<open>None\<close> for a text that starts with a colon.\<close>

fun scan_scheme :: "string \<Rightarrow> string \<Rightarrow> (string \<times> string) option" where
  "scan_scheme acc [] = Some ([], acc)"
| "scan_scheme acc (c # s) =
     (if is_letter c then scan_scheme (acc @ [c]) s
      else if is_digit c \<or> c \<in> set ''+-.'' then
        (if acc = [] then Some ([], acc @ c # s) else scan_scheme (acc @ [c]) s)
      else if c = CHR '':'' then (if acc = [] then None else Some (acc, s))
      else Some ([], acc @ c # s))"

definition valid_port :: "string \<Rightarrow> bool" where
  "valid_port p \<longleftrightarrow> p = [] \<or> (hd p = CHR '':'' \<and> list_all is_digit (tl p))"

definition last_index :: "char \<Rightarrow> string \<Rightarrow> nat option" where
  "last_index c s = (if c \<in> set s then Some (length s - 1 - length (takeWhile (\<lambda>x. x \<noteq> c) (rev s))) else None)"

definition parse_host :: "string \<Rightarrow> string option" where
  "parse_host h =
     (if has_prefix h ''['' then
        (case last_index (CHR '']'') h of
           None \<Rightarrow> None
         | Some i \<Rightarrow>
             if \<not> valid_port (drop (i + 1) h) then None
             else Option.bind (unescape_url True (take i h)) (\<lambda>a.
               Option.bind (unescape_url True (drop i h)) (\<lambda>b.
                 if is_ip6 (tl a) then Some (a @ b) else None)))
      else if length (filter (\<lambda>c. c = CHR '':'') h) > 1 then None
      else if \<not> valid_port (dropWhile (\<lambda>c. c \<noteq> CHR '':'') h) then None
      else unescape_url True h)"

definition userinfo_char :: "char \<Rightarrow> bool" where
  "userinfo_char c \<longleftrightarrow> is_alnum c \<or> c \<in> set ''-._:~!$&()*+,;=%@'' \<union> {CHR 0x27}"

definition parse_authority :: "string \<Rightarrow> string option" where
  "parse_authority a =
     (case last_index (CHR ''@'') a of
        None \<Rightarrow> parse_host a
      | Some i \<Rightarrow>
          Option.bind (parse_host (drop (i + 1) a)) (\<lambda>h.
            if list_all userinfo_char (take i a) \<and> unescape_url False (take i a) \<noteq> None
            then Some h else None))"

definition has_ctl :: "string \<Rightarrow> bool" where
  "has_ctl s \<longleftrightarrow> list_ex (\<lambda>c. let n = (of_char c :: nat) in n < 32 \<or> n = 127) s"

definition cut_at :: "char \<Rightarrow> string \<Rightarrow> string \<times> string" where
  "cut_at c s = (case str_cut c s of None \<Rightarrow> (s, []) | Some (a, b) \<Rightarrow> (a, b))"

definition parse_rest :: "string \<Rightarrow> string \<Rightarrow> string \<Rightarrow> url option" where
  "parse_rest scheme q rest =
     (if \<not> has_prefix rest ''/'' \<and> scheme \<noteq> [] then
        Some \<lparr>u_scheme = scheme, u_opaque = rest, u_host = [], u_path = [], u_query = q\<rparr>
      else if \<not> has_prefix rest ''/'' \<and> CHR '':'' \<in> set (fst (cut_at (CHR ''/'') rest)) then None
      else
        let auth = (scheme \<noteq> [] \<or> \<not> has_prefix rest ''///'') \<and> has_prefix rest ''//'';
            a = (if auth then takeWhile (\<lambda>c. c \<noteq> CHR ''/'') (drop 2 rest) else []);
            p = (if auth then dropWhile (\<lambda>c. c \<noteq> CHR ''/'') (drop 2 rest) else rest) in
        Option.bind (if auth then parse_authority a else Some []) (\<lambda>h.
        Option.bind (unescape_url False p) (\<lambda>path.
          Some \<lparr>u_scheme = scheme, u_opaque = [], u_host = h, u_path = path, u_query = q\<rparr>)))"

definition url_parse :: "string \<Rightarrow> url option" where
  "url_parse raw =
     (let (u, frag) = cut_at (CHR ''#'') raw in
      if has_ctl u then None
      else if u = ''*'' then
        (if unescape_url False frag = None then None
         else Some \<lparr>u_scheme = [], u_opaque = [], u_host = [], u_path = ''*'', u_query = []\<rparr>)
      else Option.bind (scan_scheme [] u) (\<lambda>(scheme, rest).
        let (rest1, q) = cut_at (CHR ''?'') rest in
        Option.bind (parse_rest (map lower_char scheme) q rest1) (\<lambda>r.
          if unescape_url False frag = None then None else Some r)))"

subsection \<open>Host and port\<close>

text \<open>\<open>u.Hostname()\<close> and \<open>u.Port()\<close>.\<close>

definition strip_port :: "string \<Rightarrow> string \<times> string" where
  "strip_port h =
     (case last_index (CHR '':'') h of
        Some i \<Rightarrow> if valid_port (drop i h) then (take i h, drop (i + 1) h) else (h, [])
      | None \<Rightarrow> (h, []))"

definition hostname :: "url \<Rightarrow> string" where
  "hostname u = (let h = fst (strip_port (u_host u)) in
     if has_prefix h ''['' \<and> has_suffix h '']'' then butlast (tl h) else h)"

definition url_port :: "url \<Rightarrow> string" where
  "url_port u = snd (strip_port (u_host u))"

lemma url_parse_demo:
  "map_option (\<lambda>u. (u_scheme u, u_host u, u_path u, u_query u, hostname u, url_port u))
      (url_parse ''HTTPS://user:pw@Example.com:8443/a%20b?q=1#f'') =
     Some (''https'', ''Example.com:8443'', ''/a b'', ''q=1'', ''Example.com'', ''8443'')"
  "map_option (\<lambda>u. (hostname u, url_port u)) (url_parse ''http://[::1]:80/x'') = Some (''::1'', ''80'')"
  "url_parse ''http://a:b/'' = None" "url_parse ''://x'' = None" "url_parse ''http://a b/'' = None"
  "url_parse ''1:2'' = None"
  by code_simp+

end
