(* ===== verification/Go_Encoding.thy ===== *)
theory Go_Encoding
  imports Go_Prelude
begin

section \<open>base64 without padding, URL alphabet\<close>

text \<open>
  \<open>base64.RawURLEncoding\<close>. The decoder skips line breaks, takes four digits at a time and
  ignores the bits of the last digit that no byte needs; one digit left over is an error.
\<close>

definition b64_val :: "char \<Rightarrow> nat option" where
  "b64_val c = (let n = (of_char c :: nat) in
     if 65 \<le> n \<and> n \<le> 90 then Some (n - 65)
     else if 97 \<le> n \<and> n \<le> 122 then Some (n - 71)
     else if 48 \<le> n \<and> n \<le> 57 then Some (n + 4)
     else if c = CHR ''-'' then Some 62 else if c = CHR ''_'' then Some 63 else None)"

definition b64_char :: "nat \<Rightarrow> char" where
  "b64_char v =
     (if v < 26 then char_of (v + 65) else if v < 52 then char_of (v + 71)
      else if v < 62 then char_of (v - 4) else if v = 62 then CHR ''-'' else CHR ''_'')"

fun b64_bytes :: "nat list \<Rightarrow> string option" where
  "b64_bytes [] = Some []"
| "b64_bytes [a] = None"
| "b64_bytes [a, b] = Some [char_of (a * 4 + b div 16)]"
| "b64_bytes [a, b, c] = Some [char_of (a * 4 + b div 16), char_of (b mod 16 * 16 + c div 4)]"
| "b64_bytes (a # b # c # d # r) =
     map_option (\<lambda>t. char_of (a * 4 + b div 16) # char_of (b mod 16 * 16 + c div 4) #
       char_of (c mod 4 * 64 + d) # t) (b64_bytes r)"

definition b64url_decode :: "string \<Rightarrow> string option" where
  "b64url_decode s =
     (let ds = map b64_val (filter (\<lambda>c. c \<noteq> CHR 0x0A \<and> c \<noteq> CHR 0x0D) s) in
      if list_all (\<lambda>d. d \<noteq> None) ds then b64_bytes (map the ds) else None)"

fun b64_digits :: "nat list \<Rightarrow> nat list" where
  "b64_digits [] = []"
| "b64_digits [x] = [x div 4, x mod 4 * 16]"
| "b64_digits [x, y] = [x div 4, x mod 4 * 16 + y div 16, y mod 16 * 4]"
| "b64_digits (x # y # z # r) =
     x div 4 # (x mod 4 * 16 + y div 16) # (y mod 16 * 4 + z div 64) # z mod 64 # b64_digits r"

definition b64url_encode :: "string \<Rightarrow> string" where
  "b64url_encode s = map b64_char (b64_digits (map of_char s))"

lemma b64_val_char: "v < 64 \<Longrightarrow> b64_val (b64_char v) = Some v"
  by (auto simp: b64_val_def b64_char_def Let_def of_char_of)

lemma b64_char_not_break: "b64_char v \<noteq> CHR 0x0A \<and> b64_char v \<noteq> CHR 0x0D"
proof -
  have "v < 26 \<or> (26 \<le> v \<and> v < 52) \<or> (52 \<le> v \<and> v < 62) \<or> 62 \<le> v" by auto
  moreover have "char_of n = CHR 0x0A \<longleftrightarrow> n mod 256 = 10" "char_of n = CHR 0x0D \<longleftrightarrow> n mod 256 = 13" for n :: nat
    by (simp_all add: char_of_eq_iff take_bit_eq_mod)
  ultimately show ?thesis by (auto simp: b64_char_def)
qed

lemma b64_digits_range: "\<forall>x \<in> set xs. x < 256 \<Longrightarrow> d \<in> set (b64_digits xs) \<Longrightarrow> d < 64"
  by (induction xs rule: b64_digits.induct) auto

lemma b64_bytes_digits:
  "\<forall>x \<in> set xs. x < 256 \<Longrightarrow> b64_bytes (b64_digits xs) = Some (map char_of xs)"
proof (induction xs rule: b64_digits.induct)
  case (4 x y z r)
  have "x div 4 * 4 + (x mod 4 * 16 + y div 16) div 16 = x"
    "(x mod 4 * 16 + y div 16) mod 16 * 16 + (y mod 16 * 4 + z div 64) div 4 = y"
    "(y mod 16 * 4 + z div 64) mod 4 * 64 + z mod 64 = z"
    using "4.prems" by auto
  with 4 show ?case by simp
qed auto

lemma b64url_roundtrip: "b64url_decode (b64url_encode s) = Some s"
proof -
  let ?xs = "map of_char s :: nat list"
  have lt: "\<forall>x \<in> set ?xs. x < 256" using nat_of_char_less_256 by auto
  have "filter (\<lambda>c. c \<noteq> CHR 0x0A \<and> c \<noteq> CHR 0x0D) (b64url_encode s) = b64url_encode s"
    using b64_char_not_break by (auto simp: b64url_encode_def filter_id_conv)
  moreover have "map b64_val (b64url_encode s) = map Some (b64_digits ?xs)"
    using b64_digits_range [OF lt] by (auto simp: b64url_encode_def b64_val_char)
  ultimately show ?thesis
    using b64_bytes_digits [OF lt] by (simp add: b64url_decode_def list_all_iff comp_def)
qed

end
