(* ===== verification/Inbound_Auth.thy ===== *)
theory Inbound_Auth
  imports Go_Http Go_Path Go_Url Go_Encoding
begin

section \<open>pkg/inboundauth: the bearer-token middleware\<close>

text \<open>
  The configuration and its defaults (config.go), the denials (errors.go), the verification of
  a token (verify.go) and the middleware (middleware.go). The theory \<open>Key_Source\<close> models the
  shared key cache of keys.go.

  The JOSE library is outside the repository: \<open>jwt_open alg key raw\<close> is its \<open>jwt.Parse\<close>,
  which checks the signature of \<open>raw\<close> under \<open>key\<close> and gives the claims it decodes. Where the
  key comes from is the argument \<open>key_of\<close>, the outcome of \<open>keySource.key\<close> for a key id.
\<close>

subsection \<open>Configuration\<close>

record auth_config =
  ac_issuer :: string
  ac_jwks_url :: string
  ac_audience :: string
  ac_required_scopes :: "string list"
  ac_allowed_callers :: "string list"
  ac_clock_skew :: int
  ac_exempt_paths :: "string list"
  ac_min_refresh :: int

definition default_clock_skew :: int where
  "default_clock_skew = 30 * 1000000000"

definition default_min_refresh :: int where
  "default_min_refresh = 60 * 1000000000"

definition with_defaults :: "auth_config \<Rightarrow> auth_config" where
  "with_defaults c =
     c\<lparr>ac_clock_skew := (if ac_clock_skew c = 0 then default_clock_skew else ac_clock_skew c),
       ac_min_refresh := (if ac_min_refresh c = 0 then default_min_refresh else ac_min_refresh c)\<rparr>"

datatype auth_config_error = IssuerRequired | JwksUrlRequired | JwksUrlNotAbsolute | AudienceRequired

definition validate_auth :: "auth_config \<Rightarrow> auth_config_error option" where
  "validate_auth c =
     (if ac_issuer c = [] then Some IssuerRequired
      else if ac_jwks_url c = [] then Some JwksUrlRequired
      else if (case url_parse (ac_jwks_url c) of
                 None \<Rightarrow> True
               | Some u \<Rightarrow> (u_scheme u \<noteq> ''http'' \<and> u_scheme u \<noteq> ''https'') \<or> u_host u = [])
        then Some JwksUrlNotAbsolute
      else if ac_audience c = [] then Some AudienceRequired
      else None)"

subsection \<open>Denials\<close>

record auth_error =
  ae_status :: int
  ae_code :: string
  ae_desc :: string
  ae_scopes :: "string list"

definition deny :: "int \<Rightarrow> string \<Rightarrow> string \<Rightarrow> auth_error" where
  "deny st code desc = \<lparr>ae_status = st, ae_code = code, ae_desc = desc, ae_scopes = []\<rparr>"

definition err_missing_token :: auth_error where
  "err_missing_token = deny 401 ''missing_token'' ''an Authorization header is required''"
definition err_malformed_authorization :: auth_error where
  "err_malformed_authorization =
     deny 401 ''malformed_authorization'' ''Authorization must be exactly one Bearer token''"
definition err_unsupported_algorithm :: auth_error where
  "err_unsupported_algorithm = deny 401 ''unsupported_algorithm'' ''token algorithm must be ES256 or RS256''"
definition err_invalid_token :: auth_error where
  "err_invalid_token = deny 401 ''invalid_token'' ''token is not valid''"
definition err_token_expired :: auth_error where
  "err_token_expired = deny 401 ''token_expired'' ''token has expired''"
definition err_token_not_yet_valid :: auth_error where
  "err_token_not_yet_valid = deny 401 ''token_not_yet_valid'' ''token is not valid yet''"
definition err_invalid_issuer :: auth_error where
  "err_invalid_issuer = deny 401 ''invalid_issuer'' ''token issuer is not accepted''"
definition err_invalid_audience :: auth_error where
  "err_invalid_audience = deny 403 ''invalid_audience'' ''token audience is not accepted''"
definition err_caller_not_allowed :: auth_error where
  "err_caller_not_allowed = deny 403 ''caller_not_allowed'' ''caller is not allowed''"
definition err_jwks_unavailable :: auth_error where
  "err_jwks_unavailable = deny 503 ''jwks_unavailable'' ''issuer keys are unavailable''"
definition err_insufficient_scope :: "string list \<Rightarrow> auth_error" where
  "err_insufficient_scope scopes =
     \<lparr>ae_status = 403, ae_code = ''insufficient_scope'',
      ae_desc = ''token is missing a required scope'', ae_scopes = scopes\<rparr>"

lemmas auth_errors = err_missing_token_def err_malformed_authorization_def err_unsupported_algorithm_def
  err_invalid_token_def err_token_expired_def err_token_not_yet_valid_def err_invalid_issuer_def
  err_invalid_audience_def err_caller_not_allowed_def err_jwks_unavailable_def err_insufficient_scope_def
  deny_def

definition quoted :: "string \<Rightarrow> string" where
  "quoted s = [CHR 0x22] @ s @ [CHR 0x22]"

definition write_auth_error :: "auth_error \<Rightarrow> http_response" where
  "write_auth_error e =
     (let h = (if ae_status e = 401
               then header_set ''Www-Authenticate''
                 (''Bearer realm='' @ quoted ''docsclaw'' @ '', error='' @ quoted (ae_code e)) []
               else if ae_code e = ''insufficient_scope''
               then header_set ''Www-Authenticate''
                 (''Bearer realm='' @ quoted ''docsclaw'' @ '', error='' @ quoted ''insufficient_scope'' @
                  '', scope='' @ quoted (str_join '' '' (ae_scopes e))) []
               else [])
      in \<lparr>rs_status = ae_status e, rs_headers = header_set ''Content-Type'' ''application/json'' h,
          rs_body = ''{'' @ quoted ''error'' @ '':'' @ json_quote (ae_code e) @ '','' @
            quoted ''error_description'' @ '':'' @ json_quote (ae_desc e) @ ''}'' @ nl\<rparr>)"

subsection \<open>Tokens\<close>

text \<open>What the JOSE library gives for a token; the private claims are decoded JSON.\<close>

record jwt =
  jt_exp :: "int option"
  jt_nbf :: "int option"
  jt_iat :: "int option"
  jt_iss :: "string option"
  jt_aud :: "string list option"
  jt_private :: "(string \<times> json) list"

record claims =
  cl_subject :: string
  cl_issuer :: string
  cl_audience :: "string list"
  cl_azp :: string
  cl_scopes :: "string list"
  cl_expiry :: int
  cl_raw :: "(string \<times> json) list"

text \<open>The two errors of \<open>keySource.key\<close>.\<close>

datatype key_error = KeyUnknown | KeyFetchFailed

definition decode_segment :: "string \<Rightarrow> (string \<times> json) list option" where
  "decode_segment seg =
     (case b64url_decode seg of
        None \<Rightarrow> None
      | Some text \<Rightarrow> (case json_parse text of
            Some (JObj kvs) \<Rightarrow> Some kvs
          | Some JNull \<Rightarrow> Some []
          | _ \<Rightarrow> None))"

text \<open>The private claim \<open>scp\<close> is a text or a list; of a list the entries that are no texts are skipped.\<close>

definition json_strings :: "json list \<Rightarrow> string list" where
  "json_strings xs = concat (map (\<lambda>v. case v of JStr s \<Rightarrow> [s] | _ \<Rightarrow> []) xs)"

definition token_scopes :: "jwt \<Rightarrow> string list" where
  "token_scopes tok =
     (let out = (case get_str ''scope'' (jt_private tok) of Some s \<Rightarrow> str_fields s | None \<Rightarrow> []) in
      case get_str ''scp'' (jt_private tok) of
        Some s \<Rightarrow> out @ str_fields s
      | None \<Rightarrow> (case get_arr ''scp'' (jt_private tok) of
            Some xs \<Rightarrow> out @ json_strings xs
          | None \<Rightarrow> out))"

definition token_caller :: "jwt \<Rightarrow> string" where
  "token_caller tok =
     (let azp = str_or_empty ''azp'' (jt_private tok) in
      if azp \<noteq> [] then azp else str_or_empty ''client_id'' (jt_private tok))"

fun caller_allowed_loop :: "string \<Rightarrow> string list \<Rightarrow> bool" where
  "caller_allowed_loop caller [] = False"
| "caller_allowed_loop caller (entry # rest) =
     (if has_suffix entry ''/''
      then (if has_prefix caller entry then True else caller_allowed_loop caller rest)
      else if caller = entry then True else caller_allowed_loop caller rest)"

definition caller_allowed :: "string \<Rightarrow> string list \<Rightarrow> bool" where
  "caller_allowed caller allowed = (if caller = [] then False else caller_allowed_loop caller allowed)"

fun contains_string :: "string list \<Rightarrow> string \<Rightarrow> bool" where
  "contains_string [] needle = False"
| "contains_string (s # ss) needle = (if s = needle then True else contains_string ss needle)"

fun contains_any :: "string list \<Rightarrow> string list \<Rightarrow> bool" where
  "contains_any haystack [] = False"
| "contains_any haystack (n # ns) =
     (if contains_string haystack n then True else contains_any haystack ns)"

subsection \<open>Verification\<close>

definition verify_claims :: "auth_config \<Rightarrow> int \<Rightarrow> string \<Rightarrow> jwt \<Rightarrow> auth_error + claims" where
  "verify_claims cfg now payload tok =
     (let skew = ac_clock_skew cfg in
      case jt_exp tok of
        None \<Rightarrow> Inl err_invalid_token
      | Some ex \<Rightarrow>
          if now > ex + skew then Inl err_token_expired
          else if (case jt_nbf tok of Some t \<Rightarrow> t > now + skew | None \<Rightarrow> False)
            then Inl err_token_not_yet_valid
          else if (case jt_iat tok of Some t \<Rightarrow> t > now + skew | None \<Rightarrow> False)
            then Inl err_token_not_yet_valid
          else
            let issuer = (case jt_iss tok of Some s \<Rightarrow> s | None \<Rightarrow> []);
                audience = (case jt_aud tok of Some s \<Rightarrow> s | None \<Rightarrow> []) in
            if issuer \<noteq> ac_issuer cfg then Inl err_invalid_issuer
            else if \<not> contains_string audience (ac_audience cfg) then Inl err_invalid_audience
            else
              let scopes = token_scopes tok in
              if length (ac_required_scopes cfg) > 0 \<and> \<not> contains_any scopes (ac_required_scopes cfg)
                then Inl (err_insufficient_scope (ac_required_scopes cfg))
              else
                let azp = token_caller tok in
                if length (ac_allowed_callers cfg) > 0 \<and> \<not> caller_allowed azp (ac_allowed_callers cfg)
                  then Inl err_caller_not_allowed
                else (case decode_segment payload of
                    None \<Rightarrow> Inl err_invalid_token
                  | Some raw \<Rightarrow> Inr \<lparr>cl_subject = str_or_empty ''sub'' raw, cl_issuer = issuer,
                      cl_audience = audience, cl_azp = azp, cl_scopes = scopes, cl_expiry = ex, cl_raw = raw\<rparr>))"

definition verify_token ::
  "(string \<Rightarrow> 'k \<Rightarrow> string \<Rightarrow> jwt option) \<Rightarrow> auth_config \<Rightarrow> (string \<Rightarrow> key_error + 'k) \<Rightarrow> int \<Rightarrow> string \<Rightarrow>
   auth_error + claims" where
  "verify_token jwt_open cfg key_of now raw =
     (let parts = split_on (CHR ''.'') raw in
      if length parts \<noteq> 3 then Inl err_invalid_token
      else (case decode_segment (parts ! 0) of
          None \<Rightarrow> Inl err_invalid_token
        | Some header \<Rightarrow>
            let alg = str_or_empty ''alg'' header in
            if alg \<noteq> ''ES256'' \<and> alg \<noteq> ''RS256'' then Inl err_unsupported_algorithm
            else
              let kid = str_or_empty ''kid'' header in
              if kid = [] then Inl err_invalid_token
              else (case key_of kid of
                  Inl KeyFetchFailed \<Rightarrow> Inl err_jwks_unavailable
                | Inl KeyUnknown \<Rightarrow> Inl err_invalid_token
                | Inr key \<Rightarrow>
                    (case jwt_open alg key raw of
                       None \<Rightarrow> Inl err_invalid_token
                     | Some tok \<Rightarrow> verify_claims cfg now (parts ! 1) tok))))"

subsection \<open>The middleware\<close>

fun is_exempt_loop :: "string \<Rightarrow> string list \<Rightarrow> bool" where
  "is_exempt_loop clean [] = False"
| "is_exempt_loop clean (entry # rest) = (if entry = clean then True else is_exempt_loop clean rest)"

definition is_exempt :: "string \<Rightarrow> string list \<Rightarrow> bool" where
  "is_exempt request_path exempt = is_exempt_loop (path_clean request_path) exempt"

definition parse_bearer :: "string \<Rightarrow> string option" where
  "parse_bearer v =
     (case str_cut (CHR 0x20) (trim_space v) of
        None \<Rightarrow> None
      | Some (scheme, token0) \<Rightarrow>
          if map lower_char scheme \<noteq> ''bearer'' then None
          else let token = trim_space token0 in
            if token = [] \<or> CHR 0x20 \<in> set token \<or> CHR 0x09 \<in> set token then None else Some token)"

text \<open>
  What the middleware does with a request: deny it, or hand a request on. The context holds the
  verified claims.
\<close>

definition auth_decide ::
  "(string \<Rightarrow> 'k \<Rightarrow> string \<Rightarrow> jwt option) \<Rightarrow> auth_config \<Rightarrow> (string \<Rightarrow> key_error + 'k) \<Rightarrow> int \<Rightarrow>
   claims option http_request \<Rightarrow> auth_error + claims option http_request" where
  "auth_decide jwt_open cfg key_of now r =
     (if is_exempt (rq_path r) (ac_exempt_paths cfg)
      then Inr (r\<lparr>rq_headers := header_del ''Authorization'' (rq_headers r)\<rparr>)
      else (case header_values ''Authorization'' (rq_headers r) of
          [] \<Rightarrow> Inl err_missing_token
        | [v] \<Rightarrow>
            (case parse_bearer v of
               None \<Rightarrow> Inl err_malformed_authorization
             | Some token \<Rightarrow>
                 (case verify_token jwt_open cfg key_of now token of
                    Inl e \<Rightarrow> Inl e
                  | Inr c \<Rightarrow> Inr (r\<lparr>rq_headers := header_del ''Authorization'' (rq_headers r),
                      rq_context := Some c\<rparr>)))
        | _ \<Rightarrow> Inl err_malformed_authorization))"

definition auth_handler ::
  "(string \<Rightarrow> 'k \<Rightarrow> string \<Rightarrow> jwt option) \<Rightarrow> auth_config \<Rightarrow> (string \<Rightarrow> key_error + 'k) \<Rightarrow> int \<Rightarrow>
   (claims option http_request \<Rightarrow> 'w \<Rightarrow> http_response \<times> 'w) \<Rightarrow>
   claims option http_request \<Rightarrow> 'w \<Rightarrow> http_response \<times> 'w" where
  "auth_handler jwt_open cfg key_of now next_handler r w =
     (case auth_decide jwt_open cfg key_of now r of
        Inl e \<Rightarrow> (write_auth_error e, w)
      | Inr r1 \<Rightarrow> next_handler r1 w)"

text \<open>\<open>Middleware\<close>: the configuration is completed and checked once, at construction.\<close>

definition auth_middleware ::
  "(string \<Rightarrow> 'k \<Rightarrow> string \<Rightarrow> jwt option) \<Rightarrow> auth_config \<Rightarrow>
   auth_config_error + ((string \<Rightarrow> key_error + 'k) \<Rightarrow> int \<Rightarrow>
     (claims option http_request \<Rightarrow> 'w \<Rightarrow> http_response \<times> 'w) \<Rightarrow>
     claims option http_request \<Rightarrow> 'w \<Rightarrow> http_response \<times> 'w)" where
  "auth_middleware jwt_open cfg0 =
     (let cfg = with_defaults cfg0 in
      case validate_auth cfg of
        Some e \<Rightarrow> Inl e
      | None \<Rightarrow> Inr (auth_handler jwt_open cfg))"

subsection \<open>The policy, stated directly\<close>

lemma contains_string_iff [simp]: "contains_string ss s \<longleftrightarrow> s \<in> set ss"
  by (induction ss) auto

lemma contains_any_iff [simp]: "contains_any hs ns \<longleftrightarrow> set hs \<inter> set ns \<noteq> {}"
  by (induction ns) auto

text \<open>A caller entry covers a caller: as a prefix when it ends in a slash, else as itself.\<close>

definition entry_covers :: "string \<Rightarrow> string \<Rightarrow> bool" where
  "entry_covers entry caller \<longleftrightarrow> (if has_suffix entry ''/'' then has_prefix caller entry else caller = entry)"

lemma caller_allowed_iff [simp]:
  "caller_allowed caller allowed \<longleftrightarrow> caller \<noteq> [] \<and> (\<exists>e \<in> set allowed. entry_covers e caller)"
proof -
  have "caller_allowed_loop caller allowed \<longleftrightarrow> (\<exists>e \<in> set allowed. entry_covers e caller)"
    by (induction allowed) (auto simp: entry_covers_def has_prefix_def split: if_splits)
  then show ?thesis by (simp add: caller_allowed_def)
qed

lemma is_exempt_iff: "is_exempt p ex \<longleftrightarrow> path_clean p \<in> set ex"
proof -
  have "is_exempt_loop c ex \<longleftrightarrow> c \<in> set ex" for c
    by (induction ex) auto
  then show ?thesis by (simp add: is_exempt_def)
qed

text \<open>An entry that is not a cleaned path exempts nothing.\<close>

lemma unclean_entry_never_exempt: "path_clean e \<noteq> e \<Longrightarrow> \<not> is_exempt p [e]"
  by (auto simp: is_exempt_iff)

lemma parse_bearer_Some:
  "parse_bearer v = Some token \<Longrightarrow> token \<noteq> [] \<and> CHR 0x20 \<notin> set token \<and> CHR 0x09 \<notin> set token"
  by (auto simp: parse_bearer_def Let_def split: option.splits prod.splits if_splits)

text \<open>A token that meets the policy of the configuration, signature apart.\<close>

definition meets_policy :: "auth_config \<Rightarrow> int \<Rightarrow> jwt \<Rightarrow> bool" where
  "meets_policy cfg now tok \<longleftrightarrow>
     (\<exists>ex. jt_exp tok = Some ex \<and> now \<le> ex + ac_clock_skew cfg)
     \<and> (\<forall>t. jt_nbf tok = Some t \<or> jt_iat tok = Some t \<longrightarrow> t \<le> now + ac_clock_skew cfg)
     \<and> (case jt_iss tok of Some s \<Rightarrow> s | None \<Rightarrow> []) = ac_issuer cfg
     \<and> (\<exists>as. jt_aud tok = Some as \<and> ac_audience cfg \<in> set as)
     \<and> (ac_required_scopes cfg = [] \<or> set (token_scopes tok) \<inter> set (ac_required_scopes cfg) \<noteq> {})
     \<and> (ac_allowed_callers cfg = [] \<or>
         (token_caller tok \<noteq> [] \<and> (\<exists>e \<in> set (ac_allowed_callers cfg). entry_covers e (token_caller tok))))"

lemma verify_claims_Inr:
  "verify_claims cfg now payload tok = Inr c \<longleftrightarrow>
     meets_policy cfg now tok \<and>
     (\<exists>raw. decode_segment payload = Some raw \<and>
        c = \<lparr>cl_subject = str_or_empty ''sub'' raw, cl_issuer = ac_issuer cfg,
             cl_audience = the (jt_aud tok), cl_azp = token_caller tok, cl_scopes = token_scopes tok,
             cl_expiry = the (jt_exp tok), cl_raw = raw\<rparr>)"
  unfolding verify_claims_def Let_def meets_policy_def
  by (auto split: option.splits)

lemma split_three:
  "length (split_on c s) = 3 \<longleftrightarrow>
     (\<exists>a b d. s = a @ c # b @ c # d \<and> c \<notin> set a \<and> c \<notin> set b \<and> c \<notin> set d)"
proof
  assume "length (split_on c s) = 3"
  then obtain a b d where abd: "split_on c s = [a, b, d]"
    by (auto simp: numeral_3_eq_3 length_Suc_conv)
  then have "s = str_join [c] [a, b, d]" by (metis str_join_split_on)
  moreover have "c \<notin> set a" "c \<notin> set b" "c \<notin> set d"
    using split_on_free [of _ c s] abd by auto
  ultimately show "\<exists>a b d. s = a @ c # b @ c # d \<and> c \<notin> set a \<and> c \<notin> set b \<and> c \<notin> set d"
    by (intro exI [of _ a] exI [of _ b] exI [of _ d]) simp
qed (auto simp: split_on_append split_on_notin)

definition allowed_algs :: "string set" where
  "allowed_algs = {''ES256'', ''RS256''}"

lemma verify_token_Inr:
  "verify_token J cfg key_of now raw = Inr c \<longleftrightarrow>
     (\<exists>h p s header key tok. raw = h @ ''.'' @ p @ ''.'' @ s \<and> CHR ''.'' \<notin> set (h @ p @ s) \<and>
        decode_segment h = Some header \<and> str_or_empty ''alg'' header \<in> allowed_algs \<and>
        str_or_empty ''kid'' header \<noteq> [] \<and> key_of (str_or_empty ''kid'' header) = Inr key \<and>
        J (str_or_empty ''alg'' header) key raw = Some tok \<and> verify_claims cfg now p tok = Inr c)"
  (is "?L = ?R")
proof
  assume L: ?L
  then have "length (split_on (CHR ''.'') raw) = 3"
    by (auto simp: verify_token_def Let_def split: if_splits)
  then obtain h p s where raw: "raw = h @ CHR ''.'' # p @ CHR ''.'' # s"
      "CHR ''.'' \<notin> set h" "CHR ''.'' \<notin> set p" "CHR ''.'' \<notin> set s"
    unfolding split_three by blast
  then have "split_on (CHR ''.'') raw = [h, p, s]" by (simp add: split_on_append split_on_notin)
  with L have "\<exists>header key tok. decode_segment h = Some header \<and> str_or_empty ''alg'' header \<in> allowed_algs \<and>
        str_or_empty ''kid'' header \<noteq> [] \<and> key_of (str_or_empty ''kid'' header) = Inr key \<and>
        J (str_or_empty ''alg'' header) key raw = Some tok \<and> verify_claims cfg now p tok = Inr c"
    by (auto simp: verify_token_def Let_def allowed_algs_def split: option.splits sum.splits if_splits key_error.splits)
  then obtain header key tok where "decode_segment h = Some header \<and> str_or_empty ''alg'' header \<in> allowed_algs \<and>
        str_or_empty ''kid'' header \<noteq> [] \<and> key_of (str_or_empty ''kid'' header) = Inr key \<and>
        J (str_or_empty ''alg'' header) key raw = Some tok \<and> verify_claims cfg now p tok = Inr c" by blast
  then show ?R
    using raw by (intro exI [of _ h] exI [of _ p] exI [of _ s] exI [of _ header] exI [of _ key] exI [of _ tok]) simp
next
  assume ?R
  then obtain h p s header key tok where r: "raw = h @ ''.'' @ p @ ''.'' @ s" "CHR ''.'' \<notin> set (h @ p @ s)"
        "decode_segment h = Some header" "str_or_empty ''alg'' header \<in> allowed_algs"
        "str_or_empty ''kid'' header \<noteq> []" "key_of (str_or_empty ''kid'' header) = Inr key"
        "J (str_or_empty ''alg'' header) key raw = Some tok" "verify_claims cfg now p tok = Inr c" by blast
  then have "split_on (CHR ''.'') raw = [h, p, s]" by (simp add: split_on_append split_on_notin)
  with r show ?L by (auto simp: verify_token_def Let_def allowed_algs_def)
qed

definition denial :: "auth_error \<Rightarrow> bool" where
  "denial e \<longleftrightarrow> ae_status e \<in> {401, 403, 503}"

lemma denials [simp]:
  "denial err_missing_token" "denial err_malformed_authorization" "denial err_unsupported_algorithm"
  "denial err_invalid_token" "denial err_token_expired" "denial err_token_not_yet_valid"
  "denial err_invalid_issuer" "denial err_invalid_audience" "denial err_caller_not_allowed"
  "denial err_jwks_unavailable" "denial (err_insufficient_scope scopes)"
  by (simp_all add: denial_def auth_errors)

lemma verify_claims_denial: "verify_claims cfg now p tok = Inl e \<Longrightarrow> denial e"
  unfolding verify_claims_def Let_def by (auto split: option.splits if_splits)

lemma verify_token_denial: "verify_token J cfg key_of now raw = Inl e \<Longrightarrow> denial e"
  unfolding verify_token_def Let_def
  by (auto split: option.splits sum.splits if_splits key_error.splits dest: verify_claims_denial)

lemma auth_decide_denial: "auth_decide J cfg key_of now r = Inl e \<Longrightarrow> denial e"
  unfolding auth_decide_def
  by (auto split: if_splits list.splits option.splits sum.splits dest: verify_token_denial)

text \<open>
  C10. A token is accepted exactly when it should be: it has three segments, an
  allowed algorithm and a known key id in its header, a signature the JOSE library accepts under
  that key, and claims that meet the configured policy on time, issuer, audience, scope and
  caller; the caller's identity is then what these claims and the payload say.
\<close>

theorem token_accepted_iff:
  "verify_token J cfg key_of now raw = Inr c \<longleftrightarrow>
     (\<exists>h p s header key tok claims. raw = h @ ''.'' @ p @ ''.'' @ s \<and> CHR ''.'' \<notin> set (h @ p @ s) \<and>
        decode_segment h = Some header \<and> str_or_empty ''alg'' header \<in> {''ES256'', ''RS256''} \<and>
        str_or_empty ''kid'' header \<noteq> [] \<and> key_of (str_or_empty ''kid'' header) = Inr key \<and>
        J (str_or_empty ''alg'' header) key raw = Some tok \<and> meets_policy cfg now tok \<and>
        decode_segment p = Some claims \<and>
        c = \<lparr>cl_subject = str_or_empty ''sub'' claims, cl_issuer = ac_issuer cfg,
             cl_audience = the (jt_aud tok), cl_azp = token_caller tok, cl_scopes = token_scopes tok,
             cl_expiry = the (jt_exp tok), cl_raw = claims\<rparr>)"
  unfolding verify_token_Inr verify_claims_Inr allowed_algs_def by blast

text \<open>
  C9. The middleware fails closed and hides the token: a denied request gets a
  401, 403 or 503 and never reaches the handler; a request that reaches it carries no
  Authorization header, and unless its path is exempt its context holds the claims of a token
  that was verified and came from the only Authorization header.
\<close>

theorem auth_fails_closed:
  "case auth_decide J cfg key_of now r of
     Inl e \<Rightarrow> auth_handler J cfg key_of now handler r w = (write_auth_error e, w)
       \<and> rs_status (write_auth_error e) \<in> {401, 403, 503}
   | Inr r1 \<Rightarrow> auth_handler J cfg key_of now handler r w = handler r1 w
       \<and> header_values ''Authorization'' (rq_headers r1) = []
       \<and> (if path_clean (rq_path r) \<in> set (ac_exempt_paths cfg) then rq_context r1 = rq_context r
          else \<exists>v token c. header_values ''Authorization'' (rq_headers r) = [v]
             \<and> parse_bearer v = Some token \<and> verify_token J cfg key_of now token = Inr c
             \<and> rq_context r1 = Some c)"
proof (cases "auth_decide J cfg key_of now r")
  case (Inl e)
  have "rs_status (write_auth_error e) = ae_status e" by (simp add: write_auth_error_def Let_def)
  with Inl auth_decide_denial [OF Inl] show ?thesis by (simp add: auth_handler_def denial_def)
next
  case (Inr r1)
  then show ?thesis
    by (auto simp: auth_handler_def auth_decide_def is_exempt_iff
        split: if_splits list.splits option.splits sum.splits)
qed


text \<open>A token of a toy JOSE library that accepts the signature "sig".\<close>

definition demo_cfg :: auth_config where
  "demo_cfg = \<lparr>ac_issuer = ''iss'', ac_jwks_url = ''https://iss/keys'', ac_audience = ''me'',
     ac_required_scopes = [''run''], ac_allowed_callers = [''spiffe://x/''], ac_clock_skew = 0,
     ac_exempt_paths = [''/health''], ac_min_refresh = 0\<rparr>"

definition demo_header :: string where
  "demo_header = json_text (\<lambda>_. []) (JObj [(''alg'', JStr ''ES256''), (''kid'', JStr ''k1'')])"

definition demo_token :: string where
  "demo_token = b64url_encode demo_header @ ''.'' @ b64url_encode (json_text (\<lambda>_. []) (JObj [(''sub'', JStr ''alice'')])) @ ''.sig''"

definition demo_jwt :: jwt where
  "demo_jwt = \<lparr>jt_exp = Some 100, jt_nbf = None, jt_iat = Some 5, jt_iss = Some ''iss'', jt_aud = Some [''me''],
     jt_private = [(''scope'', JStr ''read run''), (''azp'', JStr ''spiffe://x/agent'')]\<rparr>"

definition demo_open :: "string \<Rightarrow> nat \<Rightarrow> string \<Rightarrow> jwt option" where
  "demo_open alg key raw = (if key = 7 \<and> has_suffix raw ''.sig'' then Some demo_jwt else None)"

lemma verify_token_demo:
  "map_sum ae_code cl_subject (verify_token demo_open demo_cfg (\<lambda>kid. if kid = ''k1'' then Inr 7 else Inl KeyUnknown) 50 demo_token) = Inr ''alice''"
  "map_sum ae_code cl_subject (verify_token demo_open demo_cfg (\<lambda>kid. Inl KeyFetchFailed) 50 demo_token) = Inl ''jwks_unavailable''"
  "map_sum ae_code cl_subject (verify_token demo_open demo_cfg (\<lambda>kid. Inr 7) (10 ^ 12) demo_token) = Inl ''token_expired''"
  by code_simp+

lemma validate_demo:
  "validate_auth (with_defaults demo_cfg) = None"
  "validate_auth (demo_cfg\<lparr>ac_jwks_url := ''ftp://x''\<rparr>) = Some JwksUrlNotAbsolute"
  by code_simp+

end
