(* ===== verification/Key_Source.thy ===== *)
theory Key_Source
  imports Inbound_Auth
begin

section \<open>pkg/inboundauth/keys.go: the shared key cache\<close>

text \<open>
  \<open>keySource.key\<close> runs in many requests at once. It holds the mutex around each of its steps
  and not across the network call or the wait, so the model has one atomic operation for every
  stretch between them: \<open>key_enter\<close>, \<open>key_fetched\<close>, \<open>key_woken\<close>, and the return of a
  cancelled waiter. A request is in one of the places of \<open>caller\<close>; the system of all requests
  and the cache is the step relation \<open>key_step\<close>, whose reachable states are all interleavings.

  The channel \<open>refreshDone\<close> of the n-th refresh is the number n; it is closed unless that
  refresh is still running. \<open>lastErr\<close> matters only as nil or not.
\<close>

record 'k key_source =
  ks_keys :: "(string \<times> 'k) list"
  ks_attempted :: bool
  ks_last_fetch :: int
  ks_last_err :: bool
  ks_refreshing :: bool
  ks_refresh_done :: nat

definition new_key_source :: "'k key_source" where
  "new_key_source = \<lparr>ks_keys = [], ks_attempted = False, ks_last_fetch = 0, ks_last_err = False,
     ks_refreshing = False, ks_refresh_done = 0\<rparr>"

subsection \<open>Fetching\<close>

text \<open>
  \<open>jwk_parse\<close> is the parser of the JOSE library: the keys of a set with their ids. The keys of
  the answer without an id are skipped, of two with the same id the last stays.
\<close>

definition keys_of_set :: "(string option \<times> 'k) list \<Rightarrow> (string \<times> 'k) list" where
  "keys_of_set entries =
     of_pairs (concat (map (\<lambda>(kid, key). case kid of Some k \<Rightarrow> if k = [] then [] else [(k, key)] | None \<Rightarrow> []) entries))"

definition fetch_keys ::
  "(string \<Rightarrow> (string option \<times> 'k) list option) \<Rightarrow> http_result \<Rightarrow> (string \<times> 'k) list option" where
  "fetch_keys jwk_parse r =
     (case r of
        HttpFailed _ \<Rightarrow> None
      | HttpReply st _ _ \<Rightarrow> if st \<noteq> 200 then None
          else (case read_limited (2 ^ 20) r of Inl _ \<Rightarrow> None
             | Inr body \<Rightarrow> map_option keys_of_set (jwk_parse body))
      | HttpBroken st _ _ _ \<Rightarrow> if st \<noteq> 200 then None
          else (case read_limited (2 ^ 20) r of Inl _ \<Rightarrow> None
             | Inr body \<Rightarrow> map_option keys_of_set (jwk_parse body)))"

subsection \<open>The stretches of the function\<close>

datatype 'k caller =
    Calling string
  | Fetching string
  | Waiting string nat
  | Returned string "key_error + 'k"

text \<open>What a caller returns when the key is not in the cache after a refresh.\<close>

definition missing :: "'k key_source \<Rightarrow> key_error + 'k" where
  "missing ks = Inl (if ks_last_err ks then KeyFetchFailed else KeyUnknown)"

definition key_enter :: "auth_config \<Rightarrow> int \<Rightarrow> string \<Rightarrow> 'k key_source \<Rightarrow> 'k caller \<times> 'k key_source" where
  "key_enter cfg now kid ks =
     (case map_of (ks_keys ks) kid of
        Some key \<Rightarrow> (Returned kid (Inr key), ks)
      | None \<Rightarrow>
          if ks_attempted ks \<and> now - ks_last_fetch ks < ac_min_refresh cfg
          then (Returned kid (missing ks), ks)
          else if ks_refreshing ks then (Waiting kid (ks_refresh_done ks), ks)
          else (Fetching kid,
                ks\<lparr>ks_refreshing := True, ks_attempted := True, ks_last_fetch := now,
                   ks_refresh_done := Suc (ks_refresh_done ks)\<rparr>))"

definition key_fetched :: "string \<Rightarrow> (string \<times> 'k) list option \<Rightarrow> 'k key_source \<Rightarrow> 'k caller \<times> 'k key_source" where
  "key_fetched kid result ks =
     (case result of
        Some keys \<Rightarrow>
          (Returned kid (case map_of keys kid of Some key \<Rightarrow> Inr key | None \<Rightarrow> Inl KeyUnknown),
           ks\<lparr>ks_keys := keys, ks_last_err := False, ks_refreshing := False\<rparr>)
      | None \<Rightarrow>
          (Returned kid (Inl KeyFetchFailed),
           ks\<lparr>ks_last_err := True, ks_refreshing := False\<rparr>))"

definition key_woken :: "string \<Rightarrow> 'k key_source \<Rightarrow> 'k caller" where
  "key_woken kid ks =
     (case map_of (ks_keys ks) kid of
        Some key \<Rightarrow> Returned kid (Inr key)
      | None \<Rightarrow> Returned kid (missing ks))"

definition channel_closed :: "'k key_source \<Rightarrow> nat \<Rightarrow> bool" where
  "channel_closed ks n \<longleftrightarrow> \<not> (ks_refreshing ks \<and> ks_refresh_done ks = n)"

text \<open>A lone request: the whole function without interference, with the result its fetch would have.\<close>

definition key_alone ::
  "auth_config \<Rightarrow> int \<Rightarrow> string \<Rightarrow> (string \<times> 'k) list option \<Rightarrow> 'k key_source \<Rightarrow>
   (key_error + 'k) option \<times> 'k key_source" where
  "key_alone cfg now kid result ks =
     (case key_enter cfg now kid ks of
        (Returned _ r, ks1) \<Rightarrow> (Some r, ks1)
      | (Fetching _, ks1) \<Rightarrow>
          (case key_fetched kid result ks1 of (Returned _ r, ks2) \<Rightarrow> (Some r, ks2) | (_, ks2) \<Rightarrow> (None, ks2))
      | (_, ks1) \<Rightarrow> (None, ks1))"

subsection \<open>All requests together\<close>

text \<open>
  \<open>sys_starts\<close> and \<open>sys_fetched\<close> record, newest first, when refreshes started and what the
  successful ones brought; the code keeps no such record.
\<close>

record 'k key_system =
  sys_ks :: "'k key_source"
  sys_callers :: "nat \<Rightarrow> 'k caller option"
  sys_now :: int
  sys_starts :: "int list"
  sys_fetched :: "(string \<times> 'k) list list"

definition key_init :: "int \<Rightarrow> 'k key_system" where
  "key_init now = \<lparr>sys_ks = new_key_source, sys_callers = (\<lambda>_. None), sys_now = now,
     sys_starts = [], sys_fetched = []\<rparr>"

inductive key_step :: "auth_config \<Rightarrow> 'k key_system \<Rightarrow> 'k key_system \<Rightarrow> bool" for cfg where
  arrive: "sys_callers s i = None \<Longrightarrow>
    key_step cfg s (s\<lparr>sys_callers := (sys_callers s)(i \<mapsto> Calling kid)\<rparr>)"
| tick: "sys_now s \<le> t \<Longrightarrow> key_step cfg s (s\<lparr>sys_now := t\<rparr>)"
| enter: "sys_callers s i = Some (Calling kid) \<Longrightarrow> key_enter cfg (sys_now s) kid (sys_ks s) = (c, ks) \<Longrightarrow>
    key_step cfg s (s\<lparr>sys_ks := ks, sys_callers := (sys_callers s)(i \<mapsto> c),
      sys_starts := (case c of Fetching _ \<Rightarrow> sys_now s # sys_starts s | _ \<Rightarrow> sys_starts s)\<rparr>)"
| fetched: "sys_callers s i = Some (Fetching kid) \<Longrightarrow> key_fetched kid result (sys_ks s) = (c, ks) \<Longrightarrow>
    key_step cfg s (s\<lparr>sys_ks := ks, sys_callers := (sys_callers s)(i \<mapsto> c),
      sys_fetched := (case result of Some keys \<Rightarrow> keys # sys_fetched s | None \<Rightarrow> sys_fetched s)\<rparr>)"
| woken: "sys_callers s i = Some (Waiting kid n) \<Longrightarrow> channel_closed (sys_ks s) n \<Longrightarrow>
    key_step cfg s (s\<lparr>sys_callers := (sys_callers s)(i \<mapsto> key_woken kid (sys_ks s))\<rparr>)"
| cancelled: "sys_callers s i = Some (Waiting kid n) \<Longrightarrow>
    key_step cfg s (s\<lparr>sys_callers := (sys_callers s)(i \<mapsto> Returned kid (Inl KeyFetchFailed))\<rparr>)"

inductive key_reachable :: "auth_config \<Rightarrow> 'k key_system \<Rightarrow> bool" for cfg where
  init: "key_reachable cfg (key_init now)"
| step: "key_reachable cfg s \<Longrightarrow> key_step cfg s s' \<Longrightarrow> key_reachable cfg s'"

inductive_cases key_stepE: "key_step cfg s s'"

subsection \<open>The invariant\<close>

definition is_fetching :: "'k key_system \<Rightarrow> nat \<Rightarrow> bool" where
  "is_fetching s i \<longleftrightarrow> (\<exists>kid. sys_callers s i = Some (Fetching kid))"

text \<open>Refreshes start at least \<open>d\<close> apart (the list is newest first).\<close>

fun spaced :: "int \<Rightarrow> int list \<Rightarrow> bool" where
  "spaced d (t # t' # ts) = (d \<le> t - t' \<and> spaced d (t' # ts))"
| "spaced d ts = True"

text \<open>One refresh at a time, and a caller is fetching exactly while one runs.\<close>

definition single_flight :: "'k key_system \<Rightarrow> bool" where
  "single_flight s \<longleftrightarrow> (ks_refreshing (sys_ks s) \<longleftrightarrow> (\<exists>i. is_fetching s i))
     \<and> (\<forall>i j. is_fetching s i \<longrightarrow> is_fetching s j \<longrightarrow> i = j)"

definition starts_ok :: "auth_config \<Rightarrow> 'k key_system \<Rightarrow> bool" where
  "starts_ok cfg s \<longleftrightarrow> spaced (ac_min_refresh cfg) (sys_starts s)
     \<and> (ks_attempted (sys_ks s) \<longleftrightarrow> sys_starts s \<noteq> [])
     \<and> (sys_starts s \<noteq> [] \<longrightarrow> ks_last_fetch (sys_ks s) = hd (sys_starts s))"

text \<open>Every key of the cache, and every key a caller got, came from the issuer under its id.\<close>

definition fetched_key :: "'k key_system \<Rightarrow> string \<Rightarrow> 'k \<Rightarrow> bool" where
  "fetched_key s kid key \<longleftrightarrow> (\<exists>m \<in> set (sys_fetched s). map_of m kid = Some key)"

definition keys_ok :: "'k key_system \<Rightarrow> bool" where
  "keys_ok s \<longleftrightarrow> (\<forall>kid key. map_of (ks_keys (sys_ks s)) kid = Some key \<longrightarrow> fetched_key s kid key)
     \<and> (\<forall>i kid key. sys_callers s i = Some (Returned kid (Inr key)) \<longrightarrow> fetched_key s kid key)"

lemma key_enter_cases:
  obtains (hit) key where "map_of (ks_keys ks) kid = Some key" "key_enter cfg now kid ks = (Returned kid (Inr key), ks)"
  | (limited) "map_of (ks_keys ks) kid = None" "ks_attempted ks" "now - ks_last_fetch ks < ac_min_refresh cfg"
      "key_enter cfg now kid ks = (Returned kid (missing ks), ks)"
  | (waits) "map_of (ks_keys ks) kid = None" "ks_refreshing ks"
      "key_enter cfg now kid ks = (Waiting kid (ks_refresh_done ks), ks)"
  | (starts) "map_of (ks_keys ks) kid = None" "\<not> ks_refreshing ks"
      "\<not> (ks_attempted ks \<and> now - ks_last_fetch ks < ac_min_refresh cfg)"
      "key_enter cfg now kid ks = (Fetching kid, ks\<lparr>ks_refreshing := True, ks_attempted := True,
         ks_last_fetch := now, ks_refresh_done := Suc (ks_refresh_done ks)\<rparr>)"
proof (cases "map_of (ks_keys ks) kid")
  case (Some key)
  then show ?thesis by (intro hit) (simp_all add: key_enter_def)
next
  case None
  consider "ks_attempted ks" "now - ks_last_fetch ks < ac_min_refresh cfg"
    | "\<not> (ks_attempted ks \<and> now - ks_last_fetch ks < ac_min_refresh cfg)" "ks_refreshing ks"
    | "\<not> (ks_attempted ks \<and> now - ks_last_fetch ks < ac_min_refresh cfg)" "\<not> ks_refreshing ks" by blast
  then show ?thesis
  proof cases
    case 1 with None show ?thesis by (intro limited) (simp_all add: key_enter_def)
  next
    case 2 with None show ?thesis by (intro waits) (auto simp: key_enter_def)
  next
    case 3 with None show ?thesis by (intro starts) (auto simp: key_enter_def)
  qed
qed

lemma missing_not_key [simp]: "missing ks \<noteq> Inr key"
  by (simp add: missing_def)

lemma is_fetching_update:
  "sys_callers s' = (sys_callers s)(i \<mapsto> c) \<Longrightarrow>
   is_fetching s' j \<longleftrightarrow> (if j = i then \<exists>kid. c = Fetching kid else is_fetching s j)"
  by (auto simp: is_fetching_def)

text \<open>A step of a caller that neither starts nor ends a refresh.\<close>

lemma single_flight_quiet:
  assumes "single_flight s" "sys_callers s' = (sys_callers s)(i \<mapsto> c)" "\<not> is_fetching s i"
    "\<forall>kid. c \<noteq> Fetching kid" "ks_refreshing (sys_ks s') = ks_refreshing (sys_ks s)"
  shows "single_flight s'"
proof -
  have "is_fetching s' j = is_fetching s j" for j
    using is_fetching_update [OF assms(2), of j] assms(3,4) by auto
  then show ?thesis using assms(1,5) by (simp add: single_flight_def)
qed

lemma single_flight_step:
  assumes "key_step cfg s s'" "single_flight s"
  shows "single_flight s'"
  using assms(1)
proof cases
  case (arrive i kid)
  then show ?thesis
    using assms(2) by (intro single_flight_quiet [of s s' i]) (auto simp: is_fetching_def)
next
  case (tick t)
  then show ?thesis using assms(2) by (simp add: single_flight_def is_fetching_def)
next
  case (enter i kid c ks)
  have nf: "\<not> is_fetching s i" using enter by (simp add: is_fetching_def)
  show ?thesis
  proof (rule key_enter_cases [of "sys_ks s" kid cfg "sys_now s"])
    assume st: "\<not> ks_refreshing (sys_ks s)" "key_enter cfg (sys_now s) kid (sys_ks s) =
        (Fetching kid, (sys_ks s)\<lparr>ks_refreshing := True, ks_attempted := True,
          ks_last_fetch := sys_now s, ks_refresh_done := Suc (ks_refresh_done (sys_ks s))\<rparr>)"
    then have none: "\<not> is_fetching s j" for j using assms(2) by (simp add: single_flight_def)
    have "is_fetching s' j \<longleftrightarrow> j = i" for j
      using is_fetching_update [of s' s i c j] enter st none by auto
    then show ?thesis using enter st by (auto simp: single_flight_def)
  qed (use enter nf assms(2) in \<open>(intro single_flight_quiet [of s s' i c]; auto)+\<close>)
next
  case (fetched i kid result c ks)
  then have ks: "ks_refreshing ks = False" "\<And>k. c \<noteq> Fetching k"
    by (auto simp: key_fetched_def split: option.splits)
  have "is_fetching s i" using fetched by (simp add: is_fetching_def)
  then have "is_fetching s j \<Longrightarrow> j = i" for j
    using assms(2) by (auto simp: single_flight_def)
  then have "\<not> is_fetching s' j" for j
    using is_fetching_update [of s' s i c j] fetched ks by auto
  then show ?thesis using fetched ks by (simp add: single_flight_def)
next
  case (woken i kid n)
  have "\<forall>k. key_woken kid (sys_ks s) \<noteq> Fetching k" by (simp add: key_woken_def split: option.splits)
  with woken assms(2) show ?thesis
    by (intro single_flight_quiet [of s s' i]) (auto simp: is_fetching_def)
next
  case (cancelled i kid n)
  with assms(2) show ?thesis
    by (intro single_flight_quiet [of s s' i]) (auto simp: is_fetching_def)
qed

lemma starts_ok_step:
  assumes "key_step cfg s s'" "starts_ok cfg s"
  shows "starts_ok cfg s'"
  using assms(1)
proof cases
  case (enter i kid c ks)
  show ?thesis
  proof (rule key_enter_cases [of "sys_ks s" kid cfg "sys_now s"])
    assume "\<not> (ks_attempted (sys_ks s) \<and> sys_now s - ks_last_fetch (sys_ks s) < ac_min_refresh cfg)"
      "key_enter cfg (sys_now s) kid (sys_ks s) = (Fetching kid, (sys_ks s)\<lparr>ks_refreshing := True,
         ks_attempted := True, ks_last_fetch := sys_now s, ks_refresh_done := Suc (ks_refresh_done (sys_ks s))\<rparr>)"
    then show ?thesis
      using enter assms(2) by (cases "sys_starts s") (auto simp: starts_ok_def)
  qed (use enter assms(2) in \<open>auto simp: starts_ok_def\<close>)
next
  case (fetched i kid result c ks)
  then show ?thesis
    using assms(2) by (auto simp: starts_ok_def key_fetched_def split: option.splits)
qed (use assms(2) in \<open>auto simp: starts_ok_def\<close>)

lemma keys_ok_step:
  assumes "key_step cfg s s'" "keys_ok s"
  shows "keys_ok s'"
  using assms(1)
proof cases
  case (enter i kid c ks)
  then show ?thesis
    using assms(2)
    by (rule_tac key_enter_cases [of "sys_ks s" kid cfg "sys_now s"])
      (auto simp: keys_ok_def fetched_key_def split: if_splits)
next
  case (fetched i kid result c ks)
  then show ?thesis
    using assms(2)
    by (cases result) (auto simp: keys_ok_def fetched_key_def key_fetched_def split: if_splits option.splits)
next
  case (woken i kid n)
  then show ?thesis
    using assms(2) by (auto simp: keys_ok_def fetched_key_def key_woken_def split: if_splits option.splits)
qed (use assms(2) in \<open>auto simp: keys_ok_def fetched_key_def split: if_splits\<close>)

lemma key_reachable_inv:
  "key_reachable cfg s \<Longrightarrow> single_flight s \<and> starts_ok cfg s \<and> keys_ok s"
proof (induction rule: key_reachable.induct)
  case (init now)
  then show ?case
    by (simp add: key_init_def new_key_source_def single_flight_def is_fetching_def starts_ok_def keys_ok_def)
next
  case (step s s')
  then show ?case using single_flight_step starts_ok_step keys_ok_step by blast
qed

subsection \<open>Properties of the key cache\<close>

lemma key_enter_young:
  assumes "ks_attempted ks" "now - ks_last_fetch ks < ac_min_refresh cfg"
  shows "key_enter cfg now kid ks =
    (Returned kid (case map_of (ks_keys ks) kid of Some key \<Rightarrow> Inr key | None \<Rightarrow> missing ks), ks)"
  using assms by (simp add: key_enter_def split: option.splits)

text \<open>A lone request of a cache without a running refresh always returns.\<close>

lemma key_alone_returns: "\<not> ks_refreshing ks \<Longrightarrow> \<exists>r. fst (key_alone cfg now kid result ks) = Some r"
  by (rule key_enter_cases [of ks kid cfg now])
    (simp_all add: key_alone_def key_fetched_def split: option.splits)

text \<open>Two requests: the first starts the first refresh, the second arrives while it runs.\<close>

definition race_state :: "auth_config \<Rightarrow> nat key_system" where
  "race_state cfg = \<lparr>
     sys_ks = \<lparr>ks_keys = [], ks_attempted = True, ks_last_fetch = 5, ks_last_err = False,
       ks_refreshing = True, ks_refresh_done = 1\<rparr>,
     sys_callers = (\<lambda>_. None)(0 \<mapsto> Fetching ''k'', 1 \<mapsto> Returned ''k'' (Inl KeyUnknown)),
     sys_now = 5, sys_starts = [5], sys_fetched = []\<rparr>"

definition race_done :: "auth_config \<Rightarrow> nat key_system" where
  "race_done cfg = \<lparr>
     sys_ks = \<lparr>ks_keys = [(''k'', 7)], ks_attempted = True, ks_last_fetch = 5, ks_last_err = False,
       ks_refreshing = False, ks_refresh_done = 1\<rparr>,
     sys_callers = (\<lambda>_. None)(0 \<mapsto> Returned ''k'' (Inr 7), 1 \<mapsto> Returned ''k'' (Inl KeyUnknown)),
     sys_now = 5, sys_starts = [5], sys_fetched = [[(''k'', 7)]]\<rparr>"

lemma race_reachable:
  assumes "0 < ac_min_refresh cfg"
  shows "key_reachable cfg (race_state cfg)"
proof -
  let ?s0 = "key_init 5 :: nat key_system"
  let ?s1 = "?s0\<lparr>sys_callers := (sys_callers ?s0)(0 \<mapsto> Calling ''k'')\<rparr>"
  let ?s2 = "?s1\<lparr>sys_callers := (sys_callers ?s1)(1 \<mapsto> Calling ''k'')\<rparr>"
  let ?s3 = "?s2\<lparr>sys_ks := snd (key_enter cfg 5 ''k'' (sys_ks ?s2)),
      sys_callers := (sys_callers ?s2)(0 \<mapsto> Fetching ''k''), sys_starts := [5]\<rparr>"
  have r1: "key_reachable cfg ?s1"
    by (rule key_reachable.step [OF key_reachable.init], rule key_step.arrive) (simp add: key_init_def)
  have r2: "key_reachable cfg ?s2"
    by (rule key_reachable.step [OF r1], rule key_step.arrive) (simp add: key_init_def)
  have e2: "key_enter cfg (sys_now ?s2) ''k'' (sys_ks ?s2) = (Fetching ''k'', snd (key_enter cfg 5 ''k'' (sys_ks ?s2)))"
    by (simp add: key_enter_def key_init_def new_key_source_def)
  have r3: "key_reachable cfg ?s3"
    using key_reachable.step [OF r2 key_step.enter [where i = 0, OF _ e2]] by (simp add: key_init_def fun_upd_twist)
  have "sys_callers ?s3 1 = Some (Calling ''k'')" by (simp add: key_init_def)
  moreover have "key_enter cfg (sys_now ?s3) ''k'' (sys_ks ?s3) = (Returned ''k'' (Inl KeyUnknown), sys_ks ?s3)"
    using assms by (simp add: key_enter_def key_init_def new_key_source_def missing_def)
  ultimately have "key_reachable cfg (?s3\<lparr>sys_ks := sys_ks ?s3,
      sys_callers := (sys_callers ?s3)(1 \<mapsto> Returned ''k'' (Inl KeyUnknown)), sys_starts := [5]\<rparr>)"
    using key_reachable.step [OF r3 key_step.enter] by fastforce
  then show ?thesis
    by (simp add: race_state_def key_init_def key_enter_def new_key_source_def)
qed

lemma race_step: "key_step cfg (race_state cfg) (race_done cfg)"
proof -
  have "key_fetched ''k'' (Some [(''k'', 7)]) (sys_ks (race_state cfg)) =
      (Returned ''k'' (Inr 7), sys_ks (race_done cfg))"
    by (simp add: key_fetched_def race_state_def race_done_def)
  from key_step.fetched [of "race_state cfg" 0 "''k''", OF _ this]
  show ?thesis by (simp add: race_state_def race_done_def fun_upd_twist)
qed

text \<open>
  C11. However requests interleave, the key cache refreshes with discipline: refreshes
  start at least \<open>MinRefreshInterval\<close> apart, at most one request fetches at a time, and no
  request hangs: one that waits either can go on or waits for a request that is fetching.
\<close>

theorem key_refresh_discipline:
  assumes "key_reachable cfg s"
  shows "spaced (ac_min_refresh cfg) (sys_starts s)
    \<and> (\<forall>i j. is_fetching s i \<and> is_fetching s j \<longrightarrow> i = j)
    \<and> (\<forall>i kid n. sys_callers s i = Some (Waiting kid n) \<longrightarrow>
         channel_closed (sys_ks s) n \<or> (\<exists>j. is_fetching s j))"
  using key_reachable_inv [OF assms] unfolding single_flight_def starts_ok_def channel_closed_def by blast

theorem key_refresh_discipline_witness:
  "{j. is_fetching (race_state (with_defaults demo_cfg)) j} = {0}"
proof -
  have "key_reachable (with_defaults demo_cfg) (race_state (with_defaults demo_cfg))"
    by (rule race_reachable) (simp add: with_defaults_def demo_cfg_def default_min_refresh_def)
  from key_refresh_discipline [OF this]
  have "\<forall>i j. is_fetching (race_state (with_defaults demo_cfg)) i \<and> is_fetching (race_state (with_defaults demo_cfg)) j \<longrightarrow> i = j"
    by blast
  moreover have "is_fetching (race_state (with_defaults demo_cfg)) 0" by (simp add: is_fetching_def race_state_def)
  ultimately show ?thesis by blast
qed

text \<open>
  C12. Keys come from the issuer only: whatever the interleaving and the failures
  of fetches, a request gets a key for its key id only if a successful fetch brought that key
  under that id.
\<close>

theorem keys_come_from_issuer:
  assumes "key_reachable cfg s" "sys_callers s i = Some (Returned kid (Inr key))"
  shows "\<exists>m \<in> set (sys_fetched s). map_of m kid = Some key"
  using key_reachable_inv [OF assms(1)] assms(2) unfolding keys_ok_def fetched_key_def by blast

theorem keys_come_from_issuer_witness:
  "\<exists>m \<in> set (sys_fetched (race_done (with_defaults demo_cfg))). map_of m ''k'' = Some 7"
proof -
  have "key_reachable (with_defaults demo_cfg) (race_state (with_defaults demo_cfg))"
    by (rule race_reachable) (simp add: with_defaults_def demo_cfg_def default_min_refresh_def)
  then have r: "key_reachable (with_defaults demo_cfg) (race_done (with_defaults demo_cfg))"
    using race_step by (rule key_reachable.step)
  have "sys_callers (race_done (with_defaults demo_cfg)) 0 = Some (Returned ''k'' (Inr 7))"
    by (simp add: race_done_def)
  from keys_come_from_issuer [OF r this] show ?thesis .
qed

text \<open>
  A request that arrives while the first refresh runs does not wait for it
  but is told the key is unknown, and so denied as an invalid token, although the refresh then
  brings the key: the check of the rate limit comes before the check for a running refresh, and the
  attempt it looks at is the running one.
\<close>

lemma early_requests_denied:
  assumes "0 < ac_min_refresh cfg"
  shows "\<exists>(s :: nat key_system) s'. key_reachable cfg s \<and> key_step cfg s s' \<and>
    ks_refreshing (sys_ks s) \<and> sys_callers s 0 = Some (Fetching ''k'') \<and>
    sys_callers s 1 = Some (Returned ''k'' (Inl KeyUnknown)) \<and>
    sys_callers s' 0 = Some (Returned ''k'' (Inr 7))"
proof (intro exI conjI)
  show "key_reachable cfg (race_state cfg)" by (rule race_reachable [OF assms])
  show "key_step cfg (race_state cfg) (race_done cfg)" by (rule race_step)
qed (simp_all add: race_state_def race_done_def)

lemma early_requests_denied_witness:
  "\<exists>(s :: nat key_system) s'. key_reachable (with_defaults demo_cfg) s \<and> key_step (with_defaults demo_cfg) s s' \<and>
    ks_refreshing (sys_ks s) \<and> sys_callers s 0 = Some (Fetching ''k'') \<and>
    sys_callers s 1 = Some (Returned ''k'' (Inl KeyUnknown)) \<and>
    sys_callers s' 0 = Some (Returned ''k'' (Inr 7))"
  by (rule early_requests_denied) (simp add: with_defaults_def demo_cfg_def default_min_refresh_def)

end
