(* ===== verification/Go_Fs.thy ===== *)
theory Go_Fs
  imports Go_Path
begin

section \<open>The file system\<close>

text \<open>
  A tree of files, directories and symbolic links by canonical path (the list of names from the
  root), with the calls of package os that the code makes. \<open>namei\<close> is the walk of the kernel
  and of \<open>filepath.EvalSymlinks\<close>: links are followed as they are met and ".." leaves the
  directory reached, so it is not the lexical \<open>Clean\<close>. Permissions and I/O errors are left
  out; the number of links followed is limited to 40 by the kernel, to 255 by \<open>EvalSymlinks\<close>.
\<close>

datatype node = FileNode string | DirNode | LinkNode string

record fs =
  fs_nodes :: "(string list \<times> node) list"
  fs_cwd :: "string list"

datatype fs_error = NotExist | NotDir | IsDir | TooManyLinks | FileExists | BadFile | InvalidArg | Busy

fun errno_text :: "fs_error \<Rightarrow> string" where
  "errno_text NotExist = ''no such file or directory''"
| "errno_text NotDir = ''not a directory''"
| "errno_text IsDir = ''is a directory''"
| "errno_text TooManyLinks = ''too many levels of symbolic links''"
| "errno_text FileExists = ''file exists''"
| "errno_text BadFile = ''bad file descriptor''"
| "errno_text InvalidArg = ''invalid argument''"
| "errno_text Busy = ''device or resource busy''"

text \<open>The text of an \<open>fs.PathError\<close>.\<close>

record path_error =
  pe_op :: string
  pe_path :: string
  pe_err :: fs_error

definition path_error_text :: "path_error \<Rightarrow> string" where
  "path_error_text e = pe_op e @ '' '' @ pe_path e @ '': '' @ errno_text (pe_err e)"

definition node_at :: "fs \<Rightarrow> string list \<Rightarrow> node option" where
  "node_at F p = (if p = [] then Some DirNode else map_of (fs_nodes F) p)"

definition put_node :: "string list \<Rightarrow> node \<Rightarrow> fs \<Rightarrow> fs" where
  "put_node p n F = F\<lparr>fs_nodes := map_put p n (fs_nodes F)\<rparr>"

subsection \<open>Resolving a path\<close>

datatype walk = Found "string list" | Absent "string list" string | Failed fs_error

function namei :: "fs \<Rightarrow> nat \<Rightarrow> string list \<Rightarrow> string list \<Rightarrow> walk" where
  "namei F k cur [] = Found cur"
| "namei F k cur (e # es) =
     (if e = [] \<or> e = dot then namei F k cur es
      else if e = dotdot then namei F k (butlast cur) es
      else (case node_at F (cur @ [e]) of
          None \<Rightarrow> if es = [] then Absent cur e else Failed NotExist
        | Some (FileNode _) \<Rightarrow> if es = [] then Found (cur @ [e]) else Failed NotDir
        | Some DirNode \<Rightarrow> namei F k (cur @ [e]) es
        | Some (LinkNode t) \<Rightarrow>
            (case k of 0 \<Rightarrow> Failed TooManyLinks
             | Suc k' \<Rightarrow> namei F k' (if is_abs t then [] else cur) (split_on (CHR ''/'') t @ es))))"
  by pat_completeness auto
termination
  by (relation "measures [\<lambda>(F, k, cur, es). k, \<lambda>(F, k, cur, es). length es]") auto

declare namei.simps(2) [simp del]

definition resolve :: "fs \<Rightarrow> nat \<Rightarrow> string \<Rightarrow> walk" where
  "resolve F k path =
     (if path = [] then Failed NotExist
      else namei F k (if is_abs path then [] else fs_cwd F) (split_on (CHR ''/'') path))"

definition kernel_links :: nat where "kernel_links = 40"
definition eval_links :: nat where "eval_links = 255"

definition path_string :: "string list \<Rightarrow> string" where
  "path_string p = ''/'' @ str_join ''/'' p"

text \<open>\<open>filepath.Abs\<close> and \<open>filepath.EvalSymlinks\<close> of an absolute path.\<close>

definition abs_path :: "fs \<Rightarrow> string \<Rightarrow> string" where
  "abs_path F p = (if is_abs p then path_clean p else path_join [path_string (fs_cwd F), p])"

definition eval_symlinks :: "fs \<Rightarrow> string \<Rightarrow> string list option" where
  "eval_symlinks F p = (case resolve F eval_links p of Found q \<Rightarrow> Some q | _ \<Rightarrow> None)"

subsection \<open>Calls of package os\<close>

definition os_read_file :: "fs \<Rightarrow> string \<Rightarrow> path_error + string" where
  "os_read_file F path =
     (case resolve F kernel_links path of
        Found p \<Rightarrow> (case node_at F p of
            Some (FileNode c) \<Rightarrow> Inr c
          | _ \<Rightarrow> Inl \<lparr>pe_op = ''read'', pe_path = path, pe_err = IsDir\<rparr>)
      | Absent _ _ \<Rightarrow> Inl \<lparr>pe_op = ''open'', pe_path = path, pe_err = NotExist\<rparr>
      | Failed e \<Rightarrow> Inl \<lparr>pe_op = ''open'', pe_path = path, pe_err = e\<rparr>)"

text \<open>\<open>os.Stat\<close>, as far as being a directory.\<close>

definition stat_dir :: "fs \<Rightarrow> string \<Rightarrow> bool option" where
  "stat_dir F path =
     (case resolve F kernel_links path of
        Found p \<Rightarrow> Some (node_at F p = Some DirNode)
      | _ \<Rightarrow> None)"

text \<open>The system call \<open>mkdir\<close>: the last name is not followed.\<close>

definition sys_mkdir :: "fs \<Rightarrow> string \<Rightarrow> fs_error + fs" where
  "sys_mkdir F path =
     (let es = split_on (CHR ''/'') (trim_right_set {CHR ''/''} path) in
      case namei F kernel_links (if is_abs path then [] else fs_cwd F) (butlast es) of
        Failed e \<Rightarrow> Inl e
      | Absent _ _ \<Rightarrow> Inl NotExist
      | Found d \<Rightarrow>
          if node_at F d \<noteq> Some DirNode then Inl NotDir
          else if last es \<in> {[], dot, dotdot} \<or> node_at F (d @ [last es]) \<noteq> None then Inl FileExists
          else Inr (put_node (d @ [last es]) DirNode F))"

definition lstat_is_dir :: "fs \<Rightarrow> string \<Rightarrow> bool" where
  "lstat_is_dir F path =
     (let es = split_on (CHR ''/'') (trim_right_set {CHR ''/''} path) in
      case namei F kernel_links (if is_abs path then [] else fs_cwd F) (butlast es) of
        Found d \<Rightarrow> last es \<in> {[], dot, dotdot} \<or> node_at F (d @ [last es]) = Some DirNode
      | _ \<Rightarrow> False)"

text \<open>
  \<open>os.MkdirAll\<close> of a cleaned path, over its elements: the parent first, then the directory
  itself, whose creation may find a directory there.
\<close>

definition join_elems :: "bool \<Rightarrow> string list \<Rightarrow> string" where
  "join_elems rooted es = (if rooted then ''/'' else []) @ str_join ''/'' es"

function mkdir_all_elems :: "fs \<Rightarrow> bool \<Rightarrow> string list \<Rightarrow> path_error option \<times> fs" where
  "mkdir_all_elems F rooted es =
     (let path = join_elems rooted es in
      case stat_dir F path of
        Some True \<Rightarrow> (None, F)
      | Some False \<Rightarrow> (Some \<lparr>pe_op = ''mkdir'', pe_path = path, pe_err = NotDir\<rparr>, F)
      | None \<Rightarrow>
          (case (if length es \<le> 1 then (None, F) else mkdir_all_elems F rooted (butlast es)) of
             (Some e, F1) \<Rightarrow> (Some e, F1)
           | (None, F1) \<Rightarrow>
               (case sys_mkdir F1 path of
                  Inr F2 \<Rightarrow> (None, F2)
                | Inl e \<Rightarrow> if lstat_is_dir F1 path then (None, F1)
                    else (Some \<lparr>pe_op = ''mkdir'', pe_path = path, pe_err = e\<rparr>, F1))))"
  by pat_completeness auto
termination
  by (relation "measure (\<lambda>(F, rooted, es). length es)") auto

declare mkdir_all_elems.simps [simp del]

text \<open>The error, if any, and the file system with the directories made before it.\<close>

definition mkdir_all :: "fs \<Rightarrow> string \<Rightarrow> path_error option \<times> fs" where
  "mkdir_all F path = mkdir_all_elems F (is_abs path)
     (split_on (CHR ''/'') (if is_abs path then tl path else path))"

text \<open>\<open>open\<close> for writing with O_CREATE: the canonical path of the file, created empty if new.\<close>

definition open_create :: "fs \<Rightarrow> string \<Rightarrow> path_error + string list \<times> fs" where
  "open_create F path =
     (case resolve F kernel_links path of
        Found p \<Rightarrow> (case node_at F p of
            Some (FileNode c) \<Rightarrow> Inr (p, F)
          | _ \<Rightarrow> Inl \<lparr>pe_op = ''open'', pe_path = path, pe_err = IsDir\<rparr>)
      | Absent d n \<Rightarrow> Inr (d @ [n], put_node (d @ [n]) (FileNode []) F)
      | Failed e \<Rightarrow> Inl \<lparr>pe_op = ''open'', pe_path = path, pe_err = e\<rparr>)"

definition os_write_file :: "fs \<Rightarrow> string \<Rightarrow> string \<Rightarrow> path_error + fs" where
  "os_write_file F path content =
     bind_res (open_create F path) (\<lambda>(p, F1). Inr (put_node p (FileNode content) F1))"

subsection \<open>Facts about walks\<close>

definition name_ok :: "string \<Rightarrow> bool" where
  "name_ok e \<longleftrightarrow> elem_ok e \<and> e \<noteq> dotdot"

text \<open>Every entry has its directory, and names are names.\<close>

definition fs_wf :: "fs \<Rightarrow> bool" where
  "fs_wf F \<longleftrightarrow> (\<forall>(p, n) \<in> set (fs_nodes F). p \<noteq> [] \<and> list_all name_ok p \<and> node_at F (butlast p) = Some DirNode)
     \<and> node_at F (fs_cwd F) = Some DirNode"

lemma node_at_Nil [simp]: "node_at F [] = Some DirNode"
  by (simp add: node_at_def)

lemma node_at_put [simp]: "p \<noteq> [] \<Longrightarrow> node_at (put_node p n F) q = (if q = p then Some n else node_at F q)"
  by (auto simp: node_at_def put_node_def)

lemma fs_wf_node:
  "fs_wf F \<Longrightarrow> node_at F p = Some n \<Longrightarrow> p \<noteq> [] \<Longrightarrow> list_all name_ok p \<and> node_at F (butlast p) = Some DirNode"
  by (fastforce simp: fs_wf_def node_at_def dest: map_of_SomeD split: if_splits)

lemma fs_wf_names: "fs_wf F \<Longrightarrow> node_at F p = Some n \<Longrightarrow> list_all name_ok p"
  using fs_wf_node by (cases "p = []") auto

lemma namei_skip: "e = [] \<or> e = dot \<Longrightarrow> namei F k cur (e # es) = namei F k cur es"
  by (subst namei.simps(2)) auto

lemma namei_name:
  "name_ok e \<Longrightarrow> namei F k cur (e # es) = (case node_at F (cur @ [e]) of
          None \<Rightarrow> if es = [] then Absent cur e else Failed NotExist
        | Some (FileNode _) \<Rightarrow> if es = [] then Found (cur @ [e]) else Failed NotDir
        | Some DirNode \<Rightarrow> namei F k (cur @ [e]) es
        | Some (LinkNode t) \<Rightarrow>
            (case k of 0 \<Rightarrow> Failed TooManyLinks
             | Suc k' \<Rightarrow> namei F k' (if is_abs t then [] else cur) (split_on (CHR ''/'') t @ es)))"
  by (subst namei.simps(2)) (auto simp: name_ok_def elem_ok_def)

text \<open>The cases of one step, as equations and as an induction rule.\<close>

definition ordinary :: "string \<Rightarrow> bool" where
  "ordinary e \<longleftrightarrow> e \<noteq> [] \<and> e \<noteq> dot \<and> e \<noteq> dotdot"

lemma ordinary_name: "name_ok e \<Longrightarrow> ordinary e"
  by (simp add: ordinary_def name_ok_def elem_ok_def)

lemma namei_up: "namei F k cur (dotdot # es) = namei F k (butlast cur) es"
  by (subst namei.simps(2)) (simp add: dotdot_def dot_def)

lemma namei_none:
  "ordinary e \<Longrightarrow> node_at F (cur @ [e]) = None \<Longrightarrow>
   namei F k cur (e # es) = (if es = [] then Absent cur e else Failed NotExist)"
  by (subst namei.simps(2)) (auto simp: ordinary_def)

lemma namei_file:
  "ordinary e \<Longrightarrow> node_at F (cur @ [e]) = Some (FileNode c) \<Longrightarrow>
   namei F k cur (e # es) = (if es = [] then Found (cur @ [e]) else Failed NotDir)"
  by (subst namei.simps(2)) (auto simp: ordinary_def)

lemma namei_dir:
  "ordinary e \<Longrightarrow> node_at F (cur @ [e]) = Some DirNode \<Longrightarrow> namei F k cur (e # es) = namei F k (cur @ [e]) es"
  by (subst namei.simps(2)) (auto simp: ordinary_def)

lemma namei_loop:
  "ordinary e \<Longrightarrow> node_at F (cur @ [e]) = Some (LinkNode t) \<Longrightarrow> namei F 0 cur (e # es) = Failed TooManyLinks"
  by (subst namei.simps(2)) (auto simp: ordinary_def)

lemma namei_link:
  "ordinary e \<Longrightarrow> node_at F (cur @ [e]) = Some (LinkNode t) \<Longrightarrow>
   namei F (Suc k) cur (e # es) = namei F k (if is_abs t then [] else cur) (split_on (CHR ''/'') t @ es)"
  by (subst namei.simps(2)) (auto simp: ordinary_def)

lemmas namei_steps = namei_skip namei_up namei_none namei_file namei_dir namei_loop namei_link

lemma namei_induct [case_names nil skip up absent regular directory toolong linked]:
  assumes "\<And>k cur. P k cur []"
    and "\<And>k cur e es. e = [] \<or> e = dot \<Longrightarrow> P k cur es \<Longrightarrow> P k cur (e # es)"
    and "\<And>k cur es. P k (butlast cur) es \<Longrightarrow> P k cur (dotdot # es)"
    and "\<And>k cur e es. ordinary e \<Longrightarrow> node_at F (cur @ [e]) = None \<Longrightarrow> P k cur (e # es)"
    and "\<And>k cur e es c. ordinary e \<Longrightarrow> node_at F (cur @ [e]) = Some (FileNode c) \<Longrightarrow> P k cur (e # es)"
    and "\<And>k cur e es. ordinary e \<Longrightarrow> node_at F (cur @ [e]) = Some DirNode \<Longrightarrow> P k (cur @ [e]) es \<Longrightarrow> P k cur (e # es)"
    and "\<And>cur e es t. ordinary e \<Longrightarrow> node_at F (cur @ [e]) = Some (LinkNode t) \<Longrightarrow> P 0 cur (e # es)"
    and "\<And>k cur e es t. ordinary e \<Longrightarrow> node_at F (cur @ [e]) = Some (LinkNode t) \<Longrightarrow>
        P k (if is_abs t then [] else cur) (split_on (CHR ''/'') t @ es) \<Longrightarrow> P (Suc k) cur (e # es)"
  shows "P k cur es"
proof -
  have "F' = F \<longrightarrow> P k cur es" for F'
  proof (induction F' k cur es rule: namei.induct)
    case (1 F' k cur)
    show ?case using assms(1) by blast
  next
    case (2 F' k cur e es)
    show ?case
    proof
      assume F: "F' = F"
      consider "e = [] \<or> e = dot" | "e = dotdot" | "ordinary e" by (auto simp: ordinary_def)
      then show "P k cur (e # es)"
      proof cases
        case 1
        with "2.IH"(1) F assms(2) show ?thesis by blast
      next
        case 2
        moreover have "\<not> (dotdot = [] \<or> dotdot = dot)" by (simp add: dotdot_def dot_def)
        ultimately show ?thesis using "2.IH"(2) F assms(3) by blast
      next
        case ord: 3
        then have e: "\<not> (e = [] \<or> e = dot)" "e \<noteq> dotdot" by (auto simp: ordinary_def)
        show ?thesis
        proof (cases "node_at F (cur @ [e])")
          case None
          with ord show ?thesis by (rule assms(4))
        next
          case (Some n)
          show ?thesis
          proof (cases n)
            case (FileNode c)
            with ord Some show ?thesis using assms(5) by blast
          next
            case DirNode
            with ord Some e show ?thesis using assms(6) "2.IH"(3) F by blast
          next
            case (LinkNode t)
            show ?thesis
            proof (cases k)
              case 0
              with ord Some LinkNode show ?thesis using assms(7) by blast
            next
              case (Suc k')
              with ord Some LinkNode e show ?thesis using assms(8) "2.IH"(4) F by blast
            qed
          qed
        qed
      qed
    qed
  qed
  then show ?thesis by blast
qed

text \<open>A walk that ends does not depend on the limit of links.\<close>

definition walk_ok :: "walk \<Rightarrow> bool" where
  "walk_ok r \<longleftrightarrow> (case r of Failed _ \<Rightarrow> False | _ \<Rightarrow> True)"

lemma walk_ok_simps [simp]: "walk_ok (Found p)" "walk_ok (Absent d n)" "\<not> walk_ok (Failed e)"
  by (simp_all add: walk_ok_def)

lemma namei_more_links: "walk_ok (namei F k cur es) \<Longrightarrow> k \<le> k' \<Longrightarrow> namei F k' cur es = namei F k cur es"
proof (induction k cur es arbitrary: k' rule: namei_induct [where F = F])
  case (skip k cur e es)
  from skip.IH [of k'] skip.hyps skip.prems show ?case by (simp add: namei_skip)
next
  case (up k cur es)
  from up.IH [of k'] up.prems show ?case by (simp add: namei_up)
next
  case (directory k cur e es)
  from directory.IH [of k'] directory.hyps directory.prems show ?case by (simp add: namei_dir)
next
  case (linked k cur e es t)
  then obtain k1 where "k' = Suc k1" "k \<le> k1" by (cases k') auto
  with linked.IH [of k1] linked.hyps linked.prems show ?case by (simp add: namei_link)
qed (simp_all add: namei_none namei_file namei_loop)

text \<open>Where a walk ends: at a file or directory, never at a link.\<close>

definition walk_end_ok :: "fs \<Rightarrow> walk \<Rightarrow> bool" where
  "walk_end_ok F r \<longleftrightarrow> (case r of
      Found p \<Rightarrow> node_at F p = Some DirNode \<or> (\<exists>c. node_at F p = Some (FileNode c))
    | Absent d n \<Rightarrow> node_at F d = Some DirNode \<and> node_at F (d @ [n]) = None
    | Failed _ \<Rightarrow> True)"

lemma walk_end_ok_simps [simp]:
  "walk_end_ok F (Found p) \<longleftrightarrow> node_at F p = Some DirNode \<or> (\<exists>c. node_at F p = Some (FileNode c))"
  "walk_end_ok F (Absent d n) \<longleftrightarrow> node_at F d = Some DirNode \<and> node_at F (d @ [n]) = None"
  "walk_end_ok F (Failed e)"
  by (simp_all add: walk_end_ok_def)

lemma namei_end: "fs_wf F \<Longrightarrow> node_at F cur = Some DirNode \<Longrightarrow> walk_end_ok F (namei F k cur es)"
proof (induction k cur es rule: namei_induct [where F = F])
  case (up k cur es)
  have "node_at F (butlast cur) = Some DirNode"
    using up.prems fs_wf_node [of F cur DirNode] by (cases "cur = []") auto
  with up show ?case by (simp add: namei_up)
qed (simp_all add: namei_steps)

text \<open>Walking down directories that exist.\<close>

lemma namei_down:
  "fs_wf F \<Longrightarrow> node_at F (cur @ xs) = Some DirNode \<Longrightarrow> namei F k cur (xs @ es) = namei F k (cur @ xs) es"
proof (induction xs arbitrary: es rule: rev_induct)
  case (snoc x xs)
  have "node_at F (butlast (cur @ xs @ [x])) = Some DirNode" "list_all name_ok (cur @ xs @ [x])"
    using fs_wf_node [of F "cur @ xs @ [x]" DirNode] snoc.prems by auto
  then have "node_at F (cur @ xs) = Some DirNode" "ordinary x"
    by (simp_all add: butlast_append ordinary_name)
  then show ?case
    using snoc.IH [of "x # es"] snoc.prems by (simp add: namei_dir)
qed simp

text \<open>A part of a walk that ends is a walk that ends.\<close>

lemma namei_prefix:
  "walk_ok (namei F k cur (xs @ ys)) \<Longrightarrow> ys \<noteq> [] \<Longrightarrow> \<exists>d. namei F k cur xs = Found d"
proof (induction k cur xs rule: namei_induct [where F = F])
  case (linked k cur e es t)
  then show ?case by (simp add: namei_link)
qed (simp_all add: namei_steps)

text \<open>Empty and "." elements do not matter to a walk that ends.\<close>

definition is_elem :: "string \<Rightarrow> bool" where
  "is_elem e \<longleftrightarrow> e \<noteq> [] \<and> e \<noteq> dot"

lemma namei_filter_gen:
  "es = xs @ ys \<Longrightarrow> walk_ok (namei F k cur es) \<Longrightarrow> namei F k cur (xs @ filter is_elem ys) = namei F k cur es"
proof (induction k cur es arbitrary: xs ys rule: namei_induct [where F = F])
  case (skip k cur e es)
  show ?case
  proof (cases xs)
    case Nil
    with skip.IH [of "[]" es] skip show ?thesis by (auto simp: namei_skip is_elem_def)
  next
    case (Cons x xs')
    with skip show ?thesis by (auto simp: namei_skip)
  qed
next
  case (up k cur es)
  have "is_elem dotdot" by (simp add: is_elem_def dotdot_def dot_def)
  with up.IH [of "[]" es] up show ?case by (cases xs) (auto simp: namei_up)
next
  case (absent k cur e es)
  then show ?case by (cases xs) (auto simp: namei_none is_elem_def ordinary_def split: if_splits)
next
  case (regular k cur e es c)
  then show ?case by (cases xs) (auto simp: namei_file is_elem_def ordinary_def split: if_splits)
next
  case (directory k cur e es)
  then have "is_elem e" by (simp add: is_elem_def ordinary_def)
  with directory.IH [of "[]" es] directory show ?case by (cases xs) (auto simp: namei_dir)
next
  case (linked k cur e es t)
  have e: "is_elem e" using linked(1) by (simp add: is_elem_def ordinary_def)
  show ?case
  proof (cases xs)
    case Nil
    then have ys: "ys = e # es" using linked.prems by simp
    from linked.IH [of "split_on (CHR ''/'') t" es] linked.prems linked.hyps e show ?thesis
      by (simp add: Nil ys namei_link)
  next
    case (Cons x xs')
    then have x: "x = e" "es = xs' @ ys" using linked.prems by auto
    from linked.IH [of "split_on (CHR ''/'') t @ xs'" ys] linked.prems linked.hyps show ?thesis
      by (simp add: Cons x namei_link)
  qed
next
  case (toolong cur e es t)
  then have "walk_ok (namei F 0 cur (e # es))" by simp
  with toolong.hyps show ?case by (simp add: namei_loop)
qed simp

lemma namei_filter: "walk_ok (namei F k cur es) \<Longrightarrow> namei F k cur (filter is_elem es) = namei F k cur es"
  using namei_filter_gen [of es "[]" es] by simp

end
