(* ===== verification/Tool_Registry.thy ===== *)
theory Tool_Registry
  imports Llm
begin

section \<open>pkg/tools: tools and the registry\<close>

text \<open>
  A tool (tool.go) acts on a world of type \<open>'w\<close>: whatever files, peers and processes
  its \<open>Execute\<close> reads and changes. The registry (registry.go) holds the tools by name, the
  allow list of the configuration and the set of tools that bypass it.

  The interface the loop and the HTTP handlers rely on is the locale \<open>tool_source\<close>: what
  is advertised to the model is exactly what can be looked up. The registry is its
  interpretation at the end of the theory.
\<close>

subsection \<open>Tools and their results\<close>

record tool_result =
  res_output :: string
  res_error :: bool

definition tool_ok :: "string \<Rightarrow> tool_result" where
  "tool_ok s = \<lparr>res_output = s, res_error = False\<rparr>"

definition tool_errorf :: "string \<Rightarrow> tool_result" where
  "tool_errorf s = \<lparr>res_output = s, res_error = True\<rparr>"

lemma tool_result_sel [simp]:
  "res_output (tool_ok s) = s" "\<not> res_error (tool_ok s)"
  "res_output (tool_errorf s) = s" "res_error (tool_errorf s)"
  by (simp_all add: tool_ok_def tool_errorf_def)

record 'w tool =
  t_name :: string
  t_description :: string
  t_parameters :: args
  t_execute :: "args \<Rightarrow> 'w \<Rightarrow> tool_result \<times> 'w"

definition definition_of :: "'w tool \<Rightarrow> tool_definition" where
  "definition_of t =
     \<lparr>td_name = t_name t, td_description = t_description t, td_parameters = t_parameters t\<rparr>"

lemma td_name_definition_of [simp]: "td_name (definition_of t) = t_name t"
  by (simp add: definition_of_def)

subsection \<open>The registry\<close>

text \<open>
  The maps \<open>alwaysAllowed\<close> and \<open>allowedFilter\<close> only ever hold the value true, so they
  are lists of names; \<open>None\<close> is the nil filter, which allows every tool.
\<close>

record 'w registry =
  reg_tools :: "(string \<times> 'w tool) list"
  always_allowed :: "string list"
  allowed_filter :: "string list option"

definition new_registry :: "string list \<Rightarrow> 'w registry" where
  "new_registry allowed =
     \<lparr>reg_tools = [], always_allowed = [],
      allowed_filter = (if length allowed > 0 then Some allowed else None)\<rparr>"

definition register_tool :: "'w tool \<Rightarrow> 'w registry \<Rightarrow> 'w registry" where
  "register_tool t r = r\<lparr>reg_tools := map_put (t_name t) t (reg_tools r)\<rparr>"

definition register_always_allowed :: "'w tool \<Rightarrow> 'w registry \<Rightarrow> 'w registry" where
  "register_always_allowed t r =
     r\<lparr>reg_tools := map_put (t_name t) t (reg_tools r),
       always_allowed := t_name t # always_allowed r\<rparr>"

definition blocked :: "'w registry \<Rightarrow> string \<Rightarrow> bool" where
  "blocked r name \<longleftrightarrow> (case allowed_filter r of None \<Rightarrow> False
     | Some f \<Rightarrow> name \<notin> set f \<and> name \<notin> set (always_allowed r))"

definition reg_get :: "'w registry \<Rightarrow> string \<Rightarrow> 'w tool option" where
  "reg_get r name =
     (case map_of (reg_tools r) name of
        None \<Rightarrow> None
      | Some t \<Rightarrow> if blocked r name then None else Some t)"

text \<open>
  \<open>Definitions\<close> ranges over the map in some order, skips what the filter blocks, and
  sorts by name. The comparison of Go strings is byte-wise, as is the order of
  \<open>HOL-Library.List_Lexorder\<close> over \<open>Char_ord\<close>.
\<close>

definition reg_definitions :: "'w registry \<Rightarrow> tool_definition list" where
  "reg_definitions r =
     sort_key td_name
       (map (\<lambda>(name, t). definition_of t)
         (filter (\<lambda>(name, t). \<not> blocked r name) (reg_tools r)))"

subsection \<open>The representation invariant\<close>

definition reg_wf :: "'w registry \<Rightarrow> bool" where
  "reg_wf r \<longleftrightarrow> distinct (map fst (reg_tools r)) \<and>
     (\<forall>(name, t) \<in> set (reg_tools r). t_name t = name)"

lemma reg_wf_new: "reg_wf (new_registry allowed)"
  by (simp add: reg_wf_def new_registry_def)

lemma set_map_put_subset: "p \<in> set (map_put k v m) \<Longrightarrow> p = (k, v) \<or> p \<in> set m"
  by (induction m) (auto split: if_splits)

lemma reg_wf_put:
  "reg_wf r \<Longrightarrow> distinct (map fst (map_put (t_name t) t (reg_tools r))) \<and>
     (\<forall>(name, u) \<in> set (map_put (t_name t) t (reg_tools r)). t_name u = name)"
  by (auto simp: reg_wf_def dest!: set_map_put_subset)

lemma reg_wf_register: "reg_wf r \<Longrightarrow> reg_wf (register_tool t r)"
  using reg_wf_put [of r t] by (simp add: reg_wf_def register_tool_def)

lemma reg_wf_register_always: "reg_wf r \<Longrightarrow> reg_wf (register_always_allowed t r)"
  using reg_wf_put [of r t] by (simp add: reg_wf_def register_always_allowed_def)

lemmas reg_wf_intros = reg_wf_new reg_wf_register reg_wf_register_always

lemma reg_get_Some:
  "reg_get r n = Some t \<longleftrightarrow> map_of (reg_tools r) n = Some t \<and> \<not> blocked r n"
  by (auto simp: reg_get_def split: option.splits)

lemma reg_get_name: "reg_wf r \<Longrightarrow> reg_get r n = Some t \<Longrightarrow> t_name t = n"
  by (auto simp: reg_wf_def reg_get_Some dest!: map_of_SomeD)

subsection \<open>What is advertised is what can be executed\<close>

lemma set_reg_definitions:
  "reg_wf r \<Longrightarrow> set (reg_definitions r) = {definition_of t | t. \<exists>n. reg_get r n = Some t}"
  by (force simp: reg_definitions_def reg_get_Some reg_wf_def dest: map_of_SomeD)

lemma names_filter:
  "reg_wf r \<Longrightarrow>
     map td_name (map (\<lambda>(name, t). definition_of t) (filter P (reg_tools r))) =
     map fst (filter P (reg_tools r))"
  by (auto simp: reg_wf_def)

lemma distinct_reg_definitions: "reg_wf r \<Longrightarrow> distinct (map td_name (reg_definitions r))"
proof -
  assume wf: "reg_wf r"
  let ?xs = "map (\<lambda>(name, t). definition_of t) (filter (\<lambda>(name, t). \<not> blocked r name) (reg_tools r))"
  have "distinct (map td_name ?xs)"
    unfolding names_filter [OF wf] using wf by (simp add: reg_wf_def distinct_map_filter)
  moreover have "mset (map td_name (reg_definitions r)) = mset (map td_name ?xs)"
    unfolding reg_definitions_def by (simp only: mset_map mset_sort)
  ultimately show ?thesis by (metis mset_eq_imp_distinct_iff)
qed

lemma sorted_reg_definitions: "sorted (map td_name (reg_definitions r))"
  by (simp add: reg_definitions_def)

text \<open>
  The contract of a source of tools, as the loop and the handlers use it: \<open>look\<close> finds
  tools, \<open>defs\<close> lists their definitions.
\<close>

locale tool_source =
  fixes look :: "'r \<Rightarrow> string \<Rightarrow> 't option"
    and defs :: "'r \<Rightarrow> tool_definition list"
    and def_of :: "'t \<Rightarrow> tool_definition"
    and ok :: "'r \<Rightarrow> bool"
  assumes set_defs: "ok r \<Longrightarrow> set (defs r) = {def_of t | t. \<exists>n. look r n = Some t}"
    and look_name: "ok r \<Longrightarrow> look r n = Some t \<Longrightarrow> td_name (def_of t) = n"
    and defs_distinct: "ok r \<Longrightarrow> distinct (map td_name (defs r))"
    and defs_sorted: "sorted (map td_name (defs r))"
begin

lemma advertised_iff:
  assumes "ok r"
  shows "n \<in> td_name ` set (defs r) \<longleftrightarrow> (\<exists>t. look r n = Some t)"
proof
  assume "n \<in> td_name ` set (defs r)"
  then obtain t m where "n = td_name (def_of t)" "look r m = Some t"
    using set_defs [OF assms] by auto
  then show "\<exists>t. look r n = Some t" using look_name [OF assms] by auto
next
  assume "\<exists>t. look r n = Some t"
  then obtain t where t: "look r n = Some t" by blast
  then have "def_of t \<in> set (defs r)" using set_defs [OF assms] by auto
  then show "n \<in> td_name ` set (defs r)" using look_name [OF assms t] by force
qed

lemma sorted_key_unique:
  assumes "set xs = set ys" "sorted (map td_name xs)" "sorted (map td_name ys)"
    "distinct (map td_name xs)" "distinct (map td_name ys)"
  shows "xs = ys"
proof -
  have "inj_on td_name (set xs \<union> set ys)" using assms by (simp add: distinct_map)
  then show ?thesis
    using assms by (intro map_sorted_distinct_set_unique [of td_name xs ys]) (simp_all add: distinct_map)
qed

lemma defs_determined:
  assumes "ok r" "ok r'" "\<And>n. look r n = look r' n"
  shows "defs r = defs r'"
proof (rule sorted_key_unique)
  show "set (defs r) = set (defs r')" using assms by (simp add: set_defs)
qed (use assms in \<open>simp_all add: defs_distinct defs_sorted\<close>)

end

interpretation reg: tool_source reg_get reg_definitions definition_of reg_wf
proof unfold_locales
  fix r :: "'w registry" and n t
  show "reg_wf r \<Longrightarrow> set (reg_definitions r) = {definition_of t |t. \<exists>n. reg_get r n = Some t}"
    by (rule set_reg_definitions)
  show "reg_wf r \<Longrightarrow> reg_get r n = Some t \<Longrightarrow> td_name (definition_of t) = n"
    by (simp add: reg_get_name)
  show "reg_wf r \<Longrightarrow> distinct (map td_name (reg_definitions r))"
    by (rule distinct_reg_definitions)
  show "sorted (map td_name (reg_definitions r))"
    by (rule sorted_reg_definitions)
qed

text \<open>A registry as the start-up code builds it: a sequence of registrations, each of them
  ordinary (\<open>False\<close>) or exempt from the allow list (\<open>True\<close>).\<close>

definition register_one :: "bool \<times> 'w tool \<Rightarrow> 'w registry \<Rightarrow> 'w registry" where
  "register_one p r =
     (if fst p then register_always_allowed (snd p) r else register_tool (snd p) r)"

definition build_registry :: "string list \<Rightarrow> (bool \<times> 'w tool) list \<Rightarrow> 'w registry" where
  "build_registry allowed regs = fold register_one regs (new_registry allowed)"

lemma register_one_tools: "reg_tools (register_one p r) = map_put (t_name (snd p)) (snd p) (reg_tools r)"
  by (simp add: register_one_def register_tool_def register_always_allowed_def)

lemma register_one_always: "always_allowed (register_one p r) =
    (if fst p then t_name (snd p) # always_allowed r else always_allowed r)"
  by (simp add: register_one_def register_tool_def register_always_allowed_def)

lemma register_one_filter [simp]: "allowed_filter (register_one p r) = allowed_filter r"
  by (simp add: register_one_def register_tool_def register_always_allowed_def)

lemma reg_wf_register_one: "reg_wf r \<Longrightarrow> reg_wf (register_one p r)"
  by (simp add: register_one_def reg_wf_intros)

lemma fold_register_wf: "reg_wf r \<Longrightarrow> reg_wf (fold register_one regs r)"
  by (induction regs arbitrary: r) (simp_all add: reg_wf_register_one)

lemma fold_register_filter: "allowed_filter (fold register_one regs r) = allowed_filter r"
  by (induction regs arbitrary: r) simp_all

lemma fold_register_always:
  "set (always_allowed (fold register_one regs r)) =
     {t_name t |t. (True, t) \<in> set regs} \<union> set (always_allowed r)"
  by (induction regs arbitrary: r) (auto simp: register_one_always split: prod.splits)

lemma fold_register_tools:
  "map_of (reg_tools (fold register_one regs r)) =
     map_of (reg_tools r) ++ map_of (map (\<lambda>(_, t). (t_name t, t)) (rev regs))"
proof (induction regs arbitrary: r)
  case (Cons p regs)
  then show ?case
    by (cases p) (auto simp: register_one_tools map_add_def fun_eq_iff split: option.splits)
qed simp

text \<open>The tools of a start-up sequence that the model may call.\<close>

definition callable :: "string list \<Rightarrow> (bool \<times> 'w tool) list \<Rightarrow> string \<Rightarrow> 'w tool option" where
  "callable allowed regs n =
     (if allowed = [] \<or> n \<in> set allowed \<or> (\<exists>t. (True, t) \<in> set regs \<and> t_name t = n)
      then map_of (map (\<lambda>(_, t). (t_name t, t)) (rev regs)) n else None)"

lemma reg_wf_build: "reg_wf (build_registry allowed regs)"
  by (simp add: build_registry_def fold_register_wf reg_wf_new)

lemma reg_get_build: "reg_get (build_registry allowed regs) n = callable allowed regs n"
  unfolding reg_get_def blocked_def build_registry_def fold_register_filter fold_register_always
    fold_register_tools callable_def
  by (auto simp: new_registry_def map_add_def split: option.splits)

lemma finite_callable: "finite (dom (callable allowed regs))"
proof (rule finite_subset)
  show "dom (callable allowed regs) \<subseteq> dom (map_of (map (\<lambda>(_, t). (t_name t, t)) (rev regs)))"
    by (auto simp: callable_def split: if_splits)
qed (rule finite_dom_map_of)

text \<open>
  C3. What the model is told about is what it can call. After any sequence of registrations,
  the definitions sent to the provider are those of the callable tools, each once, sorted by name; and
  looking a name up finds the tool registered last under it, unless an allow list is
  configured that does not name it and it was never registered as always allowed.
\<close>

theorem registry_advertises_callable:
  "map td_name (reg_definitions (build_registry allowed regs)) =
     sorted_list_of_set (dom (callable allowed regs)) \<and>
   set (reg_definitions (build_registry allowed regs)) = definition_of ` ran (callable allowed regs) \<and>
   reg_get (build_registry allowed regs) = callable allowed regs"
proof (intro conjI)
  let ?R = "build_registry allowed regs"
  show get: "reg_get ?R = callable allowed regs"
    by (rule ext) (rule reg_get_build)
  have "set (map td_name (reg_definitions ?R)) = dom (callable allowed regs)"
    unfolding get [symmetric] set_map
    by (rule set_eqI) (simp only: reg.advertised_iff [OF reg_wf_build] dom_def mem_Collect_eq not_None_eq)
  then show "map td_name (reg_definitions ?R) = sorted_list_of_set (dom (callable allowed regs))"
    using reg.defs_sorted reg.defs_distinct [OF reg_wf_build]
    by (metis sorted_list_of_set.idem_if_sorted_distinct)
  show "set (reg_definitions ?R) = definition_of ` ran (callable allowed regs)"
    unfolding get [symmetric] by (auto simp: reg.set_defs [OF reg_wf_build] ran_def)
qed

end
