(* ===== verification/Workspace_Tools.thy ===== *)
theory Workspace_Tools
  imports Go_Fs Tool_Registry
begin

section \<open>internal/workspace, internal/readfile, internal/writefile: files of the workspace\<close>

text \<open>
  The check that keeps the file tools inside the workspace, and the two tools. The world they
  act on is a file system. The lemmas say where the check looks: in any file system for paths
  without "..", and lexically when there are no symbolic links; theory Workspace_Safety concludes
  from them what the tools can read and change.
\<close>

subsection \<open>Operations\<close>

definition under :: "string \<Rightarrow> string \<Rightarrow> bool" where
  "under w a \<longleftrightarrow> has_prefix a (w @ ''/'') \<or> a = w"

definition resolved_target :: "fs \<Rightarrow> string \<Rightarrow> string" where
  "resolved_target F a0 =
     (case eval_symlinks F a0 of
        Some p \<Rightarrow> path_string p
      | None \<Rightarrow> (case eval_symlinks F (path_dir a0) of
            Some d \<Rightarrow> path_join [path_string d, path_base a0]
          | None \<Rightarrow> a0))"

definition workspace_root :: "fs \<Rightarrow> string \<Rightarrow> string" where
  "workspace_root F ws =
     (case eval_symlinks F (abs_path F ws) of Some p \<Rightarrow> path_string p | None \<Rightarrow> abs_path F ws)"

definition is_inside_workspace :: "fs \<Rightarrow> string \<Rightarrow> string \<Rightarrow> bool" where
  "is_inside_workspace F path ws = under (workspace_root F ws) (resolved_target F (abs_path F path))"

text \<open>The parameter schemas of tools, as JSON values.\<close>

definition string_param :: "string \<Rightarrow> string \<Rightarrow> string \<times> json" where
  "string_param name desc = (name, JObj [(''type'', JStr ''string''), (''description'', JStr desc)])"

definition object_schema :: "(string \<times> json) list \<Rightarrow> string list \<Rightarrow> args" where
  "object_schema props req =
     [(''type'', JStr ''object''), (''properties'', JObj props), (''required'', JArr (map JStr req))]"

definition number_line :: "nat \<Rightarrow> string \<Rightarrow> string" where
  "number_line i line =
     (let n = itoa (int (i + 1)) in replicate (4 - length n) (CHR 0x20) @ n @ [CHR 0x09] @ line @ nl)"

fun number_lines :: "nat \<Rightarrow> string list \<Rightarrow> string" where
  "number_lines i [] = []"
| "number_lines i (l # ls) = number_line i l @ number_lines (i + 1) ls"

definition cap_output :: "nat \<Rightarrow> string \<Rightarrow> string" where
  "cap_output n out = (if length out > n then take n out @ nl @ ''...(truncated)'' else out)"

definition read_output :: "string \<Rightarrow> string" where
  "read_output c = cap_output 50000 (number_lines 0 (split_on (CHR 0x0A) c))"

definition read_file_execute :: "string \<Rightarrow> args \<Rightarrow> fs \<Rightarrow> tool_result \<times> fs" where
  "read_file_execute ws a F =
     (let path = str_or_empty ''path'' a in
      if path = [] then (tool_errorf ''path is required'', F)
      else if ws \<noteq> [] \<and> \<not> is_inside_workspace F path ws
        then (tool_errorf ''Access denied: path outside workspace'', F)
      else (case os_read_file F path of
          Inl e \<Rightarrow> (tool_errorf (''Error reading file: '' @ path_error_text e), F)
        | Inr c \<Rightarrow> (tool_ok (read_output c), F)))"

definition read_file_tool :: "string \<Rightarrow> fs tool" where
  "read_file_tool ws =
     \<lparr>t_name = ''read_file'',
      t_description = ''Read a file and return its contents with numbered lines. '' @
        ''Use when you need to examine file contents.'',
      t_parameters = object_schema [string_param ''path'' ''Path to the file to read''] [''path''],
      t_execute = read_file_execute ws\<rparr>"

definition write_file_execute :: "string \<Rightarrow> args \<Rightarrow> fs \<Rightarrow> tool_result \<times> fs" where
  "write_file_execute ws a F =
     (let path = str_or_empty ''path'' a; content = str_or_empty ''content'' a in
      if path = [] then (tool_errorf ''path is required'', F)
      else if ws \<noteq> [] \<and> \<not> is_inside_workspace F path ws
        then (tool_errorf ''Access denied: path outside workspace'', F)
      else (case mkdir_all F (path_dir path) of
          (Some e, F1) \<Rightarrow> (tool_errorf (''failed to create directory: '' @ path_error_text e), F1)
        | (None, F1) \<Rightarrow> (case os_write_file F1 path content of
              Inl e \<Rightarrow> (tool_errorf (''failed to write file: '' @ path_error_text e), F1)
            | Inr F2 \<Rightarrow> (tool_ok (''File written successfully: '' @ path), F2))))"

definition write_file_tool :: "string \<Rightarrow> fs tool" where
  "write_file_tool ws =
     \<lparr>t_name = ''write_file'',
      t_description = ''Write content to a file. Creates the file if it doesn'' @ [CHR 0x27] @
        ''t exist, overwrites if it does.'',
      t_parameters = object_schema [string_param ''path'' ''Path to the file to write'',
        string_param ''content'' ''Content to write to the file''] [''path'', ''content''],
      t_execute = write_file_execute ws\<rparr>"

subsection \<open>The three ways out\<close>

text \<open>A workspace /ws with links a command or a download may leave there, and a file outside it.\<close>

definition linked_fs :: fs where
  "linked_fs = \<lparr>fs_nodes =
     [([''ws''], DirNode), ([''etc''], DirNode), ([''etc'', ''sub''], DirNode),
      ([''etc'', ''secret''], FileNode ''key''),
      ([''ws'', ''dir''], LinkNode ''/etc/sub''), ([''ws'', ''new''], LinkNode ''/etc/created'')],
     fs_cwd = []\<rparr>"

definition path_args :: "string \<Rightarrow> string \<Rightarrow> args" where
  "path_args p c = [(''path'', JStr p), (''content'', JStr c)]"

lemma demo_escapes:
  "fst (read_file_execute ''/ws'' (path_args ''/ws/dir/../secret'' []) linked_fs) = tool_ok (number_line 0 ''key'')"
  "node_at (snd (write_file_execute ''/ws'' (path_args ''/ws/new'' ''x'') linked_fs)) [''etc'', ''created''] = Some (FileNode ''x'')"
  "node_at (snd (write_file_execute ''/ws'' (path_args ''/ws/dir/a/b'' ''x'') linked_fs)) [''etc'', ''sub'', ''a'', ''b''] = Some (FileNode ''x'')"
  by code_simp+

subsection \<open>The elements of cleaned and absolute paths\<close>

lemma clean_elems_plain:
  "dotdot \<notin> set es \<Longrightarrow> clean_elems rooted acc es = rev acc @ filter is_elem es"
  by (induction rooted acc es rule: clean_elems.induct) (auto simp: is_elem_def)

lemma split_on_append_sep: "split_on c (s @ c # t) = split_on c s @ split_on c t"
proof (induction s)
  case (Cons x s)
  then show ?case by (cases "split_on c s") auto
qed simp

lemma split_root: "filter is_elem (split_on (CHR ''/'') (''/'' @ s)) = filter is_elem (split_on (CHR ''/'') s)"
  by (simp add: is_elem_def)

lemma filter_split_join:
  assumes "list_all name_ok xs"
  shows "filter is_elem (split_on (CHR ''/'') (str_join ''/'' xs)) = xs"
proof (cases "xs = []")
  case False
  have "split_on (CHR ''/'') (str_join ''/'' xs) = xs"
    using assms False by (intro split_on_join) (auto simp: list_all_iff name_ok_def elem_ok_def)
  moreover have "filter is_elem xs = xs"
    using assms by (auto simp: filter_id_conv list_all_iff name_ok_def elem_ok_def is_elem_def)
  ultimately show ?thesis by simp
qed (simp add: is_elem_def)

lemma name_ok_join_no_dotdot:
  assumes "list_all name_ok xs"
  shows "dotdot \<notin> set (split_on (CHR ''/'') (str_join ''/'' xs))"
proof (cases "xs = []")
  case False
  have "split_on (CHR ''/'') (str_join ''/'' xs) = xs"
    using assms False by (intro split_on_join) (auto simp: list_all_iff name_ok_def elem_ok_def)
  then show ?thesis using assms by (auto simp: list_all_iff name_ok_def)
qed (simp add: dotdot_def)

text \<open>The names a path goes through when it has no "..": from the root or from the working directory.\<close>

definition path_names :: "string \<Rightarrow> string list" where
  "path_names path = filter is_elem (split_on (CHR ''/'') path)"

definition plain_path :: "string \<Rightarrow> bool" where
  "plain_path path \<longleftrightarrow> path \<noteq> [] \<and> dotdot \<notin> set (split_on (CHR ''/'') path)"

definition start_dir :: "fs \<Rightarrow> string \<Rightarrow> string list" where
  "start_dir F path = (if is_abs path then [] else fs_cwd F)"

lemma path_names_ok: "plain_path path \<Longrightarrow> list_all name_ok (path_names path)"
  using split_on_free [of _ "CHR ''/''" path]
  by (auto simp: plain_path_def path_names_def list_all_iff name_ok_def elem_ok_def is_elem_def)

lemma resolve_names:
  "path \<noteq> [] \<Longrightarrow> walk_ok (resolve F k path) \<Longrightarrow> namei F k (start_dir F path) (path_names path) = resolve F k path"
  by (simp add: resolve_def start_dir_def path_names_def namei_filter)

lemma str_join_not_Nil: "list_all name_ok xs \<Longrightarrow> xs \<noteq> [] \<Longrightarrow> str_join ''/'' xs \<noteq> []"
  by (cases xs; cases "tl xs") (auto simp: name_ok_def elem_ok_def)

lemma clean_parts_plain: "plain_path path \<Longrightarrow> clean_parts path = path_names path"
  by (simp add: plain_path_def clean_parts_def path_names_def clean_elems_plain)

lemma clean_path_string:
  assumes "plain_path path" "is_abs path"
  shows "path_clean path = path_string (path_names path)"
  using assms by (simp add: path_clean_parts clean_parts_plain path_string_def)

lemma path_string_names: "list_all name_ok xs \<Longrightarrow> path_names (path_string xs) = xs"
  unfolding path_names_def path_string_def split_root by (rule filter_split_join)

lemma plain_path_string: "list_all name_ok xs \<Longrightarrow> plain_path (path_string xs)"
  using name_ok_join_no_dotdot [of xs]
  by (simp add: plain_path_def path_string_def dotdot_def)

lemma path_string_not_Nil [simp]: "path_string xs \<noteq> []"
  by (simp add: path_string_def)

lemma is_abs_path_string [simp]: "is_abs (path_string xs)"
  by (simp add: is_abs_def path_string_def has_prefix_def)

lemma abs_path_names:
  assumes "plain_path path" "fs_wf F"
  shows "abs_path F path = path_string (start_dir F path @ path_names path)"
proof (cases "is_abs path")
  case True
  then show ?thesis using assms by (simp add: abs_path_def clean_path_string start_dir_def)
next
  case False
  have cwd: "list_all name_ok (fs_cwd F)"
    using assms(2) fs_wf_names [of F "fs_cwd F" DirNode] by (simp add: fs_wf_def)
  have ne: "path \<noteq> []" "path_string (fs_cwd F) \<noteq> []" using assms(1) by (simp_all add: plain_path_def path_string_def)
  let ?p = "path_string (fs_cwd F) @ ''/'' @ path"
  have sp: "split_on (CHR ''/'') ?p = split_on (CHR ''/'') (path_string (fs_cwd F)) @ split_on (CHR ''/'') path"
    by (simp add: split_on_append_sep)
  have "plain_path ?p"
    using assms(1) plain_path_string [OF cwd] by (simp add: plain_path_def split_on_append_sep)
  moreover have "is_abs ?p" by (simp add: is_abs_def has_prefix_def path_string_def)
  moreover have "path_names ?p = fs_cwd F @ path_names path"
    using path_string_names [OF cwd] by (simp add: path_names_def split_on_append_sep)
  ultimately show ?thesis
    using False ne by (simp add: abs_path_def path_join_def clean_path_string start_dir_def)
qed

lemma start_dir_node: "fs_wf F \<Longrightarrow> node_at F (start_dir F path) = Some DirNode"
  by (simp add: start_dir_def fs_wf_def)

lemma abs_names_ok:
  "plain_path path \<Longrightarrow> fs_wf F \<Longrightarrow> list_all name_ok (start_dir F path @ path_names path)"
  using path_names_ok [of path] fs_wf_names [OF _ start_dir_node, of F path] by simp

lemma resolve_path_string:
  assumes "list_all name_ok xs"
  shows "walk_ok (namei F k [] xs) \<Longrightarrow> resolve F k (path_string xs) = namei F k [] xs"
proof -
  have s: "split_on (CHR ''/'') (path_string xs) = [] # (if xs = [] then [[]] else xs)"
    using assms by (auto simp: path_string_def split_on_join list_all_iff name_ok_def elem_ok_def)
  show ?thesis
    using s by (simp add: resolve_def namei_skip)
qed

text \<open>What the kernel finds under a plain path is what the check resolves its absolute form to.\<close>

lemma resolve_abs:
  assumes "plain_path path" "fs_wf F" "walk_ok (resolve F kernel_links path)"
  shows "resolve F eval_links (abs_path F path) = resolve F kernel_links path"
proof -
  let ?s = "start_dir F path" and ?xs = "path_names path"
  have "namei F kernel_links ?s ?xs = resolve F kernel_links path"
    using assms(1,3) by (simp add: resolve_names plain_path_def)
  moreover have "namei F eval_links [] (?s @ ?xs) = namei F eval_links ?s ?xs"
    using namei_down [OF assms(2), of "[]" ?s] start_dir_node [OF assms(2)] by simp
  moreover have "namei F eval_links ?s ?xs = namei F kernel_links ?s ?xs"
    using assms(3) calculation(1) by (intro namei_more_links) (simp_all add: kernel_links_def eval_links_def)
  ultimately have "namei F eval_links [] (?s @ ?xs) = resolve F kernel_links path" by simp
  then show ?thesis
    using assms resolve_path_string [OF abs_names_ok [OF assms(1,2)], of F eval_links]
    by (simp add: abs_path_names)
qed

lemma read_contained:
  assumes "fs_wf F" "plain_path path" "is_inside_workspace F path ws" "os_read_file F path = Inr c"
  shows "\<exists>p. node_at F p = Some (FileNode c) \<and> under (workspace_root F ws) (path_string p)"
proof -
  from assms(4) obtain p where p: "resolve F kernel_links path = Found p" "node_at F p = Some (FileNode c)"
    by (auto simp: os_read_file_def split: walk.splits option.splits node.splits)
  then have "eval_symlinks F (abs_path F path) = Some p"
    using resolve_abs [OF assms(2,1)] by (simp add: eval_symlinks_def)
  with assms(3) p show ?thesis
    by (auto simp: is_inside_workspace_def resolved_target_def)
qed

text \<open>The last step of a walk, when the directory is known and the name is new in it.\<close>

lemma namei_last:
  "namei F k cur xs = Found d \<Longrightarrow> node_at F (d @ [e]) = None \<Longrightarrow> ordinary e \<Longrightarrow>
   walk_ok (namei F k cur (xs @ [e])) \<Longrightarrow> namei F k cur (xs @ [e]) = Absent d e"
proof (induction k cur xs rule: namei_induct [where F = F])
  case (linked k cur e' es t)
  then show ?case by (simp add: namei_link)
qed (simp_all add: namei_steps split: if_splits)

text \<open>Directory and base name.\<close>

lemma split_last:
  obtains init b where "split_on c s = init @ [b]" "c \<notin> set b"
    "s = b \<and> init = [] \<or> (\<exists>a. s = a @ c # b \<and> init = split_on c a)"
proof -
  define b where "b = rev (takeWhile (\<lambda>x. x \<noteq> c) (rev s))"
  define a0 where "a0 = rev (dropWhile (\<lambda>x. x \<noteq> c) (rev s))"
  have s: "s = a0 @ b" by (simp add: a0_def b_def flip: rev_append)
  have b: "c \<notin> set b" by (auto simp: b_def dest: set_takeWhileD)
  show ?thesis
  proof (cases "a0 = []")
    case True
    with s b that [of "[]" b] show ?thesis by (simp add: split_on_notin)
  next
    case False
    then have "dropWhile (\<lambda>x. x \<noteq> c) (rev s) \<noteq> []" by (simp add: a0_def)
    then have "last a0 = c" using hd_dropWhile [of "\<lambda>x. x \<noteq> c" "rev s"] by (simp add: a0_def last_rev)
    with False have "a0 = butlast a0 @ [c]" by (metis append_butlast_last_id)
    with s have "s = butlast a0 @ c # b" by (metis append.assoc append_Cons append_Nil)
    with b that [of "split_on c (butlast a0)" b] show ?thesis by (simp add: split_on_append_sep split_on_notin)
  qed
qed

lemma dir_prefix:
  "CHR ''/'' \<notin> set b \<Longrightarrow> path_dir b = dot"
  "CHR ''/'' \<notin> set b \<Longrightarrow> path_dir (a @ CHR ''/'' # b) = path_clean (a @ ''/'')"
proof -
  assume b: "CHR ''/'' \<notin> set b"
  have d: "dropWhile (\<lambda>c. c \<noteq> CHR ''/'') (rev b @ xs) = dropWhile (\<lambda>c. c \<noteq> CHR ''/'') xs" for xs
    by (rule dropWhile_append2) (use b in auto)
  have "path_clean [] = dot" by code_simp
  then show "path_dir b = dot" using d [of "[]"] by (simp only: path_dir_def append_Nil2 dropWhile.simps rev.simps)
  show "path_dir (a @ CHR ''/'' # b) = path_clean (a @ ''/'')"
    using d [of "CHR ''/'' # rev a"] by (simp add: path_dir_def)
qed

lemma resolve_clean:
  assumes "plain_path q" "walk_ok (namei F k (start_dir F q) (path_names q))"
  shows "resolve F k (path_clean q) = namei F k (start_dir F q) (path_names q)"
proof (cases "is_abs q")
  case True
  then show ?thesis
    using assms resolve_path_string [OF path_names_ok [OF assms(1)], of F k]
    by (simp add: clean_path_string start_dir_def)
next
  case False
  let ?xs = "path_names q"
  have ok: "list_all name_ok ?xs" using assms(1) by (rule path_names_ok)
  have c: "path_clean q = (if ?xs = [] then dot else str_join ''/'' ?xs)"
    using False assms(1) by (simp add: path_clean_parts clean_parts_plain)
  show ?thesis
  proof (cases "?xs = []")
    case True
    have "resolve F k dot = Found (fs_cwd F)"
      by (simp add: resolve_def dot_def is_abs_def has_prefix_def namei_skip)
    then show ?thesis using c True False by (simp add: start_dir_def)
  next
    case ne: False
    have s: "split_on (CHR ''/'') (str_join ''/'' ?xs) = ?xs"
      using ok ne by (intro split_on_join) (auto simp: list_all_iff name_ok_def elem_ok_def)
    have "is_abs (path_clean q) = is_abs q" by simp
    then have na: "\<not> is_abs (str_join ''/'' ?xs)" using c ne False by simp
    show ?thesis
      using s na ne False str_join_not_Nil [OF ok ne] by (simp add: c resolve_def start_dir_def)
  qed
qed

text \<open>When the walk of a plain path ends, its directory exists and \<open>MkdirAll\<close> has nothing to make.\<close>

lemma dir_resolves:
  assumes "plain_path path" "walk_ok (resolve F k path)"
  shows "\<exists>d. resolve F k (path_dir path) = Found d"
proof -
  obtain init b where sp: "split_on (CHR ''/'') path = init @ [b]" "CHR ''/'' \<notin> set b"
    "path = b \<and> init = [] \<or> (\<exists>a. path = a @ CHR ''/'' # b \<and> init = split_on (CHR ''/'') a)"
    by (rule split_last)
  have "walk_ok (namei F k (start_dir F path) (init @ [b]))"
    using assms sp(1) by (simp add: resolve_def plain_path_def start_dir_def)
  from namei_prefix [OF this] obtain d where d: "namei F k (start_dir F path) init = Found d" by auto
  from sp(3) show ?thesis
  proof
    assume "path = b \<and> init = []"
    then have "path_dir path = dot" using dir_prefix(1) [OF sp(2)] by simp
    then show ?thesis by (simp add: resolve_def dot_def is_abs_def has_prefix_def namei_skip)
  next
    assume "\<exists>a. path = a @ CHR ''/'' # b \<and> init = split_on (CHR ''/'') a"
    then obtain a where a: "path = a @ CHR ''/'' # b" "init = split_on (CHR ''/'') a" by blast
    have pl: "plain_path (a @ ''/'')"
      using assms(1) a by (auto simp: plain_path_def split_on_append_sep dotdot_def)
    have st: "start_dir F (a @ ''/'') = start_dir F path"
      using a by (cases a) (simp_all add: start_dir_def is_abs_def has_prefix_def)
    have nm: "path_names (a @ ''/'') = filter is_elem init"
      using a by (simp add: path_names_def split_on_append_sep is_elem_def)
    have "namei F k (start_dir F path) (filter is_elem init) = Found d"
      using d namei_filter [of F k "start_dir F path" init] by simp
    then show ?thesis
      using resolve_clean [OF pl, of F k] a dir_prefix(2) [OF sp(2)] by (simp add: st nm)
  qed
qed

lemma join_elems_split: "join_elems (is_abs d) (split_on (CHR ''/'') (if is_abs d then tl d else d)) = d"
  by (cases d) (auto simp: join_elems_def is_abs_def has_prefix_def)

lemma mkdir_all_exists: "resolve F kernel_links d = Found p \<Longrightarrow> snd (mkdir_all F d) = F"
  unfolding mkdir_all_def
  by (subst mkdir_all_elems.simps) (simp add: Let_def join_elems_split stat_dir_def split: bool.split)

lemma join_snoc: "str_join s (xs @ [x]) = (if xs = [] then x else str_join s xs @ s @ x)"
proof (induction xs)
  case (Cons y xs)
  then show ?case by (cases xs) simp_all
qed simp

lemma path_dir_base_string:
  assumes "list_all name_ok (xs @ [x])"
  shows "path_dir (path_string (xs @ [x])) = path_string xs" "path_base (path_string (xs @ [x])) = x"
proof -
  have x: "CHR ''/'' \<notin> set x" "x \<noteq> []" using assms by (simp_all add: name_ok_def elem_ok_def)
  have xs: "list_all name_ok xs" using assms by simp
  obtain a where a: "path_string (xs @ [x]) = a @ CHR ''/'' # x" "a @ ''/'' = (if xs = [] then ''/'' else path_string xs @ ''/'')"
    by (cases "xs = []") (auto simp: path_string_def join_snoc)
  have "path_clean (a @ ''/'') = path_string xs"
  proof (cases "xs = []")
    case True
    have "path_clean ''/'' = ''/''" by code_simp
    with True a show ?thesis by (simp add: path_string_def)
  next
    case False
    have "plain_path (path_string xs @ ''/'')"
      using plain_path_string [OF xs] by (simp add: plain_path_def split_on_append_sep dotdot_def)
    moreover have "is_abs (path_string xs @ ''/'')" by (simp add: is_abs_def path_string_def has_prefix_def)
    moreover have "path_names (path_string xs @ ''/'') = xs"
      using path_string_names [OF xs] by (simp add: path_names_def split_on_append_sep is_elem_def)
    ultimately show ?thesis using False a by (simp add: clean_path_string)
  qed
  then show "path_dir (path_string (xs @ [x])) = path_string xs"
    unfolding a(1) by (simp add: dir_prefix(2) x)
  have "trim_right_set {CHR ''/''} (a @ CHR ''/'' # x) = a @ CHR ''/'' # x"
  proof -
    have "dropWhile (\<lambda>c. c \<in> {CHR ''/''}) (rev (a @ CHR ''/'' # x)) = rev (a @ CHR ''/'' # x)"
      using x last_in_set [of x] by (cases "rev x") (auto simp: rev_swap)
    then show ?thesis by (simp only: trim_right_set_def rev_rev_ident)
  qed
  moreover have "last (split_on (CHR ''/'') (a @ CHR ''/'' # x)) = x"
    using x by (simp add: split_on_append_sep split_on_notin)
  ultimately show "path_base (path_string (xs @ [x])) = x"
    unfolding a(1) by (simp add: path_base_def Let_def)
qed

lemma path_join_string:
  assumes "list_all name_ok (d @ [e])"
  shows "path_join [path_string d, e] = path_string (d @ [e])"
proof -
  have e: "e \<noteq> []" using assms by (simp add: name_ok_def elem_ok_def)
  let ?p = "path_string d @ ''/'' @ e"
  have d: "list_all name_ok d" using assms by simp
  have se: "split_on (CHR ''/'') e = [e]" "is_elem e" "e \<noteq> dotdot"
    using assms by (simp_all add: name_ok_def elem_ok_def split_on_notin is_elem_def)
  have "plain_path ?p"
    using plain_path_string [OF d] se by (simp add: plain_path_def split_on_append_sep)
  moreover have "is_abs ?p" by (simp add: is_abs_def path_string_def has_prefix_def)
  moreover have "path_names ?p = d @ [e]"
    using path_string_names [OF d] se by (simp add: path_names_def split_on_append_sep)
  ultimately show ?thesis
    using e by (simp add: path_join_def clean_path_string path_string_def)
qed

text \<open>The file a write reaches: one that exists, or a new name in a directory that exists.\<close>

definition ordinary_target :: "fs \<Rightarrow> string \<Rightarrow> bool" where
  "ordinary_target F path \<longleftrightarrow>
     (case resolve F kernel_links path of
        Found p \<Rightarrow> True
      | Absent _ _ \<Rightarrow>
          (case eval_symlinks F (path_dir (abs_path F path)) of
             Some d \<Rightarrow> node_at F (d @ [path_base (abs_path F path)]) = None
           | None \<Rightarrow> False)
      | Failed _ \<Rightarrow> False)"

lemma absent_target:
  assumes "fs_wf F" "plain_path path" "resolve F kernel_links path = Absent d n" "ordinary_target F path"
  shows "resolved_target F (abs_path F path) = path_string (d @ [n])"
proof -
  let ?ns = "start_dir F path @ path_names path"
  have ok: "list_all name_ok ?ns" using assms(2,1) by (rule abs_names_ok)
  have abs: "abs_path F path = path_string ?ns" using assms(2,1) by (rule abs_path_names)
  have ev: "resolve F eval_links (abs_path F path) = Absent d n"
    using resolve_abs [OF assms(2,1)] assms(3) by simp
  have "?ns \<noteq> []"
  proof
    assume "?ns = []"
    moreover have "resolve F eval_links (path_string []) = Found []"
      using resolve_path_string [of "[]" F eval_links] by simp
    ultimately show False using ev abs by simp
  qed
  then obtain xs x where ns: "?ns = xs @ [x]" by (metis append_butlast_last_id)
  have okx: "list_all name_ok (xs @ [x])" using ok ns by simp
  from assms(3,4) obtain d' where d': "eval_symlinks F (path_string xs) = Some d'" "node_at F (d' @ [x]) = None"
    using path_dir_base_string [OF okx] by (auto simp: ordinary_target_def abs ns split: option.splits)
  then have res: "resolve F eval_links (path_string xs) = Found d'"
    by (auto simp: eval_symlinks_def split: walk.splits)
  have walk: "namei F eval_links [] xs = Found d'"
  proof -
    have "namei F eval_links [] (path_names (path_string xs)) = resolve F eval_links (path_string xs)"
      using resolve_names [of "path_string xs" F eval_links] res by (simp add: start_dir_def)
    then show ?thesis using res okx by (simp add: path_string_names)
  qed
  have absent: "namei F eval_links [] (xs @ [x]) = Absent d n"
  proof -
    have "namei F eval_links [] (path_names (path_string (xs @ [x]))) = resolve F eval_links (path_string (xs @ [x]))"
      using resolve_names [of "path_string (xs @ [x])" F eval_links] ev abs ns
      by (simp add: start_dir_def)
    then show ?thesis using ev abs ns okx by (simp add: path_string_names)
  qed
  moreover have "namei F eval_links [] (xs @ [x]) = Absent d' x"
    using walk d'(2) okx absent by (intro namei_last) (simp_all add: ordinary_name)
  ultimately have dn: "d = d'" "n = x" by simp_all
  have "node_at F d' = Some DirNode"
    using namei_end [OF assms(1), of "[]" eval_links "xs @ [x]"] absent dn by simp
  then have "list_all name_ok (d' @ [x])" using fs_wf_names [OF assms(1)] okx by simp
  moreover have "eval_symlinks F (abs_path F path) = None" using ev by (simp add: eval_symlinks_def)
  ultimately show ?thesis
    using d'(1) path_dir_base_string [OF okx] by (simp add: resolved_target_def abs ns dn path_join_string)
qed

text \<open>What a write changes.\<close>

lemma write_file_frame:
  assumes "fs_wf F" "plain_path path" "is_inside_workspace F path ws" "ordinary_target F path"
    "os_write_file F path content = Inr F'" "node_at F' q \<noteq> node_at F q"
  shows "under (workspace_root F ws) (path_string q)"
proof (cases "resolve F kernel_links path")
  case (Found p)
  then have "eval_symlinks F (abs_path F path) = Some p"
    using resolve_abs [OF assms(2,1)] by (simp add: eval_symlinks_def)
  then have "under (workspace_root F ws) (path_string p)"
    using assms(3) by (simp add: is_inside_workspace_def resolved_target_def)
  moreover have "q = p"
    using assms(5,6) Found
    by (cases "p = []") (auto simp: os_write_file_def open_create_def split: option.splits node.splits if_splits)
  ultimately show ?thesis by simp
next
  case (Absent d n)
  have "q = d @ [n]"
    using assms(5,6) Absent by (auto simp: os_write_file_def open_create_def split: if_splits)
  with absent_target [OF assms(1,2) Absent assms(4)] assms(3) show ?thesis
    by (simp add: is_inside_workspace_def)
next
  case (Failed e)
  with assms(4) show ?thesis by (simp add: ordinary_target_def)
qed

lemma write_execute_frame:
  assumes "fs_wf F" "plain_path (str_or_empty ''path'' a)" "ws \<noteq> []" "ordinary_target F (str_or_empty ''path'' a)"
    "node_at (snd (write_file_execute ws a F)) q \<noteq> node_at F q"
  shows "under (workspace_root F ws) (path_string q)"
proof -
  let ?p = "str_or_empty ''path'' a"
  have ne: "?p \<noteq> []" using assms(2) by (simp add: plain_path_def)
  have "walk_ok (resolve F kernel_links ?p)" using assms(4) by (simp add: ordinary_target_def split: walk.splits)
  from dir_resolves [OF assms(2) this] obtain d where "resolve F kernel_links (path_dir ?p) = Found d" by blast
  then have mk: "snd (mkdir_all F (path_dir ?p)) = F" by (rule mkdir_all_exists)
  obtain e where m: "mkdir_all F (path_dir ?p) = (e, F)" using mk by (metis prod.collapse)
  have "is_inside_workspace F ?p ws"
    using assms(3,5) ne by (auto simp: write_file_execute_def Let_def split: if_splits)
  moreover from this obtain F' where "os_write_file F ?p (str_or_empty ''content'' a) = Inr F'" "node_at F' q \<noteq> node_at F q"
    using assms(3,5) ne m by (auto simp: write_file_execute_def Let_def split: option.splits sum.splits)
  ultimately show ?thesis using write_file_frame [OF assms(1,2) _ assms(4)] by blast
qed

subsection \<open>Without symbolic links the check is exact\<close>

definition no_links :: "fs \<Rightarrow> bool" where
  "no_links F \<longleftrightarrow> (\<forall>(p, n) \<in> set (fs_nodes F). \<forall>t. n \<noteq> LinkNode t)"

lemma no_links_node: "no_links F \<Longrightarrow> node_at F p \<noteq> Some (LinkNode t)"
  by (fastforce simp: no_links_def node_at_def dest: map_of_SomeD split: if_splits)

lemma no_links_put: "no_links F \<Longrightarrow> (\<And>t. n \<noteq> LinkNode t) \<Longrightarrow> no_links (put_node p n F)"
  by (auto simp: no_links_def put_node_def dest!: set_map_put_subset)

text \<open>The names a path stands for, lexically.\<close>

definition abs_elems :: "fs \<Rightarrow> string \<Rightarrow> string list" where
  "abs_elems F path = clean_elems True (rev (start_dir F path)) (split_on (CHR ''/'') path)"

definition walk_target :: "walk \<Rightarrow> string list option" where
  "walk_target r = (case r of Found p \<Rightarrow> Some p | Absent d n \<Rightarrow> Some (d @ [n]) | Failed _ \<Rightarrow> None)"

lemma walk_target_simps [simp]:
  "walk_target (Found p) = Some p" "walk_target (Absent d n) = Some (d @ [n])" "walk_target (Failed e) = None"
  by (simp_all add: walk_target_def)

lemma clean_elems_ordinary: "ordinary e \<Longrightarrow> clean_elems r acc (e # es) = clean_elems r (e # acc) es"
  by (simp add: ordinary_def)

lemma clean_elems_names: "list_all name_ok xs \<Longrightarrow> clean_elems r acc (xs @ es) = clean_elems r (rev xs @ acc) es"
  by (induction xs arbitrary: acc) (simp_all add: clean_elems_ordinary ordinary_name del: clean_elems.simps)

lemma names_not_dotdot: "list_all name_ok (as @ [a]) \<Longrightarrow> a \<noteq> dotdot"
  by (simp add: name_ok_def)

lemma clean_elems_up:
  assumes "list_all name_ok cur"
  shows "clean_elems True (rev cur) (dotdot # es) = clean_elems True (rev (butlast cur)) es"
proof -
  have "\<not> (dotdot = [] \<or> dotdot = dot)" by (simp add: dotdot_def dot_def)
  then show ?thesis
    using assms names_not_dotdot [of "butlast cur" "last cur"]
    by (cases cur rule: rev_cases) auto
qed

lemma namei_lexical:
  "fs_wf F \<Longrightarrow> no_links F \<Longrightarrow> node_at F cur = Some DirNode \<Longrightarrow> walk_ok (namei F k cur es) \<Longrightarrow>
   walk_target (namei F k cur es) = Some (clean_elems True (rev cur) es)"
proof (induction k cur es rule: namei_induct [where F = F])
  case (up k cur es)
  have "node_at F (butlast cur) = Some DirNode"
    using up.prems fs_wf_node [of F cur DirNode] by (cases "cur = []") auto
  with up show ?case
    using fs_wf_names [OF up.prems(1,3)] by (simp add: namei_up clean_elems_up del: clean_elems.simps(2))
qed (auto simp: namei_steps clean_elems_ordinary no_links_node ordinary_def simp del: clean_elems.simps(2) split: if_splits,
     simp_all add: dotdot_def dot_def)


text \<open>A new name found by a walk is a name.\<close>

lemma namei_absent_name:
  "\<forall>e \<in> set es. CHR ''/'' \<notin> set e \<Longrightarrow> namei F k cur es = Absent d n \<Longrightarrow> name_ok n"
proof (induction k cur es rule: namei_induct [where F = F])
  case (linked k cur e es t)
  have "\<forall>x \<in> set (split_on (CHR ''/'') t @ es). CHR ''/'' \<notin> set x"
    using linked.prems(1) split_on_free [of _ "CHR ''/''" t] by auto
  with linked show ?case by (simp add: namei_link)
qed (auto simp: namei_steps name_ok_def elem_ok_def ordinary_def split: if_splits)

lemma resolve_absent_name: "resolve F k path = Absent d n \<Longrightarrow> name_ok n"
  using namei_absent_name [of "split_on (CHR ''/'') path"] split_on_free [of _ "CHR ''/''" path]
  by (auto simp: resolve_def split: if_splits)

lemma resolve_lexical:
  "fs_wf F \<Longrightarrow> no_links F \<Longrightarrow> walk_ok (resolve F k path) \<Longrightarrow> walk_target (resolve F k path) = Some (abs_elems F path)"
  using namei_lexical [of F "start_dir F path" k "split_on (CHR ''/'') path"] start_dir_node [of F path]
  by (auto simp: resolve_def abs_elems_def start_dir_def split: if_splits)

lemma clean_names: "fs_wf F \<Longrightarrow> list_all name_ok (abs_elems F path)"
proof -
  assume wf: "fs_wf F"
  have "list_all name_ok (start_dir F path)" using fs_wf_names [OF wf start_dir_node [OF wf]] .
  moreover have "clean_shape True cs \<longleftrightarrow> list_all name_ok cs" for cs
    by (cases cs) (auto simp: name_ok_def list_all_iff)
  ultimately show ?thesis
    using clean_elems_shape [of True "rev (start_dir F path)" "split_on (CHR ''/'') path"]
      split_on_free [of _ "CHR ''/''" path]
    by (auto simp: abs_elems_def)
qed

lemma abs_path_elems:
  assumes "fs_wf F" "path \<noteq> []"
  shows "abs_path F path = path_string (abs_elems F path)"
proof (cases "is_abs path")
  case True
  then show ?thesis by (simp add: abs_path_def path_clean_parts clean_parts_def abs_elems_def start_dir_def path_string_def)
next
  case False
  let ?p = "path_string (fs_cwd F) @ ''/'' @ path"
  have cwd: "list_all name_ok (fs_cwd F)"
    using assms(1) fs_wf_names [of F "fs_cwd F" DirNode] by (simp add: fs_wf_def)
  have ab: "is_abs ?p" by (simp add: is_abs_def has_prefix_def path_string_def)
  have "clean_parts ?p = clean_elems True [] (split_on (CHR ''/'') (path_string (fs_cwd F)) @ split_on (CHR ''/'') path)"
    using ab by (simp add: clean_parts_def split_on_append_sep)
  also have "\<dots> = clean_elems True [] (fs_cwd F @ split_on (CHR ''/'') path)"
  proof -
    have "split_on (CHR ''/'') (path_string (fs_cwd F)) = [] # (if fs_cwd F = [] then [[]] else fs_cwd F)"
      using cwd by (auto simp: path_string_def split_on_join list_all_iff name_ok_def elem_ok_def)
    then show ?thesis by simp
  qed
  also have "\<dots> = abs_elems F path"
    using cwd False by (simp add: clean_elems_names abs_elems_def start_dir_def)
  finally show ?thesis
    using ab False assms(2) path_clean_parts [of ?p]
    by (simp add: abs_path_def path_join_def path_string_def)
qed

lemma start_dir_path_string [simp]: "start_dir F (path_string xs) = []"
  by (simp add: start_dir_def)

lemma abs_elems_string: "list_all name_ok xs \<Longrightarrow> abs_elems F (path_string xs) = xs"
  using path_string_names [of xs] plain_path_string [of xs]
  by (simp add: abs_elems_def plain_path_def clean_elems_plain path_names_def)

lemma under_prefix:
  assumes "list_all name_ok w" "list_all name_ok a" "w \<noteq> []"
  shows "under (path_string w) (path_string a) \<longleftrightarrow> (\<exists>r. a = w @ r)"
proof
  assume "under (path_string w) (path_string a)"
  then consider t where "path_string a = path_string w @ ''/'' @ t" | "path_string a = path_string w"
    by (auto simp: under_def has_prefix_iff)
  then show "\<exists>r. a = w @ r"
  proof cases
    case 1
    have "a = filter is_elem (split_on (CHR ''/'') (path_string a))"
      using path_string_names [OF assms(2)] by (simp add: path_names_def)
    also have "\<dots> = w @ filter is_elem (split_on (CHR ''/'') t)"
      using path_string_names [OF assms(1)] by (simp add: 1 path_names_def split_on_append_sep)
    finally show ?thesis by blast
  next
    case 2
    then have "a = w" using path_string_names assms(1,2) by metis
    then show ?thesis by simp
  qed
next
  assume "\<exists>r. a = w @ r"
  then obtain r where a: "a = w @ r" by blast
  show "under (path_string w) (path_string a)"
  proof (cases "r = []")
    case False
    have "str_join ''/'' (w @ r) = str_join ''/'' w @ ''/'' @ str_join ''/'' r"
      using assms(3) False
    proof (induction w)
      case (Cons x w)
      then show ?case by (cases w; cases r) auto
    qed simp
    then show ?thesis using a by (simp add: under_def path_string_def has_prefix_iff)
  qed (simp add: a under_def)
qed

lemma eval_symlinks_lexical:
  "fs_wf F \<Longrightarrow> no_links F \<Longrightarrow> list_all name_ok xs \<Longrightarrow> eval_symlinks F (path_string xs) = Some p \<Longrightarrow> p = xs"
  using resolve_lexical [of F eval_links "path_string xs"] abs_elems_string [of xs F]
  by (auto simp: eval_symlinks_def split: walk.splits)

text \<open>The check compares the lexical forms of the two paths.\<close>

lemma resolved_target_lexical:
  assumes "fs_wf F" "no_links F" "path \<noteq> []"
  shows "resolved_target F (abs_path F path) = path_string (abs_elems F path)"
proof -
  let ?a = "abs_elems F path"
  have ok: "list_all name_ok ?a" using assms(1) by (rule clean_names)
  have abs: "abs_path F path = path_string ?a" using assms(1,3) by (rule abs_path_elems)
  show ?thesis
  proof (cases "eval_symlinks F (path_string ?a)")
    case (Some p)
    then show ?thesis using eval_symlinks_lexical [OF assms(1,2) ok Some] by (simp add: resolved_target_def abs)
  next
    case None
    show ?thesis
    proof (cases "eval_symlinks F (path_dir (path_string ?a))")
      case (Some d)
      have "?a \<noteq> []"
      proof
        assume "?a = []"
        then have "resolve F eval_links (path_string ?a) = Found []"
          using resolve_path_string [of "[]" F eval_links] by simp
        with None show False by (simp add: eval_symlinks_def)
      qed
      then obtain xs x where a: "?a = xs @ [x]" by (metis append_butlast_last_id)
      have okx: "list_all name_ok (xs @ [x])" using ok a by simp
      then have "d = xs"
        using Some path_dir_base_string [OF okx] eval_symlinks_lexical [OF assms(1,2), of xs d] by (simp add: a)
      then show ?thesis
        using Some None path_dir_base_string [OF okx] path_join_string [OF okx]
        by (simp add: resolved_target_def abs a)
    next
      case no: None
      then show ?thesis using None by (simp add: resolved_target_def abs)
    qed
  qed
qed

lemma workspace_root_lexical:
  assumes "fs_wf F" "no_links F" "ws \<noteq> []"
  shows "workspace_root F ws = path_string (abs_elems F ws)"
  using assms eval_symlinks_lexical [OF assms(1,2) clean_names [OF assms(1)], of ws]
  by (auto simp: workspace_root_def abs_path_elems split: option.splits)

lemma inside_lexical:
  assumes "fs_wf F" "no_links F" "path \<noteq> []" "ws \<noteq> []" "abs_elems F ws \<noteq> []"
  shows "is_inside_workspace F path ws \<longleftrightarrow> (\<exists>r. abs_elems F path = abs_elems F ws @ r)"
  using assms
  by (simp add: is_inside_workspace_def resolved_target_lexical workspace_root_lexical under_prefix clean_names)

text \<open>Changes below a directory \<open>w\<close> that keep the file system in shape.\<close>

definition changed_below :: "string list \<Rightarrow> fs \<Rightarrow> fs \<Rightarrow> bool" where
  "changed_below w F F' \<longleftrightarrow> fs_wf F' \<and> no_links F' \<and> fs_cwd F' = fs_cwd F
     \<and> (\<forall>d. node_at F d = Some DirNode \<longrightarrow> node_at F' d = Some DirNode)
     \<and> (\<forall>q. node_at F' q \<noteq> node_at F q \<longrightarrow> (\<exists>r. q = w @ r))"

lemma changed_below_refl: "fs_wf F \<Longrightarrow> no_links F \<Longrightarrow> changed_below w F F"
  by (simp add: changed_below_def)

lemma changed_below_trans: "changed_below w F F1 \<Longrightarrow> changed_below w F1 F2 \<Longrightarrow> changed_below w F F2"
  by (auto simp: changed_below_def) metis

lemma fs_wf_put:
  assumes "fs_wf F" "node_at F d = Some DirNode" "name_ok e"
    "n = DirNode \<or> node_at F (d @ [e]) \<noteq> Some DirNode"
  shows "fs_wf (put_node (d @ [e]) n F)"
proof -
  have d: "list_all name_ok d" using fs_wf_names [OF assms(1,2)] .
  have keep: "node_at F x = Some DirNode \<Longrightarrow> node_at (put_node (d @ [e]) n F) x = Some DirNode" for x
    using assms(4) by auto
  have entry: "p \<noteq> [] \<and> list_all name_ok p \<and> node_at (put_node (d @ [e]) n F) (butlast p) = Some DirNode"
    if "(p, m) \<in> set (fs_nodes (put_node (d @ [e]) n F))" for p m
  proof -
    from that have "p = d @ [e] \<or> (p, m) \<in> set (fs_nodes F)"
      by (auto simp: put_node_def dest!: set_map_put_subset)
    then show ?thesis
    proof
      assume "p = d @ [e]"
      then show ?thesis using d assms(3) keep [OF assms(2)] by simp
    next
      assume "(p, m) \<in> set (fs_nodes F)"
      then have "p \<noteq> [] \<and> list_all name_ok p \<and> node_at F (butlast p) = Some DirNode"
        using assms(1) by (auto simp: fs_wf_def)
      then show ?thesis using keep by blast
    qed
  qed
  have "fs_cwd (put_node (d @ [e]) n F) = fs_cwd F" by (simp add: put_node_def)
  then show ?thesis
    using entry keep [of "fs_cwd F"] assms(1) by (auto simp: fs_wf_def)
qed

lemma changed_below_put:
  assumes "fs_wf F" "no_links F" "node_at F d = Some DirNode" "name_ok e" "\<And>t. n \<noteq> LinkNode t"
    "n = DirNode \<or> node_at F (d @ [e]) \<noteq> Some DirNode" "d @ [e] = w @ r"
  shows "changed_below w F (put_node (d @ [e]) n F)"
  unfolding changed_below_def
proof (intro conjI allI impI)
  show "fs_wf (put_node (d @ [e]) n F)" using assms by (intro fs_wf_put)
  show "no_links (put_node (d @ [e]) n F)" using assms(2,5) by (rule no_links_put)
  show "fs_cwd (put_node (d @ [e]) n F) = fs_cwd F" by (simp add: put_node_def)
next
  fix x assume "node_at F x = Some DirNode"
  then show "node_at (put_node (d @ [e]) n F) x = Some DirNode" using assms(6) by auto
next
  fix q assume "node_at (put_node (d @ [e]) n F) q \<noteq> node_at F q"
  then have "q = d @ [e]" by (auto split: if_splits)
  then show "\<exists>r. q = w @ r" using assms(7) by auto
qed

lemma os_write_below:
  assumes "fs_wf F" "no_links F" "os_write_file F path content = Inr F'" "abs_elems F path = w @ r"
  shows "changed_below w F F'"
proof (cases "resolve F kernel_links path")
  case (Found p)
  then have p: "p = w @ r" using resolve_lexical [OF assms(1,2), of kernel_links path] assms(4) by simp
  from assms(3) Found obtain c where c: "node_at F p = Some (FileNode c)" "F' = put_node p (FileNode content) F"
    by (auto simp: os_write_file_def open_create_def split: option.splits node.splits)
  then have "p \<noteq> []" by auto
  then obtain d e where de: "p = d @ [e]" by (metis append_butlast_last_id)
  have "node_at F d = Some DirNode" "name_ok e"
    using fs_wf_node [OF assms(1) c(1)] de by simp_all
  then have "changed_below w F (put_node (d @ [e]) (FileNode content) F)"
    using assms(1,2) c(1) de p by (intro changed_below_put [where r = r]) auto
  then show ?thesis using c(2) de by simp
next
  case (Absent d n)
  then have p: "d @ [n] = w @ r" using resolve_lexical [OF assms(1,2), of kernel_links path] assms(4) by simp
  have dn: "node_at F d = Some DirNode" "node_at F (d @ [n]) = None"
    using namei_end [OF assms(1) start_dir_node [OF assms(1), of path], of kernel_links "split_on (CHR ''/'') path"] Absent
    by (auto simp: resolve_def start_dir_def split: if_splits)
  have F': "F' = put_node (d @ [n]) (FileNode content) F"
  proof -
    have "map_put p v (map_put p v' m) = map_put p v m" for p :: "string list" and v v' :: node and m
      by (induction m) auto
    then show ?thesis using assms(3) Absent by (auto simp: os_write_file_def open_create_def put_node_def)
  qed
  show ?thesis
    unfolding F' using assms(1,2) dn p resolve_absent_name [OF Absent]
    by (intro changed_below_put [where r = r]) auto
next
  case (Failed e)
  with assms(3) show ?thesis by (simp add: os_write_file_def open_create_def)
qed

end
