(* ===== verification/Tool_Loop.thy ===== *)
theory Tool_Loop
  imports Tool_Registry
begin

section \<open>pkg/tools/loop.go: the agentic loop\<close>

text \<open>
  \<open>RunToolLoop\<close> asks the provider, runs the requested tools, appends the results and
  asks again, at most \<open>MaxIterations\<close> times. The model threads the world \<open>'w\<close> through the
  provider, the hook and the tools. The tool calls of one answer run in parallel goroutines,
  each writing its own slot of \<open>results\<close>; the model runs them one after the other in an
  order chosen by a scheduler (\<open>schedule\<close>), any permutation of the slots. Spans and log
  lines are left out.
\<close>

record 'w tool_hook =
  before_tool_call :: "string \<Rightarrow> args \<Rightarrow> 'w \<Rightarrow> (bool \<times> string) \<times> 'w"
  after_tool_call :: "string \<Rightarrow> args \<Rightarrow> tool_result \<Rightarrow> 'w \<Rightarrow> 'w"

record 'w loop_config =
  max_iterations :: int
  max_result_bytes :: int
  loop_hook :: "'w tool_hook option"

definition default_max_result_bytes :: int where
  "default_max_result_bytes = 32768"

definition default_loop_config :: "'w loop_config" where
  "default_loop_config =
     \<lparr>max_iterations = 10, max_result_bytes = default_max_result_bytes, loop_hook = None\<rparr>"

text \<open>The provider, the cancellation state of the context and the scheduler.\<close>

record 'w loop_env =
  complete_with_tools :: "message list \<Rightarrow> tool_definition list \<Rightarrow> 'w \<Rightarrow> (string + response) \<times> 'w"
  ctx_err :: "'w \<Rightarrow> string option"
  schedule :: "nat \<Rightarrow> nat \<Rightarrow> nat list"

datatype loop_error =
    LlmCallFailed string
  | ContextError string
  | MaxIterationsReached int

subsection \<open>Operations\<close>

definition truncate_result :: "string \<Rightarrow> int \<Rightarrow> string" where
  "truncate_result s max_bytes =
     (if max_bytes \<le> 0 \<or> int (length s) \<le> max_bytes then s
      else let truncated = to_valid_utf8 (take (nat max_bytes) s) in
        truncated @ nl @ nl @ ''[Truncated: showing first '' @ itoa (int (length truncated)) @
          '' bytes of '' @ itoa (int (length s)) @ '' total]'')"

definition execute_allowed ::
  "'w registry \<Rightarrow> tool_call \<Rightarrow> 'w tool_hook option \<Rightarrow> 'w \<Rightarrow> tool_result \<times> 'w" where
  "execute_allowed R tc hook w =
     (case reg_get R (tc_name tc) of
        None \<Rightarrow> (tool_errorf (''Unknown tool: '' @ tc_name tc), w)
      | Some t \<Rightarrow>
          (let (result, w1) = t_execute t (tc_args tc) w in
           (result, (case hook of None \<Rightarrow> w1
              | Some h \<Rightarrow> after_tool_call h (tc_name tc) (tc_args tc) result w1))))"

definition execute_tool ::
  "'w registry \<Rightarrow> tool_call \<Rightarrow> 'w tool_hook option \<Rightarrow> 'w \<Rightarrow> tool_result \<times> 'w" where
  "execute_tool R tc hook w =
     (case hook of
        None \<Rightarrow> execute_allowed R tc hook w
      | Some h \<Rightarrow>
          (let ((allow, reason), w1) = before_tool_call h (tc_name tc) (tc_args tc) w in
           if \<not> allow then (tool_errorf (''Tool call denied: '' @ reason), w1)
           else execute_allowed R tc hook w1))"

text \<open>What one goroutine stores in its slot.\<close>

definition result_content :: "int \<Rightarrow> tool_call \<Rightarrow> tool_result \<Rightarrow> tool_result_content" where
  "result_content max_bytes tc r =
     \<lparr>tr_tool_use_id = tc_id tc, tr_output = truncate_result (res_output r) max_bytes,
      tr_is_error = res_error r\<rparr>"

definition zero_result_content :: tool_result_content where
  "zero_result_content = \<lparr>tr_tool_use_id = [], tr_output = [], tr_is_error = False\<rparr>"

fun run_slots ::
  "'w registry \<Rightarrow> 'w loop_config \<Rightarrow> tool_call list \<Rightarrow> nat list \<Rightarrow>
   tool_result_content list \<Rightarrow> 'w \<Rightarrow> tool_result_content list \<times> 'w" where
  "run_slots R cfg calls [] results w = (results, w)"
| "run_slots R cfg calls (i # is) results w =
     (let (r, w1) = execute_tool R (calls ! i) (loop_hook cfg) w in
      run_slots R cfg calls is
        (results[i := result_content (max_result_bytes cfg) (calls ! i) r]) w1)"

definition run_tool_calls ::
  "'w registry \<Rightarrow> 'w loop_config \<Rightarrow> nat list \<Rightarrow> tool_call list \<Rightarrow> 'w \<Rightarrow>
   tool_result_content list \<times> 'w" where
  "run_tool_calls R cfg order calls w =
     run_slots R cfg calls order (replicate (length calls) zero_result_content) w"

definition assistant_message :: "response \<Rightarrow> message" where
  "assistant_message resp =
     \<lparr>msg_role = ''assistant'', msg_content = resp_content resp,
      msg_tool_calls = resp_tool_calls resp, msg_tool_results = []\<rparr>"

definition tool_message :: "tool_result_content list \<Rightarrow> message" where
  "tool_message results =
     \<lparr>msg_role = ''tool'', msg_content = [], msg_tool_calls = [], msg_tool_results = results\<rparr>"

text \<open>One pass of the loop body: return, or go on with a longer conversation.\<close>

datatype loop_outcome =
    LoopReturn "loop_error + string"
  | LoopContinue "message list"

definition loop_iteration ::
  "'w loop_env \<Rightarrow> 'w registry \<Rightarrow> 'w loop_config \<Rightarrow> nat \<Rightarrow> message list \<Rightarrow> 'w \<Rightarrow> loop_outcome \<times> 'w" where
  "loop_iteration E R cfg i messages w =
     (case complete_with_tools E messages (reg_definitions R) w of
        (Inl err, w1) \<Rightarrow> (LoopReturn (Inl (LlmCallFailed err)), w1)
      | (Inr resp, w1) \<Rightarrow>
          if \<not> has_tool_calls resp then (LoopReturn (Inr (resp_content resp)), w1)
          else
            let messages1 = messages @ [assistant_message resp];
                (results, w2) = run_tool_calls R cfg (schedule E i (length (resp_tool_calls resp)))
                                  (resp_tool_calls resp) w1
            in (case ctx_err E w2 of
                  Some err \<Rightarrow> (LoopReturn (Inl (ContextError err)), w2)
                | None \<Rightarrow> (LoopContinue (messages1 @ [tool_message results]), w2)))"

fun loop_from ::
  "'w loop_env \<Rightarrow> 'w registry \<Rightarrow> 'w loop_config \<Rightarrow> nat \<Rightarrow> nat \<Rightarrow> message list \<Rightarrow> 'w \<Rightarrow>
   (loop_error + string) \<times> 'w" where
  "loop_from E R cfg i 0 messages w = (Inl (MaxIterationsReached (max_iterations cfg)), w)"
| "loop_from E R cfg i (Suc n) messages w =
     (case loop_iteration E R cfg i messages w of
        (LoopReturn r, w1) \<Rightarrow> (r, w1)
      | (LoopContinue messages1, w1) \<Rightarrow> loop_from E R cfg (Suc i) n messages1 w1)"

definition run_tool_loop ::
  "'w loop_env \<Rightarrow> 'w registry \<Rightarrow> 'w loop_config \<Rightarrow> message list \<Rightarrow> 'w \<Rightarrow> (loop_error + string) \<times> 'w" where
  "run_tool_loop E R cfg messages w = loop_from E R cfg 0 (nat (max_iterations cfg)) messages w"

subsection \<open>Truncation\<close>

lemma truncate_result_short:
  "max_bytes \<le> 0 \<or> int (length s) \<le> max_bytes \<Longrightarrow> truncate_result s max_bytes = s"
  by (auto simp: truncate_result_def)

lemma truncate_result_long:
  assumes "0 < max_bytes" "max_bytes < int (length s)" "valid_utf8 s"
  shows "\<exists>t. truncate_result s max_bytes = t @ nl @ nl @ ''[Truncated: showing first '' @
            itoa (int (length t)) @ '' bytes of '' @ itoa (int (length s)) @ '' total]''
         \<and> has_prefix s t \<and> valid_utf8 t \<and> int (length t) \<le> max_bytes \<and> max_bytes \<le> int (length t) + 3"
proof -
  let ?t = "to_valid_utf8 (take (nat max_bytes) s)"
  have "has_prefix s ?t" "min (nat max_bytes) (length s) \<le> length ?t + 3"
    using to_valid_take [OF assms(3)] by blast+
  moreover have "length ?t \<le> nat max_bytes"
    using length_to_valid_utf8 [of "take (nat max_bytes) s"] by simp
  ultimately show ?thesis
    using assms by (intro exI [of _ ?t]) (auto simp: truncate_result_def Let_def valid_to_valid_utf8)
qed

subsection \<open>One batch of tool calls\<close>

definition valid_schedule :: "nat \<Rightarrow> nat list \<Rightarrow> bool" where
  "valid_schedule n order \<longleftrightarrow> distinct order \<and> set order = {0..<n}"

lemma run_slots_length: "length (fst (run_slots R cfg calls order results w)) = length results"
  by (induction order arbitrary: results w) (auto split: prod.splits)

lemma run_slots_other:
  "k \<notin> set order \<Longrightarrow> fst (run_slots R cfg calls order results w) ! k = results ! k"
  by (induction order arbitrary: results w) (auto split: prod.splits)

lemma run_slots_id:
  "k \<in> set order \<Longrightarrow> k < length results \<Longrightarrow>
   tr_tool_use_id (fst (run_slots R cfg calls order results w) ! k) = tc_id (calls ! k)"
proof (induction order arbitrary: results w)
  case (Cons i order)
  show ?case
  proof (cases "k \<in> set order")
    case True
    with Cons show ?thesis by (auto split: prod.splits)
  next
    case False
    with Cons.prems have "k = i" by simp
    with False Cons.prems show ?thesis
      by (auto simp: run_slots_other result_content_def split: prod.splits)
  qed
qed simp

lemma run_tool_calls_ids:
  assumes "valid_schedule (length calls) order"
  shows "map tr_tool_use_id (fst (run_tool_calls R cfg order calls w)) = map tc_id calls"
  by (rule nth_equalityI)
    (use assms in \<open>auto simp: run_tool_calls_def run_slots_length run_slots_id valid_schedule_def\<close>)

text \<open>A predicate on worlds that every call able to run keeps is kept by the batch.\<close>

definition call_preserves ::
  "'w registry \<Rightarrow> 'w tool_hook option \<Rightarrow> ('w \<Rightarrow> bool) \<Rightarrow> bool" where
  "call_preserves R hook P \<longleftrightarrow> (\<forall>tc w. P w \<longrightarrow> P (snd (execute_tool R tc hook w)))"

lemma run_slots_preserves:
  "call_preserves R (loop_hook cfg) P \<Longrightarrow> P w \<Longrightarrow> P (snd (run_slots R cfg calls order results w))"
proof (induction order arbitrary: results w)
  case (Cons i order)
  have "P (snd (execute_tool R (calls ! i) (loop_hook cfg) w))"
    using Cons.prems by (simp add: call_preserves_def)
  with Cons show ?case by (auto split: prod.splits)
qed simp

lemma execute_tool_denied:
  "loop_hook cfg = Some h \<Longrightarrow> before_tool_call h (tc_name tc) (tc_args tc) w = ((False, reason), w1) \<Longrightarrow>
   execute_tool R tc (loop_hook cfg) w = (tool_errorf (''Tool call denied: '' @ reason), w1)"
  by (simp add: execute_tool_def)

lemma execute_tool_unknown:
  "reg_get R (tc_name tc) = None \<Longrightarrow> hook = None \<Longrightarrow>
   execute_tool R tc hook w = (tool_errorf (''Unknown tool: '' @ tc_name tc), w)"
  by (simp add: execute_tool_def execute_allowed_def)

subsection \<open>Well-formed conversations\<close>

text \<open>
  What the provider APIs require of a conversation with tools: an assistant message with tool
  calls is followed at once by a tool message that answers exactly these calls, in their
  order, and a tool message stands nowhere else.
\<close>

fun wf_transcript :: "message list \<Rightarrow> bool" where
  "wf_transcript [] = True"
| "wf_transcript (m # ms) =
     (if msg_tool_calls m = [] then msg_role m \<noteq> ''tool'' \<and> wf_transcript ms
      else (case ms of [] \<Rightarrow> False
         | t # ms' \<Rightarrow> msg_role m = ''assistant'' \<and> msg_role t = ''tool'' \<and> msg_tool_calls t = []
             \<and> map tr_tool_use_id (msg_tool_results t) = map tc_id (msg_tool_calls m)
             \<and> wf_transcript ms'))"

lemma wf_transcript_append: "wf_transcript xs \<Longrightarrow> wf_transcript ys \<Longrightarrow> wf_transcript (xs @ ys)"
  by (induction xs rule: wf_transcript.induct) (auto split: if_splits list.splits)

lemma wf_transcript_turn:
  assumes "has_tool_calls resp" "map tr_tool_use_id results = map tc_id (resp_tool_calls resp)"
  shows "wf_transcript [assistant_message resp, tool_message results]"
  using assms by (simp add: assistant_message_def tool_message_def has_tool_calls_iff)

definition valid_scheduler :: "'w loop_env \<Rightarrow> bool" where
  "valid_scheduler E \<longleftrightarrow> (\<forall>i n. valid_schedule n (schedule E i n))"

text \<open>The four ways a pass of the loop body ends.\<close>

lemma loop_iteration_cases:
  obtains (failed) err w1 where
      "complete_with_tools E messages (reg_definitions R) w = (Inl err, w1)"
      "loop_iteration E R cfg i messages w = (LoopReturn (Inl (LlmCallFailed err)), w1)"
    | (answered) resp w1 where
      "complete_with_tools E messages (reg_definitions R) w = (Inr resp, w1)"
      "\<not> has_tool_calls resp"
      "loop_iteration E R cfg i messages w = (LoopReturn (Inr (resp_content resp)), w1)"
    | (cancelled) resp w1 results w2 err where
      "complete_with_tools E messages (reg_definitions R) w = (Inr resp, w1)"
      "has_tool_calls resp"
      "run_tool_calls R cfg (schedule E i (length (resp_tool_calls resp))) (resp_tool_calls resp) w1
         = (results, w2)"
      "ctx_err E w2 = Some err"
      "loop_iteration E R cfg i messages w = (LoopReturn (Inl (ContextError err)), w2)"
    | (called) resp w1 results w2 where
      "complete_with_tools E messages (reg_definitions R) w = (Inr resp, w1)"
      "has_tool_calls resp"
      "run_tool_calls R cfg (schedule E i (length (resp_tool_calls resp))) (resp_tool_calls resp) w1
         = (results, w2)"
      "ctx_err E w2 = None"
      "loop_iteration E R cfg i messages w =
         (LoopContinue (messages @ [assistant_message resp, tool_message results]), w2)"
proof (cases "complete_with_tools E messages (reg_definitions R) w")
  case (Pair r w1)
  show thesis
  proof (cases r)
    case (Inl err)
    with Pair show thesis by (intro failed) (simp_all add: loop_iteration_def)
  next
    case (Inr resp)
    let ?b = "run_tool_calls R cfg (schedule E i (length (resp_tool_calls resp))) (resp_tool_calls resp) w1"
    show thesis
    proof (cases "has_tool_calls resp")
      case False
      with Pair Inr show thesis by (intro answered) (simp_all add: loop_iteration_def)
    next
      case True
      obtain results w2 where b: "?b = (results, w2)" by fastforce
      show thesis
      proof (cases "ctx_err E w2")
        case None
        with Pair Inr True b show thesis by (intro called) (simp_all add: loop_iteration_def)
      next
        case (Some err)
        with Pair Inr True b show thesis by (intro cancelled) (simp_all add: loop_iteration_def)
      qed
    qed
  qed
qed

lemma loop_iteration_wf:
  assumes "valid_scheduler E" "wf_transcript messages"
    "loop_iteration E R cfg i messages w = (LoopContinue messages1, w1)"
  shows "wf_transcript messages1"
proof (rule loop_iteration_cases [of E messages R w cfg i])
  fix resp w0 results w2
  assume calls: "has_tool_calls resp"
    and run: "run_tool_calls R cfg (schedule E i (length (resp_tool_calls resp))) (resp_tool_calls resp) w0
       = (results, w2)"
    and step: "loop_iteration E R cfg i messages w =
       (LoopContinue (messages @ [assistant_message resp, tool_message results]), w2)"
  have "valid_schedule (length (resp_tool_calls resp)) (schedule E i (length (resp_tool_calls resp)))"
    using assms(1) by (simp add: valid_scheduler_def)
  from run_tool_calls_ids [OF this, of R cfg w0] run
  have "map tr_tool_use_id results = map tc_id (resp_tool_calls resp)" by simp
  from wf_transcript_append [OF assms(2) wf_transcript_turn [OF calls this]] step assms(3)
  show ?thesis by simp
qed (use assms(3) in simp_all)

subsection \<open>Induction over the iterations\<close>

lemma loop_from_congruence:
  assumes "valid_scheduler E" "schedule E' = schedule E" "ctx_err E' = ctx_err E"
    and agree: "\<And>ms w. wf_transcript ms \<Longrightarrow>
       complete_with_tools E' ms (reg_definitions R) w = complete_with_tools E ms (reg_definitions R) w"
  shows "wf_transcript messages \<Longrightarrow> loop_from E' R cfg i n messages w = loop_from E R cfg i n messages w"
proof (induction n arbitrary: i messages w)
  case (Suc n)
  have eq: "loop_iteration E' R cfg i messages w = loop_iteration E R cfg i messages w"
    using agree [OF Suc.prems]
    by (simp add: loop_iteration_def assms(2,3) split: prod.splits sum.splits)
  show ?case
    unfolding loop_from.simps eq
    using Suc.IH loop_iteration_wf [OF assms(1) Suc.prems]
    by (auto split: prod.splits loop_outcome.splits)
qed simp

lemma loop_iteration_world:
  obtains r w1 where
      "complete_with_tools E messages (reg_definitions R) w = (r, w1)"
      "snd (loop_iteration E R cfg i messages w) = w1"
    | r w1 order calls where
      "complete_with_tools E messages (reg_definitions R) w = (r, w1)"
      "snd (loop_iteration E R cfg i messages w) = snd (run_tool_calls R cfg order calls w1)"
proof (rule loop_iteration_cases [of E messages R w cfg i])
qed (metis snd_conv that)+

lemma run_tool_calls_preserves:
  "call_preserves R (loop_hook cfg) P \<Longrightarrow> P w \<Longrightarrow> P (snd (run_tool_calls R cfg order calls w))"
  unfolding run_tool_calls_def by (rule run_slots_preserves)

lemma loop_iteration_preserves:
  assumes calls: "call_preserves R (loop_hook cfg) P"
    and ask: "\<And>ms ds w. P w \<Longrightarrow> P (snd (complete_with_tools E ms ds w))" and "P w"
  shows "P (snd (loop_iteration E R cfg i messages w))"
proof (rule loop_iteration_world [of E messages R w cfg i])
  fix r w1
  assume "complete_with_tools E messages (reg_definitions R) w = (r, w1)"
    "snd (loop_iteration E R cfg i messages w) = w1"
  then show ?thesis using ask [OF \<open>P w\<close>, of messages "reg_definitions R"] by simp
next
  fix r w1 order cs
  assume "complete_with_tools E messages (reg_definitions R) w = (r, w1)"
    "snd (loop_iteration E R cfg i messages w) = snd (run_tool_calls R cfg order cs w1)"
  then show ?thesis
    using ask [OF \<open>P w\<close>, of messages "reg_definitions R"] run_tool_calls_preserves [OF calls] by simp
qed

lemma loop_from_preserves:
  assumes "call_preserves R (loop_hook cfg) P"
    "\<And>ms ds w. P w \<Longrightarrow> P (snd (complete_with_tools E ms ds w))"
  shows "P w \<Longrightarrow> P (snd (loop_from E R cfg i n messages w))"
proof (induction n arbitrary: i messages w)
  case (Suc n)
  have "P (snd (loop_iteration E R cfg i messages w))"
    using assms(1) assms(2) Suc.prems by (rule loop_iteration_preserves)
  with Suc.IH show ?case by (auto split: prod.splits loop_outcome.splits)
qed simp

text \<open>Counting calls of the provider with an observer of the world.\<close>

lemma loop_from_count:
  fixes count :: "'w \<Rightarrow> nat"
  assumes ask: "\<And>ms ds w. count (snd (complete_with_tools E ms ds w)) = Suc (count w)"
    and calls: "\<And>tc w. count (snd (execute_tool R tc (loop_hook cfg) w)) = count w"
  shows "count (snd (loop_from E R cfg i n messages w)) \<le> count w + n \<and>
    (\<forall>k. fst (loop_from E R cfg i n messages w) = Inl (MaxIterationsReached k) \<longrightarrow>
       count (snd (loop_from E R cfg i n messages w)) = count w + n)"
proof (induction n arbitrary: i messages w)
  case (Suc n)
  have batch: "count (snd (run_tool_calls R cfg order cs v)) = count v" for order cs v
    by (rule run_tool_calls_preserves [where P = "\<lambda>w'. count w' = count v"])
      (simp_all add: call_preserves_def calls)
  have step: "count (snd (loop_iteration E R cfg i messages w)) = Suc (count w)"
    using ask [of messages "reg_definitions R" w]
    by (rule_tac loop_iteration_world [of E messages R w cfg i]) (simp_all add: batch)
  have noret: "loop_iteration E R cfg i messages w \<noteq> (LoopReturn (Inl (MaxIterationsReached k)), w1)" for k w1
    by (rule loop_iteration_cases [of E messages R w cfg i]) simp_all
  show ?case
  proof (cases "loop_iteration E R cfg i messages w")
    case (Pair out w1)
    show ?thesis
    proof (cases out)
      case (LoopReturn r)
      then show ?thesis using step noret Pair by auto
    next
      case (LoopContinue ms)
      then show ?thesis using step Suc.IH [of "Suc i" ms w1] Pair by auto
    qed
  qed
qed simp

subsection \<open>Properties of the loop\<close>

lemma run_slots_content:
  "k \<in> set order \<Longrightarrow> k < length results \<Longrightarrow>
   \<exists>v. fst (run_slots R cfg calls order results w) ! k =
     result_content (max_result_bytes cfg) (calls ! k) (fst (execute_tool R (calls ! k) (loop_hook cfg) v))"
proof (induction order arbitrary: results w)
  case (Cons i order)
  show ?case
  proof (cases "k \<in> set order")
    case True
    with Cons show ?thesis by (auto split: prod.splits)
  next
    case False
    with Cons.prems have "k = i" by simp
    with False Cons.prems show ?thesis
      by (auto simp: run_slots_other split: prod.splits intro!: exI [of _ w])
  qed
qed simp

lemma run_tool_calls_content:
  assumes "valid_schedule (length calls) order"
  shows "list_all2 (\<lambda>tc rc. \<exists>v. rc = result_content (max_result_bytes cfg) tc
           (fst (execute_tool R tc (loop_hook cfg) v)))
         calls (fst (run_tool_calls R cfg order calls w))"
proof (rule list_all2_all_nthI)
  show "length calls = length (fst (run_tool_calls R cfg order calls w))"
    by (simp add: run_tool_calls_def run_slots_length)
next
  fix k assume "k < length calls"
  with assms show "\<exists>v. fst (run_tool_calls R cfg order calls w) ! k =
      result_content (max_result_bytes cfg) (calls ! k) (fst (execute_tool R (calls ! k) (loop_hook cfg) v))"
    unfolding run_tool_calls_def
    by (intro run_slots_content) (simp_all add: valid_schedule_def)
qed

text \<open>
  Two registries a run cannot tell apart: for every call the hook allows, with these arguments in
  this world, they have a tool that does the same, or none. On calls it denies they may do anything.
\<close>

definition same_but_denied ::
  "'w tool_hook \<Rightarrow> 'w registry \<Rightarrow> 'w registry \<Rightarrow> bool" where
  "same_but_denied h R R' \<longleftrightarrow> reg_definitions R = reg_definitions R' \<and>
     (\<forall>n a w reason w1. before_tool_call h n a w = ((True, reason), w1) \<longrightarrow>
        map_option (\<lambda>t. t_execute t a w1) (reg_get R n) = map_option (\<lambda>t. t_execute t a w1) (reg_get R' n))"

lemma same_but_denied_execute:
  assumes "same_but_denied h R R'"
  shows "execute_tool R tc (Some h) w = execute_tool R' tc (Some h) w"
proof -
  obtain allow reason w1 where b: "before_tool_call h (tc_name tc) (tc_args tc) w = ((allow, reason), w1)"
    by (metis prod.exhaust)
  show ?thesis
  proof (cases allow)
    case True
    with assms b have "map_option (\<lambda>t. t_execute t (tc_args tc) w1) (reg_get R (tc_name tc))
        = map_option (\<lambda>t. t_execute t (tc_args tc) w1) (reg_get R' (tc_name tc))"
      unfolding same_but_denied_def by metis
    then have "execute_allowed R tc hk w1 = execute_allowed R' tc hk w1" for hk
      by (auto simp: execute_allowed_def split: option.splits)
    with True b show ?thesis by (simp add: execute_tool_def)
  next
    case False
    with b show ?thesis by (simp add: execute_tool_def)
  qed
qed

lemma same_but_denied_slots:
  "same_but_denied h R R' \<Longrightarrow> loop_hook cfg = Some h \<Longrightarrow>
   run_slots R cfg calls order results w = run_slots R' cfg calls order results w"
  by (induction order arbitrary: results w) (simp_all add: same_but_denied_execute split: prod.splits)

lemma same_but_denied_iteration:
  assumes "same_but_denied h R R'" "loop_hook cfg = Some h"
  shows "loop_iteration E R cfg i messages w = loop_iteration E R' cfg i messages w"
proof -
  have "reg_definitions R = reg_definitions R'"
    using assms(1) by (simp add: same_but_denied_def)
  moreover have "run_tool_calls R cfg = run_tool_calls R' cfg"
    by (intro ext) (simp add: run_tool_calls_def same_but_denied_slots [OF assms])
  ultimately show ?thesis by (simp only: loop_iteration_def)
qed

lemma same_but_denied_loop:
  assumes "same_but_denied h R R'" "loop_hook cfg = Some h"
  shows "loop_from E R cfg i n messages w = loop_from E R' cfg i n messages w"
  by (induction n arbitrary: i messages w)
    (simp_all add: same_but_denied_iteration [OF assms] split: prod.splits loop_outcome.splits)

text \<open>A provider that rejects a malformed conversation, as the provider APIs do.\<close>

definition strict_env :: "'w loop_env \<Rightarrow> 'w loop_env" where
  "strict_env E = E\<lparr>complete_with_tools := (\<lambda>messages defs w.
     if wf_transcript messages then complete_with_tools E messages defs w
     else (Inl ''malformed conversation'', w))\<rparr>"

text \<open>
  However the goroutines of one batch of tool calls are scheduled, the results
  sent back to the model pair up with the calls: one result per call, in the order of the
  calls, with the id of the call and the truncated output of running that call.
\<close>

lemma tool_results_match_calls:
  assumes "valid_schedule (length calls) order"
  shows "map tr_tool_use_id (fst (run_tool_calls R cfg order calls w)) = map tc_id calls \<and>
    list_all2 (\<lambda>tc rc. \<exists>v. rc = result_content (max_result_bytes cfg) tc
        (fst (execute_tool R tc (loop_hook cfg) v)))
      calls (fst (run_tool_calls R cfg order calls w))"
  by (rule conjI [OF run_tool_calls_ids [OF assms] run_tool_calls_content [OF assms]])

definition echo_tool :: "nat tool" where
  "echo_tool = \<lparr>t_name = ''echo'', t_description = [], t_parameters = [],
     t_execute = (\<lambda>a w. (tool_ok (str_or_empty ''text'' a), Suc w))\<rparr>"

definition echo_call :: "string \<Rightarrow> string \<Rightarrow> tool_call" where
  "echo_call i s = \<lparr>tc_id = i, tc_name = ''echo'', tc_args = [(''text'', JStr s)]\<rparr>"

lemma tool_results_match_example:
  "map tr_tool_use_id (fst (run_tool_calls (build_registry [] [(False, echo_tool)]) default_loop_config
      [1, 0] [echo_call ''a'' ''x'', echo_call ''b'' ''y''] 7)) = [''a'', ''b'']"
proof -
  have "valid_schedule (length [echo_call ''a'' ''x'', echo_call ''b'' ''y'']) [1, 0]"
    by (auto simp: valid_schedule_def)
  from tool_results_match_calls [OF this, of "build_registry [] [(False, echo_tool)]" default_loop_config 7]
  show ?thesis by (simp add: echo_call_def)
qed

text \<open>
  C2. The loop never shows the provider a malformed conversation. Started on a
  well-formed one, a run against a provider that rejects every conversation in which an
  assistant message with tool calls is not followed by the matching tool results is the same
  run, result and effects, as against the provider itself.
\<close>

theorem loop_conversations_wf:
  assumes "valid_scheduler E" "wf_transcript messages"
  shows "run_tool_loop (strict_env E) R cfg messages w = run_tool_loop E R cfg messages w"
  unfolding run_tool_loop_def
  by (rule loop_from_congruence [OF assms(1) _ _ _ assms(2)]) (simp_all add: strict_env_def)

text \<open>A provider that calls the tool twice at once and then answers; its world counts the calls.\<close>

definition demo_env :: "nat loop_env" where
  "demo_env = \<lparr>complete_with_tools = (\<lambda>messages defs w.
       (Inr (if length messages = 1
             then \<lparr>resp_stop_reason = StopReasonToolUse, resp_content = [],
                   resp_tool_calls = [echo_call ''a'' ''x'', echo_call ''b'' ''y''], resp_usage = zero_usage\<rparr>
             else \<lparr>resp_stop_reason = StopReasonEndTurn, resp_content = ''done'',
                   resp_tool_calls = [], resp_usage = zero_usage\<rparr>), w)),
     ctx_err = (\<lambda>w. None), schedule = (\<lambda>i n. rev [0..<n])\<rparr>"

theorem loop_conversations_wf_witness:
  "run_tool_loop (strict_env demo_env) (build_registry [] [(False, echo_tool)]) default_loop_config
     [text_message ''user'' ''hi''] 0 = (Inr ''done'', 2)"
proof -
  have "run_tool_loop demo_env (build_registry [] [(False, echo_tool)]) default_loop_config
     [text_message ''user'' ''hi''] 0 = (Inr ''done'', 2)"
    by code_simp
  moreover have "valid_scheduler demo_env"
    by (simp add: demo_env_def valid_scheduler_def valid_schedule_def atLeast0LessThan)
  moreover have "wf_transcript [text_message ''user'' ''hi'']" by simp
  ultimately show ?thesis using loop_conversations_wf by metis
qed

text \<open>
  C4. A tool call the hook denies has no effect, where the hook may decide by the name, the
  arguments and the state of the world: a run of the loop stays as it was when the tools are
  exchanged for others that do the same on every call the hook allows and anything else, or nothing,
  on the calls it denies.
\<close>

theorem denied_tools_never_run:
  assumes "same_but_denied h R R'" "loop_hook cfg = Some h"
  shows "run_tool_loop E R cfg messages w = run_tool_loop E R' cfg messages w"
  unfolding run_tool_loop_def by (rule same_but_denied_loop [OF assms])

text \<open>A hook that denies by the argument, and a tool that does harm on just these calls.\<close>

definition deny_hook :: "nat tool_hook" where
  "deny_hook = \<lparr>before_tool_call = (\<lambda>n a w. ((str_or_empty ''text'' a \<noteq> ''x'', ''no''), w)),
     after_tool_call = (\<lambda>n a r w. w)\<rparr>"

definition wreck_tool :: "nat tool" where
  "wreck_tool = echo_tool\<lparr>t_execute := (\<lambda>a w. if str_or_empty ''text'' a = ''x'' then (tool_ok [], 1000) else t_execute echo_tool a w)\<rparr>"

theorem denied_tools_never_run_witness:
  "run_tool_loop demo_env (build_registry [] [(False, wreck_tool)])
     (default_loop_config\<lparr>loop_hook := Some deny_hook\<rparr>) [text_message ''user'' ''hi''] 0 = (Inr ''done'', 1)"
proof -
  have "run_tool_loop demo_env (build_registry [] [(False, echo_tool)])
     (default_loop_config\<lparr>loop_hook := Some deny_hook\<rparr>) [text_message ''user'' ''hi''] 0 = (Inr ''done'', 1)"
    by code_simp
  moreover have "same_but_denied deny_hook (build_registry [] [(False, wreck_tool)])
      (build_registry [] [(False, echo_tool)])"
    by (auto simp: same_but_denied_def deny_hook_def build_registry_def register_one_def register_tool_def
        new_registry_def reg_definitions_def reg_get_def wreck_tool_def echo_tool_def definition_of_def
        blocked_def)
  ultimately show ?thesis
    using denied_tools_never_run [of deny_hook "build_registry [] [(False, wreck_tool)]"
      "build_registry [] [(False, echo_tool)]" "default_loop_config\<lparr>loop_hook := Some deny_hook\<rparr>"] by simp
qed

text \<open>
  C5. The loop asks the provider at most \<open>MaxIterations\<close> times, and exactly that
  many times when it gives up with the iteration error. The calls are counted by any
  observer of the world that the provider advances by one and that tools and hooks leave alone.
\<close>

theorem loop_asks_at_most_max:
  fixes count :: "'w \<Rightarrow> nat"
  assumes "\<And>ms ds w. count (snd (complete_with_tools E ms ds w)) = Suc (count w)"
    and "\<And>tc w. count (snd (execute_tool R tc (loop_hook cfg) w)) = count w"
  shows "count (snd (run_tool_loop E R cfg messages w)) \<le> count w + nat (max_iterations cfg) \<and>
    (fst (run_tool_loop E R cfg messages w) = Inl (MaxIterationsReached (max_iterations cfg)) \<longrightarrow>
       count (snd (run_tool_loop E R cfg messages w)) = count w + nat (max_iterations cfg))"
  unfolding run_tool_loop_def
  using loop_from_count [of count E R cfg 0 "nat (max_iterations cfg)" messages w, OF assms] by blast

definition stubborn_env :: "nat loop_env" where
  "stubborn_env = \<lparr>complete_with_tools = (\<lambda>messages defs w.
       (Inr \<lparr>resp_stop_reason = StopReasonToolUse, resp_content = [],
             resp_tool_calls = [echo_call ''a'' ''x''], resp_usage = zero_usage\<rparr>, Suc w)),
     ctx_err = (\<lambda>w. None), schedule = (\<lambda>i n. [0..<n])\<rparr>"

theorem loop_asks_at_most_max_witness:
  "snd (run_tool_loop stubborn_env (build_registry [] []) (default_loop_config\<lparr>max_iterations := 3\<rparr>) [] 4) = 7"
proof -
  let ?cfg = "default_loop_config\<lparr>max_iterations := 3\<rparr> :: nat loop_config"
  have "snd (complete_with_tools stubborn_env ms ds w) = Suc w" for ms ds w
    by (simp add: stubborn_env_def)
  moreover have "snd (execute_tool (build_registry [] []) tc (loop_hook ?cfg) w) = w" for tc w
    by (simp add: default_loop_config_def execute_tool_unknown build_registry_def new_registry_def reg_get_def)
  moreover have "fst (run_tool_loop stubborn_env (build_registry [] []) ?cfg [] 4)
      = Inl (MaxIterationsReached (max_iterations ?cfg))"
    by code_simp
  ultimately show ?thesis
    using loop_asks_at_most_max [of "\<lambda>w. w" stubborn_env "build_registry [] []" ?cfg "[]" 4]
    by (simp add: default_loop_config_def)
qed

text \<open>
  Truncation keeps tool output well-formed and bounded: output over the limit
  is cut to a prefix of well-formed UTF-8, at most the limit and at most three bytes short of it,
  and the notice states both lengths.
\<close>

lemma truncate_result_bounds:
  assumes "valid_utf8 s" "0 < max_bytes" "max_bytes < int (length s)"
  shows "\<exists>t. truncate_result s max_bytes = t @ nl @ nl @ ''[Truncated: showing first '' @
            itoa (int (length t)) @ '' bytes of '' @ itoa (int (length s)) @ '' total]''
         \<and> has_prefix s t \<and> valid_utf8 t \<and> int (length t) \<le> max_bytes \<and> max_bytes \<le> int (length t) + 3"
  using assms by (intro truncate_result_long)

lemma truncate_result_bounds_witness:
  "\<exists>t. truncate_result (''ab'' @ [CHR 0xE2, CHR 0x82, CHR 0xAC] @ ''cd'') 4 = t @ nl @ nl @
      ''[Truncated: showing first '' @ itoa (int (length t)) @ '' bytes of 7 total]'' \<and> length t \<le> 4"
proof -
  let ?s = "''ab'' @ [CHR 0xE2, CHR 0x82, CHR 0xAC] @ ''cd''"
  have "valid_utf8 ?s" by code_simp
  moreover have "itoa (int (length ?s)) = ''7''" by code_simp
  ultimately show ?thesis using truncate_result_bounds [of ?s 4] by force
qed

end
