(* ===== verification/Workspace_Safety.thy ===== *)
theory Workspace_Safety
  imports Workspace_Tools Tool_Loop
begin

section \<open>Containment of the workspace tools\<close>

text \<open>
  What the workspace check of internal/workspace gives the file tools. In any file system a path
  without ".." elements is judged where it leads, so reads stay inside, and writes to an existing
  file or a new name in an existing directory do too. Without symbolic links every path is judged
  exactly, directories made on the way included, and an agent whose tools are the two file tools
  never changes anything outside. With links there are three ways out.
\<close>


subsection \<open>Making directories\<close>

lemma clean_shape_elem: "clean_shape r es \<Longrightarrow> e \<in> set es \<Longrightarrow> elem_ok e"
  by (induction es) (auto simp: list_all_iff split: if_splits)

lemma join_elems_facts:
  assumes "clean_shape rooted es" "es \<noteq> []"
  shows "is_abs (join_elems rooted es) = rooted" "trim_right_set {CHR ''/''} (join_elems rooted es) = join_elems rooted es"
    "split_on (CHR ''/'') (join_elems rooted es) = (if rooted then [[]] else []) @ es" "join_elems rooted es \<noteq> []"
proof -
  have el: "elem_ok e" if "e \<in> set es" for e using clean_shape_elem [OF assms(1) that] .
  have split: "split_on (CHR ''/'') (str_join ''/'' es) = es"
    using assms(2) el by (intro split_on_join) (auto simp: elem_ok_def)
  then show "split_on (CHR ''/'') (join_elems rooted es) = (if rooted then [[]] else []) @ es"
    by (simp add: join_elems_def)
  show "is_abs (join_elems rooted es) = rooted"
    using not_abs_join [OF assms(1)] by (auto simp: join_elems_def is_abs_def has_prefix_def)
  obtain ys y where y: "es = ys @ [y]" using assms(2) by (metis append_butlast_last_id)
  have ey: "elem_ok y" using el [of y] y by simp
  then have "y \<noteq> []" "last y \<noteq> CHR ''/''" using last_in_set [of y] unfolding elem_ok_def by metis+
  then have l: "\<exists>t. join_elems rooted es = t @ [last y]" "last y \<noteq> CHR ''/''"
    by (auto simp: join_elems_def y join_snoc intro!: exI [of _ "u @ butlast y" for u])
  then obtain t where t: "join_elems rooted es = t @ [last y]" by blast
  show "trim_right_set {CHR ''/''} (join_elems rooted es) = join_elems rooted es"
    unfolding t using l(2) by (simp add: trim_right_set_def)
  show "join_elems rooted es \<noteq> []" by (simp add: t)
qed

lemma clean_elems_more_names:
  "list_all name_ok zs \<Longrightarrow> clean_elems r acc (es @ zs) = clean_elems r acc es @ zs"
proof (induction r acc es rule: clean_elems.induct)
  case (1 rooted acc)
  then show ?case using clean_elems_names [of zs rooted acc "[]"] by simp
qed (simp_all split: list.splits)

lemma sys_mkdir_new:
  assumes "fs_wf F" "no_links F" "clean_shape rooted es" "es \<noteq> []" "sys_mkdir F (join_elems rooted es) = Inr F'"
  obtains d e where "F' = put_node (d @ [e]) DirNode F" "node_at F d = Some DirNode" "node_at F (d @ [e]) = None"
    "name_ok e" "e = last es" "d @ [e] = clean_elems True (rev (if rooted then [] else fs_cwd F)) es"
proof -
  let ?S = "if rooted then [] else fs_cwd F"
  note J = join_elems_facts [OF assms(3,4)]
  have S: "node_at F ?S = Some DirNode" using assms(1) by (simp add: fs_wf_def)
  have le: "last ((if rooted then [[]] else []) @ es) = last es" using assms(4) by simp
  have bl: "butlast ((if rooted then [[]] else []) @ es) = (if rooted then [[]] else []) @ butlast es"
    using assms(4) by (simp add: butlast_append)
  have sk: "namei F kernel_links ?S ((if rooted then [[]] else []) @ butlast es) = namei F kernel_links ?S (butlast es)"
    by (simp add: namei_skip)
  obtain d where d: "namei F kernel_links ?S (butlast es) = Found d" "node_at F d = Some DirNode"
    "last es \<notin> {[], dot, dotdot}" "node_at F (d @ [last es]) = None" "F' = put_node (d @ [last es]) DirNode F"
    using assms(5) unfolding sys_mkdir_def J Let_def le bl sk by (auto split: walk.splits if_splits)
  have el: "elem_ok (last es)" using clean_shape_elem [OF assms(3)] assms(4) by simp
  then have nm: "name_ok (last es)" using d(3) by (simp add: name_ok_def)
  have "d = clean_elems True (rev ?S) (butlast es)"
    using namei_lexical [OF assms(1,2) S, of kernel_links "butlast es"] d(1) by simp
  moreover have "clean_elems True acc (xs @ [last es]) = clean_elems True acc xs @ [last es]" for acc xs
    using nm by (intro clean_elems_more_names) simp
  ultimately have "d @ [last es] = clean_elems True (rev ?S) es"
    using assms(4) by (metis append_butlast_last_id)
  with d nm that show ?thesis by blast
qed

lemma clean_shape_Cons:
  "clean_shape r (e # es) \<longleftrightarrow>
     elem_ok e \<and> (if e = dotdot then \<not> r \<and> clean_shape r es else list_all name_ok es)"
proof -
  have "(\<lambda>x. elem_ok x \<and> x \<noteq> dotdot) = name_ok" by (rule ext) (simp add: name_ok_def)
  then show ?thesis by simp
qed

lemma clean_shape_after_name: "clean_shape r (ys @ e # zs) \<Longrightarrow> e \<noteq> dotdot \<Longrightarrow> list_all name_ok zs"
  by (induction ys) (auto simp: clean_shape_Cons simp del: clean_shape.simps(2) split: if_splits)

lemma clean_shape_prefix: "clean_shape r (ys @ zs) \<Longrightarrow> clean_shape r ys"
  by (induction ys) (auto split: if_splits)

lemma dir_prefix_node: "fs_wf F \<Longrightarrow> node_at F (a @ b) = Some DirNode \<Longrightarrow> node_at F a = Some DirNode"
proof (induction b rule: rev_induct)
  case (snoc x b)
  then have "node_at F (butlast (a @ b @ [x])) = Some DirNode"
    using fs_wf_node [of F "a @ b @ [x]" DirNode] by simp
  with snoc show ?case by (simp add: butlast_append)
qed simp

lemma mkdir_all_below:
  assumes "fs_wf F" "no_links F" "node_at F w = Some DirNode" "clean_shape rooted (es @ zs)"
    "clean_elems True (rev (if rooted then [] else fs_cwd F)) (es @ zs) = D" "(\<exists>r. D = w @ r) \<or> (\<exists>x. w = D @ [x])"
  shows "changed_below w F (snd (mkdir_all_elems F rooted es)) \<or> es = []"
  using assms(4,5)
proof (induction es arbitrary: zs rule: rev_induct)
  case (snoc e ys)
  let ?es = "ys @ [e]"
  have sh: "clean_shape rooted ?es" using snoc.prems(1) by (rule clean_shape_prefix)
  have refl: "changed_below w F F" using assms(1,2) by (rule changed_below_refl)
  have last_step: "changed_below w F (snd (case sys_mkdir F1 (join_elems rooted ?es) of
      Inr F2 \<Rightarrow> (None, F2) | Inl er \<Rightarrow> if lstat_is_dir F1 (join_elems rooted ?es) then (None, F1)
        else (Some \<lparr>pe_op = ''mkdir'', pe_path = join_elems rooted ?es, pe_err = er\<rparr>, F1)))"
    if F1: "changed_below w F F1" for F1
  proof (cases "sys_mkdir F1 (join_elems rooted ?es)")
    case (Inr F2)
    have f1: "fs_wf F1" "no_links F1" "fs_cwd F1 = fs_cwd F" "node_at F1 w = Some DirNode"
      using F1 assms(3) by (auto simp: changed_below_def)
    obtain d x where dx: "F2 = put_node (d @ [x]) DirNode F1" "node_at F1 d = Some DirNode"
      "node_at F1 (d @ [x]) = None" "name_ok x" "x = last ?es"
      "d @ [x] = clean_elems True (rev (if rooted then [] else fs_cwd F1)) ?es"
      by (rule sys_mkdir_new [OF f1(1,2) sh _ Inr]) simp_all
    have "e \<noteq> dotdot" using dx(4,5) by (simp add: name_ok_def)
    then have "list_all name_ok zs" using clean_shape_after_name [of rooted ys e zs] snoc.prems(1) by simp
    then have D: "D = (d @ [x]) @ zs"
      unfolding dx(6) f1(3)
      using snoc.prems(2) clean_elems_more_names [of zs True "rev (if rooted then [] else fs_cwd F)" ?es]
      by (simp only: append.assoc append_Cons append_Nil)
    have "\<not> (\<exists>t. w = (d @ [x]) @ t)"
    proof
      assume "\<exists>t. w = (d @ [x]) @ t"
      then have "node_at F1 (d @ [x]) = Some DirNode" using dir_prefix_node [OF f1(1)] f1(4) by blast
      with dx(3) show False by simp
    qed
    then have "\<exists>r. d @ [x] = w @ r"
      using assms(6) D by (metis append.assoc append_eq_append_conv2)
    then obtain r where r: "d @ [x] = w @ r" by blast
    have "changed_below w F1 F2"
      unfolding dx(1) using f1(1,2) dx(2,4) _ _ r by (rule changed_below_put) simp_all
    then show ?thesis using Inr changed_below_trans [OF F1] by simp
  next
    case (Inl er)
    with F1 show ?thesis by simp
  qed
  have prev: "changed_below w F (snd (if length ?es \<le> 1 then (None, F) else mkdir_all_elems F rooted (butlast ?es)))"
    using snoc.IH [of "e # zs"] snoc.prems refl by (cases ys) auto
  obtain me F1 where P: "(if length ?es \<le> 1 then (None, F) else mkdir_all_elems F rooted (butlast ?es)) = (me, F1)"
    by fastforce
  then have F1: "changed_below w F F1" using prev by simp
  have "changed_below w F (snd (mkdir_all_elems F rooted ?es))"
    unfolding mkdir_all_elems.simps [of F rooted ?es] Let_def P
    using refl F1 last_step [OF F1]
    by (cases "stat_dir F (join_elems rooted ?es)"; cases me) (simp_all split: bool.split)
  then show ?case by blast
qed simp


lemma clean_elems_append: "clean_elems r acc (xs @ ys) = clean_elems r (rev (clean_elems r acc xs)) ys"
  by (induction r acc xs rule: clean_elems.induct) (auto split: list.splits)

lemma clean_elems_dotdot_pop:
  "ordinary x \<Longrightarrow> clean_elems r (x # acc) (dotdot # es) = clean_elems r acc es"
  by (simp add: ordinary_def dotdot_def dot_def)

text \<open>Cleaning a relative path before it is joined changes nothing.\<close>

lemma clean_elems_twice:
  "clean_shape False (rev c) \<Longrightarrow> \<forall>e \<in> set es. CHR ''/'' \<notin> set e \<Longrightarrow>
   clean_elems True a (clean_elems False c es) = clean_elems True (rev (clean_elems True a (rev c))) es"
proof (induction False c es rule: clean_elems.induct)
  case (2 acc e es)
  have dd: "\<not> (dotdot = [] \<or> dotdot = dot)" by (simp add: dotdot_def dot_def)
  show ?case
  proof (cases "e = [] \<or> e = dot")
    case True
    with 2 show ?thesis by simp
  next
    case ne: False
    have app: "clean_elems True (rev (clean_elems True a (rev acc))) (e # es) =
        clean_elems True (rev (clean_elems True a (rev acc @ [e]))) es"
      using clean_elems_append [of True a "rev acc @ [e]" es] clean_elems_append [of True a "rev acc" "e # es"] by simp
    show ?thesis
    proof (cases "e = dotdot")
      case e: True
      show ?thesis
      proof (cases acc)
        case Nil
        have sh: "clean_shape False (rev [dotdot])" by (simp add: elem_ok_def dotdot_def dot_def)
        have "clean_elems False acc (e # es) = clean_elems False [dotdot] es" using Nil e dd by simp
        moreover have "clean_elems True a (clean_elems False [dotdot] es) =
            clean_elems True (rev (clean_elems True a (rev [dotdot]))) es"
          using "2.hyps" ne e Nil sh "2.prems"(2) by (metis list.set_intros(2))
        ultimately show ?thesis using app by (simp only: Nil e rev.simps append_Nil)
      next
        case (Cons x acc')
        show ?thesis
        proof (cases "x = dotdot")
          case True
          have "clean_shape False (rev acc @ [dotdot])"
            using "2.prems"(1) Cons True by (auto intro: clean_shape_snoc_dotdot)
          with 2 ne e dd app Cons True show ?thesis by simp
        next
          case x: False
          have sh: "clean_shape False (rev acc' @ [x])" using "2.prems"(1) Cons by simp
          then have ord: "ordinary x"
            using x clean_shape_elem [of False "rev acc' @ [x]" x] by (simp add: ordinary_def elem_ok_def)
          have "clean_elems True (rev (clean_elems True a (rev acc))) (dotdot # es) =
              clean_elems True (rev (clean_elems True a (rev acc'))) es"
          proof -
            have "clean_elems True a (rev acc) = clean_elems True (rev (clean_elems True a (rev acc'))) [x]"
              by (simp add: Cons clean_elems_append)
            also have "\<dots> = clean_elems True a (rev acc') @ [x]"
              using ord by (simp add: ordinary_def)
            finally show ?thesis using clean_elems_dotdot_pop [OF ord] by simp
          qed
          moreover have "clean_shape False (rev acc')" using sh by (rule clean_shape_butlast)
          ultimately show ?thesis using 2 ne e dd Cons x by simp
        qed
      qed
    next
      case name: False
      have "elem_ok e" using ne "2.prems"(2) by (simp add: elem_ok_def)
      then have "clean_shape False (rev (e # acc))" using "2.prems"(1) name by (simp add: clean_shape_snoc_name)
      with 2 ne name app show ?thesis by simp
    qed
  qed
qed simp

lemma clean_parts_elems:
  assumes "fs_wf F"
  shows "clean_elems True (rev (if is_abs q then [] else fs_cwd F)) (clean_parts q) = abs_elems F q"
proof (cases "is_abs q")
  case True
  then have "list_all name_ok (clean_parts q)"
    using clean_names [OF assms, of q] by (simp add: clean_parts_def abs_elems_def start_dir_def)
  then show ?thesis
    using True clean_elems_names [of "clean_parts q" True "[]" "[]"]
    by (simp add: clean_parts_def abs_elems_def start_dir_def)
next
  case False
  then show ?thesis
    using clean_elems_twice [of "[]" "split_on (CHR ''/'') q" "rev (fs_cwd F)"] split_on_free [of _ "CHR ''/''" q]
    by (auto simp: clean_parts_def abs_elems_def start_dir_def)
qed

lemma abs_elems_clean:
  assumes "fs_wf F"
  shows "abs_elems F (path_clean q) = abs_elems F q"
proof -
  let ?S = "if is_abs q then [] else fs_cwd F"
  have sh: "clean_shape (is_abs q) (clean_parts q)" by (rule clean_parts_shape)
  have "abs_elems F (path_clean q) = clean_elems True (rev ?S) (clean_parts q)"
  proof (cases "clean_parts q = []")
    case True
    then show ?thesis
      by (simp add: path_clean_parts abs_elems_def start_dir_def is_abs_def has_prefix_def dot_def)
  next
    case False
    note J = join_elems_facts [OF sh False]
    have "path_clean q = join_elems (is_abs q) (clean_parts q)" using False by (simp add: path_clean_parts join_elems_def)
    then show ?thesis by (simp add: abs_elems_def start_dir_def J(1,3))
  qed
  with clean_parts_elems [OF assms] show ?thesis by simp
qed

lemma mkdir_all_clean_below:
  assumes "fs_wf F" "no_links F" "node_at F w = Some DirNode"
    "(\<exists>r. abs_elems F q = w @ r) \<or> (\<exists>x. w = abs_elems F q @ [x])"
  shows "changed_below w F (snd (mkdir_all F (path_clean q)))"
proof (cases "clean_parts q = []")
  case True
  have "path_clean q = ''/'' \<or> path_clean q = dot" using True by (simp add: path_clean_parts)
  moreover have "resolve F kernel_links ''/'' = Found []"
    by (simp add: resolve_def is_abs_def has_prefix_def namei_skip)
  moreover have "resolve F kernel_links dot = Found (fs_cwd F)"
    by (simp add: resolve_def dot_def is_abs_def has_prefix_def namei_skip)
  ultimately have "snd (mkdir_all F (path_clean q)) = F" by (metis mkdir_all_exists)
  then show ?thesis using assms(1,2) by (simp add: changed_below_refl)
next
  case False
  let ?S = "if is_abs q then [] else fs_cwd F"
  have sh: "clean_shape (is_abs q) (clean_parts q)" by (rule clean_parts_shape)
  have split: "split_on (CHR ''/'') (str_join ''/'' (clean_parts q)) = clean_parts q"
    using False clean_shape_elem [OF sh] by (intro split_on_join) (auto simp: elem_ok_def)
  have "mkdir_all F (path_clean q) = mkdir_all_elems F (is_abs q) (clean_parts q)"
    using False split by (cases "is_abs q") (simp_all add: mkdir_all_def, simp_all add: path_clean_parts)
  moreover have "clean_elems True (rev ?S) (clean_parts q) = abs_elems F q" using assms(1) by (rule clean_parts_elems)
  ultimately show ?thesis
    using mkdir_all_below [OF assms(1-3), of "is_abs q" "clean_parts q" "[]" "abs_elems F q"] sh False assms(4) by simp
qed

text \<open>The directory of a path below \<open>w\<close> is below \<open>w\<close>, or the parent of \<open>w\<close>.\<close>

lemma dir_elems:
  assumes "fs_wf F" "abs_elems F path = w @ r" "w \<noteq> []"
  obtains q where "path_dir path = path_clean q" "(\<exists>r. abs_elems F q = w @ r) \<or> (\<exists>x. w = abs_elems F q @ [x])"
proof -
  obtain init b where sp: "split_on (CHR ''/'') path = init @ [b]" "CHR ''/'' \<notin> set b"
    "path = b \<and> init = [] \<or> (\<exists>a. path = a @ CHR ''/'' # b \<and> init = split_on (CHR ''/'') a)"
    by (rule split_last)
  have D: "\<exists>q. path_dir path = path_clean q \<and> abs_elems F q = clean_elems True (rev (start_dir F path)) init"
    using sp(3)
  proof
    assume p: "path = b \<and> init = []"
    have "path_clean [] = dot" by code_simp
    moreover have "start_dir F path = fs_cwd F"
      using p sp(2) by (cases path) (auto simp: start_dir_def is_abs_def has_prefix_def)
    ultimately show ?thesis
      using p dir_prefix(1) [OF sp(2)] by (intro exI [of _ "[]"]) (simp add: abs_elems_def start_dir_def is_abs_def has_prefix_def)
  next
    assume "\<exists>a. path = a @ CHR ''/'' # b \<and> init = split_on (CHR ''/'') a"
    then obtain a where a: "path = a @ CHR ''/'' # b" "init = split_on (CHR ''/'') a" by blast
    have st: "start_dir F (a @ ''/'') = start_dir F path"
      using a by (cases a) (simp_all add: start_dir_def is_abs_def has_prefix_def)
    have "abs_elems F (a @ ''/'') = clean_elems True (rev (start_dir F path)) init"
      using clean_elems_append [of True "rev (start_dir F path)" init "[[]]"]
      by (simp add: abs_elems_def st split_on_append_sep a(2))
    then show ?thesis using dir_prefix(2) [OF sp(2)] a(1) by blast
  qed
  then obtain q where q: "path_dir path = path_clean q" "abs_elems F q = clean_elems True (rev (start_dir F path)) init" by blast
  let ?D = "abs_elems F q"
  have A: "w @ r = clean_elems True (rev ?D) [b]"
    using assms(2) clean_elems_append [of True "rev (start_dir F path)" init "[b]"]
    by (simp only: abs_elems_def [of F path] sp(1) q(2))
  have names: "list_all name_ok ?D" using assms(1) by (rule clean_names)
  consider "b = [] \<or> b = dot" | "b = dotdot" | "ordinary b" by (auto simp: ordinary_def)
  then have "(\<exists>r. ?D = w @ r) \<or> (\<exists>x. w = ?D @ [x])"
  proof cases
    case 1
    then have "w @ r = ?D" using A by simp
    then show ?thesis by metis
  next
    case 2
    then have "w @ r = butlast ?D" using A clean_elems_up [OF names, of "[]"] by simp
    then have "?D = w @ r @ [last ?D]" using assms(3) by (cases ?D rule: rev_cases) auto
    then show ?thesis by blast
  next
    case 3
    then have wr: "w @ r = ?D @ [b]" using A by (simp add: ordinary_def)
    show ?thesis
    proof (cases r rule: rev_cases)
      case Nil
      with wr show ?thesis by (metis append_Nil2)
    next
      case (snoc ys y)
      with wr have "w @ ys = ?D" by (metis append.assoc append1_eq_conv)
      then show ?thesis by metis
    qed
  qed
  with q(1) that show ?thesis by blast
qed

lemma abs_elems_cwd: "fs_cwd F' = fs_cwd F \<Longrightarrow> abs_elems F' path = abs_elems F path"
  by (simp add: abs_elems_def start_dir_def)

lemma write_execute_below:
  assumes "fs_wf F" "no_links F" "abs_elems F ws = w" "w \<noteq> []" "ws \<noteq> []" "node_at F w = Some DirNode"
  shows "changed_below w F (snd (write_file_execute ws a F))"
proof -
  let ?p = "str_or_empty ''path'' a"
  have refl: "changed_below w F F" using assms(1,2) by (rule changed_below_refl)
  show ?thesis
  proof (cases "?p \<noteq> [] \<and> is_inside_workspace F ?p ws")
    case False
    then show ?thesis using assms(5) refl by (auto simp: write_file_execute_def Let_def)
  next
    case True
    then obtain r where r: "abs_elems F ?p = w @ r"
      using inside_lexical [OF assms(1,2), of ?p ws] assms(3-5) by auto
    obtain q where q: "path_dir ?p = path_clean q" "(\<exists>r. abs_elems F q = w @ r) \<or> (\<exists>x. w = abs_elems F q @ [x])"
      by (rule dir_elems [OF assms(1) r assms(4)])
    obtain e F1 where mk: "mkdir_all F (path_dir ?p) = (e, F1)" by fastforce
    have F1: "changed_below w F F1"
      using mkdir_all_clean_below [OF assms(1,2,6) q(2)] mk q(1) by simp
    then have f1: "fs_wf F1" "no_links F1" "fs_cwd F1 = fs_cwd F" by (simp_all add: changed_below_def)
    show ?thesis
    proof (cases "os_write_file F1 ?p (str_or_empty ''content'' a)")
      case (Inl x)
      then show ?thesis using True mk F1 by (auto simp: write_file_execute_def Let_def split: option.splits)
    next
      case (Inr F2)
      have "changed_below w F1 F2"
        using os_write_below [OF f1(1,2) Inr] r abs_elems_cwd [OF f1(3)] by simp
      then have "changed_below w F F2" using changed_below_trans F1 by blast
      then show ?thesis using Inr True mk F1 by (auto simp: write_file_execute_def Let_def split: option.splits)
    qed
  qed
qed

subsection \<open>Agents that hold only the file tools\<close>

definition file_tools :: "string \<Rightarrow> fs tool list" where
  "file_tools ws = [read_file_tool ws, write_file_tool ws]"

lemma read_execute_world [simp]: "snd (read_file_execute ws a F) = F"
  by (simp add: read_file_execute_def Let_def split: sum.splits)

lemma file_tool_below:
  assumes "t \<in> set (file_tools ws)" "changed_below w F G" "node_at F w = Some DirNode"
    "abs_elems F ws = w" "w \<noteq> []" "ws \<noteq> []"
  shows "changed_below w F (snd (t_execute t a G))"
proof -
  have G: "fs_wf G" "no_links G" "fs_cwd G = fs_cwd F" "node_at G w = Some DirNode"
    using assms(2,3) by (auto simp: changed_below_def)
  have "changed_below w G (snd (write_file_execute ws a G))"
    using G(1,2) abs_elems_cwd [OF G(3)] assms(4-6) G(4) by (intro write_execute_below) simp_all
  then show ?thesis
    using assms(1,2) changed_below_trans [OF assms(2)]
    by (auto simp: file_tools_def read_file_tool_def write_file_tool_def)
qed

lemma execute_tool_below:
  assumes "\<And>n t. reg_get R n = Some t \<Longrightarrow> t \<in> set (file_tools ws)" "hook = None"
    "node_at F w = Some DirNode" "abs_elems F ws = w" "w \<noteq> []" "ws \<noteq> []" "changed_below w F G"
  shows "changed_below w F (snd (execute_tool R tc hook G))"
  using assms file_tool_below [OF assms(1) assms(7,3-6), of "tc_name tc"]
  by (auto simp: execute_tool_def execute_allowed_def split: option.splits prod.splits)

text \<open>
  C13. Reads stay inside the workspace: in any well-formed file system, symbolic links included, a
  path without ".." elements that read_file answers with output leads to a file whose real path is
  the workspace root or below it, and the output is that file's content with line numbers.
\<close>

theorem read_file_contained:
  assumes "fs_wf F" "ws \<noteq> []" "plain_path (str_or_empty ''path'' a)"
    "read_file_execute ws a F = (r, F')" "\<not> res_error r"
  shows "\<exists>p c. node_at F p = Some (FileNode c) \<and> under (workspace_root F ws) (path_string p)
     \<and> r = tool_ok (read_output c) \<and> F' = F"
proof -
  let ?p = "str_or_empty ''path'' a"
  have inside: "is_inside_workspace F ?p ws"
    using assms(2,4,5) by (auto simp: read_file_execute_def Let_def tool_errorf_def split: if_splits)
  have "?p \<noteq> []" using assms(3) by (simp add: plain_path_def)
  then obtain c where c: "os_read_file F ?p = Inr c" "r = tool_ok (read_output c)" "F' = F"
    using assms(4,5) inside
    by (cases "os_read_file F ?p") (auto simp: read_file_execute_def Let_def tool_errorf_def)
  from read_contained [OF assms(1,3) inside c(1)] c(2,3) show ?thesis by blast
qed

theorem read_file_contained_witness:
  "fs_wf linked_fs \<and>
   (\<exists>p c. node_at linked_fs p = Some (FileNode c) \<and> under (workspace_root linked_fs ''/etc'') (path_string p)
     \<and> tool_ok (number_line 0 ''key'') = tool_ok (read_output c) \<and> linked_fs = linked_fs)"
proof -
  have "fs_wf linked_fs" by code_simp
  moreover have "plain_path (str_or_empty ''path'' (path_args ''/etc/./secret'' []))" by code_simp
  moreover have "read_file_execute ''/etc'' (path_args ''/etc/./secret'' []) linked_fs = (tool_ok (number_line 0 ''key''), linked_fs)"
    by code_simp
  moreover have "\<not> res_error (tool_ok (number_line 0 ''key''))" by code_simp
  ultimately show ?thesis using read_file_contained [of linked_fs "''/etc''"] by blast
qed

text \<open>
  C14. Writes to ordinary targets stay inside the workspace: with symbolic links allowed, when the
  path has no ".." elements and leads to an existing file, or to a new name in a directory that
  exists, whatever node write_file changes is the workspace root or below it.
\<close>

theorem write_file_contained:
  assumes "fs_wf F" "ws \<noteq> []" "plain_path (str_or_empty ''path'' a)" "ordinary_target F (str_or_empty ''path'' a)"
    "node_at (snd (write_file_execute ws a F)) q \<noteq> node_at F q"
  shows "under (workspace_root F ws) (path_string q)"
  using assms by (intro write_execute_frame)

theorem write_file_contained_witness: "under (workspace_root linked_fs ''/etc'') ''/etc/sub/f''"
proof -
  have "fs_wf linked_fs" by code_simp
  moreover have "plain_path (str_or_empty ''path'' (path_args ''/ws/dir/f'' ''x''))" by code_simp
  moreover have "ordinary_target linked_fs (str_or_empty ''path'' (path_args ''/ws/dir/f'' ''x''))" by code_simp
  moreover have "node_at (snd (write_file_execute ''/etc'' (path_args ''/ws/dir/f'' ''x'') linked_fs))
      [''etc'', ''sub'', ''f''] \<noteq> node_at linked_fs [''etc'', ''sub'', ''f'']" by code_simp
  moreover have "path_string [''etc'', ''sub'', ''f''] = ''/etc/sub/f''" by code_simp
  ultimately show ?thesis
    using write_file_contained [of linked_fs "''/etc''" "path_args ''/ws/dir/f'' ''x''" "[''etc'', ''sub'', ''f'']"] by simp
qed

text \<open>
  Symbolic links open three ways out of the workspace: ".." after a link is judged lexically
  but followed by the kernel, so read_file returns a file outside; a dangling link inside is judged
  by its own name, so write_file creates its target; below a linked directory, when file and parent
  are both missing, MkdirAll and WriteFile follow the link.
\<close>

lemma workspace_link_escapes:
  "fs_wf linked_fs \<and> workspace_root linked_fs ''/ws'' = ''/ws''
   \<and> fst (read_file_execute ''/ws'' (path_args ''/ws/dir/../secret'' []) linked_fs) = tool_ok (read_output ''key'')
   \<and> \<not> (\<exists>p. node_at linked_fs p = Some (FileNode ''key'') \<and> under ''/ws'' (path_string p))
   \<and> node_at (snd (write_file_execute ''/ws'' (path_args ''/ws/new'' ''x'') linked_fs)) [''etc'', ''created'']
       = Some (FileNode ''x'')
   \<and> node_at linked_fs [''etc'', ''created''] = None
   \<and> node_at (snd (write_file_execute ''/ws'' (path_args ''/ws/dir/a/b'' ''x'') linked_fs)) [''etc'', ''sub'', ''a'', ''b'']
       = Some (FileNode ''x'')
   \<and> node_at linked_fs [''etc'', ''sub'', ''a''] = None"
proof (intro conjI demo_escapes(2,3))
  show "fs_wf linked_fs" "workspace_root linked_fs ''/ws'' = ''/ws''"
    "node_at linked_fs [''etc'', ''created''] = None" "node_at linked_fs [''etc'', ''sub'', ''a''] = None"
    by code_simp+
  have "read_output ''key'' = number_line 0 ''key''" by code_simp
  then show "fst (read_file_execute ''/ws'' (path_args ''/ws/dir/../secret'' []) linked_fs) = tool_ok (read_output ''key'')"
    using demo_escapes(1) by simp
  have "p = [''etc'', ''secret'']" if "node_at linked_fs p = Some (FileNode ''key'')" for p
    using that by (auto simp: linked_fs_def node_at_def split: if_splits)
  moreover have "\<not> under ''/ws'' (path_string [''etc'', ''secret''])" by code_simp
  ultimately show "\<not> (\<exists>p. node_at linked_fs p = Some (FileNode ''key'') \<and> under ''/ws'' (path_string p))" by blast
qed

text \<open>
  In a file system without symbolic links, a run of the agentic loop whose tools are read_file
  and write_file, bound to a workspace directory, changes only files and directories at or below
  that directory, whatever paths the model asks for, ".." elements included.
\<close>

lemma file_agent_stays_in_workspace:
  assumes "fs_wf F" "no_links F" "ws \<noteq> []" "abs_elems F ws = w" "w \<noteq> []" "node_at F w = Some DirNode"
    "\<And>n t. reg_get R n = Some t \<Longrightarrow> t \<in> set (file_tools ws)" "loop_hook cfg = None"
    "\<And>ms ds G. snd (complete_with_tools E ms ds G) = G"
    "node_at (snd (run_tool_loop E R cfg messages F)) q \<noteq> node_at F q"
  shows "\<exists>r. q = w @ r"
proof -
  have "call_preserves R (loop_hook cfg) (changed_below w F)"
    unfolding call_preserves_def
    by (intro allI impI execute_tool_below [OF assms(7,8,6,4,5,3)])
  then have "changed_below w F (snd (run_tool_loop E R cfg messages F))"
    unfolding run_tool_loop_def
    by (rule loop_from_preserves) (simp_all add: assms(9) changed_below_refl [OF assms(1,2)])
  with assms(10) show ?thesis by (auto simp: changed_below_def)
qed


text \<open>An agent told to write a note above its workspace and one inside it, in a tree without links.\<close>

definition plain_fs :: fs where
  "plain_fs = \<lparr>fs_nodes = [([''ws''], DirNode), ([''etc''], DirNode)], fs_cwd = [''ws'']\<rparr>"

definition file_env :: "fs loop_env" where
  "file_env =
     \<lparr>complete_with_tools = (\<lambda>ms ds F.
        (Inr (if length ms = 1
           then \<lparr>resp_stop_reason = StopReasonToolUse, resp_content = [],
             resp_tool_calls =
               [\<lparr>tc_id = ''a'', tc_name = ''write_file'', tc_args = path_args ''../etc/x'' ''out''\<rparr>,
                \<lparr>tc_id = ''b'', tc_name = ''write_file'', tc_args = path_args ''n/x'' ''in''\<rparr>],
             resp_usage = zero_usage\<rparr>
           else \<lparr>resp_stop_reason = StopReasonEndTurn, resp_content = ''done'', resp_tool_calls = [],
             resp_usage = zero_usage\<rparr>), F)),
      ctx_err = (\<lambda>F. None), schedule = (\<lambda>i n. [0..<n])\<rparr>"

definition file_run :: fs where
  "file_run = snd (run_tool_loop file_env (build_registry [] (map (\<lambda>t. (False, t)) (file_tools ''/ws'')))
     default_loop_config [text_message ''user'' ''note''] plain_fs)"

lemma file_agent_example:
  "node_at file_run [''ws'', ''n'', ''x''] = Some (FileNode ''in'') \<and> node_at file_run [''etc'', ''x''] = None
   \<and> (\<exists>r. [''ws'', ''n'', ''x''] = [''ws''] @ r)"
proof -
  let ?R = "build_registry [] (map (\<lambda>t. (False, t)) (file_tools ''/ws''))"
  have tools: "t \<in> set (file_tools ''/ws'')" if "reg_get ?R n = Some t" for n t
    using that by (auto simp: reg_get_build callable_def file_tools_def split: if_splits dest!: map_of_SomeD)
  have run: "node_at file_run [''ws'', ''n'', ''x''] = Some (FileNode ''in'')" "node_at file_run [''etc'', ''x''] = None"
    by code_simp+
  moreover have "node_at plain_fs [''ws'', ''n'', ''x''] = None" by code_simp
  ultimately have "node_at file_run [''ws'', ''n'', ''x''] \<noteq> node_at plain_fs [''ws'', ''n'', ''x'']" by simp
  moreover have "fs_wf plain_fs" "abs_elems plain_fs ''/ws'' = [''ws'']" "node_at plain_fs [''ws''] = Some DirNode"
    by code_simp+
  moreover have "no_links plain_fs" by (simp add: no_links_def plain_fs_def)
  ultimately have "\<exists>r. [''ws'', ''n'', ''x''] = [''ws''] @ r"
    unfolding file_run_def
    using tools by (intro file_agent_stays_in_workspace [of plain_fs "''/ws''" "[''ws'']" ?R default_loop_config file_env])
      (simp_all add: default_loop_config_def file_env_def)
  with run show ?thesis by blast
qed

end
