(* ===== verification/Memory_Store.thy ===== *)
theory Memory_Store
  imports Workspace_Tools Go_Time
begin

section \<open>pkg/memory and internal/memorytool: the long-term memory file\<close>

text \<open>
  The file store and the remember tool, on the file system of \<open>Go_Fs\<close>. \<open>now\<close> is the instant
  the clock gives, in nanoseconds. The file is opened for writing only, so the read that looks
  for a final newline always fails: \<open>read_back\<close> is what such a read gives. File modes are not
  part of the model, hence \<open>Chmod\<close> has no effect and does not fail on a file that was opened.
\<close>

subsection \<open>Operations\<close>

definition memory_load :: "string \<Rightarrow> fs \<Rightarrow> string + string" where
  "memory_load path F =
     (case os_read_file F path of
        Inl e \<Rightarrow> if pe_err e = NotExist then Inr [] else Inl (''read memory file: '' @ path_error_text e)
      | Inr c \<Rightarrow> Inr c)"

text \<open>\<open>f.Read\<close> on a descriptor: only one opened for reading gives a byte.\<close>

definition read_back :: "bool \<Rightarrow> string \<Rightarrow> char option" where
  "read_back readable c = (if readable \<and> c \<noteq> [] then Some (last c) else None)"

definition memory_prefix :: "string \<Rightarrow> string" where
  "memory_prefix c =
     (case read_back False c of Some b \<Rightarrow> if b \<noteq> CHR 0x0A then nl else [] | None \<Rightarrow> [])"

definition memory_section :: "int \<Rightarrow> string \<Rightarrow> string" where
  "memory_section now entry = ''## '' @ rfc3339 0 now @ nl @ nl @ entry @ nl @ nl"

definition memory_remember :: "string \<Rightarrow> int \<Rightarrow> string \<Rightarrow> fs \<Rightarrow> string option \<times> fs" where
  "memory_remember path now entry0 F =
     (let entry = trim_space entry0 in
      if entry = [] then (None, F)
      else (case mkdir_all F (path_dir path) of
          (Some e, F1) \<Rightarrow> (Some (''create memory directory: '' @ path_error_text e), F1)
        | (None, F1) \<Rightarrow>
            (case open_create F1 path of
               Inl e \<Rightarrow> (Some (''open memory file: '' @ path_error_text e), F1)
             | Inr (p, F2) \<Rightarrow>
                 (let c = (case node_at F2 p of Some (FileNode c) \<Rightarrow> c | _ \<Rightarrow> []) in
                  (None, put_node p (FileNode (c @ memory_prefix c @ memory_section now entry)) F2)))))"

text \<open>The interface \<open>memory.Store\<close> and the tool on it.\<close>

record 'w memory_backend =
  mb_load :: "'w \<Rightarrow> string + string"
  mb_remember :: "int \<Rightarrow> string \<Rightarrow> 'w \<Rightarrow> string option \<times> 'w"

definition new_file_store :: "string \<Rightarrow> fs memory_backend" where
  "new_file_store path = \<lparr>mb_load = memory_load path, mb_remember = memory_remember path\<rparr>"

definition remember_execute :: "'w memory_backend \<Rightarrow> int \<Rightarrow> args \<Rightarrow> 'w \<Rightarrow> tool_result \<times> 'w" where
  "remember_execute store now a w =
     (let entry = str_or_empty ''entry'' a in
      if trim_space entry = [] then (tool_errorf ''entry is required'', w)
      else (case mb_remember store now entry w of
          (Some e, w1) \<Rightarrow> (tool_errorf (''failed to remember: '' @ e), w1)
        | (None, w1) \<Rightarrow> (tool_ok ''Recorded in long-term memory.'', w1)))"

definition remember_tool :: "'w memory_backend \<Rightarrow> int \<Rightarrow> 'w tool" where
  "remember_tool store now =
     \<lparr>t_name = ''remember'',
      t_description = ''Append a fact, observation, or decision to long-term memory. '' @
        ''Use this to preserve information that should survive the current session.'',
      t_parameters = object_schema [string_param ''entry'' ''The fact or observation to remember''] [''entry''],
      t_execute = remember_execute store now\<rparr>"

subsection \<open>A log that only grows\<close>

fun remember_run :: "(int \<Rightarrow> string \<Rightarrow> 'w \<Rightarrow> string option \<times> 'w) \<Rightarrow> (int \<times> string) list \<Rightarrow> 'w \<Rightarrow> string option list \<times> 'w" where
  "remember_run f [] w = ([], w)"
| "remember_run f ((now, e) # es) w =
     (let (r, w1) = f now e w; (rs, w2) = remember_run f es w1 in (r # rs, w2))"

definition recorded :: "(int \<Rightarrow> string \<Rightarrow> string) \<Rightarrow> (int \<times> string) list \<Rightarrow> string" where
  "recorded sect es = concat (map (\<lambda>(now, e). if trim_space e = [] then [] else sect now (trim_space e)) es)"

text \<open>
  What the tool needs of a store: from a ready state every entry is recorded at the end, as its
  section, and the state stays ready.
\<close>

locale append_log =
  fixes load :: "'w \<Rightarrow> string + string"
    and remember :: "int \<Rightarrow> string \<Rightarrow> 'w \<Rightarrow> string option \<times> 'w"
    and ready :: "'w \<Rightarrow> bool"
    and sect :: "int \<Rightarrow> string \<Rightarrow> string"
  assumes ready_load: "ready w \<Longrightarrow> \<exists>c. load w = Inr c"
    and remember_blank: "trim_space e = [] \<Longrightarrow> remember now e w = (None, w)"
    and remember_entry: "ready w \<Longrightarrow> load w = Inr c \<Longrightarrow> trim_space e \<noteq> [] \<Longrightarrow>
      \<exists>w'. remember now e w = (None, w') \<and> ready w' \<and> load w' = Inr (c @ sect now (trim_space e))"
begin

lemma remember_one:
  assumes "ready w" "load w = Inr c"
  obtains w' where "remember now e w = (None, w')" "ready w'"
    "load w' = Inr (c @ (if trim_space e = [] then [] else sect now (trim_space e)))"
  using assms remember_blank [of e now w] remember_entry [OF assms, of e now]
  by (cases "trim_space e = []") auto

lemma remember_all:
  "ready w \<Longrightarrow> load w = Inr c \<Longrightarrow>
   \<exists>w'. remember_run remember es w = (map (\<lambda>_. None) es, w') \<and> ready w' \<and> load w' = Inr (c @ recorded sect es)"
proof (induction es arbitrary: w c)
  case Nil
  then show ?case by (simp add: recorded_def)
next
  case (Cons x es)
  obtain now e where x: "x = (now, e)" by (cases x)
  obtain w1 where w1: "remember now e w = (None, w1)" "ready w1"
    "load w1 = Inr (c @ (if trim_space e = [] then [] else sect now (trim_space e)))"
    by (rule remember_one [OF Cons.prems])
  from Cons.IH [OF w1(2,3)] show ?case by (auto simp: x w1(1) recorded_def)
qed

end

subsection \<open>The file store is such a log\<close>

definition same_shape :: "fs \<Rightarrow> fs \<Rightarrow> bool" where
  "same_shape F F' \<longleftrightarrow> fs_cwd F' = fs_cwd F \<and>
     (\<forall>p. case node_at F p of
        None \<Rightarrow> True
      | Some (FileNode _) \<Rightarrow> (\<exists>c. node_at F' p = Some (FileNode c))
      | Some n \<Rightarrow> node_at F' p = Some n)"

lemma same_shapeD:
  assumes "same_shape F F'"
  shows "fs_cwd F' = fs_cwd F" "node_at F p = Some (FileNode c) \<Longrightarrow> \<exists>c'. node_at F' p = Some (FileNode c')"
    "node_at F p = Some DirNode \<Longrightarrow> node_at F' p = Some DirNode"
    "node_at F p = Some (LinkNode t) \<Longrightarrow> node_at F' p = Some (LinkNode t)"
  using assms by (auto simp: same_shape_def dest: spec [of _ p])

lemma namei_same_shape: "same_shape F F' \<Longrightarrow> namei F k cur es = Found p \<Longrightarrow> namei F' k cur es = Found p"
proof (induction k cur es rule: namei_induct [where F = F])
  case (regular k cur e es c)
  then obtain c' where "node_at F' (cur @ [e]) = Some (FileNode c')" using same_shapeD(2) by blast
  with regular show ?case by (simp add: namei_file split: if_splits)
qed (auto simp: namei_skip namei_up namei_none namei_dir namei_link namei_loop split: if_splits dest: same_shapeD)

lemma resolve_same_shape: "same_shape F F' \<Longrightarrow> resolve F k path = Found p \<Longrightarrow> resolve F' k path = Found p"
  using namei_same_shape [of F F' k] same_shapeD(1) [of F F'] by (simp add: resolve_def split: if_splits)

lemma namei_absent_node: "namei F k cur es = Absent d n \<Longrightarrow> node_at F (d @ [n]) = None"
  by (induction k cur es rule: namei_induct [where F = F]) (auto simp: namei_steps split: if_splits)

lemma namei_created:
  "namei F k cur es = Absent d n \<Longrightarrow> namei (put_node (d @ [n]) (FileNode c) F) k cur es = Found (d @ [n])"
proof (induction k cur es rule: namei_induct [where F = F])
  case (absent k cur e es)
  then have "es = []" "d = cur" "n = e" by (auto simp: namei_none split: if_splits)
  with absent show ?case by (simp add: namei_file)
next
  case (directory k cur e es)
  then have "namei F k (cur @ [e]) es = Absent d n" by (simp add: namei_dir)
  moreover from namei_absent_node [OF this] have "cur @ [e] \<noteq> d @ [n]" using directory.hyps by auto
  ultimately show ?case using directory by (simp add: namei_dir)
next
  case (linked k cur e es t)
  then have "namei F k (if is_abs t then [] else cur) (split_on (CHR ''/'') t @ es) = Absent d n" by (simp add: namei_link)
  moreover from namei_absent_node [OF this] have "cur @ [e] \<noteq> d @ [n]" using linked.hyps by auto
  ultimately show ?case using linked by (simp add: namei_link)
qed (auto simp: namei_skip namei_up namei_file namei_loop split: if_splits)


definition memory_ready :: "string \<Rightarrow> fs \<Rightarrow> bool" where
  "memory_ready path F \<longleftrightarrow> stat_dir F (path_dir path) = Some True \<and> (\<exists>c. memory_load path F = Inr c)
     \<and> (case resolve F kernel_links path of Failed _ \<Rightarrow> False | _ \<Rightarrow> True)"

lemma mkdir_all_stat: "stat_dir F d = Some True \<Longrightarrow> mkdir_all F d = (None, F)"
  unfolding mkdir_all_def
  by (subst mkdir_all_elems.simps) (simp add: Let_def join_elems_split)

lemma stat_dir_same_shape: "same_shape F F' \<Longrightarrow> stat_dir F d = Some True \<Longrightarrow> stat_dir F' d = Some True"
  by (cases "resolve F kernel_links d") (simp_all add: stat_dir_def resolve_same_shape same_shapeD(3))

lemma same_shape_put:
  "node_at F p = None \<or> (\<exists>c. node_at F p = Some (FileNode c)) \<Longrightarrow> same_shape F (put_node p (FileNode c') F)"
proof -
  assume *: "node_at F p = None \<or> (\<exists>c. node_at F p = Some (FileNode c))"
  then have "p \<noteq> []" by auto
  moreover have "fs_cwd (put_node p (FileNode c') F) = fs_cwd F" by (simp add: put_node_def)
  ultimately show ?thesis using * by (auto simp: same_shape_def split: option.splits node.splits)
qed

lemma put_node_twice: "put_node p v (put_node p u F) = put_node p v F"
proof -
  have "map_put p v (map_put p u m) = map_put p v m" for m by (induction m) auto
  then show ?thesis by (simp add: put_node_def)
qed

lemma memory_remember_records:
  assumes "memory_ready path F" "memory_load path F = Inr c" "trim_space e \<noteq> []"
  shows "\<exists>F'. memory_remember path now e F = (None, F') \<and> memory_ready path F'
     \<and> memory_load path F' = Inr (c @ memory_section now (trim_space e))"
proof -
  let ?c = "c @ memory_section now (trim_space e)"
  have dir: "stat_dir F (path_dir path) = Some True" using assms(1) by (simp add: memory_ready_def)
  have pre: "memory_prefix x = []" for x by (simp add: memory_prefix_def read_back_def)
  obtain p F' where F': "F' = put_node p (FileNode ?c) F" "resolve F' kernel_links path = Found p" "p \<noteq> []"
    "same_shape F F'" "memory_remember path now e F = (None, F')"
  proof (cases "resolve F kernel_links path")
    case (Found p)
    then have old: "node_at F p = Some (FileNode c)" "p \<noteq> []"
      using assms(2) by (auto simp: memory_load_def os_read_file_def split: option.splits node.splits if_splits)
    let ?F = "put_node p (FileNode ?c) F"
    have same: "same_shape F ?F" using old by (intro same_shape_put) auto
    then have "resolve ?F kernel_links path = Found p"
      by (rule resolve_same_shape [OF _ Found])
    moreover have "memory_remember path now e F = (None, ?F)"
      using assms(3) Found old by (simp add: memory_remember_def Let_def mkdir_all_stat [OF dir] open_create_def pre)
    ultimately show ?thesis using that [OF refl _ old(2) same] by blast
  next
    case (Absent d n)
    then have c: "c = []" using assms(2) by (simp add: memory_load_def os_read_file_def)
    let ?p = "d @ [n]" let ?F = "put_node ?p (FileNode ?c) F"
    have absent: "node_at F ?p = None" using Absent namei_absent_node by (auto simp: resolve_def split: if_splits)
    then have same: "same_shape F ?F" by (intro same_shape_put) simp
    have "resolve ?F kernel_links path = Found ?p"
      using Absent same_shapeD(1) [OF same] by (auto simp: resolve_def split: if_splits dest: namei_created)
    moreover have "memory_remember path now e F = (None, ?F)"
      using assms(3) Absent c
      by (simp add: memory_remember_def Let_def mkdir_all_stat [OF dir] open_create_def pre put_node_twice)
    ultimately show ?thesis using that [OF refl _ _ same] by simp
  next
    case (Failed er)
    with assms(1) show ?thesis by (simp add: memory_ready_def)
  qed
  have load: "memory_load path F' = Inr ?c"
    using F'(1-3) by (simp add: memory_load_def os_read_file_def)
  moreover have "memory_ready path F'"
    using load F'(2) stat_dir_same_shape [OF F'(4) dir] by (simp add: memory_ready_def)
  ultimately show ?thesis using F'(5) by blast
qed

interpretation memory_file: append_log "memory_load path" "memory_remember path" "memory_ready path" memory_section
  for path
proof unfold_locales
  show "memory_ready path F \<Longrightarrow> \<exists>c. memory_load path F = Inr c" for F by (simp add: memory_ready_def)
  show "trim_space e = [] \<Longrightarrow> memory_remember path now e F = (None, F)" for e now F
    by (simp add: memory_remember_def)
qed (rule memory_remember_records)

text \<open>
  C15. The memory file only grows: when its directory exists and it can be read, any series of
  Remember calls succeeds, and a Load afterwards returns what a Load gave before, followed by the
  dated section of each entry that is not blank, in the order of the calls. Nothing separates the
  old content from the first section, whether or not it ended with a newline.
\<close>

theorem memory_file_grows:
  assumes "memory_ready path F" "memory_load path F = Inr c"
  shows "\<exists>F'. remember_run (mb_remember (new_file_store path)) es F = (map (\<lambda>_. None) es, F')
     \<and> mb_load (new_file_store path) F' = Inr (c @ recorded memory_section es)"
  using memory_file.remember_all [OF assms] by (auto simp: new_file_store_def)

definition noted_fs :: fs where
  "noted_fs = \<lparr>fs_nodes = [([''ws''], DirNode), ([''ws'', ''MEMORY.md''], FileNode ''old'')], fs_cwd = []\<rparr>"

theorem memory_file_grows_witness:
  "mb_load (new_file_store ''/ws/MEMORY.md'')
     (snd (remember_run (mb_remember (new_file_store ''/ws/MEMORY.md'')) [(0, '' fact ''), (0, '' '')] noted_fs))
   = Inr (''old## 1970-01-01T00:00:00Z'' @ nl @ nl @ ''fact'' @ nl @ nl)"
proof -
  have "stat_dir noted_fs (path_dir ''/ws/MEMORY.md'') = Some True" by code_simp
  moreover have old: "memory_load ''/ws/MEMORY.md'' noted_fs = Inr ''old''" by code_simp
  moreover have "resolve noted_fs kernel_links ''/ws/MEMORY.md'' = Found [''ws'', ''MEMORY.md'']" by code_simp
  ultimately have "memory_ready ''/ws/MEMORY.md'' noted_fs" by (simp add: memory_ready_def)
  from memory_file_grows [OF this old, of "[(0, '' fact ''), (0, '' '')]"] obtain F' where
    "remember_run (mb_remember (new_file_store ''/ws/MEMORY.md'')) [(0, '' fact ''), (0, '' '')] noted_fs = ([None, None], F')"
    "mb_load (new_file_store ''/ws/MEMORY.md'') F' = Inr (''old'' @ recorded memory_section [(0, '' fact ''), (0, '' '')])"
    by auto
  moreover have "''old'' @ recorded memory_section [(0, '' fact ''), (0, '' '')] =
      ''old## 1970-01-01T00:00:00Z'' @ nl @ nl @ ''fact'' @ nl @ nl" by code_simp
  ultimately show ?thesis by simp
qed

end
