(* ===== verification/Agent_Context.thy ===== *)
theory Agent_Context
  imports Go_Fs Go_Path Go_Utf8 "HOL-Library.Sublist"
begin

section \<open>pkg/agentcontext: the Markdown files of the workspace in the system prompt\<close>

text \<open>
  The profiles and the loader. \<open>load_sections\<close> is the loop over the files of a profile with its
  running used; \<open>context_load\<close> joins what it gives. Warnings in the log are left out.
\<close>

record profile =
  pf_name :: string
  pf_files :: "string list"

record context_loader =
  max_per_file_chars :: int
  max_total_chars :: int

definition new_context_loader :: context_loader where
  "new_context_loader = \<lparr>max_per_file_chars = 20000, max_total_chars = 60000\<rparr>"

definition default_profiles :: "(string \<times> profile) list" where
  "default_profiles =
     [(''docsclaw'', \<lparr>pf_name = ''docsclaw'',
         pf_files = [''AGENTS.md'', ''SOUL.md'', ''USER.md'', ''IDENTITY.md'', ''TOOLS.md'']\<rparr>),
      (''openclaw'', \<lparr>pf_name = ''openclaw'',
         pf_files = [''AGENTS.md'', ''SOUL.md'', ''USER.md'', ''MEMORY.md'', ''IDENTITY.md'', ''TOOLS.md'']\<rparr>),
      (''hermes'', \<lparr>pf_name = ''hermes'',
         pf_files = [''AGENTS.md'', ''SOUL.md'', ''USER.md'', ''MEMORY.md'']\<rparr>)]"

definition resolve_profile :: "string \<Rightarrow> profile \<times> bool" where
  "resolve_profile name =
     (let docsclaw = snd (hd default_profiles) in
      if name = [] then (docsclaw, False)
      else (case map_of default_profiles name of Some p \<Rightarrow> (p, True) | None \<Rightarrow> (docsclaw, False)))"

text \<open>\<open>truncateRunes\<close> walks the string with its count of runes; it stops before the first one too many.\<close>

function truncate_runes_from :: "int \<Rightarrow> int \<Rightarrow> string \<Rightarrow> string" where
  "truncate_runes_from runes n s =
     (if s = [] then []
      else if runes \<ge> n then []
      else take (rune_step s) s @ truncate_runes_from (runes + 1) n (drop (rune_step s) s))"
  by pat_completeness auto
termination
  by (relation "measure (\<lambda>(r, n, s). length s)") auto

declare truncate_runes_from.simps [simp del]

definition truncate_runes :: "string \<Rightarrow> int \<Rightarrow> string" where
  "truncate_runes s n = truncate_runes_from 0 n s"

text \<open>One file, cut to the two limits: its text and the runes it counts for.\<close>

definition fit_content :: "context_loader \<Rightarrow> int \<Rightarrow> string \<Rightarrow> string \<times> int" where
  "fit_content l used content0 =
     (let count0 = int (rune_count content0);
          (content1, count1) = (if count0 > max_per_file_chars l
            then (truncate_runes content0 (max_per_file_chars l), max_per_file_chars l)
            else (content0, count0));
          remaining = max_total_chars l - used in
      if count1 > remaining then (truncate_runes content1 remaining, remaining) else (content1, count1))"

fun load_sections :: "context_loader \<Rightarrow> fs \<Rightarrow> string \<Rightarrow> int \<Rightarrow> string list \<Rightarrow> (string \<times> string) list" where
  "load_sections l F ws used [] = []"
| "load_sections l F ws used (name # names) =
     (if used \<ge> max_total_chars l then []
      else (case os_read_file F (path_join [ws, name]) of
          Inl _ \<Rightarrow> load_sections l F ws used names
        | Inr data \<Rightarrow>
            let content = trim_space data in
            if content = [] then load_sections l F ws used names
            else let (content1, count) = fit_content l used content in
              (name, content1) # load_sections l F ws (used + count) names))"

definition context_section :: "string \<times> string \<Rightarrow> string" where
  "context_section s = (case s of (name, content) \<Rightarrow> ''### '' @ trim_suffix name ''.md'' @ nl @ content)"

definition context_load :: "context_loader \<Rightarrow> fs \<Rightarrow> string \<Rightarrow> profile \<Rightarrow> string" where
  "context_load l F ws p =
     (let sections = map context_section (load_sections l F ws 0 (pf_files p)) in
      if sections = [] then []
      else nl @ nl @ ''## Project Context'' @ nl @ nl @ str_join (nl @ nl) sections)"

subsection \<open>Counting runes\<close>

lemma rune_step_cut:
  assumes "s \<noteq> []" "has_prefix s u" "rune_step s \<le> length u"
  shows "rune_step u = rune_step s"
proof (cases "rune_len s = 0")
  case False
  have "take (rune_len s) u = take (rune_len s) s"
  proof -
    have u: "take (length u) s = u" using assms(2) by (simp add: has_prefix_def)
    have "rune_len s \<le> length u" using assms(3) by (simp add: rune_step_def)
    then have "take (rune_len s) (take (length u) s) = take (rune_len s) s" by (simp only: take_take min.absorb1)
    then show ?thesis by (simp only: u)
  qed
  then have "rune_len u = rune_len s" by (rule rune_len_same [OF False])
  then show ?thesis by (simp only: rune_step_def)
next
  case True
  have "rune_len u = 0"
  proof (rule ccontr)
    assume "rune_len u \<noteq> 0"
    then have "rune_len s \<noteq> 0" using assms(2) rune_len_append [of u] by (auto simp: has_prefix_iff)
    with True show False by simp
  qed
  with True show ?thesis by (simp add: rune_step_def)
qed

lemma truncate_from_prefix: "has_prefix s (truncate_runes_from r n s)"
proof (induction r n s rule: truncate_runes_from.induct)
  case (1 r n s)
  show ?case
  proof (cases "s = [] \<or> r \<ge> n")
    case True
    then show ?thesis by (subst truncate_runes_from.simps) (auto simp: has_prefix_def)
  next
    case False
    with 1 obtain t where "drop (rune_step s) s = truncate_runes_from (r + 1) n (drop (rune_step s) s) @ t"
      by (auto simp: has_prefix_iff)
    then have "s = (take (rune_step s) s @ truncate_runes_from (r + 1) n (drop (rune_step s) s)) @ t"
      by (metis append.assoc append_take_drop_id)
    then show ?thesis using False by (subst truncate_runes_from.simps) (auto simp: has_prefix_iff)
  qed
qed

lemma truncate_from_count:
  "rune_count (truncate_runes_from r n s) = min (rune_count s) (nat (n - r))"
proof (induction r n s rule: truncate_runes_from.induct)
  case (1 r n s)
  show ?case
  proof (cases "s = [] \<or> r \<ge> n")
    case True
    then show ?thesis by (subst truncate_runes_from.simps) auto
  next
    case False
    let ?u = "truncate_runes_from r n s" let ?t = "truncate_runes_from (r + 1) n (drop (rune_step s) s)"
    have u: "?u = take (rune_step s) s @ ?t" using False by (subst truncate_runes_from.simps) simp
    have le: "rune_step s \<le> length s" using False by (intro rune_step_le) simp
    have ne: "?u \<noteq> []" using u le rune_step_pos [of s] False by auto
    have "rune_step ?u = rune_step s"
      using False truncate_from_prefix [of s r n] le by (intro rune_step_cut) (auto simp: u)
    then have "drop (rune_step ?u) ?u = ?t" using le by (simp add: u)
    then have "rune_count ?u = Suc (rune_count ?t)" using ne by (subst rune_count.simps) simp
    moreover have "rune_count s = Suc (rune_count (drop (rune_step s) s))" using False by (subst rune_count.simps) simp
    moreover have "nat (n - r) = Suc (nat (n - (r + 1)))" using False by linarith
    ultimately show ?thesis using 1 False by simp
  qed
qed

lemma truncate_runes_count: "rune_count (truncate_runes s n) = min (rune_count s) (nat n)"
  by (simp add: truncate_runes_def truncate_from_count)

lemma truncate_runes_prefix: "has_prefix s (truncate_runes s n)"
  by (simp add: truncate_runes_def truncate_from_prefix)


subsection \<open>The limits\<close>

lemma has_prefix_self [simp]: "has_prefix s s"
  by (simp add: has_prefix_def)

lemma has_prefix_trans: "has_prefix a b \<Longrightarrow> has_prefix b c \<Longrightarrow> has_prefix a c"
  by (auto simp: has_prefix_iff)

lemma fit_content_spec:
  assumes "fit_content l used c0 = (c, n)" "0 \<le> max_per_file_chars l" "used < max_total_chars l"
  shows "has_prefix c0 c \<and> n = int (rune_count c) \<and> n \<le> max_per_file_chars l \<and> n \<le> max_total_chars l - used"
  using assms truncate_runes_prefix truncate_runes_count
  by (auto simp: fit_content_def Let_def min_def split: if_splits
      intro: has_prefix_trans [OF truncate_runes_prefix truncate_runes_prefix])

text \<open>What the sections are, file by file.\<close>

definition section_of :: "context_loader \<Rightarrow> fs \<Rightarrow> string \<Rightarrow> string \<times> string \<Rightarrow> bool" where
  "section_of l F ws s \<longleftrightarrow>
     (\<exists>data. os_read_file F (path_join [ws, fst s]) = Inr data \<and> has_prefix (trim_space data) (snd s))
     \<and> int (rune_count (snd s)) \<le> max_per_file_chars l"

lemma load_sections_fit:
  assumes "0 \<le> max_per_file_chars l"
  shows "int (sum_list (map (rune_count \<circ> snd) (load_sections l F ws used names))) \<le> max 0 (max_total_chars l - used)
     \<and> (\<forall>s \<in> set (load_sections l F ws used names). section_of l F ws s)
     \<and> subseq (map fst (load_sections l F ws used names)) names"
proof (induction names arbitrary: used)
  case (Cons name names)
  show ?case
  proof (cases "used \<ge> max_total_chars l")
    case False
    show ?thesis
    proof (cases "\<exists>data. os_read_file F (path_join [ws, name]) = Inr data \<and> trim_space data \<noteq> []")
      case True
      then obtain data where data: "os_read_file F (path_join [ws, name]) = Inr data" "trim_space data \<noteq> []" by blast
      obtain c n where fit: "fit_content l used (trim_space data) = (c, n)" by fastforce
      have eq: "load_sections l F ws used (name # names) = (name, c) # load_sections l F ws (used + n) names"
        using False data fit by simp
      from fit_content_spec [OF fit assms] False have "has_prefix (trim_space data) c" "n = int (rune_count c)"
        "n \<le> max_per_file_chars l" "n \<le> max_total_chars l - used" by simp_all
      then show ?thesis unfolding eq using Cons.IH [of "used + n"] data by (auto simp: section_of_def)
    next
      case no: False
      then have "load_sections l F ws used (name # names) = load_sections l F ws used names"
        using False by (auto split: sum.splits)
      then show ?thesis using Cons.IH [of used] by auto
    qed
  qed simp
qed simp

text \<open>
  The project context respects its limits: whatever the workspace holds, the texts that go into
  the prompt have together at most MaxTotalChars runes and each at most MaxPerFileChars, each is a
  prefix of the trimmed file it is named after, and they come in the order of the profile.
\<close>

lemma context_limits:
  assumes "0 \<le> max_per_file_chars l" "0 \<le> max_total_chars l"
  shows "int (sum_list (map (rune_count \<circ> snd) (load_sections l F ws 0 (pf_files p)))) \<le> max_total_chars l
     \<and> list_all (section_of l F ws) (load_sections l F ws 0 (pf_files p))
     \<and> subseq (map fst (load_sections l F ws 0 (pf_files p))) (pf_files p)"
  using load_sections_fit [OF assms(1), of F ws 0 "pf_files p"] assms(2) by (auto simp: list_all_iff)

definition docs_fs :: fs where
  "docs_fs = \<lparr>fs_nodes = [([''ws''], DirNode), ([''ws'', ''AGENTS.md''], FileNode '' be brief ''),
     ([''ws'', ''USER.md''], FileNode ''Ana'')], fs_cwd = []\<rparr>"

lemma context_limits_example:
  "load_sections \<lparr>max_per_file_chars = 5, max_total_chars = 6\<rparr> docs_fs ''/ws'' 0
     (pf_files (fst (resolve_profile ''hermes''))) = [(''AGENTS.md'', ''be br''), (''USER.md'', ''A'')]
   \<and> list_all (section_of \<lparr>max_per_file_chars = 5, max_total_chars = 6\<rparr> docs_fs ''/ws'')
       [(''AGENTS.md'', ''be br''), (''USER.md'', ''A'')]"
proof -
  have "load_sections \<lparr>max_per_file_chars = 5, max_total_chars = 6\<rparr> docs_fs ''/ws'' 0
     (pf_files (fst (resolve_profile ''hermes''))) = [(''AGENTS.md'', ''be br''), (''USER.md'', ''A'')]" by code_simp
  with context_limits [of "\<lparr>max_per_file_chars = 5, max_total_chars = 6\<rparr>" docs_fs "''/ws''" "fst (resolve_profile ''hermes'')"]
  show ?thesis by simp
qed

end
