(* ===== verification/Exec_Tool.thy ===== *)
theory Exec_Tool
  imports Workspace_Tools Go_Url
begin

section \<open>internal/exec: the shell tool and its deny list\<close>

text \<open>
  The deny list is a list of regular expressions of package regexp, modelled as a datatype with a
  matching relation on positions of the command and an executable matcher proved equal to it.
  Classes other than the dot are ASCII and the dot excludes only the newline, so matching bytes
  finds a match exactly when matching characters does. The shell is outside the repository:
  \<open>sh command timeout world\<close> gives its combined output, the error of the run and whether the
  deadline passed.
\<close>

subsection \<open>Regular expressions\<close>

datatype rx =
    RxClass "char \<Rightarrow> bool"
  | RxWordBoundary
  | RxEmpty
  | RxSeq rx rx
  | RxAlt rx rx
  | RxStar rx

definition word_char :: "char \<Rightarrow> bool" where
  "word_char c \<longleftrightarrow> is_digit c \<or> is_letter c \<or> c = CHR ''_''"

definition space_char :: "char \<Rightarrow> bool" where
  "space_char c \<longleftrightarrow> c \<in> {CHR 0x09, CHR 0x0A, CHR 0x0C, CHR 0x0D, CHR 0x20}"

definition word_at :: "string \<Rightarrow> nat \<Rightarrow> bool" where
  "word_at s i \<longleftrightarrow> i < length s \<and> word_char (s ! i)"

definition boundary_at :: "string \<Rightarrow> nat \<Rightarrow> bool" where
  "boundary_at s i \<longleftrightarrow> (0 < i \<and> word_at s (i - 1)) \<noteq> word_at s i"

inductive rx_match :: "string \<Rightarrow> rx \<Rightarrow> nat \<Rightarrow> nat \<Rightarrow> bool" for s where
  char_class: "i < length s \<Longrightarrow> p (s ! i) \<Longrightarrow> rx_match s (RxClass p) i (Suc i)"
| boundary: "i \<le> length s \<Longrightarrow> boundary_at s i \<Longrightarrow> rx_match s RxWordBoundary i i"
| empty: "i \<le> length s \<Longrightarrow> rx_match s RxEmpty i i"
| seq: "rx_match s r i j \<Longrightarrow> rx_match s q j k \<Longrightarrow> rx_match s (RxSeq r q) i k"
| alt1: "rx_match s r i j \<Longrightarrow> rx_match s (RxAlt r q) i j"
| alt2: "rx_match s q i j \<Longrightarrow> rx_match s (RxAlt r q) i j"
| star0: "i \<le> length s \<Longrightarrow> rx_match s (RxStar r) i i"
| star1: "rx_match s r i j \<Longrightarrow> rx_match s (RxStar r) j k \<Longrightarrow> rx_match s (RxStar r) i k"

inductive_simps rx_class_iff [simp]: "rx_match s (RxClass p) i j"
inductive_simps rx_boundary_iff [simp]: "rx_match s RxWordBoundary i j"
inductive_simps rx_empty_iff [simp]: "rx_match s RxEmpty i j"
inductive_simps rx_seq_iff [simp]: "rx_match s (RxSeq r q) i j"
inductive_simps rx_alt_iff [simp]: "rx_match s (RxAlt r q) i j"
inductive_cases rx_starE: "rx_match s (RxStar r) i j"

text \<open>The matcher: the positions where a match from a position can end.\<close>

fun star_ends :: "nat \<Rightarrow> (nat \<Rightarrow> nat list) \<Rightarrow> nat list \<Rightarrow> nat list" where
  "star_ends 0 f xs = xs"
| "star_ends (Suc n) f xs =
     (let ys = filter (\<lambda>y. y \<notin> set xs) (remdups (concat (map f xs))) in
      if ys = [] then xs else star_ends n f (xs @ ys))"

fun rx_ends :: "string \<Rightarrow> rx \<Rightarrow> nat \<Rightarrow> nat list" where
  "rx_ends s (RxClass p) i = (if i < length s \<and> p (s ! i) then [Suc i] else [])"
| "rx_ends s RxWordBoundary i = (if i \<le> length s \<and> boundary_at s i then [i] else [])"
| "rx_ends s RxEmpty i = (if i \<le> length s then [i] else [])"
| "rx_ends s (RxSeq r q) i = concat (map (rx_ends s q) (rx_ends s r i))"
| "rx_ends s (RxAlt r q) i = rx_ends s r i @ rx_ends s q i"
| "rx_ends s (RxStar r) i = (if i \<le> length s then star_ends (length s) (rx_ends s r) [i] else [])"

definition match_string :: "rx \<Rightarrow> string \<Rightarrow> bool" where
  "match_string r s \<longleftrightarrow> list_ex (\<lambda>i. rx_ends s r i \<noteq> []) [0..<Suc (length s)]"

subsection \<open>The matcher is right\<close>

lemma rx_match_le: "rx_match s r i j \<Longrightarrow> i \<le> j \<and> j \<le> length s"
  by (induction rule: rx_match.induct) auto

lemma star_ends_set:
  "set (star_ends n f xs) = {y. \<exists>x \<in> set xs. \<exists>m \<le> n. ((\<lambda>a b. b \<in> set (f a)) ^^ m) x y}"
proof (induction n arbitrary: xs)
  case 0
  then show ?case by auto
next
  case (Suc n)
  let ?R = "\<lambda>a b. b \<in> set (f a)"
  let ?ys = "filter (\<lambda>y. y \<notin> set xs) (remdups (concat (map f xs)))"
  have step: "(\<exists>x \<in> set xs. \<exists>m \<le> Suc n. (?R ^^ m) x y) \<longleftrightarrow> (\<exists>x \<in> set (xs @ ?ys). \<exists>m \<le> n. (?R ^^ m) x y)" for y
  proof
    assume "\<exists>x \<in> set xs. \<exists>m \<le> Suc n. (?R ^^ m) x y"
    then obtain x m where x: "x \<in> set xs" "m \<le> Suc n" "(?R ^^ m) x y" by blast
    show "\<exists>x \<in> set (xs @ ?ys). \<exists>m \<le> n. (?R ^^ m) x y"
    proof (cases m)
      case 0
      with x have "y \<in> set (xs @ ?ys)" "(?R ^^ 0) y y" by auto
      then show ?thesis by (metis le0)
    next
      case (Suc m')
      then obtain z where "z \<in> set (f x)" "(?R ^^ m') z y" using x(3) by (metis relpowp_Suc_D2)
      moreover have "z \<in> set (xs @ ?ys)" using x(1) \<open>z \<in> set (f x)\<close> by auto
      ultimately show ?thesis using Suc x(2) by (metis Suc_le_mono)
    qed
  next
    assume "\<exists>x \<in> set (xs @ ?ys). \<exists>m \<le> n. (?R ^^ m) x y"
    then obtain x m where x: "x \<in> set (xs @ ?ys)" "m \<le> n" "(?R ^^ m) x y" by blast
    show "\<exists>x \<in> set xs. \<exists>m \<le> Suc n. (?R ^^ m) x y"
    proof (cases "x \<in> set xs")
      case True
      with x show ?thesis by (meson le_Suc_eq)
    next
      case False
      then obtain w where "w \<in> set xs" "x \<in> set (f w)" using x(1) by auto
      then show ?thesis using x(2,3) by (meson Suc_le_mono relpowp_Suc_I2)
    qed
  qed
  show ?case
  proof (cases "?ys = []")
    case False
    then show ?thesis using Suc.IH [of "xs @ ?ys"] step by (simp add: Let_def)
  next
    case True
    have closed: "y \<in> set xs" if "x \<in> set xs" "(?R ^^ m) x y" for x y m
      using that(2,1)
    proof (induction m arbitrary: y)
      case (Suc m)
      then obtain z where z: "(?R ^^ m) x z" "y \<in> set (f z)" by auto
      with Suc have "z \<in> set xs" by blast
      with z(2) True show ?case by (auto simp: filter_empty_conv)
    qed simp
    have "set xs = {y. \<exists>x \<in> set xs. \<exists>m \<le> Suc n. (?R ^^ m) x y}"
    proof (intro set_eqI iffI)
      fix y assume "y \<in> set xs"
      moreover have "(?R ^^ 0) y y" by simp
      ultimately show "y \<in> {y. \<exists>x \<in> set xs. \<exists>m \<le> Suc n. (?R ^^ m) x y}" by (metis (mono_tags, lifting) le0 mem_Collect_eq)
    qed (use closed in blast)
    then show ?thesis using True by (simp add: Let_def)
  qed
qed

lemma star_steps: "rx_match s (RxStar r) i k \<Longrightarrow> \<exists>m \<le> k - i. (rx_match s r ^^ m) i k"
proof (induction "RxStar r" i k rule: rx_match.induct)
  case (star0 i)
  show ?case by (auto intro: exI [of _ "0 :: nat"])
next
  case (star1 i j k)
  then obtain m where m: "m \<le> k - j" "(rx_match s r ^^ m) j k" by blast
  have le: "i \<le> j" "j \<le> k" using rx_match_le star1.hyps by blast+
  show ?case
  proof (cases "i = j")
    case True
    with m show ?thesis by auto
  next
    case False
    then have "Suc m \<le> k - i" using le m(1) by linarith
    moreover have "(rx_match s r ^^ Suc m) i k" using star1.hyps(1) m(2) by (rule relpowp_Suc_I2)
    ultimately show ?thesis by blast
  qed
qed

lemma steps_star: "(rx_match s r ^^ m) i k \<Longrightarrow> i \<le> length s \<Longrightarrow> rx_match s (RxStar r) i k"
proof (induction m arbitrary: i)
  case (Suc m)
  then obtain j where j: "rx_match s r i j" "(rx_match s r ^^ m) j k" by (metis relpowp_Suc_D2)
  then have "rx_match s (RxStar r) j k" using Suc.IH rx_match_le by blast
  with j(1) show ?case by (rule rx_match.star1)
qed (simp add: rx_match.star0)

lemma rx_ends_match: "j \<in> set (rx_ends s r i) \<longleftrightarrow> rx_match s r i j"
proof (induction r arbitrary: i j)
  case (RxStar r)
  have R: "(\<lambda>a b. b \<in> set (rx_ends s r a)) = rx_match s r" using RxStar by (intro ext) simp
  show ?case
  proof (cases "i \<le> length s")
    case False
    then show ?thesis using rx_match_le [of s "RxStar r" i j] by auto
  next
    case True
    have "j \<in> set (rx_ends s (RxStar r) i) \<longleftrightarrow> (\<exists>m \<le> length s. (rx_match s r ^^ m) i j)"
      using True by (simp add: star_ends_set R)
    also have "\<dots> \<longleftrightarrow> rx_match s (RxStar r) i j"
    proof
      assume "rx_match s (RxStar r) i j"
      with star_steps obtain m where "m \<le> j - i" "(rx_match s r ^^ m) i j" by blast
      moreover have "j - i \<le> length s" using rx_match_le [OF \<open>rx_match s (RxStar r) i j\<close>] by linarith
      ultimately show "\<exists>m \<le> length s. (rx_match s r ^^ m) i j" using le_trans by blast
    qed (use True steps_star in blast)
    finally show ?thesis .
  qed
qed auto

lemma match_string_iff: "match_string r s \<longleftrightarrow> (\<exists>i j. rx_match s r i j)"
proof -
  have ne: "xs \<noteq> [] \<longleftrightarrow> (\<exists>j. j \<in> set xs)" for xs :: "nat list" by (cases xs) auto
  have "match_string r s \<longleftrightarrow> (\<exists>i < Suc (length s). \<exists>j. rx_match s r i j)"
    unfolding match_string_def list_ex_iff ne rx_ends_match by (auto simp del: upt_Suc)
  also have "\<dots> \<longleftrightarrow> (\<exists>i j. rx_match s r i j)"
    using rx_match_le [of s r] by (meson le_imp_less_Suc le_trans)
  finally show ?thesis .
qed

subsection \<open>The deny list\<close>

definition rx_lit :: "string \<Rightarrow> rx" where
  "rx_lit w = foldr (\<lambda>c r. RxSeq (RxClass (\<lambda>x. x = c)) r) w RxEmpty"

definition rx_plus :: "rx \<Rightarrow> rx" where
  "rx_plus r = RxSeq r (RxStar r)"

definition rx_seqs :: "rx list \<Rightarrow> rx" where
  "rx_seqs rs = foldr RxSeq rs RxEmpty"

abbreviation rx_space :: rx where "rx_space \<equiv> RxClass space_char"
abbreviation rx_word :: rx where "rx_word \<equiv> RxClass word_char"
abbreviation rx_dot :: rx where "rx_dot \<equiv> RxClass (\<lambda>c. c \<noteq> CHR 0x0A)"

text \<open>A whole word; two words with white space between; an rm with options before the dangerous one.\<close>

definition deny_word :: "string \<Rightarrow> rx" where
  "deny_word w = rx_seqs [RxWordBoundary, rx_lit w, RxWordBoundary]"

definition deny_words :: "string \<Rightarrow> string \<Rightarrow> rx" where
  "deny_words v w = rx_seqs [RxWordBoundary, rx_lit v, rx_plus rx_space, rx_lit w, RxWordBoundary]"

definition deny_rm :: "string \<Rightarrow> rx" where
  "deny_rm opt = rx_seqs [RxWordBoundary, rx_lit ''rm'', rx_plus rx_space,
     RxStar (rx_seqs [rx_lit ''-'', RxStar rx_word, rx_plus rx_space]), rx_lit opt]"

definition deny_pipe_sh :: "string \<Rightarrow> rx" where
  "deny_pipe_sh w = rx_seqs [RxWordBoundary, rx_lit w, RxWordBoundary, RxStar rx_dot, rx_lit ''|'',
     RxStar rx_space, RxAlt (rx_lit ''ba'') RxEmpty, rx_lit ''sh'']"

definition deny_patterns :: "rx list" where
  "deny_patterns =
     [deny_rm ''-r'', deny_rm ''-f'', deny_word ''sudo'',
      rx_seqs [RxWordBoundary, rx_lit ''dd'', RxWordBoundary, RxStar rx_dot, RxWordBoundary, rx_lit ''of=/dev/''],
      deny_word ''mkfs'', deny_words ''git'' ''push'',
      rx_seqs [RxWordBoundary, rx_lit ''git'', rx_plus rx_space, rx_lit ''reset'', rx_plus rx_space,
        rx_lit ''--hard'', RxWordBoundary],
      deny_words ''docker'' ''run'', deny_words ''docker'' ''exec'', deny_words ''podman'' ''run'',
      deny_words ''kubectl'' ''delete'', deny_words ''oc'' ''delete'',
      deny_pipe_sh ''curl'', deny_pipe_sh ''wget'',
      rx_seqs [RxWordBoundary, rx_lit ''chmod'', rx_plus rx_space,
        RxStar (RxClass (\<lambda>c. c \<in> set ''01234567'')), rx_lit ''777'', RxWordBoundary],
      deny_word ''chown'', deny_word ''eval'',
      rx_seqs [rx_lit '':(){'', RxStar rx_dot, rx_lit ''}:''],
      rx_seqs [RxWordBoundary, rx_lit ''/dev/sd'', RxClass (\<lambda>c. is_letter c \<and> of_char c > (96 :: nat)), RxWordBoundary],
      deny_word ''shutdown'', deny_word ''reboot'', deny_word ''halt'', deny_word ''poweroff'',
      rx_seqs [rx_lit ''>'', RxStar rx_space, rx_lit ''/etc/''],
      deny_word ''ssh'',
      rx_seqs [RxWordBoundary, rx_lit ''nc'', rx_plus rx_space, rx_lit ''-l'']]"

definition command_denied :: "string \<Rightarrow> bool" where
  "command_denied command \<longleftrightarrow> list_ex (\<lambda>p. match_string p command) deny_patterns"

subsection \<open>The tool\<close>

record exec_config =
  ec_timeout :: int
  ec_max_output :: int

definition default_exec_config :: exec_config where
  "default_exec_config = \<lparr>ec_timeout = 30, ec_max_output = 50000\<rparr>"

definition exec_defaults :: "exec_config \<Rightarrow> exec_config" where
  "exec_defaults c =
     c\<lparr>ec_timeout := (if ec_timeout c = 0 then 30 else ec_timeout c),
       ec_max_output := (if ec_max_output c = 0 then 50000 else ec_max_output c)\<rparr>"

record shell_run =
  sh_output :: string
  sh_error :: "string option"
  sh_deadline :: bool

text \<open>The cut of an output that is too long; a negative limit makes the slice expression panic (None).\<close>

definition cut_output :: "int \<Rightarrow> string \<Rightarrow> string option" where
  "cut_output m out =
     (if int (length out) > m
      then (if m < 0 then None else Some (take (nat m) out @ nl @ ''...(truncated)''))
      else Some out)"

definition exec_execute ::
  "(string \<Rightarrow> int \<Rightarrow> 'w \<Rightarrow> shell_run \<times> 'w) \<Rightarrow> exec_config \<Rightarrow> args \<Rightarrow> 'w \<Rightarrow> tool_result option \<times> 'w" where
  "exec_execute sh cfg a w =
     (let command = str_or_empty ''command'' a in
      if command = [] then (Some (tool_errorf ''command is required''), w)
      else if command_denied command
        then (Some (tool_errorf (''Command blocked by security policy: '' @ command)), w)
      else (let (run, w1) = sh command (ec_timeout cfg) w in
        (case cut_output (ec_max_output cfg) (sh_output run) of
           None \<Rightarrow> (None, w1)
         | Some result \<Rightarrow>
             (case sh_error run of
                Some err \<Rightarrow>
                  if sh_deadline run
                  then (Some (tool_errorf (''Command timed out after '' @ itoa (ec_timeout cfg) @ ''s: '' @ command)), w1)
                  else (Some \<lparr>res_output = result @ nl @ ''Exit error: '' @ err, res_error = True\<rparr>, w1)
              | None \<Rightarrow> (Some (tool_ok result), w1)))))"

text \<open>
  The tool of a configuration whose output limit is not negative; with a negative one the process
  ends at the first command that runs.
\<close>

definition exec_tool :: "(string \<Rightarrow> int \<Rightarrow> 'w \<Rightarrow> shell_run \<times> 'w) \<Rightarrow> exec_config \<Rightarrow> 'w tool option" where
  "exec_tool sh cfg0 =
     (let cfg = exec_defaults cfg0 in
      if ec_max_output cfg < 0 then None
      else Some \<lparr>t_name = ''exec'',
        t_description = ''Run a shell command and return stdout/stderr. '' @
          ''Use for file conversion, data processing, and system commands. '' @
          ''Dangerous commands (rm -rf, sudo, docker, etc.) are blocked.'',
        t_parameters = object_schema [string_param ''command'' ''The shell command to execute''] [''command''],
        t_execute = (\<lambda>a w. let (r, w1) = exec_execute sh cfg a w in (the r, w1))\<rparr>)"

lemma exec_execute_returns: "0 \<le> ec_max_output cfg \<Longrightarrow> \<exists>r. fst (exec_execute sh cfg a w) = Some r"
  by (auto simp: exec_execute_def Let_def cut_output_def split: prod.splits option.splits)

subsection \<open>What the deny list stops\<close>

lemma rx_match_lit: "rx_match s (rx_lit w) i j \<longleftrightarrow> j = i + length w \<and> j \<le> length s \<and> take (length w) (drop i s) = w"
proof (induction w arbitrary: i)
  case (Cons c w)
  have "rx_match s (rx_lit (c # w)) i j \<longleftrightarrow> i < length s \<and> s ! i = c \<and> rx_match s (rx_lit w) (Suc i) j"
    by (auto simp: rx_lit_def)
  also have "\<dots> \<longleftrightarrow> j = i + length (c # w) \<and> j \<le> length s \<and> take (length (c # w)) (drop i s) = c # w"
  proof (cases "i < length s")
    case True
    then have "drop i s = s ! i # drop (Suc i) s" by (simp add: Cons_nth_drop_Suc)
    then show ?thesis using True by (auto simp: Cons.IH)
  qed auto
  finally show ?case .
qed (auto simp: rx_lit_def)

lemma deny_word_iff:
  "(\<exists>i j. rx_match s (deny_word w) i j) \<longleftrightarrow>
   (\<exists>a b. s = a @ w @ b \<and> boundary_at s (length a) \<and> boundary_at s (length a + length w))"
proof
  assume "\<exists>i j. rx_match s (deny_word w) i j"
  then obtain i where i: "i + length w \<le> length s" "take (length w) (drop i s) = w" "boundary_at s i" "boundary_at s (i + length w)"
    by (auto simp: deny_word_def rx_seqs_def rx_match_lit)
  have "s = take i s @ w @ drop (i + length w) s"
    using i(2) by (metis append_take_drop_id drop_drop add.commute)
  then show "\<exists>a b. s = a @ w @ b \<and> boundary_at s (length a) \<and> boundary_at s (length a + length w)"
    using i by (intro exI [of _ "take i s"] exI [of _ "drop (i + length w) s"]) simp
next
  assume "\<exists>a b. s = a @ w @ b \<and> boundary_at s (length a) \<and> boundary_at s (length a + length w)"
  then obtain a b where "s = a @ w @ b" "boundary_at s (length a)" "boundary_at s (length a + length w)" by blast
  then have "rx_match s (deny_word w) (length a) (length a + length w)"
    by (auto simp: deny_word_def rx_seqs_def rx_match_lit)
  then show "\<exists>i j. rx_match s (deny_word w) i j" by blast
qed

lemma command_denied_iff: "command_denied c \<longleftrightarrow> (\<exists>p \<in> set deny_patterns. \<exists>i j. rx_match c p i j)"
  by (simp add: command_denied_def list_ex_iff match_string_iff)

text \<open>
  C16. The gate of the exec tool: the shell sees a command exactly when it is not empty and none of
  the deny patterns, read as regular expressions over positions, matches anywhere in it; then the
  effect is that of one run of that very command under the configured timeout. Otherwise nothing
  happens and the answer is an error.
\<close>

theorem exec_gate:
  "if str_or_empty ''command'' a = [] \<or>
      (\<exists>p \<in> set deny_patterns. \<exists>i j. rx_match (str_or_empty ''command'' a) p i j)
   then \<exists>msg. exec_execute sh cfg a w = (Some (tool_errorf msg), w)
   else snd (exec_execute sh cfg a w) = snd (sh (str_or_empty ''command'' a) (ec_timeout cfg) w)"
proof -
  let ?c = "str_or_empty ''command'' a"
  have "if ?c = [] \<or> command_denied ?c then \<exists>msg. exec_execute sh cfg a w = (Some (tool_errorf msg), w)
      else snd (exec_execute sh cfg a w) = snd (sh ?c (ec_timeout cfg) w)"
    by (auto simp: exec_execute_def Let_def split: prod.splits option.splits)
  then show ?thesis by (simp only: command_denied_iff)
qed

text \<open>The words that stand alone in the deny list.\<close>

definition denied_words :: "string list" where
  "denied_words = [''sudo'', ''mkfs'', ''chown'', ''eval'', ''shutdown'', ''reboot'', ''halt'', ''poweroff'', ''ssh'']"

lemma denied_words_pattern: "v \<in> set denied_words \<Longrightarrow> deny_word v \<in> set deny_patterns"
  by (auto simp: denied_words_def deny_patterns_def)

text \<open>
  Single-word entries of the deny list cannot be hidden in a longer command: wherever one of
  them stands between word boundaries, whatever is around it, the command is blocked.
\<close>

lemma denied_word_blocks:
  assumes "v \<in> set denied_words" "str_or_empty ''command'' a = x @ v @ y"
    "boundary_at (x @ v @ y) (length x)" "boundary_at (x @ v @ y) (length x + length v)"
  shows "exec_execute sh cfg a w = (Some (tool_errorf (''Command blocked by security policy: '' @ x @ v @ y)), w)"
proof -
  have "v \<noteq> []" using assms(1) by (auto simp: denied_words_def)
  moreover have "command_denied (x @ v @ y)"
    unfolding command_denied_iff using denied_words_pattern [OF assms(1)] deny_word_iff [of "x @ v @ y" v] assms(3,4) by blast
  ultimately show ?thesis using assms(2) by (simp add: exec_execute_def Let_def)
qed

definition demo_shell :: "string \<Rightarrow> int \<Rightarrow> nat \<Rightarrow> shell_run \<times> nat" where
  "demo_shell c t n = (\<lparr>sh_output = ''ran'', sh_error = None, sh_deadline = False\<rparr>, Suc n)"

definition command_args :: "string \<Rightarrow> args" where
  "command_args c = [(''command'', JStr c)]"

theorem denied_word_blocks_witness:
  "exec_execute demo_shell default_exec_config (command_args ''ls; (sudo ls)'') 0
     = (Some (tool_errorf (''Command blocked by security policy: '' @ ''ls; ('' @ ''sudo'' @ '' ls)'')), 0)"
proof (rule denied_word_blocks)
  show "''sudo'' \<in> set denied_words" by (simp add: denied_words_def)
  show "str_or_empty ''command'' (command_args ''ls; (sudo ls)'') = ''ls; ('' @ ''sudo'' @ '' ls)''" by code_simp
  show "boundary_at (''ls; ('' @ ''sudo'' @ '' ls)'') (length ''ls; ('')"
    "boundary_at (''ls; ('' @ ''sudo'' @ '' ls)'') (length ''ls; ('' + length ''sudo'')" by code_simp+
qed

text \<open>
  What the deny list lets through: long options of rm, the same command behind quotes or a
  variable, and a write to a disk device, because the word boundary before "/dev" needs a letter or
  digit in front of the slash. Each of these runs.
\<close>

lemma denylist_gaps:
  "list_all (\<lambda>c. exec_execute demo_shell default_exec_config (command_args c) 0 = (Some (tool_ok ''ran''), 1))
     [''rm --recursive /'', ''r'' @ [CHR 0x27, CHR 0x27] @ ''m -rf /'', ''cat x > /dev/sda'', ''tee /etc/passwd'']"
  by code_simp

end
