(* ===== verification/Go_Json_Text.thy ===== *)
theory Go_Json_Text
  imports Go_Json
begin

section \<open>Reading back what was written\<close>

text \<open>
  \<open>json_lit\<close> writes a value with the keys of objects in their order, as \<open>json.Marshal\<close> does for
  a struct. Reading its text gives the value back, when strings are well-formed UTF-8, keys are
  distinct and numbers are integers below 1e21 (\<open>plain_json\<close>). The text holds no line break.
\<close>

fun json_lit :: "(rat \<Rightarrow> string) \<Rightarrow> json \<Rightarrow> string" where
  "json_lit ft JNull = ''null''"
| "json_lit ft (JBool b) = (if b then ''true'' else ''false'')"
| "json_lit ft (JNum r) = num_text ft r"
| "json_lit ft (JStr s) = json_quote s"
| "json_lit ft (JArr xs) = ''['' @ str_join '','' (map (json_lit ft) xs) @ '']''"
| "json_lit ft (JObj kvs) = ''{'' @ str_join '','' (map (\<lambda>(k, v). json_quote k @ '':'' @ json_lit ft v) kvs) @ ''}''"

definition small_int :: "rat \<Rightarrow> bool" where
  "small_int r \<longleftrightarrow> r = of_int \<lfloor>r\<rfloor> \<and> \<bar>\<lfloor>r\<rfloor>\<bar> < 10 ^ 21"

fun plain_json :: "json \<Rightarrow> bool" where
  "plain_json (JStr s) = valid_utf8 s"
| "plain_json (JNum r) = small_int r"
| "plain_json (JArr xs) = list_all plain_json xs"
| "plain_json (JObj kvs) = (distinct (map fst kvs) \<and> list_all (\<lambda>(k, v). valid_utf8 k \<and> plain_json v) kvs)"
| "plain_json JNull = True"
| "plain_json (JBool b) = True"

subsection \<open>Strings\<close>

lemma cons_str_Some [simp]: "cons_str a (Some (x, r)) = Some (a @ x, r)"
  by (simp add: cons_str_def)

lemma read_chars_quote [simp]: "read_chars (CHR 0x22 # r) = Some ([], r)"
  by (subst read_chars.simps) simp

lemma read_chars_u:
  "hex4 r = Some hi \<Longrightarrow> \<not> (55296 \<le> hi \<and> hi < 56320) \<Longrightarrow>
   read_chars (CHR 0x5C # CHR ''u'' # r) = cons_str (utf8_of hi) (read_chars (drop 4 r))"
  by (subst read_chars.simps) auto

lemma read_chars_escape:
  "unescape c = Some x \<Longrightarrow> read_chars (CHR 0x5C # c # r) = cons_str [x] (read_chars r)"
proof -
  assume "unescape c = Some x"
  moreover from this have "c \<noteq> CHR ''u''" by (auto simp: unescape_def)
  ultimately show ?thesis by (subst read_chars.simps) (simp add: Let_def)
qed

lemma read_chars_rune:
  assumes "rune_len s \<noteq> 0" "hd s \<noteq> CHR 0x22" "hd s \<noteq> CHR 0x5C" "\<not> (of_char (hd s) :: nat) < 32"
  shows "read_chars s = cons_str (take (rune_len s) s) (read_chars (drop (rune_len s) s))"
proof -
  have "s \<noteq> []" using assms(1) by auto
  with assms show ?thesis by (subst read_chars.simps) (simp add: Let_def)
qed

lemma lead_len_ascii: "n < 128 \<Longrightarrow> lead_len n = 1" "0 < lead_len n \<Longrightarrow> lead_len n \<noteq> 1 \<Longrightarrow> 194 \<le> n"
  by (auto simp: lead_len_def split: if_splits)

lemma hex_digit_val: "n < 16 \<Longrightarrow> hex_val (hex_digit n) = Some n"
  by (auto simp: hex_digit_def hex_val_def Let_def)

lemma read_chars_json_escape:
  assumes "(of_char c :: nat) < 128"
  shows "read_chars (json_escape c @ r) = cons_str [c] (read_chars r)"
proof -
  let ?n = "of_char c :: nat"
  have un: "unescape CHR 0x22 = Some CHR 0x22" "unescape CHR 0x5C = Some CHR 0x5C" "unescape CHR ''b'' = Some CHR 0x08"
    "unescape CHR ''f'' = Some CHR 0x0C" "unescape CHR ''n'' = Some CHR 0x0A" "unescape CHR ''r'' = Some CHR 0x0D"
    "unescape CHR ''t'' = Some CHR 0x09" by code_simp+
  have cs: "?n = 8 \<Longrightarrow> c = CHR 0x08" "?n = 12 \<Longrightarrow> c = CHR 0x0C" "?n = 10 \<Longrightarrow> c = CHR 0x0A"
    "?n = 13 \<Longrightarrow> c = CHR 0x0D" "?n = 9 \<Longrightarrow> c = CHR 0x09"
  proof -
    have c: "c = char_of ?n" by simp
    have v: "char_of (8 :: nat) = CHR 0x08" "char_of (12 :: nat) = CHR 0x0C" "char_of (10 :: nat) = CHR 0x0A"
      "char_of (13 :: nat) = CHR 0x0D" "char_of (9 :: nat) = CHR 0x09" by code_simp+
    show "?n = 8 \<Longrightarrow> c = CHR 0x08" "?n = 12 \<Longrightarrow> c = CHR 0x0C" "?n = 10 \<Longrightarrow> c = CHR 0x0A"
      "?n = 13 \<Longrightarrow> c = CHR 0x0D" "?n = 9 \<Longrightarrow> c = CHR 0x09"
      using c v by metis+
  qed
  consider (simple) "c \<in> {CHR 0x22, CHR 0x5C}" | (ctl) "c \<notin> {CHR 0x22, CHR 0x5C}" "?n \<in> {8, 12, 10, 13, 9}"
    | (hex) "c \<notin> {CHR 0x22, CHR 0x5C}" "?n \<notin> {8, 12, 10, 13, 9}" "?n < 32 \<or> c \<in> {CHR ''<'', CHR ''>'', CHR ''&''}"
    | (plain) "c \<notin> {CHR 0x22, CHR 0x5C}" "\<not> ?n < 32" "c \<notin> {CHR ''<'', CHR ''>'', CHR ''&''}" by linarith
  then show ?thesis
  proof cases
    case simple
    then show ?thesis using read_chars_escape un by (auto simp: json_escape_def)
  next
    case ctl
    then show ?thesis using read_chars_escape un cs by (auto simp: json_escape_def Let_def)
  next
    case hex
    have e: "json_escape c @ r = CHR 0x5C # CHR ''u'' # (''00'' @ [hex_digit (?n div 16), hex_digit (?n mod 16)] @ r)"
      using hex by (auto simp: json_escape_def Let_def)
    have "hex_val (CHR ''0'') = Some 0" by code_simp
    then have "hex4 (''00'' @ [hex_digit (?n div 16), hex_digit (?n mod 16)] @ r) = Some ?n"
      using assms by (simp add: hex4_def hex_digit_val less_mult_imp_div_less)
    then show ?thesis unfolding e using assms by (subst read_chars_u) (auto simp: utf8_of_def)
  next
    case plain
    then have e: "json_escape c = [c]" by (auto simp: json_escape_def Let_def)
    have "rune_len (c # r) = 1" using assms by (intro rune_len_eqI) (auto simp: lead_len_ascii wf_rune_def)
    then show ?thesis unfolding e using plain by (simp add: read_chars_rune)
  qed
qed

lemma read_chars_json: "read_chars (json_chars s @ CHR 0x22 # r) = Some (coerce_utf8 s, r)"
proof (induction s rule: json_chars.induct)
  case (1 s)
  consider (nil) "s = []" | (bad) "s \<noteq> []" "rune_len s = 0" | (one) "s \<noteq> []" "rune_len s = 1"
    | (sep) "s \<noteq> []" "rune_len s \<noteq> 0" "rune_len s \<noteq> 1" "take 3 s = [CHR 0xE2, CHR 0x80, CHR 0xA8] \<or> take 3 s = [CHR 0xE2, CHR 0x80, CHR 0xA9]"
    | (long) "s \<noteq> []" "rune_len s \<noteq> 0" "rune_len s \<noteq> 1" "take 3 s \<noteq> [CHR 0xE2, CHR 0x80, CHR 0xA8]" "take 3 s \<noteq> [CHR 0xE2, CHR 0x80, CHR 0xA9]"
    by blast
  then show ?case
  proof cases
    case nil
    then show ?thesis by (simp add: json_chars.simps coerce_utf8.simps)
  next
    case bad
    have "hex4 (CHR ''f'' # CHR ''f'' # CHR ''f'' # CHR ''d'' # t) = Some 65533" for t
    proof -
      have "hex_val CHR ''f'' = Some 15" "hex_val CHR ''d'' = Some 13" by code_simp+
      then show ?thesis by (simp add: hex4_def)
    qed
    moreover have "utf8_of 65533 = [CHR 0xEF, CHR 0xBF, CHR 0xBD]" by code_simp
    ultimately show ?thesis
      using bad 1 by (subst json_chars.simps, subst coerce_utf8.simps) (simp add: read_chars_u)
  next
    case one
    then obtain c t where s: "s = c # t" by (cases s) auto
    have "(of_char c :: nat) < 128"
      using one(2) s by (auto simp: rune_len_def Let_def lead_len_def split: if_splits)
    then show ?thesis
      using one 1 s by (subst json_chars.simps, subst coerce_utf8.simps) (simp add: read_chars_json_escape)
  next
    case sep
    then have k: "rune_len s = 3"
      by (cases s) (auto simp: rune_len_def Let_def lead_len_def split: if_splits)
    have hv: "hex_val CHR ''2'' = Some 2" "hex_val CHR ''0'' = Some 0" "hex_val CHR ''8'' = Some 8" "hex_val CHR ''9'' = Some 9"
      by code_simp+
    have u: "utf8_of 8232 = [CHR 0xE2, CHR 0x80, CHR 0xA8]" "utf8_of 8233 = [CHR 0xE2, CHR 0x80, CHR 0xA9]" by code_simp+
    have c: "coerce_utf8 s = take 3 s @ coerce_utf8 (drop 3 s)" using sep k by (subst coerce_utf8.simps) simp
    from sep(4) show ?thesis
    proof
      assume t: "take 3 s = [CHR 0xE2, CHR 0x80, CHR 0xA8]"
      have j: "json_chars s = [CHR 0x5C] @ ''u2028'' @ json_chars (drop 3 s)" using sep t by (subst json_chars.simps) simp
      have "read_chars (json_chars (drop 3 s) @ CHR 0x22 # r) = Some (coerce_utf8 (drop 3 s), r)" using 1(3) sep t by blast
      then show ?thesis unfolding j c t by (simp add: read_chars_u hex4_def hv u)
    next
      assume t: "take 3 s = [CHR 0xE2, CHR 0x80, CHR 0xA9]"
      then have "take 3 s \<noteq> [CHR 0xE2, CHR 0x80, CHR 0xA8]" by simp
      then have j: "json_chars s = [CHR 0x5C] @ ''u2029'' @ json_chars (drop 3 s)"
        and "read_chars (json_chars (drop 3 s) @ CHR 0x22 # r) = Some (coerce_utf8 (drop 3 s), r)"
        using sep t 1(4) by (subst json_chars.simps, simp, blast)
      then show ?thesis unfolding j c t by (simp add: read_chars_u hex4_def hv u)
    qed
  next
    case long
    let ?k = "rune_len s"
    from long(2) obtain c t where s: "s = c # t" "lead_len (of_char c) = ?k" by (rule rune_len_posD)
    then have c: "194 \<le> (of_char c :: nat)" using long(2,3) lead_len_ascii(2) [of "of_char c"] by simp
    let ?t = "json_chars (drop ?k s) @ CHR 0x22 # r"
    have j: "json_chars s @ CHR 0x22 # r = take ?k s @ ?t" using long by (subst json_chars.simps) simp
    have k: "rune_len (take ?k s @ ?t) = ?k" using rune_len_take_append [OF long(2)] .
    have hd: "hd (take ?k s @ ?t) = c" using s long(2) by (cases ?k) auto
    have "read_chars (take ?k s @ ?t) = cons_str (take ?k s) (read_chars ?t)"
    proof -
      have "c \<noteq> CHR 0x22" "c \<noteq> CHR 0x5C" using c by auto
      then show ?thesis
        using read_chars_rune [of "take ?k s @ ?t"] c long(2) rune_len_le [of s] unfolding k hd by simp
    qed
    moreover have "read_chars ?t = Some (coerce_utf8 (drop ?k s), r)" using 1 long by blast
    ultimately show ?thesis unfolding j using long(1,2) by (subst coerce_utf8.simps) simp
  qed
qed


subsection \<open>Numbers\<close>

lemma nat_val_snoc: "nat_val (s @ [c]) = 10 * nat_val s + (of_char c - 48)"
  by (simp add: nat_val_def)

lemma of_char_digit: "0 \<le> d \<Longrightarrow> d < 10 \<Longrightarrow> (of_char (digit_char d) :: int) = 48 + d"
  by (simp add: digit_char_def of_char_of)

lemma nat_val_digits: "0 \<le> n \<Longrightarrow> nat_val (digits n) = n"
proof (induction n rule: digits.induct)
  case (1 n)
  show ?case
  proof (cases "n < 10")
    case True
    then show ?thesis using 1 by (subst digits.simps) (simp add: nat_val_def of_char_digit)
  next
    case False
    then have "0 \<le> n div 10" "n mod 10 < 10" "0 \<le> n mod 10" by simp_all
    with 1 False show ?thesis by (subst digits.simps) (simp add: nat_val_snoc of_char_digit)
  qed
qed

lemma digits_head: "0 < n \<Longrightarrow> hd (digits n) \<noteq> CHR ''0''"
proof (induction n rule: digits.induct)
  case (1 n)
  show ?case
  proof (cases "n < 10")
    case True
    have "(of_char (digit_char n) :: int) \<noteq> of_char (CHR ''0'')" using 1 True by (simp add: of_char_digit)
    then have "digit_char n \<noteq> CHR ''0''" by metis
    then show ?thesis using True by (subst digits.simps) simp
  next
    case False
    with 1 show ?thesis by (subst digits.simps) simp
  qed
qed

text \<open>What may follow a value in a document.\<close>

definition ends_value :: "string \<Rightarrow> bool" where
  "ends_value r \<longleftrightarrow> r = [] \<or> hd r \<in> {CHR '','', CHR '']'', CHR ''}'', CHR 0x0A}"

lemma ends_value_simps [simp]:
  "ends_value []" "ends_value (CHR '','' # r)" "ends_value (CHR '']'' # r)" "ends_value (CHR ''}'' # r)"
  by (simp_all add: ends_value_def)

lemma ends_not_digit: "ends_value r \<Longrightarrow> takeWhile is_digit r = [] \<and> dropWhile is_digit r = r
    \<and> \<not> has_prefix r ''.'' \<and> (r = [] \<or> hd r \<notin> {CHR ''e'', CHR ''E''})"
  by (cases r) (auto simp: ends_value_def is_digit_def Let_def has_prefix_def)

lemma read_digits_end:
  assumes "list_all is_digit ds" "ds \<noteq> []" "ends_value r"
  shows "read_digits (ds @ r) = Some (ds, r)"
proof -
  have "takeWhile is_digit (ds @ r) = ds" "dropWhile is_digit (ds @ r) = r"
    using assms ends_not_digit [OF assms(3)]
    by (simp_all add: takeWhile_append dropWhile_append list_all_iff takeWhile_eq_all_conv [THEN iffD2])
  then show ?thesis using assms(2) by (simp add: read_digits_def)
qed

lemma digits_all: "0 \<le> n \<Longrightarrow> list_all is_digit (digits n)"
  using digits_digits by (auto simp: list_all_iff)

lemma hd_digit_not_minus: "0 \<le> n \<Longrightarrow> hd (digits n) \<noteq> CHR ''-''"
  using digits_all [of n] by (cases "digits n") (auto simp: is_digit_def Let_def)

lemma no_leading_zero: "0 \<le> n \<Longrightarrow> \<not> (length (digits n) > 1 \<and> hd (digits n) = CHR ''0'')"
  using digits_head [of n] by (cases "n = 0") (auto simp: digits.simps [of 0])

lemma read_number_itoa: "ends_value r \<Longrightarrow> read_number (itoa i @ r) = Some (of_int i, r)"
proof -
  assume r: "ends_value r"
  let ?n = "\<bar>i\<bar>"
  have d: "read_digits (digits ?n @ r) = Some (digits ?n, r)"
    using r by (intro read_digits_end digits_all) simp_all
  have s1: "trim_prefix (itoa i @ r) ''-'' = digits ?n @ r" "has_prefix (itoa i @ r) ''-'' = (i < 0)"
    using hd_digit_not_minus [of i] by (auto simp: itoa_def trim_prefix_def has_prefix_def) (cases "digits i"; simp)+
  show ?thesis
    unfolding read_number_def Let_def s1 d
    using no_leading_zero [of ?n] ends_not_digit [OF r]
    by (auto simp: nat_val_digits abs_if)
qed

lemma itoa_head: "hd (itoa i @ r) \<notin> {CHR 0x22, CHR '']'', CHR ''['', CHR ''{'', CHR ''t'', CHR ''f'', CHR ''n''} \<and> \<not> json_ws (hd (itoa i @ r))"
proof -
  have "is_digit (hd (itoa i @ r)) \<or> hd (itoa i @ r) = CHR ''-''"
    using digits_all [of "\<bar>i\<bar>"] by (cases "digits \<bar>i\<bar>") (auto simp: itoa_def)
  then show ?thesis by (auto simp: is_digit_def Let_def json_ws_def)
qed

subsection \<open>Values\<close>

lemma itoa_pos: "0 < length (itoa i)" by simp

lemma json_lit_pos: "plain_json j \<Longrightarrow> 0 < length (json_lit ft j)"
  by (cases j) (auto simp: json_quote_def num_text_def Let_def small_int_def split: if_splits)

lemma json_lit_head:
  assumes "plain_json j"
  shows "hd (json_lit ft j @ r) \<noteq> CHR '']''" "\<not> json_ws (hd (json_lit ft j @ r))"
  using assms itoa_head
  by (cases j; auto simp: json_quote_def num_text_def Let_def small_int_def json_ws_def)+

lemma json_lit_start: "plain_json j \<Longrightarrow> dropWhile json_ws (json_lit ft j @ r) = json_lit ft j @ r"
  using json_lit_head [of j ft r] json_lit_pos [of j ft] by (cases "json_lit ft j @ r") auto

lemma json_ws_punct [simp]:
  "\<not> json_ws (CHR '','')" "\<not> json_ws (CHR '']'')" "\<not> json_ws (CHR ''}'')" "\<not> json_ws (CHR '':'')"
  "\<not> json_ws (CHR 0x22)" "\<not> json_ws (CHR ''['')" "\<not> json_ws (CHR ''{'')"
  "\<not> json_ws (CHR ''t'')" "\<not> json_ws (CHR ''f'')" "\<not> json_ws (CHR ''n'')"
  by (simp_all add: json_ws_def)

lemma str_join_step: "str_join sep (x # xs) = x @ (if xs = [] then [] else sep @ str_join sep xs)"
  by (cases xs) simp_all

lemma has_prefix_char: "has_prefix s [c] \<longleftrightarrow> s \<noteq> [] \<and> hd s = c"
  by (cases s) (auto simp: has_prefix_def)

lemma json_elems_start:
  "plain_json x \<Longrightarrow> \<not> has_prefix (skip_ws (json_lit ft x @ r)) '']''"
  using json_lit_head(1) [of x ft r] by (simp only: json_lit_start has_prefix_char) simp

lemma read_elems_text:
  assumes "xs \<noteq> []" "list_all plain_json xs"
    "\<And>x n r. x \<in> set xs \<Longrightarrow> length (json_lit ft x) \<le> n \<Longrightarrow> ends_value r \<Longrightarrow> read_value n (json_lit ft x @ r) = Some (x, r)"
    "length (str_join '','' (map (json_lit ft) xs)) < n"
  shows "read_elems n (str_join '','' (map (json_lit ft) xs) @ '']'' @ r) = Some (xs, r)"
  using assms
proof (induction xs arbitrary: n)
  case (Cons x xs)
  then obtain m where n: "n = Suc m" by (cases n) auto
  let ?rest = "(if xs = [] then [] else '','' @ str_join '','' (map (json_lit ft) xs)) @ '']'' @ r"
  have t: "str_join '','' (map (json_lit ft) (x # xs)) @ '']'' @ r = json_lit ft x @ ?rest"
    by (simp add: str_join_step)
  have len: "length (json_lit ft x) \<le> m" using Cons.prems(4) n by (simp add: str_join_step split: if_splits)
  have v: "read_value m (json_lit ft x @ ?rest) = Some (x, ?rest)"
    using len by (intro Cons.prems(3)) auto
  show ?case
  proof (cases "xs = []")
    case True
    then show ?thesis unfolding n t using v by (simp add: has_prefix_def)
  next
    case False
    have "read_elems m (str_join '','' (map (json_lit ft) xs) @ '']'' @ r) = Some (xs, r)"
      using Cons.prems(2-4) n False by (intro Cons.IH) (auto simp: str_join_step)
    then show ?thesis unfolding n t using v False by (simp add: has_prefix_def)
  qed
qed simp

lemma read_members_text:
  assumes "kvs \<noteq> []" "list_all (\<lambda>(k, v). valid_utf8 k \<and> plain_json v) kvs"
    "\<And>k x n r. (k, x) \<in> set kvs \<Longrightarrow> length (json_lit ft x) \<le> n \<Longrightarrow> ends_value r \<Longrightarrow> read_value n (json_lit ft x @ r) = Some (x, r)"
    "length (str_join '','' (map (\<lambda>(k, v). json_quote k @ '':'' @ json_lit ft v) kvs)) < n"
  shows "read_members n (str_join '','' (map (\<lambda>(k, v). json_quote k @ '':'' @ json_lit ft v) kvs) @ ''}'' @ r) = Some (kvs, r)"
  using assms
proof (induction kvs arbitrary: n)
  case (Cons p kvs)
  obtain k x where p: "p = (k, x)" by (cases p)
  from Cons.prems obtain m where n: "n = Suc m" by (cases n) auto
  let ?rest = "(if kvs = [] then [] else '','' @ str_join '','' (map (\<lambda>(k, v). json_quote k @ '':'' @ json_lit ft v) kvs)) @ ''}'' @ r"
  have t: "str_join '','' (map (\<lambda>(k, v). json_quote k @ '':'' @ json_lit ft v) (p # kvs)) @ ''}'' @ r
      = CHR 0x22 # json_chars k @ CHR 0x22 # '':'' @ json_lit ft x @ ?rest"
    by (simp add: str_join_step p json_quote_def)
  have len: "length (json_lit ft x) \<le> m" using Cons.prems(4) n p by (simp add: str_join_step split: if_splits)
  have v: "read_value m (json_lit ft x @ ?rest) = Some (x, ?rest)"
    using len by (intro Cons.prems(3)) (auto simp: p)
  have k: "coerce_utf8 k = k" using Cons.prems(2) p by (simp add: coerce_utf8_id)
  show ?case
  proof (cases "kvs = []")
    case True
    then show ?thesis unfolding n t using v k by (simp add: has_prefix_def read_chars_json p)
  next
    case False
    have "read_members m (str_join '','' (map (\<lambda>(k, v). json_quote k @ '':'' @ json_lit ft v) kvs) @ ''}'' @ r) = Some (kvs, r)"
      using Cons.prems(2-4) n False by (intro Cons.IH) (auto simp: str_join_step)
    then show ?thesis unfolding n t using v False k by (simp add: has_prefix_def read_chars_json p)
  qed
qed simp

lemma read_value_text:
  "plain_json j \<Longrightarrow> length (json_lit ft j) \<le> n \<Longrightarrow> ends_value r \<Longrightarrow> read_value n (json_lit ft j @ r) = Some (j, r)"
proof (induction j arbitrary: n r rule: plain_json.induct)
  case (1 s)
  then obtain m where n: "n = Suc m" by (cases n) (auto simp: json_quote_def)
  show ?case unfolding n using 1 by (simp add: json_quote_def read_chars_json coerce_utf8_id)
next
  case (2 q)
  then have i: "json_lit ft (JNum q) = itoa \<lfloor>q\<rfloor>" "q = of_int \<lfloor>q\<rfloor>"
    by (auto simp: num_text_def small_int_def Let_def)
  have "0 < n" using 2(2) json_lit_pos [OF 2(1), of ft] by linarith
  then obtain m where n: "n = Suc m" by (cases n) auto
  have "skip_ws (itoa \<lfloor>q\<rfloor> @ r) = itoa \<lfloor>q\<rfloor> @ r" using json_lit_start [OF 2(1), of ft r] i(1) by simp
  then show ?case
    unfolding n i(1) using itoa_head [of "\<lfloor>q\<rfloor>" r] read_number_itoa [OF 2(3), of "\<lfloor>q\<rfloor>"] i(2) by simp
next
  case (3 xs)
  obtain m where n: "n = Suc m" using 3(3) by (cases n) auto
  show ?case
  proof (cases xs)
    case Nil
    then show ?thesis unfolding n by (simp add: json_ws_def has_prefix_def)
  next
    case (Cons y ys)
    have e: "read_elems m (str_join '','' (map (json_lit ft) xs) @ '']'' @ r) = Some (xs, r)"
      using 3 n Cons by (intro read_elems_text) (auto simp: list_all_iff)
    have py: "plain_json y" using 3(2) Cons by simp
    let ?t = "(if ys = [] then [] else '','' @ str_join '','' (map (json_lit ft) ys)) @ '']'' @ r"
    have t: "str_join '','' (map (json_lit ft) xs) @ '']'' @ r = json_lit ft y @ ?t" using Cons by (simp add: str_join_step)
    have "read_value n (json_lit ft (JArr xs) @ r) = map_option (\<lambda>(xs, r'). (JArr xs, r')) (read_elems m (json_lit ft y @ ?t))"
      using json_elems_start [OF py, of ft ?t] json_lit_start [OF py, of ft ?t] t unfolding n by (simp add: json_ws_def)
    then show ?thesis using e t by simp
  qed
next
  case (4 kvs)
  obtain m where n: "n = Suc m" using 4(3) by (cases n) auto
  show ?case
  proof (cases kvs)
    case Nil
    then show ?thesis unfolding n by (simp add: json_ws_def has_prefix_def)
  next
    case (Cons p ys)
    obtain k x where p: "p = (k, x)" by (cases p)
    have e: "read_members m (str_join '','' (map (\<lambda>(k, v). json_quote k @ '':'' @ json_lit ft v) kvs) @ ''}'' @ r) = Some (kvs, r)"
    proof (intro read_members_text)
      show "list_all (\<lambda>(k, v). valid_utf8 k \<and> plain_json v) kvs" using 4(2) by simp
      fix k x n r assume kx: "(k, x) \<in> set kvs" "length (json_lit ft x) \<le> n" "ends_value r"
      moreover have "plain_json x" using 4(2) kx(1) by (auto simp: list_all_iff)
      ultimately show "read_value n (json_lit ft x @ r) = Some (x, r)" using 4(1) [OF kx(1) refl] by blast
    qed (use 4(3) n Cons in simp_all)
    have t: "\<exists>t. str_join '','' (map (\<lambda>(k, v). json_quote k @ '':'' @ json_lit ft v) kvs) @ ''}'' @ r = CHR 0x22 # t"
      using Cons p by (simp add: str_join_step json_quote_def)
    then obtain t where t: "str_join '','' (map (\<lambda>(k, v). json_quote k @ '':'' @ json_lit ft v) kvs) @ ''}'' @ r = CHR 0x22 # t" by blast
    have "json_lit ft (JObj kvs) @ r = CHR ''{'' # CHR 0x22 # t" using t by simp
    then show ?thesis using e t 4(2) unfolding n by (simp add: json_ws_def has_prefix_def of_pairs_distinct)
  qed
next
  case 5
  then obtain m where n: "n = Suc m" by (cases n) auto
  show ?case unfolding n by (simp add: json_ws_def read_word_def has_prefix_def)
next
  case (6 b)
  then obtain m where n: "n = Suc m" by (cases n) (auto split: if_splits)
  show ?case unfolding n by (cases b) (simp_all add: json_ws_def read_word_def has_prefix_def)
qed

lemma json_round_trip: "plain_json j \<Longrightarrow> json_parse (json_lit ft j) = Some j"
  using read_value_text [of j ft "Suc (length (json_lit ft j))" "[]"] by (simp add: json_parse_def)


subsection \<open>No control characters\<close>

lemma hex_digit_printable: "n < 16 \<Longrightarrow> 32 \<le> (of_char (hex_digit n) :: nat)"
  by (auto simp: hex_digit_def of_char_of)

lemma json_escape_printable: "(of_char c :: nat) < 128 \<Longrightarrow> x \<in> set (json_escape c) \<Longrightarrow> 32 \<le> (of_char x :: nat)"
  using hex_digit_printable [of "of_char c div 16"] hex_digit_printable [of "of_char c mod 16"]
  by (auto simp: json_escape_def Let_def split: if_splits)

lemma rune_bytes:
  assumes "rune_len s \<noteq> 0" "rune_len s \<noteq> 1" "x \<in> set (take (rune_len s) s)"
  shows "128 \<le> (of_char x :: nat)"
proof -
  from assms(1) obtain c r where s: "s = c # r" "lead_len (of_char c) = rune_len s"
    "wf_rune (map of_char (take (rune_len s) s))" by (rule rune_len_posD)
  obtain k where k: "rune_len s = Suc k" using assms(1) by (cases "rune_len s") auto
  have "list_all cont (map of_char (take k r))" using s(1,3) k by (auto dest: wf_rune_tail_cont)
  moreover have "194 \<le> (of_char c :: nat)" using s(2) assms(1,2) lead_len_ascii(2) [of "of_char c"] by simp
  ultimately show ?thesis using assms(3) k s(1) by (auto simp: list_all_iff cont_def)
qed

lemma json_chars_printable: "x \<in> set (json_chars s) \<Longrightarrow> 32 \<le> (of_char x :: nat)"
proof (induction s rule: json_chars.induct)
  case (1 s)
  consider (nil) "s = []" | (bad) "s \<noteq> []" "rune_len s = 0" | (one) "s \<noteq> []" "rune_len s = 1"
    | (sep) "s \<noteq> []" "rune_len s \<noteq> 0" "rune_len s \<noteq> 1" "take 3 s = [CHR 0xE2, CHR 0x80, CHR 0xA8] \<or> take 3 s = [CHR 0xE2, CHR 0x80, CHR 0xA9]"
    | (long) "s \<noteq> []" "rune_len s \<noteq> 0" "rune_len s \<noteq> 1" "take 3 s \<noteq> [CHR 0xE2, CHR 0x80, CHR 0xA8]" "take 3 s \<noteq> [CHR 0xE2, CHR 0x80, CHR 0xA9]"
    by blast
  then show ?case
  proof cases
    case nil
    with "1.prems" show ?thesis by (simp add: json_chars.simps)
  next
    case bad
    then have "json_chars s = [CHR 0x5C] @ ''ufffd'' @ json_chars (tl s)" by (subst json_chars.simps) simp
    with bad 1 show ?thesis by auto
  next
    case one
    then obtain c t where s: "s = c # t" by (cases s) auto
    have c: "(of_char c :: nat) < 128"
      using one(2) s by (auto simp: rune_len_def Let_def lead_len_def split: if_splits)
    have "json_chars s = json_escape c @ json_chars t" using one s by (subst json_chars.simps) simp
    with one 1 s json_escape_printable [OF c] show ?thesis by auto
  next
    case sep
    then have "json_chars s = [CHR 0x5C] @ ''u2028'' @ json_chars (drop 3 s) \<or>
        json_chars s = [CHR 0x5C] @ ''u2029'' @ json_chars (drop 3 s) \<and> take 3 s \<noteq> [CHR 0xE2, CHR 0x80, CHR 0xA8]"
      by (subst (1 3) json_chars.simps) auto
    then show ?thesis
    proof
      assume "json_chars s = [CHR 0x5C] @ ''u2028'' @ json_chars (drop 3 s)"
      moreover have "32 \<le> (of_char x :: nat)" if "x \<in> set (json_chars (drop 3 s))"
        using that 1 sep by blast
      ultimately show ?thesis using "1.prems" by auto
    next
      assume "json_chars s = [CHR 0x5C] @ ''u2029'' @ json_chars (drop 3 s) \<and> take 3 s \<noteq> [CHR 0xE2, CHR 0x80, CHR 0xA8]"
      moreover from this have "32 \<le> (of_char x :: nat)" if "x \<in> set (json_chars (drop 3 s))"
        using that 1 sep by blast
      ultimately show ?thesis using "1.prems" by auto
    qed
  next
    case long
    then have "json_chars s = take (rune_len s) s @ json_chars (drop (rune_len s) s)" by (subst json_chars.simps) simp
    then have "x \<in> set (take (rune_len s) s) \<or> x \<in> set (json_chars (drop (rune_len s) s))" using "1.prems" by auto
    then show ?thesis using rune_bytes [OF long(2,3), of x] 1(5) long by auto
  qed
qed


lemma set_str_join: "set (str_join sep xs) \<subseteq> set sep \<union> \<Union> (set ` set xs)"
  by (induction sep xs rule: str_join.induct) auto

lemma digits_printable: "0 \<le> n \<Longrightarrow> x \<in> set (digits n) \<Longrightarrow> 32 \<le> (of_char x :: nat)"
proof -
  assume "0 \<le> n" "x \<in> set (digits n)"
  then have "is_digit x" by (rule digits_digits)
  then have "(48 :: int) \<le> of_char x" by (simp add: is_digit_def Let_def)
  moreover have "(of_char x :: int) = int (of_char x)" by (simp add: of_char_def)
  ultimately show ?thesis by linarith
qed

lemma json_lit_printable: "plain_json j \<Longrightarrow> x \<in> set (json_lit ft j) \<Longrightarrow> 32 \<le> (of_char x :: nat)"
proof (induction j arbitrary: x rule: plain_json.induct)
  case (1 s)
  then show ?case using json_chars_printable by (auto simp: json_quote_def)
next
  case (2 q)
  then have "x \<in> set (itoa \<lfloor>q\<rfloor>)" by (auto simp: num_text_def small_int_def Let_def)
  then show ?case using digits_printable [of "\<bar>\<lfloor>q\<rfloor>\<bar>" x] by (auto simp: itoa_def split: if_splits)
next
  case (3 xs)
  then show ?case using set_str_join [of "'',''" "map (json_lit ft) xs"] by (auto simp: list_all_iff)
next
  case (4 kvs)
  then consider "x = CHR ''{''" | "x = CHR ''}''" | "x = CHR '',''"
    | k v where "(k, v) \<in> set kvs" "x \<in> set (json_quote k @ '':'' @ json_lit ft v)"
    using set_str_join [of "'',''" "map (\<lambda>(k, v). json_quote k @ '':'' @ json_lit ft v) kvs"] by fastforce
  then show ?case
  proof cases
    case 4
    moreover have "plain_json v" using "4.prems"(1) 4(1) by (auto simp: list_all_iff)
    ultimately show ?thesis using "4.IH" json_chars_printable by (auto simp: json_quote_def)
  qed simp_all
qed (auto split: if_splits)

subsection \<open>Decoding into a struct\<close>

text \<open>
  \<open>json.Unmarshal\<close> into a struct, field by field in the order of the document: a key matches a
  field without regard to (ASCII) case, null leaves a field alone and another type is an error.
\<close>

definition field_is :: "string \<Rightarrow> string \<Rightarrow> bool" where
  "field_is key name \<longleftrightarrow> map lower_char key = name"

fun fold_fields :: "(string \<Rightarrow> json \<Rightarrow> 'a \<Rightarrow> 'a option) \<Rightarrow> (string \<times> json) list \<Rightarrow> 'a \<Rightarrow> 'a option" where
  "fold_fields f [] x = Some x"
| "fold_fields f ((k, v) # kvs) x = Option.bind (f k v x) (fold_fields f kvs)"

definition string_field :: "json \<Rightarrow> (string \<Rightarrow> 'a \<Rightarrow> 'a) \<Rightarrow> 'a \<Rightarrow> 'a option" where
  "string_field v upd x = (case v of JStr s \<Rightarrow> Some (upd s x) | JNull \<Rightarrow> Some x | _ \<Rightarrow> None)"

definition int_field :: "json \<Rightarrow> (int \<Rightarrow> 'a \<Rightarrow> 'a) \<Rightarrow> 'a \<Rightarrow> 'a option" where
  "int_field v upd x =
     (case v of
        JNum n \<Rightarrow> if of_int \<lfloor>n\<rfloor> = n \<and> - (2 ^ 63) \<le> n \<and> n < 2 ^ 63 then Some (upd \<lfloor>n\<rfloor> x) else None
      | JNull \<Rightarrow> Some x
      | _ \<Rightarrow> None)"

definition struct_of :: "(string \<Rightarrow> json \<Rightarrow> 'b \<Rightarrow> 'b option) \<Rightarrow> 'b \<Rightarrow> json \<Rightarrow> 'b option" where
  "struct_of f zero v = (case v of JObj kvs \<Rightarrow> fold_fields f kvs zero | JNull \<Rightarrow> Some zero | _ \<Rightarrow> None)"

definition struct_list :: "(string \<Rightarrow> json \<Rightarrow> 'b \<Rightarrow> 'b option) \<Rightarrow> 'b \<Rightarrow> json \<Rightarrow> 'b list option" where
  "struct_list f zero v = (case v of JArr xs \<Rightarrow> those (map (struct_of f zero) xs) | JNull \<Rightarrow> Some [] | _ \<Rightarrow> None)"

end
