(* ===== verification/OpenAI_Api.thy ===== *)
theory OpenAI_Api
  imports Tool_Loop Go_Http Go_Json_Text
begin

section \<open>internal/openaiapi: the chat completions endpoint\<close>

text \<open>
  The request and response types (types.go), the handlers (handler.go) and the event stream
  (stream.go). A handler answers with a whole response: flushing is left out, the stream is its
  body. The provider is an argument, with the events it streams. Of package json, the model
  decodes the request itself; where the scanner rejects an oversized body and the texts of its
  errors are arguments (\<open>json_errors\<close>).
\<close>

subsection \<open>Types\<close>

record chat_message =
  cm_role :: string
  cm_content :: string

record chat_request =
  cr_model :: string
  cr_messages :: "chat_message list"
  cr_stream :: bool

record 'w oai_provider =
  pv_model :: string
  pv_env :: "'w loop_env"
  pv_stream :: "message list \<Rightarrow> tool_definition list \<Rightarrow> 'w \<Rightarrow> stream_event list \<times> (string + response) \<times> 'w"

record skill_entry =
  sk_id :: string
  sk_name :: string
  sk_description :: string

record 'w oai_handler =
  oh_provider :: "'w oai_provider option"
  oh_system_prompt :: string
  oh_registry :: "'w registry option"
  oh_loop_config :: "'w loop_config"
  oh_agent_card :: "skill_entry list option"
  oh_agent_name :: string

subsection \<open>Decoding the request\<close>

text \<open>
  Field by field, in the order of the document; a key matches a field without regard to (ASCII)
  case, null leaves a field alone and any other type is an error of the whole.
\<close>

definition message_field :: "string \<Rightarrow> json \<Rightarrow> chat_message \<Rightarrow> chat_message option" where
  "message_field k v m =
     (if field_is k ''role'' then string_field v (\<lambda>s m. m\<lparr>cm_role := s\<rparr>) m
      else if field_is k ''content'' then string_field v (\<lambda>s m. m\<lparr>cm_content := s\<rparr>) m
      else Some m)"

definition decode_message :: "json \<Rightarrow> chat_message option" where
  "decode_message v =
     (case v of
        JObj kvs \<Rightarrow> fold_fields message_field kvs \<lparr>cm_role = [], cm_content = []\<rparr>
      | JNull \<Rightarrow> Some \<lparr>cm_role = [], cm_content = []\<rparr>
      | _ \<Rightarrow> None)"

definition request_field :: "string \<Rightarrow> json \<Rightarrow> chat_request \<Rightarrow> chat_request option" where
  "request_field k v r =
     (if field_is k ''model'' then string_field v (\<lambda>s r. r\<lparr>cr_model := s\<rparr>) r
      else if field_is k ''messages'' then
        (case v of
           JArr xs \<Rightarrow> map_option (\<lambda>ms. r\<lparr>cr_messages := ms\<rparr>) (those (map decode_message xs))
         | JNull \<Rightarrow> Some (r\<lparr>cr_messages := []\<rparr>)
         | _ \<Rightarrow> None)
      else if field_is k ''stream'' then
        (case v of JBool b \<Rightarrow> Some (r\<lparr>cr_stream := b\<rparr>) | JNull \<Rightarrow> Some r | _ \<Rightarrow> None)
      else Some r)"

definition empty_request :: chat_request where
  "empty_request = \<lparr>cr_model = [], cr_messages = [], cr_stream = False\<rparr>"

definition request_of_json :: "json \<Rightarrow> chat_request option" where
  "request_of_json v =
     (case v of
        JObj kvs \<Rightarrow> fold_fields request_field kvs empty_request
      | JNull \<Rightarrow> Some empty_request
      | _ \<Rightarrow> None)"

datatype 'a decoded = Decoded 'a | BodyTooLarge | BadJson

record json_errors =
  je_rejects :: "string \<Rightarrow> bool"
  je_text :: "string \<Rightarrow> string"

definition max_body :: nat where "max_body = 2 ^ 20"

text \<open>Decode takes the first value of the body and ignores what follows it.\<close>

definition decode_request :: "json_errors \<Rightarrow> string \<Rightarrow> chat_request decoded" where
  "decode_request je body =
     (let seen = take max_body body in
      case read_value (Suc (length seen)) seen of
        Some (v, _) \<Rightarrow> (case request_of_json v of Some r \<Rightarrow> Decoded r | None \<Rightarrow> BadJson)
      | None \<Rightarrow> if length body > max_body \<and> \<not> je_rejects je seen then BodyTooLarge else BadJson)"

subsection \<open>Messages\<close>

text \<open>\<open>ConvertMessages\<close>: the loop over the client's messages, then the merged prompt.\<close>

fun split_system :: "chat_message list \<Rightarrow> string list \<times> message list" where
  "split_system [] = ([], [])"
| "split_system (m # ms) =
     (let (client_system, converted) = split_system ms in
      if cm_role m = ''system'' then (cm_content m # client_system, converted)
      else (client_system, text_message (cm_role m) (cm_content m) # converted))"

definition convert_messages :: "chat_message list \<Rightarrow> string \<Rightarrow> message list \<times> string" where
  "convert_messages msgs server_prompt =
     (let (client_system, converted) = split_system msgs in
      if client_system = [] then (converted, server_prompt)
      else (converted, server_prompt @ concat (map (\<lambda>cs. nl @ nl @ cs) client_system)))"

definition all_messages :: "string \<Rightarrow> message list \<Rightarrow> message list" where
  "all_messages system_prompt msgs = text_message ''system'' system_prompt # msgs"

text \<open>\<open>GenerateID\<close> of the twelve bytes the random source gives.\<close>

definition generate_id :: "string \<Rightarrow> string" where
  "generate_id bytes = ''chatcmpl-'' @
     concat (map (\<lambda>c. [hex_digit (of_char c div 16), hex_digit (of_char c mod 16)]) bytes)"

subsection \<open>Response bodies\<close>

definition json_int :: "int \<Rightarrow> json" where "json_int n = JNum (of_int n)"

definition message_json :: "string \<Rightarrow> string \<Rightarrow> json" where
  "message_json role content = JObj [(''role'', JStr role), (''content'', JStr content)]"

definition build_response :: "string \<Rightarrow> string \<Rightarrow> string \<Rightarrow> usage \<Rightarrow> int \<Rightarrow> json" where
  "build_response cid model content u created =
     JObj [(''id'', JStr cid), (''object'', JStr ''chat.completion''), (''created'', json_int created),
       (''model'', JStr model),
       (''choices'', JArr [JObj [(''index'', json_int 0), (''message'', message_json ''assistant'' content),
          (''finish_reason'', JStr ''stop'')]]),
       (''usage'', JObj [(''prompt_tokens'', json_int (input_tokens u)),
          (''completion_tokens'', json_int (output_tokens u)), (''total_tokens'', json_int (total_tokens u))])]"

definition json_body :: "json \<Rightarrow> string" where
  "json_body v = json_lit (\<lambda>_. []) v @ nl"

definition json_response :: "int \<Rightarrow> json \<Rightarrow> http_response" where
  "json_response st v = \<lparr>rs_status = st, rs_headers = header_set ''Content-Type'' ''application/json'' [],
     rs_body = json_body v\<rparr>"

definition error_json :: "string \<Rightarrow> string \<Rightarrow> string \<Rightarrow> json" where
  "error_json msg ty code =
     JObj [(''error'', JObj [(''message'', JStr msg), (''type'', JStr ty), (''code'', JStr code)])]"

definition write_error :: "int \<Rightarrow> string \<Rightarrow> string \<Rightarrow> string \<Rightarrow> http_response" where
  "write_error st ty code msg = json_response st (error_json msg ty code)"

subsection \<open>The event stream\<close>

definition ws_byte :: "char \<Rightarrow> bool" where
  "ws_byte c \<longleftrightarrow> c = CHR 0x20 \<or> c = CHR 0x09 \<or> c = CHR 0x0A \<or> c = CHR 0x0D"

function tokenize :: "string \<Rightarrow> string list" where
  "tokenize s =
     (if s = [] then []
      else if ws_byte (hd s) then takeWhile ws_byte s # tokenize (dropWhile ws_byte s)
      else takeWhile (\<lambda>c. \<not> ws_byte c) s # tokenize (dropWhile (\<lambda>c. \<not> ws_byte c) s))"
  by pat_completeness auto
termination
proof (relation "measure length")
  fix s :: string
  assume "s \<noteq> []"
  then obtain c t where s: "s = c # t" by (cases s) auto
  show "ws_byte (hd s) \<Longrightarrow> (dropWhile ws_byte s, s) \<in> measure length"
    using s length_dropWhile_le [of ws_byte t] by simp
  show "\<not> ws_byte (hd s) \<Longrightarrow> (dropWhile (\<lambda>c. \<not> ws_byte c) s, s) \<in> measure length"
    using s length_dropWhile_le [of "\<lambda>c. \<not> ws_byte c" t] by simp
qed simp

declare tokenize.simps [simp del]

definition delta_json :: "string \<Rightarrow> string \<Rightarrow> json" where
  "delta_json role content =
     JObj ((if role = [] then [] else [(''role'', JStr role)]) @ (if content = [] then [] else [(''content'', JStr content)]))"

definition chunk_json :: "string \<Rightarrow> string \<Rightarrow> int \<Rightarrow> string \<Rightarrow> string \<Rightarrow> json \<Rightarrow> json" where
  "chunk_json cid model created role content finish =
     JObj [(''id'', JStr cid), (''object'', JStr ''chat.completion.chunk''), (''created'', json_int created),
       (''model'', JStr model),
       (''choices'', JArr [JObj [(''index'', json_int 0), (''delta'', delta_json role content),
          (''finish_reason'', finish)]])]"

definition sse_frame :: "string \<Rightarrow> string" where
  "sse_frame payload = ''data: '' @ payload @ nl @ nl"

definition write_chunk :: "json \<Rightarrow> string" where
  "write_chunk chunk = sse_frame (json_lit (\<lambda>_. []) chunk)"

definition sse_done :: string where "sse_done = sse_frame ''[DONE]''"

definition sse_headers :: headers where
  "sse_headers = header_set ''Connection'' ''keep-alive''
     (header_set ''Cache-Control'' ''no-cache'' (header_set ''Content-Type'' ''text/event-stream'' []))"

definition content_chunks :: "string \<Rightarrow> string \<Rightarrow> int \<Rightarrow> string \<Rightarrow> json list" where
  "content_chunks cid model created content =
     map (\<lambda>token. chunk_json cid model created [] token JNull) (tokenize content)"

definition stream_chunks :: "string \<Rightarrow> string \<Rightarrow> int \<Rightarrow> string \<Rightarrow> json list" where
  "stream_chunks cid model created content =
     [chunk_json cid model created ''assistant'' [] JNull]
     @ (if content = [] then [] else content_chunks cid model created content)
     @ [chunk_json cid model created [] [] (JStr ''stop'')]"

definition stream_response :: "string \<Rightarrow> string \<Rightarrow> int \<Rightarrow> string \<Rightarrow> http_response" where
  "stream_response cid model created content =
     \<lparr>rs_status = 200, rs_headers = sse_headers,
      rs_body = concat (map write_chunk (stream_chunks cid model created content)) @ sse_done\<rparr>"

definition stream_error :: "string \<Rightarrow> string" where
  "stream_error msg = write_chunk (error_json msg ''server_error'' ''internal_error'') @ sse_done"

text \<open>The callback of \<open>StreamFromProvider\<close>: what it writes for an event.\<close>

definition on_stream_event :: "string \<Rightarrow> string \<Rightarrow> int \<Rightarrow> stream_event \<Rightarrow> string" where
  "on_stream_event cid model created ev =
     (case ev of
        StreamTextDelta c \<Rightarrow> write_chunk (chunk_json cid model created [] c JNull)
      | StreamDone u \<Rightarrow> write_chunk (chunk_json cid model created [] [] (JStr ''stop'')) @ sse_done
      | StreamError msg \<Rightarrow> stream_error msg)"

definition stream_from_provider :: "string \<Rightarrow> string \<Rightarrow> int \<Rightarrow> stream_event list \<Rightarrow> http_response" where
  "stream_from_provider cid model created events =
     \<lparr>rs_status = 200, rs_headers = sse_headers,
      rs_body = write_chunk (chunk_json cid model created ''assistant'' [] JNull)
        @ concat (map (on_stream_event cid model created) events)\<rparr>"

subsection \<open>The handlers\<close>

fun loop_error_text :: "loop_error \<Rightarrow> string" where
  "loop_error_text (LlmCallFailed e) = ''LLM call failed: '' @ e"
| "loop_error_text (ContextError e) = e"
| "loop_error_text (MaxIterationsReached n) = ''max iterations ('' @ itoa n @ '') reached without final response''"

definition has_tools :: "'w oai_handler \<Rightarrow> 'w registry option" where
  "has_tools h =
     (case oh_registry h of
        Some R \<Rightarrow> if length (reg_definitions R) > 0 then Some R else None
      | None \<Rightarrow> None)"

definition chat_complete ::
  "'w oai_handler \<Rightarrow> string \<Rightarrow> message list \<Rightarrow> 'w \<Rightarrow> (string + string \<times> usage) \<times> 'w" where
  "chat_complete h system_prompt msgs w =
     (case oh_provider h of
        None \<Rightarrow> (Inr (''LLM provider not configured.'', zero_usage), w)
      | Some p \<Rightarrow>
          (case has_tools h of
             Some R \<Rightarrow>
               (case run_tool_loop (pv_env p) R (oh_loop_config h) (all_messages system_prompt msgs) w of
                  (Inl e, w1) \<Rightarrow> (Inl (loop_error_text e), w1)
                | (Inr content, w1) \<Rightarrow> (Inr (content, zero_usage), w1))
           | None \<Rightarrow>
               (case complete_with_tools (pv_env p) (all_messages system_prompt msgs) [] w of
                  (Inl e, w1) \<Rightarrow> (Inl e, w1)
                | (Inr r, w1) \<Rightarrow> (Inr (resp_content r, resp_usage r), w1))))"

definition stream_completion ::
  "'w oai_handler \<Rightarrow> string \<Rightarrow> string \<Rightarrow> int \<Rightarrow> string \<Rightarrow> message list \<Rightarrow> 'w \<Rightarrow> http_response \<times> 'w" where
  "stream_completion h cid model now system_prompt msgs w =
     (case oh_provider h of
        None \<Rightarrow> (stream_response cid model now ''LLM provider not configured.'', w)
      | Some p \<Rightarrow>
          (case has_tools h of
             Some R \<Rightarrow>
               (case run_tool_loop (pv_env p) R (oh_loop_config h) (all_messages system_prompt msgs) w of
                  (Inl e, w1) \<Rightarrow> (\<lparr>rs_status = 200, rs_headers = sse_headers,
                      rs_body = stream_error (''LLM error: '' @ loop_error_text e)\<rparr>, w1)
                | (Inr content, w1) \<Rightarrow> (stream_response cid model now content, w1))
           | None \<Rightarrow>
               (let (events, _, w1) = pv_stream p (all_messages system_prompt msgs) [] w in
                (stream_from_provider cid model now events, w1))))"

definition chat_completion ::
  "json_errors \<Rightarrow> 'w oai_handler \<Rightarrow> string \<Rightarrow> int \<Rightarrow> string \<Rightarrow> 'w \<Rightarrow> http_response \<times> 'w" where
  "chat_completion je h rand now body w =
     (case decode_request je body of
        BodyTooLarge \<Rightarrow> (write_error 413 ''invalid_request_error'' ''payload_too_large''
            ''Request body too large (max 1MB).'', w)
      | BadJson \<Rightarrow> (write_error 400 ''invalid_request_error'' ''invalid_json''
            (''Failed to parse request body: '' @ je_text je body), w)
      | Decoded req \<Rightarrow>
          if length (cr_messages req) = 0
          then (write_error 400 ''invalid_request_error'' ''invalid_messages'' ''Messages must not be empty.'', w)
          else
            (let (msgs, system_prompt) = convert_messages (cr_messages req) (oh_system_prompt h);
                 cid = generate_id rand;
                 model = (case oh_provider h of Some p \<Rightarrow> pv_model p | None \<Rightarrow> ''docsclaw'') in
             if cr_stream req then stream_completion h cid model now system_prompt msgs w
             else (case chat_complete h system_prompt msgs w of
                 (Inl e, w1) \<Rightarrow> (write_error 502 ''server_error'' ''llm_error'' (''LLM error: '' @ e), w1)
               | (Inr (content, u), w1) \<Rightarrow> (json_response 200 (build_response cid model content u now), w1))))"

text \<open>\<open>go_quote\<close> is the verb %q of package fmt.\<close>

definition models_handler :: "(string \<Rightarrow> string) \<Rightarrow> 'w oai_handler \<Rightarrow> int \<Rightarrow> http_response" where
  "models_handler go_quote h now =
     (let description = ''Agent '' @ go_quote (oh_agent_name h) @
            (case oh_provider h of Some p \<Rightarrow> '' backed by '' @ pv_model p | None \<Rightarrow> []) in
      json_response 200 (JObj [(''object'', JStr ''list''), (''data'', JArr [JObj
        ([(''id'', JStr ''docsclaw''), (''object'', JStr ''model''), (''created'', json_int now),
          (''owned_by'', JStr ''docsclaw''), (''description'', JStr description)])])]))"

definition skills_handler :: "'w oai_handler \<Rightarrow> http_response" where
  "skills_handler h =
     (let skills = (case oh_agent_card h of
            Some ss \<Rightarrow> map (\<lambda>s. JObj [(''id'', JStr (sk_id s)), (''name'', JStr (sk_name s)),
              (''description'', JStr (sk_description s))]) ss
          | None \<Rightarrow> []) in
      json_response 200 (JObj [(''skills'', JArr skills)]))"


subsection \<open>Tokens\<close>

lemma concat_tokenize: "concat (tokenize s) = s"
proof (induction s rule: tokenize.induct)
  case (1 s)
  then show ?case by (subst tokenize.simps) auto
qed

lemma valid_utf8_split:
  "valid_utf8 (a @ b) \<Longrightarrow> b = [] \<or> ws_byte (hd b) \<or> list_all ws_byte a \<Longrightarrow> valid_utf8 a \<and> valid_utf8 b"
proof (induction a rule: length_induct)
  case (1 a)
  show ?case
  proof (cases "a = []")
    case True
    with 1 show ?thesis by simp
  next
    case False
    let ?s = "a @ b" let ?k = "rune_len ?s"
    have k: "?k \<noteq> 0" "valid_utf8 (drop ?k ?s)"
      using "1.prems"(1) False by (auto simp: valid_utf8.simps [of ?s] split: if_splits)
    from k(1) obtain c r where s: "?s = c # r" "lead_len (of_char c) = ?k" "wf_rune (map of_char (take ?k ?s))"
      by (rule rune_len_posD)
    have ws: "ws_byte x \<Longrightarrow> (of_char x :: nat) < 128" for x by (auto simp: ws_byte_def)
    have le: "?k \<le> length a"
    proof (rule ccontr)
      assume n: "\<not> ?k \<le> length a"
      then have b: "b \<noteq> []" using rune_len_le [of ?s] by auto
      have kk: "?k \<noteq> 1" using n False by (cases a) auto
      have "hd b \<in> set (take ?k ?s)" using n b by (cases b) (auto simp: take_Cons')
      then have "128 \<le> (of_char (hd b) :: nat)" using rune_bytes [OF k(1) kk] by blast
      moreover have "128 \<le> (of_char (hd a) :: nat)"
        using rune_bytes [OF k(1) kk, of "hd a"] k(1) False by (cases a) (auto simp: take_Cons')
      moreover have "ws_byte (hd b) \<or> ws_byte (hd a)" using "1.prems"(2) b False by (cases a) auto
      ultimately show False using ws by fastforce
    qed
    have ta: "take ?k a = take ?k ?s" using le by simp
    have ka: "rune_len a = ?k" using rune_len_same [OF k(1) ta] .
    have "length (drop ?k a) < length a" using k(1) False le by simp
    moreover have "valid_utf8 (drop ?k a @ b)" using k(2) le by simp
    moreover have "b = [] \<or> ws_byte (hd b) \<or> list_all ws_byte (drop ?k a)"
      using "1.prems"(2) by (auto simp: list_all_iff dest: in_set_dropD)
    ultimately have "valid_utf8 (drop ?k a) \<and> valid_utf8 b" using "1.IH" by blast
    then show ?thesis using False k(1) by (subst valid_utf8.simps) (simp add: ka)
  qed
qed

lemma tokenize_valid: "valid_utf8 s \<Longrightarrow> t \<in> set (tokenize s) \<Longrightarrow> valid_utf8 t \<and> t \<noteq> []"
proof (induction s rule: tokenize.induct)
  case (1 s)
  show ?case
  proof (cases "s = []")
    case True
    with "1.prems" show ?thesis by (simp add: tokenize.simps)
  next
    case ne: False
    show ?thesis
    proof (cases "ws_byte (hd s)")
      case True
      have v: "valid_utf8 (takeWhile ws_byte s) \<and> valid_utf8 (dropWhile ws_byte s)"
        using "1.prems"(1) by (intro valid_utf8_split) (auto simp: list_all_iff dest: set_takeWhileD)
      have "takeWhile ws_byte s \<noteq> []" using True ne by (cases s) auto
      moreover have "t = takeWhile ws_byte s \<or> t \<in> set (tokenize (dropWhile ws_byte s))"
        using "1.prems"(2) ne True by (subst (asm) tokenize.simps) auto
      ultimately show ?thesis using 1(1) [OF ne True] v by metis
    next
      case False
      let ?p = "\<lambda>c. \<not> ws_byte c"
      have v: "valid_utf8 (takeWhile ?p s) \<and> valid_utf8 (dropWhile ?p s)"
        using "1.prems"(1) hd_dropWhile [of ?p s] by (intro valid_utf8_split) auto
      have "takeWhile ?p s \<noteq> []" using False ne by (cases s) auto
      moreover have "t = takeWhile ?p s \<or> t \<in> set (tokenize (dropWhile ?p s))"
        using "1.prems"(2) ne False by (subst (asm) tokenize.simps) auto
      ultimately show ?thesis using 1(2) [OF ne False] v by metis
    qed
  qed
qed

subsection \<open>What a client reads\<close>

text \<open>A client splits the body into lines, takes those of the field data, and stops at the mark.\<close>

definition sse_payloads :: "string \<Rightarrow> string list" where
  "sse_payloads body =
     map (drop 6) (filter (\<lambda>l. has_prefix l ''data: '') (split_on (CHR 0x0A) body))"

definition delta_text :: "string \<Rightarrow> string" where
  "delta_text payload =
     (case json_parse payload of
        Some (JObj kvs) \<Rightarrow>
          (case get_arr ''choices'' kvs of
             Some (JObj c # _) \<Rightarrow> (case get_obj ''delta'' c of Some d \<Rightarrow> str_or_empty ''content'' d | None \<Rightarrow> [])
           | _ \<Rightarrow> [])
      | _ \<Rightarrow> [])"

definition client_text :: "string \<Rightarrow> string" where
  "client_text body = concat (map delta_text (takeWhile (\<lambda>p. p \<noteq> ''[DONE]'') (sse_payloads body)))"

lemma sse_payloads_frame:
  assumes "CHR 0x0A \<notin> set p"
  shows "sse_payloads (sse_frame p @ rest) = p # sse_payloads rest"
proof -
  have "split_on (CHR 0x0A) (sse_frame p @ rest) = (''data: '' @ p) # [] # split_on (CHR 0x0A) rest"
    using assms split_on_append [of "CHR 0x0A" "''data: '' @ p" "CHR 0x0A # rest"]
      split_on_append [of "CHR 0x0A" "[]" rest]
    by (simp add: sse_frame_def nl_def)
  then show ?thesis by (simp add: sse_payloads_def has_prefix_def)
qed

lemma json_lit_no_nl: "plain_json j \<Longrightarrow> CHR 0x0A \<notin> set (json_lit ft j)"
  using json_lit_printable [of j "CHR 0x0A" ft] by auto

lemma payloads_chunks:
  "list_all plain_json cs \<Longrightarrow>
   sse_payloads (concat (map write_chunk cs) @ rest) = map (json_lit (\<lambda>_. [])) cs @ sse_payloads rest"
  by (induction cs) (simp_all add: write_chunk_def sse_payloads_frame json_lit_no_nl)

lemma payloads_done: "sse_payloads sse_done = [''[DONE]'']"
  by code_simp

definition chunk_ok :: "string \<Rightarrow> string \<Rightarrow> int \<Rightarrow> bool" where
  "chunk_ok cid model created \<longleftrightarrow> valid_utf8 cid \<and> valid_utf8 model \<and> \<bar>created\<bar> < 10 ^ 21"

lemma ascii_valid: "list_all (\<lambda>c. (of_char c :: nat) < 128) s \<Longrightarrow> valid_utf8 s"
proof (induction s)
  case (Cons c s)
  then have "rune_len (c # s) = 1" by (intro rune_len_eqI) (auto simp: lead_len_ascii wf_rune_def)
  with Cons show ?case by (subst valid_utf8.simps) simp
qed simp

lemma plain_chunk:
  assumes "chunk_ok cid model created" "valid_utf8 role" "valid_utf8 content" "plain_json finish"
  shows "plain_json (chunk_json cid model created role content finish)"
proof -
  have a: "valid_utf8 ''id''" "valid_utf8 ''object''" "valid_utf8 ''created''" "valid_utf8 ''model''" "valid_utf8 ''choices''"
    "valid_utf8 ''index''" "valid_utf8 ''delta''" "valid_utf8 ''finish_reason''" "valid_utf8 ''role''" "valid_utf8 ''content''"
    "valid_utf8 ''chat.completion.chunk''"
    by (intro ascii_valid; simp)+
  show ?thesis using assms by (simp add: chunk_json_def delta_json_def json_int_def small_int_def chunk_ok_def a)
qed

lemma delta_text_chunk:
  assumes "chunk_ok cid model created" "valid_utf8 role" "valid_utf8 content" "plain_json finish"
  shows "delta_text (json_lit (\<lambda>_. []) (chunk_json cid model created role content finish)) = content"
proof -
  have "json_parse (json_lit (\<lambda>_. []) (chunk_json cid model created role content finish))
      = Some (chunk_json cid model created role content finish)"
    using plain_chunk [OF assms] by (rule json_round_trip)
  then show ?thesis
    by (simp add: delta_text_def chunk_json_def delta_json_def get_arr_def get_obj_def str_or_empty_def get_str_def)
qed

lemma json_lit_not_done: "json_lit ft (chunk_json cid model created role content finish) \<noteq> ''[DONE]''"
  by (simp add: chunk_json_def)

lemma client_chunks:
  assumes "chunk_ok cid model created" "list_all (\<lambda>(r, c, f). valid_utf8 r \<and> valid_utf8 c \<and> plain_json f) cs"
  shows "client_text (concat (map write_chunk (map (\<lambda>(r, c, f). chunk_json cid model created r c f) cs)) @ sse_done)
    = concat (map (fst \<circ> snd) cs)"
proof -
  let ?chunks = "map (\<lambda>(r, c, f). chunk_json cid model created r c f) cs"
  have "list_all plain_json ?chunks" using assms by (auto simp: list_all_iff intro!: plain_chunk)
  then have p: "sse_payloads (concat (map write_chunk ?chunks) @ sse_done) = map (json_lit (\<lambda>_. [])) ?chunks @ [''[DONE]'']"
    by (simp only: payloads_chunks payloads_done)
  have "takeWhile (\<lambda>p. p \<noteq> ''[DONE]'') (map (json_lit (\<lambda>_. [])) ?chunks @ [''[DONE]'']) = map (json_lit (\<lambda>_. [])) ?chunks"
    by (subst takeWhile_append2) (auto simp: json_lit_not_done)
  moreover have "map delta_text (map (json_lit (\<lambda>_. [])) ?chunks) = map (fst \<circ> snd) cs"
    using assms(2) by (induction cs) (auto simp: delta_text_chunk [OF assms(1)])
  ultimately show ?thesis unfolding client_text_def p by (simp only:)
qed

text \<open>
  C17. A streamed answer carries exactly the content: a client that reads the data lines of the body
  up to the [DONE] mark, parses each as JSON and joins the deltas has the content byte for byte,
  white space runs included. So has one that follows a stream of the provider, for the joined text
  of its events.
\<close>

theorem stream_carries_content:
  assumes "chunk_ok cid model created" "valid_utf8 content" "list_all valid_utf8 deltas"
  shows "client_text (rs_body (stream_response cid model created content)) = content
     \<and> client_text (rs_body (stream_from_provider cid model created (map StreamTextDelta deltas @ [StreamDone u])))
       = concat deltas"
proof
  have a: "valid_utf8 ''assistant''" "valid_utf8 ''stop''" by (intro ascii_valid; simp)+
  let ?role = "(''assistant'', [], JNull)" and ?stop = "([], [], JStr ''stop'')"
  let ?cs = "?role # map (\<lambda>t. ([], t, JNull)) (tokenize content) @ [?stop]"
  have "stream_chunks cid model created content = map (\<lambda>(r, c, f). chunk_json cid model created r c f) ?cs"
    by (simp add: stream_chunks_def content_chunks_def tokenize.simps [of "[]"])
  moreover have "list_all (\<lambda>(r, c, f). valid_utf8 r \<and> valid_utf8 c \<and> plain_json f) ?cs"
    using tokenize_valid [OF assms(2)] a by (auto simp: list_all_iff)
  ultimately show "client_text (rs_body (stream_response cid model created content)) = content"
    using client_chunks [OF assms(1), of ?cs] by (simp add: stream_response_def concat_tokenize comp_def)
  let ?ds = "?role # map (\<lambda>t. ([], t, JNull)) deltas @ [?stop]"
  have "rs_body (stream_from_provider cid model created (map StreamTextDelta deltas @ [StreamDone u]))
      = concat (map write_chunk (map (\<lambda>(r, c, f). chunk_json cid model created r c f) ?ds)) @ sse_done"
    by (simp add: stream_from_provider_def on_stream_event_def comp_def)
  moreover have "list_all (\<lambda>(r, c, f). valid_utf8 r \<and> valid_utf8 c \<and> plain_json f) ?ds"
    using assms(3) a by (auto simp: list_all_iff)
  ultimately show "client_text (rs_body (stream_from_provider cid model created (map StreamTextDelta deltas @ [StreamDone u])))
      = concat deltas"
    using client_chunks [OF assms(1), of ?ds] by (simp add: comp_def)
qed

theorem stream_carries_content_witness:
  "client_text (rs_body (stream_response ''chatcmpl-00'' ''m'' 1700000000 ('' a  b'' @ nl))) = '' a  b'' @ nl"
proof -
  have "chunk_ok ''chatcmpl-00'' ''m'' 1700000000" by code_simp
  moreover have "valid_utf8 ('' a  b'' @ nl)" by code_simp
  ultimately show ?thesis using stream_carries_content [of "''chatcmpl-00''" "''m''" 1700000000 "'' a  b'' @ nl" "[]"] by simp
qed


subsection \<open>What the provider is asked\<close>

lemma split_system_converted: "split_system ms = (cs, converted) \<Longrightarrow> m \<in> set converted \<Longrightarrow> msg_role m \<noteq> ''system''"
  by (induction ms arbitrary: cs converted) (auto split: prod.splits if_splits)

lemma split_system_parts:
  "split_system ms =
     (map cm_content (filter (\<lambda>m. cm_role m = ''system'') ms),
      map (\<lambda>m. text_message (cm_role m) (cm_content m)) (filter (\<lambda>m. cm_role m \<noteq> ''system'') ms))"
  by (induction ms) auto

text \<open>The conversation of a request.\<close>

definition conversation :: "'w oai_handler \<Rightarrow> chat_request \<Rightarrow> message list" where
  "conversation h req =
     (let (msgs, prompt) = convert_messages (cr_messages req) (oh_system_prompt h) in all_messages prompt msgs)"

text \<open>
  C18. A client cannot displace the server's prompt: the conversation made of any request opens with
  one system message that starts with the server's prompt, has no other system message, and
  continues with the client's other messages, all of them, in order and with their text.
\<close>

theorem server_prompt_first:
  "\<exists>suffix. conversation h req =
     text_message ''system'' (oh_system_prompt h @ suffix) #
       map (\<lambda>m. text_message (cm_role m) (cm_content m)) (filter (\<lambda>m. cm_role m \<noteq> ''system'') (cr_messages req))
     \<and> (suffix = [] \<longleftrightarrow> ''system'' \<notin> cm_role ` set (cr_messages req))"
proof -
  let ?cs = "map cm_content (filter (\<lambda>m. cm_role m = ''system'') (cr_messages req))"
  have nl: "nl \<noteq> []" by (simp add: nl_def)
  have "?cs = [] \<longleftrightarrow> ''system'' \<notin> cm_role ` set (cr_messages req)"
    by (auto simp: filter_empty_conv) (metis imageI)
  then show ?thesis
    using nl by (intro exI [of _ "concat (map (\<lambda>cs. nl @ nl @ cs) ?cs)"])
      (auto simp: conversation_def convert_messages_def all_messages_def split_system_parts Let_def filter_empty_conv)
qed

lemma chat_complete_world:
  "snd (chat_complete h prompt msgs w) =
     (case oh_provider h of
        None \<Rightarrow> w
      | Some p \<Rightarrow> (case has_tools h of
            Some R \<Rightarrow> snd (run_tool_loop (pv_env p) R (oh_loop_config h) (all_messages prompt msgs) w)
          | None \<Rightarrow> snd (complete_with_tools (pv_env p) (all_messages prompt msgs) [] w)))"
  by (auto simp: chat_complete_def split: option.splits prod.splits sum.splits)

text \<open>
  The answers of ChatCompletion: a request that does not decode or has no messages is answered
  413 or 400 and reaches neither the provider nor a tool; an accepted one that does not stream is
  answered 200 with the text of the completion, or 502 when the completion failed, and its effects
  are those of exactly one completion of its conversation; a streamed one is always answered 200.
\<close>

lemma chat_completion_answers:
  "case decode_request je body of
     Decoded req \<Rightarrow>
       (if cr_messages req = [] then rs_status (fst (chat_completion je h rand now body w)) = 400
          \<and> snd (chat_completion je h rand now body w) = w
        else if cr_stream req then rs_status (fst (chat_completion je h rand now body w)) = 200
        else (let (msgs, prompt) = convert_messages (cr_messages req) (oh_system_prompt h) in
          snd (chat_completion je h rand now body w) = snd (chat_complete h prompt msgs w)
          \<and> (case fst (chat_complete h prompt msgs w) of
               Inl e \<Rightarrow> fst (chat_completion je h rand now body w)
                 = write_error 502 ''server_error'' ''llm_error'' (''LLM error: '' @ e)
             | Inr (content, u) \<Rightarrow> \<exists>cid model. fst (chat_completion je h rand now body w)
                 = json_response 200 (build_response cid model content u now))))
   | BodyTooLarge \<Rightarrow> rs_status (fst (chat_completion je h rand now body w)) = 413
       \<and> snd (chat_completion je h rand now body w) = w
   | BadJson \<Rightarrow> rs_status (fst (chat_completion je h rand now body w)) = 400
       \<and> snd (chat_completion je h rand now body w) = w"
proof (cases "decode_request je body")
  case (Decoded req)
  obtain msgs prompt where c: "convert_messages (cr_messages req) (oh_system_prompt h) = (msgs, prompt)" by fastforce
  show ?thesis
  proof (cases "cr_messages req = [] \<or> cr_stream req")
    case True
    then show ?thesis
      by (auto simp: Decoded c chat_completion_def stream_completion_def stream_response_def
          stream_from_provider_def write_error_def json_response_def Let_def
          split: option.splits prod.splits sum.splits)
  next
    case False
    obtain r w1 where "chat_complete h prompt msgs w = (r, w1)" by fastforce
    with False show ?thesis
      by (cases r) (auto simp: Decoded c chat_completion_def Let_def split: prod.splits)
  qed
qed (simp_all add: chat_completion_def write_error_def json_response_def)

text \<open>A decoded body, as a check of the model.\<close>

lemma decode_demo:
  "decode_request \<lparr>je_rejects = (\<lambda>_. True), je_text = (\<lambda>_. [])\<rparr>
     (json_lit (\<lambda>_. []) (JObj [(''Model'', JStr ''m''), (''stream'', JBool True),
        (''messages'', JArr [message_json ''user'' ''hi'', JObj [(''role'', JNull)]])]) @ ''trailing'')
   = Decoded \<lparr>cr_model = ''m'', cr_messages =
        [\<lparr>cm_role = ''user'', cm_content = ''hi''\<rparr>, \<lparr>cm_role = [], cm_content = []\<rparr>], cr_stream = True\<rparr>"
  by code_simp

end
