(* ===== verification/Batch.thy ===== *)
theory Batch
  imports Go_Json "HOL-Library.Multiset"
begin

section \<open>internal/cmd/batch.go: fanning documents out to agents\<close>

text \<open>
  Splitting the documents, calling the agents, collecting and ranking the results, and the CSV
  report. The answer of the agent of each batch is an argument (theory Batch_Command makes it), and so are the decoding of its JSON into result
  records (package json) and the order \<open>sort.Slice\<close> gives to equal scores. Each goroutine writes
  its own slot of the results and none cancels the others, so the model maps over the batches.
  The report is the text written; a writer that fails is left out.
\<close>

subsection \<open>Results\<close>

record candidate =
  cand_document :: string
  cand_name :: string
  cand_score :: int
  cand_strengths :: string
  cand_weaknesses :: string
  cand_recommendation :: string

text \<open>\<open>json.Unmarshal\<close> into a list and into a single record.\<close>

record result_decoder =
  decode_list :: "string \<Rightarrow> string + candidate list"
  decode_single :: "string \<Rightarrow> string + candidate"

text \<open>
  The first match of the code-block pattern: from a fence, with or without the word json, over
  white space to a newline (the last one that works), and lazily up to a newline and a fence.
\<close>

definition re_space :: "char \<Rightarrow> bool" where
  "re_space c \<longleftrightarrow> c \<in> {CHR 0x09, CHR 0x0A, CHR 0x0C, CHR 0x0D, CHR 0x20}"

definition fence :: string where "fence = [CHR 0x60, CHR 0x60, CHR 0x60]"

fun after_space :: "string \<Rightarrow> string option" where
  "after_space [] = None"
| "after_space (c # s) =
     (if \<not> re_space c then None
      else (case after_space s of
          Some body \<Rightarrow> Some body
        | None \<Rightarrow> if c = CHR 0x0A then map_option (\<lambda>n. take n s) (str_index s (nl @ fence)) else None))"

definition block_at :: "string \<Rightarrow> string option" where
  "block_at s =
     (if \<not> has_prefix s fence then None
      else (case (if has_prefix (drop 3 s) ''json'' then after_space (drop 7 s) else None) of
          Some b \<Rightarrow> Some b
        | None \<Rightarrow> after_space (drop 3 s)))"

fun json_block :: "string \<Rightarrow> string option" where
  "json_block [] = None"
| "json_block (c # s) = (case block_at (c # s) of Some b \<Rightarrow> Some b | None \<Rightarrow> json_block s)"

definition parse_batch_result :: "result_decoder \<Rightarrow> string \<Rightarrow> string + candidate list" where
  "parse_batch_result d text =
     (let js = trim_space (case json_block text of Some b \<Rightarrow> b | None \<Rightarrow> text) in
      case decode_list d js of
        Inr rs \<Rightarrow> Inr rs
      | Inl e \<Rightarrow> (case decode_single d js of
            Inl _ \<Rightarrow> Inl (''failed to parse results: '' @ e)
          | Inr r \<Rightarrow> Inr [r]))"

subsection \<open>Splitting\<close>

fun take_batches :: "nat list \<Rightarrow> 'a list \<Rightarrow> 'a list list" where
  "take_batches [] docs = []"
| "take_batches (n # ns) docs = take n docs # take_batches ns (drop n docs)"

text \<open>None is the division by zero when there are no agents.\<close>

definition split_documents :: "'a list \<Rightarrow> nat \<Rightarrow> 'a list list option" where
  "split_documents docs agents0 =
     (if docs = [] then Some []
      else
        let agents = (if agents0 > length docs then length docs else agents0) in
        if agents = 0 then None
        else
          let batch_size = length docs div agents; remainder = length docs mod agents in
          Some (take_batches (map (\<lambda>i. if i < remainder then batch_size + 1 else batch_size) [0..<agents]) docs))"

subsection \<open>The CSV report\<close>

text \<open>\<open>csv.Writer\<close>: which fields are quoted, and how.\<close>

definition csv_needs_quotes :: "string \<Rightarrow> bool" where
  "csv_needs_quotes f \<longleftrightarrow> f \<noteq> [] \<and>
     (f = [CHR 0x5C, CHR ''.''] \<or> (\<exists>c \<in> set f. c \<in> {CHR '','', CHR 0x22, CHR 0x0D, CHR 0x0A}) \<or> ws_len f > 0)"

definition csv_quote :: "string \<Rightarrow> string" where
  "csv_quote f = [CHR 0x22] @ concat (map (\<lambda>c. if c = CHR 0x22 then [c, c] else [c]) f) @ [CHR 0x22]"

definition csv_field :: "string \<Rightarrow> string" where
  "csv_field f = (if csv_needs_quotes f then csv_quote f else f)"

definition csv_line :: "string list \<Rightarrow> string" where
  "csv_line fs = str_join '','' (map csv_field fs) @ nl"

definition csv_header :: "string list" where
  "csv_header = [''rank'', ''document_id'', ''candidate_name'', ''score'', ''strengths'', ''weaknesses'', ''recommendation'']"

definition csv_row :: "nat \<Rightarrow> candidate \<Rightarrow> string list" where
  "csv_row i r = [itoa (int i + 1), cand_document r, cand_name r, itoa (cand_score r), cand_strengths r,
     cand_weaknesses r, cand_recommendation r]"

definition csv_rows :: "candidate list \<Rightarrow> string list list" where
  "csv_rows rs = map (\<lambda>(i, r). csv_row i r) (enumerate 0 rs)"

definition format_csv :: "(candidate list \<Rightarrow> candidate list) \<Rightarrow> candidate list \<Rightarrow> string" where
  "format_csv sort_slice results =
     (let sorted_results = sort_slice results in
      csv_line csv_header @ concat (map csv_line (csv_rows sorted_results)))"

subsection \<open>A batch run\<close>

record batch_config =
  bc_agents :: "string list"
  bc_documents :: "string list"
  bc_context_doc :: string
  bc_prompt :: string

record batch_stats =
  bs_processed :: int
  bs_failed :: int
  bs_agents :: int

definition batch_message :: "string \<Rightarrow> string list \<Rightarrow> string \<Rightarrow> string" where
  "batch_message context_doc docs prompt =
     prompt @ nl @ nl @ ''Context document: '' @ context_doc @ nl @ ''Documents to evaluate: '' @ str_join '', '' docs"

definition worker_result ::
  "result_decoder \<Rightarrow> (nat \<Rightarrow> string \<Rightarrow> string \<Rightarrow> string + string) \<Rightarrow> batch_config \<Rightarrow> nat \<Rightarrow> string list \<Rightarrow> string + candidate list" where
  "worker_result d invoke cfg i batch =
     (case invoke i (bc_agents cfg ! i) (batch_message (bc_context_doc cfg) batch (bc_prompt cfg)) of
        Inl e \<Rightarrow> Inl e
      | Inr text \<Rightarrow> (case parse_batch_result d text of Inl e \<Rightarrow> Inl (''parse error: '' @ e) | Inr rs \<Rightarrow> Inr rs))"

definition all_results :: "(string + candidate list) list \<Rightarrow> candidate list" where
  "all_results rs = concat (map (\<lambda>r. case r of Inl _ \<Rightarrow> [] | Inr cs \<Rightarrow> cs) rs)"

definition run_batch ::
  "result_decoder \<Rightarrow> (candidate list \<Rightarrow> candidate list) \<Rightarrow> (nat \<Rightarrow> string \<Rightarrow> string \<Rightarrow> string + string) \<Rightarrow> batch_config \<Rightarrow>
   (batch_stats \<times> string) option" where
  "run_batch d sort_slice invoke cfg =
     (case split_documents (bc_documents cfg) (length (bc_agents cfg)) of
        None \<Rightarrow> None
      | Some batches \<Rightarrow>
          let results = map (\<lambda>(i, b). worker_result d invoke cfg i b) (enumerate 0 batches);
              found = all_results results;
              stats = \<lparr>bs_processed = int (length found),
                bs_failed = int (length (bc_documents cfg)) - int (length found), bs_agents = int (length batches)\<rparr> in
          Some (stats, if length found > 0 then format_csv sort_slice found else []))"

subsection \<open>Splitting loses and repeats nothing\<close>

lemma take_batches_concat: "sum_list ns = length docs \<Longrightarrow> concat (take_batches ns docs) = docs"
  by (induction ns arbitrary: docs) auto

lemma take_batches_lengths: "sum_list ns \<le> length docs \<Longrightarrow> map length (take_batches ns docs) = ns"
  by (induction ns arbitrary: docs) auto

lemma batch_sizes_sum:
  "(\<Sum>i \<leftarrow> [0..<n]. if i < r then b + 1 else b) = n * b + min r (n :: nat)"
  by (induction n) (auto simp: min_def)

text \<open>
  The documents are dealt out fairly: with at least one agent the batches, joined, are the
  documents in their order, there are as many as agents or documents, whichever is less, none is
  empty, and their sizes differ by at most one, the larger ones first. Without agents the split
  divides by zero.
\<close>

lemma split_documents_fair:
  assumes "docs \<noteq> []" "0 < agents"
  shows "\<exists>bs. split_documents docs agents = Some bs \<and> concat bs = docs \<and> length bs = min agents (length docs)
     \<and> list_all (\<lambda>b. b \<noteq> []) bs \<and> sorted_wrt (\<ge>) (map length bs)
     \<and> length (hd bs) \<le> length (last bs) + 1 \<and> split_documents docs 0 = None"
proof -
  define n where "n = min agents (length docs)"
  define b where "b = length docs div n"
  define r where "r = length docs mod n"
  define ns where "ns = map (\<lambda>i. if i < r then b + 1 else b) [0..<n]"
  define bs where "bs = take_batches ns docs"
  have n: "0 < n" "n \<le> length docs" using assms by (simp_all add: n_def)
  then have r: "r < n" by (simp add: r_def)
  have sum: "sum_list ns = length docs"
    unfolding ns_def batch_sizes_sum using r by (simp add: b_def r_def)
  have lens: "map length bs = ns" unfolding bs_def by (intro take_batches_lengths) (simp only: sum)
  have len: "length bs = n" using arg_cong [OF lens, of length] by (simp add: ns_def)
  have bs: "bs \<noteq> []" using len n by auto
  have b: "1 \<le> b" using n by (simp add: b_def Suc_leI div_greater_zero_iff)
  have ne: "list_all (\<lambda>x. x \<noteq> []) bs"
  proof -
    have "\<forall>k \<in> set (map length bs). k \<noteq> 0" unfolding lens using b by (auto simp: ns_def)
    then show ?thesis by (auto simp: list_all_iff)
  qed
  have sorted: "sorted_wrt (\<ge>) (map length bs)" unfolding lens by (auto simp: ns_def sorted_wrt_iff_nth_less)
  have "length (hd bs) = hd ns" "length (last bs) = last ns"
    using hd_map [OF bs, of length] last_map [OF bs, of length] by (simp_all only: lens)
  moreover have "hd ns \<le> b + 1" "b \<le> last ns" using n by (simp_all add: ns_def hd_map last_map)
  ultimately have "length (hd bs) \<le> length (last bs) + 1" by linarith
  moreover have "split_documents docs agents = Some bs"
  proof -
    have e: "(if agents > length docs then length docs else agents) = n" by (simp add: n_def)
    show ?thesis
      unfolding split_documents_def Let_def e bs_def ns_def b_def r_def using assms(1) n(1) by simp
  qed
  moreover have "split_documents docs 0 = None" using assms(1) by (simp add: split_documents_def)
  ultimately show ?thesis using take_batches_concat [OF sum] ne sorted len unfolding bs_def n_def by blast
qed

theorem split_documents_fair_witness:
  "\<exists>bs. split_documents [''a'', ''b'', ''c'', ''d'', ''e''] 3 = Some bs
     \<and> concat bs = [''a'', ''b'', ''c'', ''d'', ''e''] \<and> length bs = min 3 5"
  using split_documents_fair [of "[''a'', ''b'', ''c'', ''d'', ''e'']" 3] by auto


subsection \<open>Reading the report\<close>

text \<open>A reader of CSV: quoted fields with doubled quotes, fields up to a comma, lines up to a newline.\<close>

fun read_quoted :: "string \<Rightarrow> string \<times> string" where
  "read_quoted [] = ([], [])"
| "read_quoted (c # s) =
     (if c = CHR 0x22 then
        (case s of d # t \<Rightarrow> if d = CHR 0x22 then (let (f, r) = read_quoted t in (c # f, r)) else ([], s) | [] \<Rightarrow> ([], s))
      else (let (f, r) = read_quoted s in (c # f, r)))"

definition plain_csv :: "char \<Rightarrow> bool" where
  "plain_csv c \<longleftrightarrow> c \<noteq> CHR '','' \<and> c \<noteq> CHR 0x0A"

definition read_field_csv :: "string \<Rightarrow> string \<times> string" where
  "read_field_csv s =
     (if has_prefix s [CHR 0x22] then read_quoted (tl s) else (takeWhile plain_csv s, dropWhile plain_csv s))"

fun read_row_csv :: "nat \<Rightarrow> string \<Rightarrow> string list \<times> string" where
  "read_row_csv 0 s = ([], s)"
| "read_row_csv (Suc n) s =
     (let (f, r) = read_field_csv s in
      if has_prefix r '','' then (let (fs, r') = read_row_csv n (tl r) in (f # fs, r')) else ([f], tl r))"

fun read_rows_csv :: "nat \<Rightarrow> string \<Rightarrow> string list list" where
  "read_rows_csv 0 s = []"
| "read_rows_csv (Suc n) s =
     (if s = [] then [] else (let (fs, r) = read_row_csv (length s) s in fs # read_rows_csv n r))"

definition csv_read :: "string \<Rightarrow> string list list" where
  "csv_read s = read_rows_csv (length s) s"

lemma read_quoted_field:
  "r = [] \<or> hd r \<noteq> CHR 0x22 \<Longrightarrow>
   read_quoted (concat (map (\<lambda>c. if c = CHR 0x22 then [c, c] else [c]) f) @ CHR 0x22 # r) = (f, r)"
  by (induction f) (auto split: list.splits)

lemma read_field_back:
  assumes "r \<noteq> []" "\<not> plain_csv (hd r)"
  shows "read_field_csv (csv_field f @ r) = (f, r)"
proof (cases "csv_needs_quotes f")
  case True
  have "hd r \<noteq> CHR 0x22" using assms(2) by (auto simp: plain_csv_def)
  then show ?thesis
    using True read_quoted_field [of r f] by (simp add: csv_field_def csv_quote_def read_field_csv_def has_prefix_def)
next
  case False
  then have p: "\<forall>c \<in> set f. plain_csv c \<and> c \<noteq> CHR 0x22" by (auto simp: csv_needs_quotes_def plain_csv_def)
  have "\<not> has_prefix (f @ r) [CHR 0x22]"
    using p assms by (cases f; cases r) (auto simp: has_prefix_def plain_csv_def)
  moreover have "takeWhile plain_csv (f @ r) = f" "dropWhile plain_csv (f @ r) = r"
    using p assms by (cases r; simp add: takeWhile_append dropWhile_append takeWhile_eq_all_conv [THEN iffD2])+
  ultimately show ?thesis using False by (simp add: csv_field_def read_field_csv_def)
qed

lemma read_row_back:
  "fs \<noteq> [] \<Longrightarrow> length fs \<le> n \<Longrightarrow> read_row_csv n (csv_line fs @ r) = (fs, r)"
proof (induction fs arbitrary: n)
  case (Cons f fs)
  then obtain m where n: "n = Suc m" by (cases n) auto
  show ?case
  proof (cases "fs = []")
    case True
    have "read_field_csv (csv_field f @ CHR 0x0A # r) = (f, CHR 0x0A # r)"
      by (rule read_field_back) (simp_all add: plain_csv_def)
    then show ?thesis using True by (simp add: n csv_line_def nl_def has_prefix_def)
  next
    case False
    then have line: "csv_line (f # fs) @ r = csv_field f @ CHR '','' # csv_line fs @ r"
      by (cases fs) (simp_all add: csv_line_def)
    have "read_field_csv (csv_field f @ CHR '','' # csv_line fs @ r) = (f, CHR '','' # csv_line fs @ r)"
      by (rule read_field_back) (simp_all add: plain_csv_def)
    moreover have "read_row_csv m (csv_line fs @ r) = (fs, r)" using Cons False n by simp
    ultimately show ?thesis unfolding n line by (simp add: has_prefix_def)
  qed
qed simp

lemma length_csv_line: "length fs \<le> length (csv_line fs)"
proof (induction fs)
  case (Cons f fs)
  then show ?case by (cases fs) (simp_all add: csv_line_def nl_def)
qed simp

lemma csv_line_not_Nil [simp]: "csv_line fs \<noteq> []"
  by (simp add: csv_line_def nl_def)

lemma read_rows_back:
  "list_all (\<lambda>fs. fs \<noteq> []) rows \<Longrightarrow> length rows \<le> n \<Longrightarrow> read_rows_csv n (concat (map csv_line rows)) = rows"
proof (induction rows arbitrary: n)
  case Nil
  then show ?case by (cases n) simp_all
next
  case (Cons fs rows)
  then obtain m where n: "n = Suc m" by (cases n) auto
  have "read_row_csv (length (csv_line fs @ concat (map csv_line rows))) (csv_line fs @ concat (map csv_line rows))
      = (fs, concat (map csv_line rows))"
    using Cons.prems length_csv_line [of fs] by (intro read_row_back) simp_all
  moreover have "read_rows_csv m (concat (map csv_line rows)) = rows" using Cons n by simp
  ultimately show ?case by (simp add: n)
qed

lemma csv_read_back: "list_all (\<lambda>fs. fs \<noteq> []) rows \<Longrightarrow> csv_read (concat (map csv_line rows)) = rows"
proof -
  have "length rows \<le> length (concat (map csv_line rows))"
  proof (induction rows)
    case (Cons fs rows)
    have "Suc 0 \<le> length (csv_line fs)" by (simp add: Suc_le_eq)
    with Cons show ?case by (simp only: list.map concat.simps length_append list.size)
  qed simp
  then show "list_all (\<lambda>fs. fs \<noteq> []) rows \<Longrightarrow> csv_read (concat (map csv_line rows)) = rows"
    by (simp add: csv_read_def read_rows_back)
qed

subsection \<open>The report of a run\<close>

definition valid_sort :: "(candidate list \<Rightarrow> candidate list) \<Rightarrow> bool" where
  "valid_sort f \<longleftrightarrow> (\<forall>rs. mset (f rs) = mset rs \<and> sorted_wrt (\<lambda>a b. cand_score a \<ge> cand_score b) (f rs))"

lemma csv_read_report: "csv_read (format_csv sort_slice rs) = csv_header # csv_rows (sort_slice rs)"
proof -
  have "format_csv sort_slice rs = concat (map csv_line (csv_header # csv_rows (sort_slice rs)))"
    by (simp add: format_csv_def Let_def)
  moreover have "list_all (\<lambda>fs. fs \<noteq> []) (csv_header # csv_rows (sort_slice rs))"
    by (auto simp: csv_header_def csv_rows_def csv_row_def list_all_iff)
  ultimately show ?thesis by (simp only: csv_read_back)
qed

text \<open>The answer of each batch, and the results of the batches whose agent answered with results.\<close>

definition batch_answers ::
  "result_decoder \<Rightarrow> (nat \<Rightarrow> string \<Rightarrow> string \<Rightarrow> string + string) \<Rightarrow> batch_config \<Rightarrow> string list list \<Rightarrow> candidate list" where
  "batch_answers d invoke cfg bs =
     concat (map (\<lambda>i. case worker_result d invoke cfg i (bs ! i) of Inl _ \<Rightarrow> [] | Inr cs \<Rightarrow> cs) [0..<length bs])"

lemma all_results_answers:
  "all_results (map (\<lambda>(i, b). worker_result d invoke cfg i b) (enumerate 0 bs)) = batch_answers d invoke cfg bs"
  unfolding all_results_def batch_answers_def enumerate_eq_zip
  by (intro arg_cong [of _ _ concat] nth_equalityI) simp_all

text \<open>
  C19. The report of a batch run is complete and ranked: every result of every batch whose agent
  answered is in it once, whatever other agents did, the scores do not increase from row to row,
  the ranks count from one, and a CSV reader gets each field back byte for byte, commas, quotes and
  line breaks in the agents' texts included. The statistics count the results, and what they call
  failed is the number of documents less that number.
\<close>

theorem batch_report_complete:
  assumes "valid_sort sort_slice" "bc_documents cfg \<noteq> []" "bc_agents cfg \<noteq> []"
  shows "\<exists>bs stats out ranked. run_batch d sort_slice invoke cfg = Some (stats, out)
     \<and> split_documents (bc_documents cfg) (length (bc_agents cfg)) = Some bs
     \<and> mset ranked = mset (batch_answers d invoke cfg bs)
     \<and> sorted_wrt (\<lambda>a b. cand_score a \<ge> cand_score b) ranked
     \<and> csv_read out = (if ranked = [] then [] else csv_header # csv_rows ranked)
     \<and> bs_processed stats = int (length ranked)
     \<and> bs_failed stats = int (length (bc_documents cfg)) - int (length ranked)"
proof -
  have "(if length (bc_agents cfg) > length (bc_documents cfg) then length (bc_documents cfg) else length (bc_agents cfg)) \<noteq> 0"
    using assms(2,3) by simp
  then obtain bs where bs: "split_documents (bc_documents cfg) (length (bc_agents cfg)) = Some bs"
    using assms(2) by (auto simp: split_documents_def Let_def)
  let ?rs = "batch_answers d invoke cfg bs"
  have s: "mset (sort_slice ?rs) = mset ?rs" "sorted_wrt (\<lambda>a b. cand_score a \<ge> cand_score b) (sort_slice ?rs)"
    using assms(1) by (simp_all add: valid_sort_def)
  have len: "length (sort_slice ?rs) = length ?rs" using s(1) by (metis size_mset)
  then have ne: "sort_slice ?rs = [] \<longleftrightarrow> ?rs = []" by (metis length_0_conv)
  have "csv_read (if 0 < length ?rs then format_csv sort_slice ?rs else []) =
      (if sort_slice ?rs = [] then [] else csv_header # csv_rows (sort_slice ?rs))"
    by (simp add: ne csv_read_report) (simp add: csv_read_def)
  moreover have "run_batch d sort_slice invoke cfg = Some (\<lparr>bs_processed = int (length ?rs),
      bs_failed = int (length (bc_documents cfg)) - int (length ?rs), bs_agents = int (length bs)\<rparr>,
      if 0 < length ?rs then format_csv sort_slice ?rs else [])"
    by (simp add: run_batch_def Let_def all_results_answers bs)
  moreover have "bs_processed \<lparr>bs_processed = int (length ?rs), bs_failed = k, bs_agents = j\<rparr> = int (length (sort_slice ?rs))"
    "bs_failed \<lparr>bs_processed = l, bs_failed = int (length (bc_documents cfg)) - int (length ?rs), bs_agents = j\<rparr>
       = int (length (bc_documents cfg)) - int (length (sort_slice ?rs))" for k j l
    by (simp_all only: len batch_stats.simps)
  ultimately show ?thesis using s bs by metis
qed

text \<open>Two agents, one of which fails; the other answers with a comma and a quote in its text.\<close>

definition demo_batch :: batch_config where
  "demo_batch = \<lparr>bc_agents = [''http://a'', ''http://b''], bc_documents = [''d1'', ''d2'', ''d3''],
     bc_context_doc = ''jd'', bc_prompt = ''rate''\<rparr>"

definition demo_candidate :: "string \<Rightarrow> int \<Rightarrow> candidate" where
  "demo_candidate n k = \<lparr>cand_document = n, cand_name = ''Doe, '' @ [CHR 0x22] @ ''J'' @ [CHR 0x22], cand_score = k,
     cand_strengths = [], cand_weaknesses = '' x'', cand_recommendation = ''a'' @ nl @ ''b''\<rparr>"

definition demo_decoder :: result_decoder where
  "demo_decoder = \<lparr>decode_list = (\<lambda>t. if t = ''ok'' then Inr [demo_candidate ''d1'' 3, demo_candidate ''d2'' 7] else Inl ''bad''),
     decode_single = (\<lambda>t. Inl ''bad'')\<rparr>"

definition demo_invoke :: "nat \<Rightarrow> string \<Rightarrow> string \<Rightarrow> string + string" where
  "demo_invoke i url m = (if url = ''http://a'' then Inr (''Sure:'' @ nl @ fence @ ''json '' @ nl @ ''ok'' @ nl @ fence) else Inl ''down'')"

theorem batch_report_complete_witness:
  "\<exists>stats out. run_batch demo_decoder (sort_key (\<lambda>c. - cand_score c)) demo_invoke demo_batch = Some (stats, out)
     \<and> bs_processed stats = 2
     \<and> csv_read out = [csv_header, csv_row 0 (demo_candidate ''d2'' 7), csv_row 1 (demo_candidate ''d1'' 3)]"
proof -
  let ?sort = "sort_key (\<lambda>c. - cand_score c)"
  have v: "valid_sort ?sort"
    unfolding valid_sort_def
  proof (intro allI conjI)
    fix rs :: "candidate list"
    show "mset (?sort rs) = mset rs" by simp
    have "sorted (map (\<lambda>c. - cand_score c) (?sort rs))" by (rule sorted_sort_key)
    then show "sorted_wrt (\<lambda>a b. cand_score a \<ge> cand_score b) (?sort rs)" by (simp add: sorted_wrt_map)
  qed
  have run: "run_batch demo_decoder ?sort demo_invoke demo_batch =
      Some (\<lparr>bs_processed = 2, bs_failed = 1, bs_agents = 2\<rparr>, format_csv ?sort [demo_candidate ''d1'' 3, demo_candidate ''d2'' 7])"
    by code_simp
  have "?sort [demo_candidate ''d1'' 3, demo_candidate ''d2'' 7] = [demo_candidate ''d2'' 7, demo_candidate ''d1'' 3]"
    by code_simp
  then have read: "csv_read (format_csv ?sort [demo_candidate ''d1'' 3, demo_candidate ''d2'' 7]) =
      [csv_header, csv_row 0 (demo_candidate ''d2'' 7), csv_row 1 (demo_candidate ''d1'' 3)]"
    by (simp add: csv_read_report csv_rows_def)
  have "bc_documents demo_batch \<noteq> []" "bc_agents demo_batch \<noteq> []" by (simp_all add: demo_batch_def)
  from batch_report_complete [OF v this, of demo_decoder demo_invoke] run read show ?thesis by auto
qed

end
