(* ===== verification/Catalog.thy ===== *)
theory Catalog
  imports Go_Fs "HOL-Library.List_Lexorder" "HOL-Library.Char_ord"
begin

section \<open>pkg/catalog: the tool catalog\<close>

text \<open>
  The catalog of tools with tiers and risk scores, and the queries on it. YAML decoding is a library
  outside the repository: \<open>decode\<close> gives the catalog of a text or an error. A Go map is an
  association list with distinct keys, in any order (\<open>catalog_wf\<close>).
\<close>

record risk_factors =
  rf_code_execution :: bool
  rf_network_capable :: bool
  rf_dependencies :: int
  rf_cve_history :: string

record risk_score =
  rk_score :: int
  rk_factors :: risk_factors
  rk_rationale :: string

record tool_entry =
  te_tier :: string
  te_package :: "(string \<times> string) list"
  te_size :: string
  te_description :: string
  te_risk :: risk_score

record tier_def =
  tier_description :: string
  tier_auto_include :: bool
  tier_warning :: string

record tool_catalog =
  cat_api_version :: string
  cat_kind :: string
  cat_name :: string
  cat_version :: string
  cat_tiers :: "(string \<times> tier_def) list"
  cat_tools :: "(string \<times> tool_entry) list"

definition catalog_wf :: "tool_catalog \<Rightarrow> bool" where
  "catalog_wf c \<longleftrightarrow> distinct (map fst (cat_tools c))"

subsection \<open>Operations\<close>

definition tier_order :: "string \<Rightarrow> nat option" where
  "tier_order t = map_of [(''core'', 0), (''standard'', 1), (''extended'', 2), (''runtime'', 3)] t"

definition catalog_parse :: "(string \<Rightarrow> string + tool_catalog) \<Rightarrow> string \<Rightarrow> string + tool_catalog" where
  "catalog_parse decode data =
     (case decode data of Inl e \<Rightarrow> Inl (''parse catalog: '' @ e) | Inr c \<Rightarrow> Inr c)"

definition catalog_load_from_file ::
  "(string \<Rightarrow> string + tool_catalog) \<Rightarrow> fs \<Rightarrow> string \<Rightarrow> string + tool_catalog" where
  "catalog_load_from_file decode F path =
     (case os_read_file F path of
        Inl e \<Rightarrow> Inl (''read catalog '' @ path @ '': '' @ path_error_text e)
      | Inr data \<Rightarrow> catalog_parse decode data)"

definition catalog_lookup :: "tool_catalog \<Rightarrow> string \<Rightarrow> tool_entry option" where
  "catalog_lookup c name = map_of (cat_tools c) name"

definition core_tools :: "tool_catalog \<Rightarrow> string list" where
  "core_tools c = sort (map fst (filter (\<lambda>(name, e). te_tier e = ''core'') (cat_tools c)))"

fun highest_tier_from :: "tool_catalog \<Rightarrow> string \<Rightarrow> string list \<Rightarrow> string" where
  "highest_tier_from c highest [] = highest"
| "highest_tier_from c highest (name # names) =
     (case catalog_lookup c name of
        None \<Rightarrow> highest_tier_from c highest names
      | Some e \<Rightarrow> (case tier_order (te_tier e) of
            None \<Rightarrow> highest_tier_from c highest names
          | Some order \<Rightarrow>
              if order > (case tier_order highest of Some k \<Rightarrow> k | None \<Rightarrow> 0)
              then highest_tier_from c (te_tier e) names else highest_tier_from c highest names))"

definition highest_tier :: "tool_catalog \<Rightarrow> string list \<Rightarrow> string" where
  "highest_tier c tools = highest_tier_from c ''core'' tools"

fun max_risk_from :: "tool_catalog \<Rightarrow> int \<Rightarrow> string list \<Rightarrow> int" where
  "max_risk_from c m [] = m"
| "max_risk_from c m (name # names) =
     (case catalog_lookup c name of
        None \<Rightarrow> max_risk_from c m names
      | Some e \<Rightarrow> max_risk_from c (if rk_score (te_risk e) > m then rk_score (te_risk e) else m) names)"

definition max_risk_score :: "tool_catalog \<Rightarrow> string list \<Rightarrow> int" where
  "max_risk_score c tools = max_risk_from c 0 tools"

fun package_names :: "tool_catalog \<Rightarrow> string list \<Rightarrow> string \<Rightarrow> string list" where
  "package_names c [] distro = []"
| "package_names c (name # names) distro =
     (case catalog_lookup c name of
        None \<Rightarrow> package_names c names distro
      | Some e \<Rightarrow> (case map_of (te_package e) distro of
            Some pkg \<Rightarrow> pkg # package_names c names distro
          | None \<Rightarrow> package_names c names distro))"

text \<open>The name of the first tool that is not in the catalog.\<close>

fun catalog_validate :: "tool_catalog \<Rightarrow> string list \<Rightarrow> string option" where
  "catalog_validate c [] = None"
| "catalog_validate c (name # names) =
     (if catalog_lookup c name = None then Some name else catalog_validate c names)"

subsection \<open>What they compute\<close>

lemma core_tools_set: "catalog_wf c \<Longrightarrow> set (core_tools c) = {n. \<exists>e. catalog_lookup c n = Some e \<and> te_tier e = ''core''}"
  by (force simp: core_tools_def catalog_lookup_def catalog_wf_def dest: map_of_SomeD)

lemma distinct_filter_keys: "distinct (map fst xs) \<Longrightarrow> distinct (map fst (filter P xs))"
  by (induction xs) auto

lemma core_tools_distinct: "catalog_wf c \<Longrightarrow> distinct (core_tools c)"
  by (simp add: core_tools_def catalog_wf_def distinct_filter_keys)

lemma catalog_validate_None: "catalog_validate c names = None \<longleftrightarrow> (\<forall>n \<in> set names. catalog_lookup c n \<noteq> None)"
  by (induction names) auto

text \<open>The rank of a tier, with unknown tiers at the bottom.\<close>

definition tier_rank :: "string \<Rightarrow> nat" where
  "tier_rank t = (case tier_order t of Some k \<Rightarrow> k | None \<Rightarrow> 0)"

lemma tier_order_rank: "tier_order t = Some k \<Longrightarrow> tier_rank t = k"
  by (simp add: tier_rank_def)

lemma Max_insert_greater:
  "finite S \<Longrightarrow> Max (insert (if a > m then a else m) S) = Max (insert m (insert a (S :: 'a :: linorder set)))"
  by (cases "S = {}") (auto simp: max_def)

lemma highest_tier_from_rank:
  "tier_order highest \<noteq> None \<Longrightarrow>
   tier_order (highest_tier_from c highest names) \<noteq> None
   \<and> tier_rank (highest_tier_from c highest names) =
       Max (insert (tier_rank highest) {tier_rank (te_tier e) | n e. n \<in> set names \<and> catalog_lookup c n = Some e})"
proof (induction names arbitrary: highest)
  case (Cons name names)
  have fin: "finite {tier_rank (te_tier e) | n e. n \<in> set ns \<and> catalog_lookup c n = Some e}" for ns
  proof -
    have "{tier_rank (te_tier e) | n e. n \<in> set ns \<and> catalog_lookup c n = Some e}
        \<subseteq> (\<lambda>n. tier_rank (te_tier (the (catalog_lookup c n)))) ` set ns" by force
    then show ?thesis by (rule finite_subset) simp
  qed
  show ?case
  proof (cases "catalog_lookup c name")
    case None
    then have "{tier_rank (te_tier e) | n e. n \<in> set (name # names) \<and> catalog_lookup c n = Some e}
        = {tier_rank (te_tier e) | n e. n \<in> set names \<and> catalog_lookup c n = Some e}" by auto
    with None Cons show ?thesis by simp
  next
    case (Some e)
    let ?S = "{tier_rank (te_tier e) | n e. n \<in> set names \<and> catalog_lookup c n = Some e}"
    have S: "{tier_rank (te_tier e) | n e. n \<in> set (name # names) \<and> catalog_lookup c n = Some e}
        = insert (tier_rank (te_tier e)) ?S" using Some by auto
    let ?h = "if tier_rank (te_tier e) > tier_rank highest then te_tier e else highest"
    have step: "highest_tier_from c highest (name # names) = highest_tier_from c ?h names"
      using Some by (cases "tier_order (te_tier e)") (simp_all add: tier_rank_def)
    have "tier_order ?h \<noteq> None" using Cons.prems by (auto simp: tier_rank_def split: option.splits)
    then have "tier_order (highest_tier_from c ?h names) \<noteq> None
        \<and> tier_rank (highest_tier_from c ?h names) = Max (insert (tier_rank ?h) ?S)" by (rule Cons.IH)
    moreover have "tier_rank ?h = (if tier_rank (te_tier e) > tier_rank highest then tier_rank (te_tier e) else tier_rank highest)"
      by simp
    ultimately show ?thesis unfolding step S by (simp only: Max_insert_greater [OF fin] simp_thms)
  qed
qed simp

lemma max_risk_from_max:
  "max_risk_from c m names =
     Max (insert m {rk_score (te_risk e) | n e. n \<in> set names \<and> catalog_lookup c n = Some e})"
proof (induction names arbitrary: m)
  case (Cons name names)
  have fin: "finite {rk_score (te_risk e) | n e. n \<in> set ns \<and> catalog_lookup c n = Some e}" for ns
  proof -
    have "{rk_score (te_risk e) | n e. n \<in> set ns \<and> catalog_lookup c n = Some e}
        \<subseteq> (\<lambda>n. rk_score (te_risk (the (catalog_lookup c n)))) ` set ns" by force
    then show ?thesis by (rule finite_subset) simp
  qed
  show ?case
  proof (cases "catalog_lookup c name")
    case None
    then have "{rk_score (te_risk e) | n e. n \<in> set (name # names) \<and> catalog_lookup c n = Some e}
        = {rk_score (te_risk e) | n e. n \<in> set names \<and> catalog_lookup c n = Some e}" by auto
    with None Cons show ?thesis by simp
  next
    case (Some e)
    let ?S = "{rk_score (te_risk e) | n e. n \<in> set names \<and> catalog_lookup c n = Some e}"
    have S: "{rk_score (te_risk e) | n e. n \<in> set (name # names) \<and> catalog_lookup c n = Some e}
        = insert (rk_score (te_risk e)) ?S" using Some by auto
    have "max_risk_from c m (name # names) = Max (insert (if rk_score (te_risk e) > m then rk_score (te_risk e) else m) ?S)"
      using Some by (simp add: Cons.IH del: insert_iff)
    then show ?thesis unfolding S by (simp only: Max_insert_greater [OF fin])
  qed
qed simp

end
