(* ===== verification/Manifest.thy ===== *)
theory Manifest
  imports Catalog Go_Json_Text
begin

section \<open>pkg/manifest: the agent manifest and what is generated from it\<close>

text \<open>
  The manifest types (types.go), parsing and validation (parse.go), the compatibility check
  (check.go), tools.json (toolsjson.go), the Containerfile (containerfile.go) and the agent
  configuration (agentconfig.go). YAML decoding is an argument, as in \<open>Catalog\<close>. The templates
  are of package text/template; each is written out as the text it produces, with its conditions.
\<close>

subsection \<open>Types\<close>

record base_image =
  bi_image :: string
  bi_go_builder :: string
  bi_tool_builder :: string

record prompt_source =
  ps_git :: string
  ps_path :: string
  ps_ref :: string

record prompt_config =
  pc_text :: string
  pc_source :: "prompt_source option"

record skill_ref =
  sr_name :: string
  sr_image :: string

record runtime_config =
  rt_allowed :: "string list"
  rt_exec_timeout :: int
  rt_exec_max_output :: int
  rt_allowed_hosts :: "string list"
  rt_max_iterations :: int
  rt_skills_dir :: string

record secret_decl =
  sd_name :: string
  sd_description :: string
  sd_required :: bool

record resource_values =
  rv_cpu :: string
  rv_memory :: string

record deploy_config =
  dc_image :: string
  dc_service_account :: string
  dc_replicas :: int
  dc_requests :: resource_values
  dc_limits :: resource_values

record agent_manifest =
  am_api_version :: string
  am_kind :: string
  am_name :: string
  am_version :: string
  am_base :: base_image
  am_tools :: "string list"
  am_prompt :: prompt_config
  am_skills :: "skill_ref list"
  am_runtime :: runtime_config
  am_secrets :: "secret_decl list"
  am_deploy :: deploy_config

subsection \<open>Parsing and validation\<close>

definition validate_manifest :: "agent_manifest \<Rightarrow> string option" where
  "validate_manifest m =
     (if am_name m = [] then Some ''metadata.name is required''
      else if bi_image (am_base m) = [] then Some ''spec.base.image is required''
      else if pc_text (am_prompt m) = [] \<and> pc_source (am_prompt m) = None
        then Some ''spec.prompt.text or spec.prompt.source is required''
      else if pc_text (am_prompt m) \<noteq> [] \<and> pc_source (am_prompt m) \<noteq> None
        then Some ''spec.prompt.text and spec.prompt.source are mutually exclusive''
      else None)"

definition manifest_parse :: "(string \<Rightarrow> string + agent_manifest) \<Rightarrow> string \<Rightarrow> string + agent_manifest" where
  "manifest_parse decode data =
     (case decode data of
        Inl e \<Rightarrow> Inl (''parse manifest: '' @ e)
      | Inr m \<Rightarrow> (case validate_manifest m of Some e \<Rightarrow> Inl e | None \<Rightarrow> Inr m))"

definition manifest_parse_file :: "(string \<Rightarrow> string + agent_manifest) \<Rightarrow> fs \<Rightarrow> string \<Rightarrow> string + agent_manifest" where
  "manifest_parse_file decode F path =
     (case os_read_file F path of
        Inl e \<Rightarrow> Inl (''read manifest '' @ path @ '': '' @ path_error_text e)
      | Inr data \<Rightarrow> manifest_parse decode data)"

subsection \<open>Compatibility of skills\<close>

record skill_check =
  sc_name :: string
  sc_required :: "string list"
  sc_optional :: "string list"
  sc_has_skill_yaml :: bool

record check_result =
  ck_skill_name :: string
  ck_satisfied :: bool
  ck_unknown :: bool
  ck_missing_required :: "string list"
  ck_missing_optional :: "string list"

definition check_skill :: "string set \<Rightarrow> skill_check \<Rightarrow> check_result" where
  "check_skill installed s =
     (if \<not> sc_has_skill_yaml s
      then \<lparr>ck_skill_name = sc_name s, ck_satisfied = True, ck_unknown = True, ck_missing_required = [],
        ck_missing_optional = []\<rparr>
      else
        (let missing = filter (\<lambda>t. t \<notin> installed) (sc_required s) in
         \<lparr>ck_skill_name = sc_name s, ck_satisfied = (missing = []), ck_unknown = False,
          ck_missing_required = missing, ck_missing_optional = filter (\<lambda>t. t \<notin> installed) (sc_optional s)\<rparr>))"

definition check_compatibility :: "string list \<Rightarrow> skill_check list \<Rightarrow> tool_catalog \<Rightarrow> check_result list" where
  "check_compatibility manifest_tools skills cat =
     map (check_skill (set manifest_tools \<union> set (core_tools cat))) skills"

subsection \<open>The tools of an image\<close>

text \<open>The loop of \<open>MergeWithCore\<close> with its set of names seen.\<close>

fun merge_names :: "string set \<Rightarrow> string list \<Rightarrow> string list \<Rightarrow> string set \<times> string list" where
  "merge_names seen merged [] = (seen, merged)"
| "merge_names seen merged (n # ns) =
     (if n \<in> seen then merge_names seen merged ns else merge_names (insert n seen) (merged @ [n]) ns)"

definition merge_with_core :: "string list \<Rightarrow> tool_catalog \<Rightarrow> string list" where
  "merge_with_core tools cat =
     (let (seen, merged) = merge_names {} [] (core_tools cat) in snd (merge_names seen merged tools))"

definition image_tools :: "agent_manifest \<Rightarrow> tool_catalog \<Rightarrow> string list" where
  "image_tools m cat = sort (merge_with_core (am_tools m) cat)"

text \<open>\<open>json.MarshalIndent\<close> with two spaces.\<close>

definition spaces :: "nat \<Rightarrow> string" where "spaces n = replicate n (CHR 0x20)"

fun json_pretty :: "nat \<Rightarrow> json \<Rightarrow> string" where
  "json_pretty d (JArr xs) =
     (if xs = [] then ''[]''
      else ''['' @ nl @ str_join ('','' @ nl) (map (\<lambda>x. spaces (2 * (d + 1)) @ json_pretty (d + 1) x) xs)
        @ nl @ spaces (2 * d) @ '']'')"
| "json_pretty d (JObj kvs) =
     (if kvs = [] then ''{}''
      else ''{'' @ nl @ str_join ('','' @ nl)
        (map (\<lambda>(k, v). spaces (2 * (d + 1)) @ json_quote k @ '': '' @ json_pretty (d + 1) v) kvs)
        @ nl @ spaces (2 * d) @ ''}'')"
| "json_pretty d v = json_lit (\<lambda>_. []) v"

definition tool_json :: "string \<Rightarrow> tool_entry \<Rightarrow> json" where
  "tool_json name e =
     JObj [(''name'', JStr name),
       (''package'', JStr (case map_of (te_package e) ''dnf'' of Some p \<Rightarrow> p | None \<Rightarrow> [])),
       (''tier'', JStr (te_tier e)),
       (''risk'', JObj [(''score'', JNum (of_int (rk_score (te_risk e)))),
          (''codeExecution'', JBool (rf_code_execution (rk_factors (te_risk e)))),
          (''networkCapable'', JBool (rf_network_capable (rk_factors (te_risk e))))])]"

fun known_tools :: "tool_catalog \<Rightarrow> string list \<Rightarrow> (string \<times> tool_entry) list" where
  "known_tools cat [] = []"
| "known_tools cat (n # ns) =
     (case catalog_lookup cat n of Some e \<Rightarrow> (n, e) # known_tools cat ns | None \<Rightarrow> known_tools cat ns)"

text \<open>A nil slice is written as null.\<close>

definition tools_json_value :: "agent_manifest \<Rightarrow> tool_catalog \<Rightarrow> json" where
  "tools_json_value m cat =
     (let all_tools = image_tools m cat; entries = known_tools cat all_tools in
      JObj [(''manifestVersion'', JStr (am_version m)), (''agentName'', JStr (am_name m)),
        (''base'', JStr (bi_image (am_base m))), (''highestTier'', JStr (highest_tier cat all_tools)),
        (''riskScore'', JNum (of_int (max_risk_score cat all_tools))),
        (''tools'', if entries = [] then JNull else JArr (map (\<lambda>(n, e). tool_json n e) entries))])"

definition generate_tools_json :: "agent_manifest \<Rightarrow> tool_catalog \<Rightarrow> string" where
  "generate_tools_json m cat = json_pretty 0 (tools_json_value m cat) @ nl"

subsection \<open>The Containerfile\<close>

definition unlines :: "string list \<Rightarrow> string" where
  "unlines ls = concat (map (\<lambda>l. l @ nl) ls)"

definition quote_value :: "string \<Rightarrow> string" where
  "quote_value s = [CHR 0x22] @ s @ [CHR 0x22]"

definition backslash :: string where "backslash = [CHR 0x5C]"

definition tool_builder_lines :: "string \<Rightarrow> string list \<Rightarrow> string list" where
  "tool_builder_lines builder pkgs =
     [''# Adding tools to the minimal hardened image expands its attack surface.'',
      ''# Only add what is strictly necessary for runtime operation.'',
      ''# Review each addition with your security team.'',
      ''RUN --mount=type=bind,from='' @ builder @ '',target=/builder '' @ backslash,
      ''    LD_LIBRARY_PATH=/builder/lib64:/builder/usr/lib64 '' @ backslash,
      ''    RPM_CONFIGDIR=/builder/usr/lib/rpm '' @ backslash,
      ''    /builder/usr/bin/dnf install -y '' @ backslash,
      ''    --installroot=/ '' @ backslash,
      ''    --setopt=reposdir=/builder/etc/yum.repos.d '' @ backslash,
      ''    --setopt=install_weak_deps=False '' @ backslash,
      ''    --setopt=tsflags=nodocs '' @ backslash,
      ''    '' @ str_join '' '' pkgs]"

definition containerfile_lines :: "agent_manifest \<Rightarrow> tool_catalog \<Rightarrow> string list" where
  "containerfile_lines m cat =
     (let all_tools = image_tools m cat;
          pkgs = sort (package_names cat all_tools ''dnf'');
          go_builder = (if bi_go_builder (am_base m) = [] then ''registry.access.redhat.com/hi/go:latest''
            else bi_go_builder (am_base m)) in
      [''FROM '' @ go_builder @ '' AS builder'', [], ''WORKDIR /app'', [], ''COPY go.mod go.sum ./'',
       ''RUN go mod download'', [], ''COPY . .'',
       ''RUN CGO_ENABLED=0 GOOS=linux go build -o /docsclaw ./cmd/docsclaw'', [],
       ''FROM '' @ bi_image (am_base m), [],
       ''LABEL io.docsclaw.tools/installed='' @ quote_value (str_join '','' all_tools),
       ''LABEL io.docsclaw.tools/tier='' @ quote_value (highest_tier cat all_tools),
       ''LABEL io.docsclaw.tools/risk-score='' @ quote_value (itoa (max_risk_score cat all_tools)),
       ''LABEL io.docsclaw.tools/agent-name='' @ quote_value (am_name m), [],
       ''USER root'']
      @ (if bi_tool_builder (am_base m) \<noteq> [] then tool_builder_lines (bi_tool_builder (am_base m)) pkgs else [])
      @ [''RUN mkdir -p /etc/docsclaw'', ''USER 65532'', [], ''WORKDIR /app'',
         ''COPY --from=builder /docsclaw /app/docsclaw'', ''COPY tools.json /etc/docsclaw/tools.json'', [],
         ''EXPOSE 8000'', [], ''ENTRYPOINT ['' @ quote_value ''/app/docsclaw'' @ '']'',
         ''CMD ['' @ quote_value ''serve'' @ '']''])"

definition generate_containerfile :: "agent_manifest \<Rightarrow> tool_catalog \<Rightarrow> string" where
  "generate_containerfile m cat = unlines (containerfile_lines m cat)"

subsection \<open>The agent configuration\<close>

definition agent_config_lines :: "agent_manifest \<Rightarrow> string list" where
  "agent_config_lines m =
     (let r = am_runtime m in
      (if rt_skills_dir r \<noteq> [] then [''skills_dir: '' @ rt_skills_dir r] else [])
      @ [''tools:'']
      @ (if length (rt_allowed r) > 0 then ''  allowed:'' # map (\<lambda>t. ''    - '' @ t) (rt_allowed r) else [])
      @ (if rt_exec_timeout r > 0 \<or> rt_exec_max_output r > 0
         then ''  exec:'' #
           (if rt_exec_timeout r > 0 then [''    timeout: '' @ itoa (rt_exec_timeout r)] else [])
           @ (if rt_exec_max_output r > 0 then [''    maxOutput: '' @ itoa (rt_exec_max_output r)] else [])
         else [])
      @ (if length (rt_allowed_hosts r) > 0
         then [''  webFetch:'', ''    allowedHosts:''] @ map (\<lambda>h. ''      - '' @ h) (rt_allowed_hosts r) else [])
      @ (if rt_max_iterations r > 0 then [''loop:'', ''  maxIterations: '' @ itoa (rt_max_iterations r)] else []))"

definition build_agent_config_yaml :: "agent_manifest \<Rightarrow> string" where
  "build_agent_config_yaml m = unlines (agent_config_lines m)"

definition has_runtime_config :: "agent_manifest \<Rightarrow> bool" where
  "has_runtime_config m \<longleftrightarrow>
     (let r = am_runtime m in
      length (rt_allowed r) > 0 \<or> rt_exec_timeout r > 0 \<or> rt_exec_max_output r > 0 \<or>
      length (rt_allowed_hosts r) > 0 \<or> rt_max_iterations r > 0 \<or> rt_skills_dir r \<noteq> [])"


subsection \<open>What goes into an image\<close>

lemma merge_names_spec:
  "seen = set merged \<Longrightarrow> distinct merged \<Longrightarrow> merge_names seen merged ns = (s', m') \<Longrightarrow>
   s' = set m' \<and> distinct m' \<and> set m' = set merged \<union> set ns"
proof (induction ns arbitrary: seen merged)
  case (Cons n ns)
  show ?case
  proof (cases "n \<in> seen")
    case True
    then have "merge_names seen merged ns = (s', m')" using Cons.prems(3) by simp
    from Cons.IH [OF Cons.prems(1,2) this] True Cons.prems(1) show ?thesis by auto
  next
    case False
    then have e: "merge_names (insert n seen) (merged @ [n]) ns = (s', m')" using Cons.prems(3) by simp
    have "insert n seen = set (merged @ [n])" "distinct (merged @ [n])" using Cons.prems(1,2) False by auto
    from Cons.IH [OF this e] show ?thesis by auto
  qed
qed auto

lemma merge_with_core_spec:
  "distinct (merge_with_core tools cat)" "set (merge_with_core tools cat) = set (core_tools cat) \<union> set tools"
proof -
  obtain s m where c: "merge_names {} [] (core_tools cat) = (s, m)" by fastforce
  have sm: "s = set m \<and> distinct m \<and> set m = set (core_tools cat)"
    using merge_names_spec [OF _ _ c] by simp
  obtain s' m' where t: "merge_names s m tools = (s', m')" by fastforce
  have "distinct m' \<and> set m' = set (core_tools cat) \<union> set tools"
    using merge_names_spec [OF _ _ t] sm by auto
  then show "distinct (merge_with_core tools cat)" "set (merge_with_core tools cat) = set (core_tools cat) \<union> set tools"
    by (simp_all add: merge_with_core_def c t)
qed

lemma image_tools_spec:
  "sorted (image_tools m cat)" "distinct (image_tools m cat)"
  "set (image_tools m cat) = set (core_tools cat) \<union> set (am_tools m)"
  by (simp_all add: image_tools_def merge_with_core_spec)

lemma finite_entries: "finite {f e | n e. n \<in> set ns \<and> catalog_lookup c n = Some e}"
proof -
  have "{f e | n e. n \<in> set ns \<and> catalog_lookup c n = Some e} \<subseteq> (\<lambda>n. f (the (catalog_lookup c n))) ` set ns" by force
  then show ?thesis by (rule finite_subset) simp
qed

lemma max_risk_ge:
  assumes "n \<in> set ns" "catalog_lookup c n = Some e"
  shows "rk_score (te_risk e) \<le> max_risk_score c ns"
  unfolding max_risk_score_def max_risk_from_max
  using assms finite_entries [of "\<lambda>e. rk_score (te_risk e)" ns c] by (intro Max_ge) auto

lemma highest_tier_ge:
  assumes "n \<in> set ns" "catalog_lookup c n = Some e"
  shows "tier_rank (te_tier e) \<le> tier_rank (highest_tier c ns)"
proof -
  have "tier_order ''core'' \<noteq> None" by (simp add: tier_order_def)
  then have "tier_rank (highest_tier c ns) =
      Max (insert (tier_rank ''core'') {tier_rank (te_tier e) | n e. n \<in> set ns \<and> catalog_lookup c n = Some e})"
    unfolding highest_tier_def by (rule highest_tier_from_rank [THEN conjunct2])
  then show ?thesis
    using assms finite_entries [of "\<lambda>e. tier_rank (te_tier e)" ns c] by (auto intro!: Max_ge)
qed

lemma known_tools_names: "known_tools cat ns = map (\<lambda>n. (n, the (catalog_lookup cat n))) (filter (\<lambda>n. catalog_lookup cat n \<noteq> None) ns)"
  by (induction ns) (auto split: option.splits)

text \<open>
  C20. The labels of an image do not understate it: the installed tools are the core tools and the
  requested ones, sorted and each once; no tool of the image has a higher risk score or tier than
  the labels of the Containerfile say; tools.json states the same tier and score, and lists exactly
  the installed tools that the catalog knows.
\<close>

theorem image_labels_sound:
  assumes "catalog_wf cat"
  shows "\<exists>tools risk tier.
     sorted tools \<and> distinct tools
     \<and> set tools = set (am_tools m) \<union> {n. \<exists>e. catalog_lookup cat n = Some e \<and> te_tier e = ''core''}
     \<and> (\<forall>n e. n \<in> set tools \<and> catalog_lookup cat n = Some e \<longrightarrow>
          rk_score (te_risk e) \<le> risk \<and> tier_rank (te_tier e) \<le> tier_rank tier)
     \<and> (''LABEL io.docsclaw.tools/installed='' @ quote_value (str_join '','' tools)) \<in> set (containerfile_lines m cat)
     \<and> (''LABEL io.docsclaw.tools/tier='' @ quote_value tier) \<in> set (containerfile_lines m cat)
     \<and> (''LABEL io.docsclaw.tools/risk-score='' @ quote_value (itoa risk)) \<in> set (containerfile_lines m cat)
     \<and> (\<exists>kvs. tools_json_value m cat = JObj kvs \<and> get_str ''highestTier'' kvs = Some tier
          \<and> get_num ''riskScore'' kvs = Some (of_int risk)
          \<and> map_of kvs ''tools'' = Some (let known = filter (\<lambda>n. catalog_lookup cat n \<noteq> None) tools in
               if known = [] then JNull else JArr (map (\<lambda>n. tool_json n (the (catalog_lookup cat n))) known)))"
proof -
  let ?ts = "image_tools m cat"
  have known: "known_tools cat ?ts = map (\<lambda>n. (n, the (catalog_lookup cat n))) (filter (\<lambda>n. catalog_lookup cat n \<noteq> None) ?ts)"
    by (rule known_tools_names)
  have json: "\<exists>kvs. tools_json_value m cat = JObj kvs \<and> get_str ''highestTier'' kvs = Some (highest_tier cat ?ts)
          \<and> get_num ''riskScore'' kvs = Some (of_int (max_risk_score cat ?ts))
          \<and> map_of kvs ''tools'' = Some (let known = filter (\<lambda>n. catalog_lookup cat n \<noteq> None) ?ts in
               if known = [] then JNull else JArr (map (\<lambda>n. tool_json n (the (catalog_lookup cat n))) known))"
    by (simp add: tools_json_value_def known Let_def get_str_def get_num_def comp_def)
  have le: "\<forall>n e. n \<in> set ?ts \<and> catalog_lookup cat n = Some e \<longrightarrow>
      rk_score (te_risk e) \<le> max_risk_score cat ?ts \<and> tier_rank (te_tier e) \<le> tier_rank (highest_tier cat ?ts)"
    using max_risk_ge highest_tier_ge by blast
  have tools: "set ?ts = set (am_tools m) \<union> {n. \<exists>e. catalog_lookup cat n = Some e \<and> te_tier e = ''core''}"
    unfolding image_tools_spec(3) core_tools_set [OF assms] by (rule Un_commute)
  have labels: "(''LABEL io.docsclaw.tools/installed='' @ quote_value (str_join '','' ?ts)) \<in> set (containerfile_lines m cat)"
    "(''LABEL io.docsclaw.tools/tier='' @ quote_value (highest_tier cat ?ts)) \<in> set (containerfile_lines m cat)"
    "(''LABEL io.docsclaw.tools/risk-score='' @ quote_value (itoa (max_risk_score cat ?ts))) \<in> set (containerfile_lines m cat)"
    by (simp_all add: containerfile_lines_def Let_def)
  show ?thesis
    by (intro exI [of _ ?ts] exI [of _ "max_risk_score cat ?ts"] exI [of _ "highest_tier cat ?ts"] conjI
        image_tools_spec(1,2) tools le labels json)
qed

definition demo_entry :: "string \<Rightarrow> int \<Rightarrow> tool_entry" where
  "demo_entry tier risk = \<lparr>te_tier = tier, te_package = [(''dnf'', ''pkg'')], te_size = [], te_description = [],
     te_risk = \<lparr>rk_score = risk, rk_factors = \<lparr>rf_code_execution = False, rf_network_capable = True,
       rf_dependencies = 2, rf_cve_history = ''low''\<rparr>, rk_rationale = []\<rparr>\<rparr>"

definition demo_catalog :: tool_catalog where
  "demo_catalog = \<lparr>cat_api_version = [], cat_kind = ''ToolCatalog'', cat_name = ''d'', cat_version = ''1'', cat_tiers = [],
     cat_tools = [(''python3'', demo_entry ''runtime'' 7), (''curl'', demo_entry ''core'' 2)]\<rparr>"

definition demo_manifest :: agent_manifest where
  "demo_manifest = \<lparr>am_api_version = [], am_kind = ''AgentManifest'', am_name = ''hr'', am_version = ''1'',
     am_base = \<lparr>bi_image = ''base'', bi_go_builder = [], bi_tool_builder = []\<rparr>, am_tools = [''python3''],
     am_prompt = \<lparr>pc_text = ''You are'' @ nl @ nl @ '' terse.'' @ nl @ nl, pc_source = None\<rparr>, am_skills = [],
     am_runtime = \<lparr>rt_allowed = [''exec''], rt_exec_timeout = 0, rt_exec_max_output = 0, rt_allowed_hosts = [''h''],
       rt_max_iterations = 5, rt_skills_dir = []\<rparr>,
     am_secrets = [\<lparr>sd_name = ''KEY'', sd_description = [], sd_required = True\<rparr>],
     am_deploy = \<lparr>dc_image = [], dc_service_account = [], dc_replicas = 0,
       dc_requests = \<lparr>rv_cpu = ''1'', rv_memory = []\<rparr>, dc_limits = \<lparr>rv_cpu = [], rv_memory = []\<rparr>\<rparr>\<rparr>"

theorem image_labels_sound_witness:
  "image_tools demo_manifest demo_catalog = [''curl'', ''python3''] \<and> max_risk_score demo_catalog [''curl'', ''python3''] = 7
   \<and> (\<exists>tools risk tier. (''LABEL io.docsclaw.tools/risk-score='' @ quote_value (itoa risk)) \<in> set (containerfile_lines demo_manifest demo_catalog)
       \<and> set tools = {''python3''} \<union> {n. \<exists>e. catalog_lookup demo_catalog n = Some e \<and> te_tier e = ''core''})"
proof -
  have wf: "catalog_wf demo_catalog" by (simp add: catalog_wf_def demo_catalog_def)
  have "am_tools demo_manifest = [''python3'']" by (simp add: demo_manifest_def)
  moreover have "image_tools demo_manifest demo_catalog = [''curl'', ''python3'']"
    "max_risk_score demo_catalog [''curl'', ''python3''] = 7" by code_simp+
  ultimately show ?thesis using image_labels_sound [OF wf, of demo_manifest] by auto
qed

end
