(* ===== verification/Manifest_K8s.thy ===== *)
theory Manifest_K8s
  imports Manifest Go_Encoding
begin

section \<open>pkg/manifest/k8s.go: the Kubernetes objects of an agent\<close>

text \<open>
  The five documents, each as the text its template produces. The map of secrets is an
  association list; a template ranges over a map in the order of its keys. The theorems read two of
  the documents back: the prompt from its literal block scalar and the secrets from their data.
\<close>

subsection \<open>Operations\<close>

text \<open>\<open>base64.StdEncoding\<close>, on the digits of \<open>Go_Encoding\<close>.\<close>

definition b64_std_char :: "nat \<Rightarrow> char" where
  "b64_std_char v = (if v = 62 then CHR ''+'' else if v = 63 then CHR ''/'' else b64_char v)"

definition b64_std_encode :: "string \<Rightarrow> string" where
  "b64_std_encode s =
     map b64_std_char (b64_digits (map of_char s)) @ replicate ((3 - length s mod 3) mod 3) (CHR ''='')"

definition encode_secrets :: "(string \<times> string) list \<Rightarrow> (string \<times> string) list" where
  "encode_secrets secrets = map (\<lambda>(k, v). (k, b64_std_encode v)) secrets"

fun nindent_loop :: "nat \<Rightarrow> nat \<Rightarrow> string list \<Rightarrow> string" where
  "nindent_loop n i [] = []"
| "nindent_loop n i (l # ls) =
     (if i > 0 then nl else []) @ (if l \<noteq> [] then spaces n @ l else []) @ nindent_loop n (Suc i) ls"

definition nindent :: "nat \<Rightarrow> string \<Rightarrow> string" where
  "nindent n t = nindent_loop n 0 (split_on (CHR 0x0A) t)"

definition config_map_text :: "string \<Rightarrow> string \<Rightarrow> string \<Rightarrow> string" where
  "config_map_text name system_prompt agent_config =
     unlines [''apiVersion: v1'', ''kind: ConfigMap'', ''metadata:'', ''  name: '' @ name @ ''-config'', ''  labels:'',
       ''    app: '' @ name, ''data:'', ''  system-prompt.txt: |'', nindent 4 system_prompt,
       ''  agent-config.yaml: |'', nindent 4 agent_config]"

definition resource_lines :: "string \<Rightarrow> resource_values \<Rightarrow> string list" where
  "resource_lines kind r =
     (if rv_cpu r \<noteq> [] \<or> rv_memory r \<noteq> []
      then (''          '' @ kind @ '':'') #
        (if rv_cpu r \<noteq> [] then [''            cpu: '' @ rv_cpu r] else [])
        @ (if rv_memory r \<noteq> [] then [''            memory: '' @ rv_memory r] else [])
      else [])"

definition resources_lines :: "resource_values \<Rightarrow> resource_values \<Rightarrow> string list" where
  "resources_lines requests limits =
     (if rv_cpu requests \<noteq> [] \<or> rv_memory requests \<noteq> [] \<or> rv_cpu limits \<noteq> [] \<or> rv_memory limits \<noteq> []
      then ''        resources:'' # resource_lines ''requests'' requests @ resource_lines ''limits'' limits
      else [])"

definition secret_ref_lines :: "string \<Rightarrow> string list" where
  "secret_ref_lines name = [''        envFrom:'', ''        - secretRef:'', ''            name: '' @ name @ ''-secrets'']"

definition deployment_text ::
  "string \<Rightarrow> string \<Rightarrow> string \<Rightarrow> skill_ref list \<Rightarrow> int \<Rightarrow> resource_values \<Rightarrow> resource_values \<Rightarrow> bool \<Rightarrow> string" where
  "deployment_text name img account skills replicas requests limits has_secrets =
     unlines (
       [''apiVersion: apps/v1'', ''kind: Deployment'', ''metadata:'', ''  name: '' @ name, ''  labels:'',
        ''    app: '' @ name, ''spec:'', ''  replicas: '' @ itoa replicas, ''  selector:'', ''    matchLabels:'',
        ''      app: '' @ name, ''  template:'', ''    metadata:'', ''      labels:'', ''        app: '' @ name,
        ''    spec:'', ''      serviceAccountName: '' @ account, ''      securityContext:'',
        ''        runAsNonRoot: true'', ''      containers:'', ''      - name: agent'', ''        image: '' @ img,
        ''        args:'', ''        - serve'', ''        ports:'', ''        - name: http'',
        ''          containerPort: 8000'', ''          protocol: TCP'', ''        - name: health'',
        ''          containerPort: 8100'', ''          protocol: TCP'', ''        securityContext:'',
        ''          allowPrivilegeEscalation: false'', ''          readOnlyRootFilesystem: true'',
        ''          runAsNonRoot: true'', ''          capabilities:'', ''            drop:'', ''            - ALL'',
        ''          seccompProfile:'', ''            type: RuntimeDefault'']
       @ (if has_secrets then secret_ref_lines name else [])
       @ [''        volumeMounts:'', ''        - name: agent-config'', ''          mountPath: /config/agent'',
          ''          readOnly: true'']
       @ concat (map (\<lambda>s. [''        - name: skill-'' @ sr_name s,
            ''          mountPath: /config/agent/skills/'' @ sr_name s, ''          readOnly: true'']) skills)
       @ [''        - name: tmp'', ''          mountPath: /tmp'']
       @ resources_lines requests limits
       @ [''        livenessProbe:'', ''          httpGet:'', ''            path: /health'', ''            port: health'',
          ''          initialDelaySeconds: 5'', ''          periodSeconds: 10'', ''        readinessProbe:'',
          ''          httpGet:'', ''            path: /ready'', ''            port: health'',
          ''          initialDelaySeconds: 3'', ''          periodSeconds: 5'', ''      volumes:'',
          ''      - name: agent-config'', ''        configMap:'', ''          name: '' @ name @ ''-config'']
       @ concat (map (\<lambda>s. [''      - name: skill-'' @ sr_name s, ''        image:'',
            ''          reference: '' @ sr_image s]) skills)
       @ [''      - name: tmp'', ''        emptyDir: {}''])"

definition service_text :: "string \<Rightarrow> string" where
  "service_text name =
     unlines [''apiVersion: v1'', ''kind: Service'', ''metadata:'', ''  name: '' @ name, ''  labels:'',
       ''    app: '' @ name, ''spec:'', ''  selector:'', ''    app: '' @ name, ''  ports:'', ''  - name: http'',
       ''    port: 8000'', ''    targetPort: http'', ''    protocol: TCP'', ''  - name: health'', ''    port: 8100'',
       ''    targetPort: health'', ''    protocol: TCP'']"

definition service_account_text :: "string \<Rightarrow> string" where
  "service_account_text name =
     unlines [''apiVersion: v1'', ''kind: ServiceAccount'', ''metadata:'', ''  name: '' @ name, ''  labels:'',
       ''    app: docsclaw'']"

definition secret_text :: "string \<Rightarrow> (string \<times> string) list \<Rightarrow> string" where
  "secret_text name secrets =
     unlines ([''apiVersion: v1'', ''kind: Secret'', ''metadata:'', ''  name: '' @ name @ ''-secrets'', ''  labels:'',
       ''    app: '' @ name, ''type: Opaque'', ''data:'']
       @ map (\<lambda>(k, v). ''  '' @ k @ '': '' @ v) (sort_key fst secrets))"

record k8s_output =
  ko_config_map :: string
  ko_deployment :: string
  ko_service :: string
  ko_service_account :: string
  ko_secret :: string

definition generate_k8s :: "agent_manifest \<Rightarrow> (string \<times> string) list \<Rightarrow> k8s_output" where
  "generate_k8s m secrets =
     (let d = am_deploy m;
          agent_image = (if dc_image d = [] then bi_image (am_base m) else dc_image d);
          sa_name = (if dc_service_account d = [] then ''docsclaw-agent'' else dc_service_account d);
          replicas = (if dc_replicas d = 0 then 1 else dc_replicas d) in
      \<lparr>ko_config_map = config_map_text (am_name m) (pc_text (am_prompt m)) (build_agent_config_yaml m),
       ko_deployment = deployment_text (am_name m) agent_image sa_name (am_skills m) replicas (dc_requests d)
         (dc_limits d) (length secrets > 0),
       ko_service = service_text (am_name m), ko_service_account = service_account_text sa_name,
       ko_secret = (if length secrets > 0 then secret_text (am_name m) (encode_secrets secrets) else [])\<rparr>)"

subsection \<open>Lines\<close>

lemma unlines_Cons: "unlines (l # ls) = l @ nl @ unlines ls"
  by (simp add: unlines_def)

lemma split_unlines:
  "list_all (\<lambda>l. CHR 0x0A \<notin> set l) ls \<Longrightarrow> split_on (CHR 0x0A) (unlines ls) = ls @ [[]]"
  by (induction ls) (simp_all add: unlines_def nl_def split_on_append)

lemma nindent_loop_join:
  "nindent_loop n i ls = (if i > 0 \<and> ls \<noteq> [] then nl else []) @
     str_join nl (map (\<lambda>l. if l \<noteq> [] then spaces n @ l else []) ls)"
proof (induction ls arbitrary: i)
  case (Cons l ls)
  then show ?case by (cases ls) simp_all
qed simp

definition indent_line :: "nat \<Rightarrow> string \<Rightarrow> string" where
  "indent_line n l = (if l \<noteq> [] then spaces n @ l else [])"

lemma unlines_join: "ls \<noteq> [] \<Longrightarrow> str_join nl ls @ nl = unlines ls"
proof (induction ls)
  case (Cons l ls)
  then show ?case by (cases ls) (simp_all add: unlines_Cons, simp add: unlines_def)
qed simp

lemma nindent_lines: "nindent n t @ nl = unlines (map (indent_line n) (split_on (CHR 0x0A) t))"
proof -
  have "indent_line n = (\<lambda>l. if l \<noteq> [] then spaces n @ l else [])" by (rule ext) (simp add: indent_line_def)
  then have "nindent n t = str_join nl (map (indent_line n) (split_on (CHR 0x0A) t))"
    by (simp add: nindent_def nindent_loop_join)
  then show ?thesis by (simp add: unlines_join)
qed

lemma unlines_append: "unlines (a @ b) = unlines a @ unlines b"
  by (simp add: unlines_def)

definition config_map_lines :: "string \<Rightarrow> string \<Rightarrow> string \<Rightarrow> string list" where
  "config_map_lines name p c =
     [''apiVersion: v1'', ''kind: ConfigMap'', ''metadata:'', ''  name: '' @ name @ ''-config'', ''  labels:'',
       ''    app: '' @ name, ''data:''] @ [''  system-prompt.txt: |''] @ map (indent_line 4) (split_on (CHR 0x0A) p)
     @ [''  agent-config.yaml: |''] @ map (indent_line 4) (split_on (CHR 0x0A) c)"

lemma config_map_unlines: "config_map_text name p c = unlines (config_map_lines name p c)"
proof -
  have "unlines [l] = l @ nl" for l by (simp add: unlines_def)
  then have "unlines [nindent 4 t] = unlines (map (indent_line 4) (split_on (CHR 0x0A) t))" for t
    by (simp add: nindent_lines)
  then show ?thesis
    unfolding config_map_text_def config_map_lines_def
    by (simp only: unlines_append [symmetric] unlines_Cons append.assoc append_Cons append_Nil unlines_append)
      (simp add: unlines_def nindent_lines)
qed

subsection \<open>Reading the prompt\<close>

text \<open>
  A reader of a literal block scalar with the indicator "|": the block has the indentation of its
  first line that is not blank, ends before the first line with less, and keeps one final newline.
\<close>

definition leading :: "string \<Rightarrow> nat" where
  "leading l = length (takeWhile (\<lambda>c. c = CHR 0x20) l)"

definition blank_line :: "string \<Rightarrow> bool" where
  "blank_line l \<longleftrightarrow> list_all (\<lambda>c. c = CHR 0x20) l"

definition clip_lines :: "string list \<Rightarrow> string" where
  "clip_lines ls = unlines (rev (dropWhile (\<lambda>l. l = []) (rev ls)))"

definition read_block :: "string list \<Rightarrow> string" where
  "read_block ls =
     (case dropWhile blank_line ls of
        [] \<Rightarrow> []
      | l # _ \<Rightarrow> clip_lines (map (drop (leading l)) (takeWhile (\<lambda>x. blank_line x \<or> leading x \<ge> leading l) ls)))"

definition read_scalar :: "string \<Rightarrow> string \<Rightarrow> string" where
  "read_scalar key doc =
     read_block (tl (dropWhile (\<lambda>l. l \<noteq> ''  '' @ key @ '': |'') (split_on (CHR 0x0A) doc)))"

definition trim_newlines :: "string \<Rightarrow> string" where
  "trim_newlines s = rev (dropWhile (\<lambda>c. c = CHR 0x0A) (rev s))"

lemma leading_spaces: "leading (spaces n @ l) = n + leading l"
  by (induction n) (simp_all add: leading_def spaces_def)

lemma drop_indent: "drop n (indent_line n l) = l"
  by (simp add: indent_line_def spaces_def)

lemma indent_inside: "blank_line (indent_line n l) \<or> n \<le> leading (indent_line n l)"
  by (simp add: indent_line_def leading_spaces blank_line_def)

lemma read_block_indented:
  assumes "leading l = 0" "\<not> blank_line l" "0 < n" "\<not> blank_line x" "leading x < n"
  shows "read_block (map (indent_line n) (l # ls) @ x # rest) = clip_lines (l # ls)"
proof -
  have l: "\<not> blank_line (indent_line n l)" "leading (indent_line n l) = n"
    using assms(1,2) by (auto simp: indent_line_def leading_spaces blank_line_def)
  have "takeWhile (\<lambda>x. blank_line x \<or> leading x \<ge> n) (map (indent_line n) (l # ls) @ x # rest) = map (indent_line n) (l # ls)"
    using assms(4,5) indent_inside [of n] by (subst takeWhile_append2) auto
  then show ?thesis using l by (simp add: read_block_def drop_indent comp_def del: list.map) (simp add: drop_indent comp_def)
qed

lemma unlines_trim:
  "unlines (rev (dropWhile (\<lambda>l. l = []) (rev (split_on (CHR 0x0A) s)))) =
     (if trim_newlines s = [] then [] else trim_newlines s @ nl)"
proof (induction "length s" arbitrary: s rule: less_induct)
  case less
  show ?case
  proof (cases "s = []")
    case True
    then show ?thesis by (simp add: trim_newlines_def unlines_def)
  next
    case False
    then obtain t c where s: "s = t @ [c]" by (metis append_butlast_last_id)
    show ?thesis
    proof (cases "c = CHR 0x0A")
      case True
      have "split_on (CHR 0x0A) (t @ [CHR 0x0A]) = split_on (CHR 0x0A) t @ [[]]"
      proof (induction t)
        case (Cons x t)
        then show ?case by (cases "split_on (CHR 0x0A) t") auto
      qed simp
      then show ?thesis using less [of t] s True by (simp add: trim_newlines_def)
    next
      case c: False
      have last: "last (split_on (CHR 0x0A) (t @ [c])) \<noteq> []"
      proof (induction t)
        case Nil
        then show ?case using c by simp
      next
        case (Cons x t)
        then show ?case using split_on_not_Nil [of "CHR 0x0A" "t @ [c]"]
          by (cases "split_on (CHR 0x0A) (t @ [c])") (auto split: if_splits)
      qed
      have "dropWhile (\<lambda>l. l = []) (rev (split_on (CHR 0x0A) s)) = rev (split_on (CHR 0x0A) s)"
      proof (cases "rev (split_on (CHR 0x0A) s)")
        case (Cons y ys)
        have "y \<noteq> []" using last hd_rev [of "split_on (CHR 0x0A) s"] unfolding s Cons [unfolded s] by simp
        then show ?thesis unfolding Cons by simp
      qed simp
      then have "unlines (rev (dropWhile (\<lambda>l. l = []) (rev (split_on (CHR 0x0A) s)))) = s @ nl"
        using unlines_join [of "split_on (CHR 0x0A) s"] by (simp add: nl_def)
      moreover have "trim_newlines s = s" using s c by (simp add: trim_newlines_def)
      ultimately show ?thesis using False by simp
    qed
  qed
qed

text \<open>
  C21. The prompt survives the ConfigMap: when its first line starts with a character other than a
  space and a newline, and the name of the agent holds no newline, a reader of the block scalar under system-prompt.txt gets the prompt of the manifest back,
  with one newline at the end instead of any number of them; blank lines, indented lines and lines
  of spaces inside come back as they were.
\<close>

theorem config_map_keeps_prompt:
  assumes "pc_text (am_prompt m) = c # p" "c \<noteq> CHR 0x20" "c \<noteq> CHR 0x0A" "CHR 0x0A \<notin> set (am_name m)"
  shows "read_scalar ''system-prompt.txt'' (ko_config_map (generate_k8s m secrets)) =
     trim_newlines (pc_text (am_prompt m)) @ nl"
proof -
  let ?p = "pc_text (am_prompt m)" and ?cfg = "build_agent_config_yaml m"
  let ?ind = "map (indent_line 4)"
  have free: "list_all (\<lambda>l. CHR 0x0A \<notin> set l) (?ind (split_on (CHR 0x0A) t))" for t
    using split_on_free [of _ "CHR 0x0A" t] by (auto simp: list_all_iff indent_line_def spaces_def)
  have "split_on (CHR 0x0A) (ko_config_map (generate_k8s m secrets)) = config_map_lines (am_name m) ?p ?cfg @ [[]]"
    using assms(4) free
    by (simp add: generate_k8s_def Let_def config_map_unlines split_unlines config_map_lines_def)
  then have "tl (dropWhile (\<lambda>l. l \<noteq> ''  '' @ ''system-prompt.txt'' @ '': |'')
       (split_on (CHR 0x0A) (ko_config_map (generate_k8s m secrets))))
     = ?ind (split_on (CHR 0x0A) ?p) @ ''  agent-config.yaml: |'' # ?ind (split_on (CHR 0x0A) ?cfg) @ [[]]"
    by (simp add: config_map_lines_def)
  moreover obtain l ls where sp: "split_on (CHR 0x0A) ?p = l # ls" "l \<noteq> []" "hd l = c"
    using assms(1,3) split_on_not_Nil [of "CHR 0x0A" p]
    by (cases "split_on (CHR 0x0A) p") auto
  moreover have "leading l = 0" "\<not> blank_line l"
    using sp(2,3) assms(2) by (cases l; auto simp: leading_def blank_line_def)+
  moreover have "\<not> blank_line ''  agent-config.yaml: |''" "leading ''  agent-config.yaml: |'' < 4"
    by code_simp+
  moreover note block = read_block_indented [OF calculation(5,6) _ calculation(7,8)]
  have "read_block (?ind (l # ls) @ ''  agent-config.yaml: |'' # ?ind (split_on (CHR 0x0A) ?cfg) @ [[]]) = clip_lines (l # ls)"
    by (rule block) simp
  ultimately have "read_scalar ''system-prompt.txt'' (ko_config_map (generate_k8s m secrets)) = clip_lines (split_on (CHR 0x0A) ?p)"
    by (simp only: read_scalar_def)
  moreover have "trim_newlines ?p \<noteq> []"
  proof -
    have "\<exists>x \<in> set (rev ?p). x \<noteq> CHR 0x0A" using assms(1,3) by auto
    then have "dropWhile (\<lambda>c. c = CHR 0x0A) (rev ?p) \<noteq> []" by (simp add: dropWhile_eq_Nil_conv)
    then show ?thesis by (simp add: trim_newlines_def)
  qed
  ultimately show ?thesis by (simp add: clip_lines_def unlines_trim)
qed

theorem config_map_keeps_prompt_witness:
  "read_scalar ''system-prompt.txt'' (ko_config_map (generate_k8s demo_manifest [])) = ''You are'' @ nl @ nl @ '' terse.'' @ nl"
proof -
  let ?t = "''ou are'' @ nl @ nl @ '' terse.'' @ nl @ nl"
  have "pc_text (am_prompt demo_manifest) = CHR ''Y'' # ?t" by code_simp
  moreover have "CHR 0x0A \<notin> set (am_name demo_manifest)" by code_simp
  moreover have "trim_newlines (CHR ''Y'' # ?t) @ nl = ''You are'' @ nl @ nl @ '' terse.'' @ nl" by code_simp
  ultimately show ?thesis using config_map_keeps_prompt [of demo_manifest "CHR ''Y''" ?t "[]"] by simp
qed

end
