(* ===== verification/Build_Deploy.thy ===== *)
theory Build_Deploy
  imports Manifest_K8s
begin

section \<open>internal/cmd/build.go and deploy.go: the two commands on a manifest\<close>

text \<open>
  Both commands read a manifest from the file system of \<open>Go_Fs\<close> and write what they generate to it
  or to the standard output. The decoders of YAML are arguments, and so is the embedded catalog.
  \<open>order\<close> is the order in which Go ranges over the map of the Kubernetes files.
\<close>

subsection \<open>Operations\<close>

datatype cmd_error =
    BadOnlyFlag
  | ParseManifestFailed string
  | LoadCatalogFailed string
  | LoadDefaultCatalogFailed string
  | UnknownTool string
  | RiskTooHigh int int
  | CreateDirFailed string path_error
  | WriteFailed string path_error
  | BadSecretFlag string
  | SecretNotSet string

record cmd_io =
  io_fs :: fs
  io_out :: string
  io_err :: string

record build_flags =
  bf_manifest :: string
  bf_output :: string
  bf_only :: string
  bf_dry_run :: bool
  bf_catalog :: string
  bf_max_risk :: int

definition report_text :: "agent_manifest \<Rightarrow> string list \<Rightarrow> string \<Rightarrow> int \<Rightarrow> string" where
  "report_text m tools tier risk =
     nl @ ''=== Agent Build Report ==='' @ nl @ nl
     @ ''Agent:       '' @ am_name m @ nl @ ''Version:     '' @ am_version m @ nl
     @ ''Base:        '' @ bi_image (am_base m) @ nl @ ''Tier:        '' @ tier @ nl
     @ ''Risk Score:  '' @ itoa risk @ nl @ ''Tools:       '' @ itoa (int (length tools)) @ '' total'' @ nl @ nl
     @ ''Tool Inventory:'' @ nl @ concat (map (\<lambda>n. ''  - '' @ n @ nl) tools) @ nl"

text \<open>Files written one after another, up to the first that cannot be.\<close>

fun write_files :: "(string \<times> string \<times> string) list \<Rightarrow> fs \<Rightarrow> cmd_error option \<times> fs" where
  "write_files [] F = (None, F)"
| "write_files ((name, path, content) # r) F =
     (case os_write_file F path content of
        Inl e \<Rightarrow> (Some (WriteFailed name e), F)
      | Inr F' \<Rightarrow> write_files r F')"

definition write_containerfile_outputs ::
  "string \<Rightarrow> string \<Rightarrow> string \<Rightarrow> agent_manifest \<Rightarrow> fs \<Rightarrow> cmd_error option \<times> fs" where
  "write_containerfile_outputs dir_path containerfile tools_json m F =
     (case mkdir_all F dir_path of
        (Some e, F') \<Rightarrow> (Some (CreateDirFailed ''output'' e), F')
      | (None, F') \<Rightarrow> write_files
          (map (\<lambda>(n, c). (n, path_join [dir_path, n], c))
            ([(''Containerfile'', containerfile), (''tools.json'', tools_json),
              (''system-prompt.txt'', pc_text (am_prompt m))]
             @ (if has_runtime_config m then [(''agent-config.yaml'', build_agent_config_yaml m)] else []))) F')"

definition write_k8s_outputs ::
  "((string \<times> string) list \<Rightarrow> (string \<times> string) list) \<Rightarrow> string \<Rightarrow> k8s_output \<Rightarrow> fs \<Rightarrow> cmd_error option \<times> fs" where
  "write_k8s_outputs order dir_path k F =
     (let k8s_dir = path_join [dir_path, ''k8s''] in
      case mkdir_all F k8s_dir of
        (Some e, F') \<Rightarrow> (Some (CreateDirFailed ''k8s'' e), F')
      | (None, F') \<Rightarrow> write_files
          (map (\<lambda>(n, c). (n, path_join [k8s_dir, n], c))
            (order ([(''configmap.yaml'', ko_config_map k), (''deployment.yaml'', ko_deployment k),
               (''service.yaml'', ko_service k), (''serviceaccount.yaml'', ko_service_account k)]
              @ (if ko_secret k \<noteq> [] then [(''secret.yaml'', ko_secret k)] else [])))) F')"

definition document_break :: string where "document_break = ''---'' @ nl"

definition load_catalog ::
  "(string \<Rightarrow> string + tool_catalog) \<Rightarrow> string \<Rightarrow> fs \<Rightarrow> string \<Rightarrow> cmd_error + tool_catalog" where
  "load_catalog decode embedded F path =
     (if path \<noteq> []
      then (case catalog_load_from_file decode F path of Inl e \<Rightarrow> Inl (LoadCatalogFailed e) | Inr c \<Rightarrow> Inr c)
      else (case catalog_parse decode embedded of Inl e \<Rightarrow> Inl (LoadDefaultCatalogFailed e) | Inr c \<Rightarrow> Inr c))"

text \<open>Steps 8 of \<open>runBuild\<close>: the Containerfile with its files, and then the Kubernetes objects.\<close>

definition build_containerfile ::
  "build_flags \<Rightarrow> agent_manifest \<Rightarrow> tool_catalog \<Rightarrow> cmd_io \<Rightarrow> cmd_error option \<times> cmd_io" where
  "build_containerfile f m cat io =
     (if bf_only f = ''containerfile'' \<or> bf_only f = [] then
        (let cf = generate_containerfile m cat; tj = generate_tools_json m cat in
         if bf_output f \<noteq> [] then
           (let (e, F) = write_containerfile_outputs (bf_output f) cf tj m (io_fs io) in (e, io\<lparr>io_fs := F\<rparr>))
         else if bf_only f = ''containerfile'' then (None, io\<lparr>io_out := io_out io @ cf\<rparr>)
         else (None, io))
      else (None, io))"

definition build_k8s ::
  "((string \<times> string) list \<Rightarrow> (string \<times> string) list) \<Rightarrow> build_flags \<Rightarrow> agent_manifest \<Rightarrow> cmd_io \<Rightarrow> cmd_error option \<times> cmd_io" where
  "build_k8s order f m io =
     (if bf_only f = ''k8s'' \<or> bf_only f = [] then
        (let k = generate_k8s m [] in
         if bf_output f \<noteq> [] then
           (let (e, F) = write_k8s_outputs order (bf_output f) k (io_fs io) in (e, io\<lparr>io_fs := F\<rparr>))
         else if bf_only f = ''k8s'' then
           (None, io\<lparr>io_out := io_out io @ str_join document_break
              ([ko_service_account k, ko_config_map k] @ (if ko_secret k \<noteq> [] then [ko_secret k] else [])
               @ [ko_service k, ko_deployment k])\<rparr>)
         else (None, io))
      else (None, io))"

definition check_mark :: string where "check_mark = map char_of [0xE2, 0x9C, 0x93 :: nat]"

definition run_build ::
  "(string \<Rightarrow> string + agent_manifest) \<Rightarrow> (string \<Rightarrow> string + tool_catalog) \<Rightarrow> string \<Rightarrow>
   ((string \<times> string) list \<Rightarrow> (string \<times> string) list) \<Rightarrow> build_flags \<Rightarrow> cmd_io \<Rightarrow> cmd_error option \<times> cmd_io" where
  "run_build decode decode_catalog embedded order f io =
     (if bf_only f \<noteq> [] \<and> bf_only f \<noteq> ''containerfile'' \<and> bf_only f \<noteq> ''k8s'' then (Some BadOnlyFlag, io)
      else case manifest_parse_file decode (io_fs io) (bf_manifest f) of
        Inl e \<Rightarrow> (Some (ParseManifestFailed e), io)
      | Inr m \<Rightarrow>
        (case load_catalog decode_catalog embedded (io_fs io) (bf_catalog f) of
           Inl e \<Rightarrow> (Some e, io)
         | Inr cat \<Rightarrow>
           (case catalog_validate cat (am_tools m) of
              Some name \<Rightarrow> (Some (UnknownTool name), io)
            | None \<Rightarrow>
              (let all_tools = image_tools m cat; risk = max_risk_score cat all_tools;
                   io1 = io\<lparr>io_err := io_err io @ report_text m all_tools (highest_tier cat all_tools) risk\<rparr> in
               if bf_max_risk f > 0 \<and> risk > bf_max_risk f then (Some (RiskTooHigh risk (bf_max_risk f)), io1)
               else if bf_dry_run f then (None, io1)
               else case build_containerfile f m cat io1 of
                 (Some e, io2) \<Rightarrow> (Some e, io2)
               | (None, io2) \<Rightarrow>
                 (case build_k8s order f m io2 of
                    (Some e, io3) \<Rightarrow> (Some e, io3)
                  | (None, io3) \<Rightarrow>
                      (None, if bf_output f \<noteq> [] \<and> bf_only f = []
                         then io3\<lparr>io_err := io_err io3 @ nl @ check_mark @ '' Build artifacts written to '' @ bf_output f @ nl\<rparr>
                         else io3))))))"

fun parse_secret_flags :: "string list \<Rightarrow> cmd_error + (string \<times> string) list" where
  "parse_secret_flags flags = foldl (\<lambda>r s. bind_res r (\<lambda>m.
     (case str_cut (CHR ''='') s of None \<Rightarrow> Inl (BadSecretFlag s) | Some (k, v) \<Rightarrow> Inr (map_put k v m)))) (Inr []) flags"

fun resolve_decls ::
  "(string \<Rightarrow> string) \<Rightarrow> (string \<times> string) list \<Rightarrow> (string \<times> string) list \<Rightarrow> secret_decl list \<Rightarrow>
   cmd_error + (string \<times> string) list" where
  "resolve_decls getenv overrides resolved [] = Inr resolved"
| "resolve_decls getenv overrides resolved (d # ds) =
     (case map_of overrides (sd_name d) of
        Some v \<Rightarrow> resolve_decls getenv overrides (map_put (sd_name d) v resolved) ds
      | None \<Rightarrow>
          (if getenv (sd_name d) \<noteq> []
           then resolve_decls getenv overrides (map_put (sd_name d) (getenv (sd_name d)) resolved) ds
           else if sd_required d then Inl (SecretNotSet (sd_name d))
           else resolve_decls getenv overrides resolved ds))"

definition resolve_secrets ::
  "(string \<Rightarrow> string) \<Rightarrow> secret_decl list \<Rightarrow> string list \<Rightarrow> cmd_error + (string \<times> string) list" where
  "resolve_secrets getenv decls flags =
     bind_res (parse_secret_flags flags) (\<lambda>overrides. resolve_decls getenv overrides [] decls)"

definition print_k8s_manifests :: "k8s_output \<Rightarrow> string" where
  "print_k8s_manifests k = str_join document_break
     (filter (\<lambda>d. d \<noteq> [])
        [ko_service_account k, ko_config_map k, ko_secret k, ko_service k, ko_deployment k])"

record deploy_flags =
  df_manifest :: string
  df_secrets :: "string list"
  df_output :: string

definition run_deploy ::
  "(string \<Rightarrow> string + agent_manifest) \<Rightarrow> (string \<Rightarrow> string) \<Rightarrow>
   ((string \<times> string) list \<Rightarrow> (string \<times> string) list) \<Rightarrow> deploy_flags \<Rightarrow> cmd_io \<Rightarrow> cmd_error option \<times> cmd_io" where
  "run_deploy decode getenv order f io =
     (case manifest_parse_file decode (io_fs io) (df_manifest f) of
        Inl e \<Rightarrow> (Some (ParseManifestFailed e), io)
      | Inr m \<Rightarrow>
        (case resolve_secrets getenv (am_secrets m) (df_secrets f) of
           Inl e \<Rightarrow> (Some e, io)
         | Inr secrets \<Rightarrow>
           (let k = generate_k8s m secrets in
            if df_output f \<noteq> [] then
              (case write_k8s_outputs order (df_output f) k (io_fs io) of
                 (Some e, F) \<Rightarrow> (Some e, io\<lparr>io_fs := F\<rparr>)
               | (None, F) \<Rightarrow> (None, io\<lparr>io_fs := F,
                   io_err := io_err io @ check_mark @ '' K8s manifests written to '' @ df_output f @ ''/k8s'' @ nl\<rparr>))
            else (None, io\<lparr>io_out := io_out io @ print_k8s_manifests k\<rparr>))))"

subsection \<open>The gates of a build\<close>

text \<open>
  C22. A build that writes or prints anything has passed its gates: the manifest was read and is
  valid, every requested tool is in the catalog, no tool of the image that the catalog knows is
  riskier than a positive \<open>--max-risk\<close>, and it is no dry run. Otherwise the file system and the
  standard output are as they were.
\<close>

theorem build_passes_gates:
  assumes "run_build decode decode_catalog embedded order f io = (e, io')" "io_fs io' \<noteq> io_fs io \<or> io_out io' \<noteq> io_out io"
  shows "\<not> bf_dry_run f \<and>
    (\<exists>m cat. manifest_parse_file decode (io_fs io) (bf_manifest f) = Inr m
       \<and> am_name m \<noteq> [] \<and> bi_image (am_base m) \<noteq> [] \<and> (pc_text (am_prompt m) = []) = (pc_source (am_prompt m) \<noteq> None)
       \<and> load_catalog decode_catalog embedded (io_fs io) (bf_catalog f) = Inr cat
       \<and> (\<forall>n \<in> set (am_tools m). catalog_lookup cat n \<noteq> None)
       \<and> (\<forall>n t. n \<in> set (core_tools cat) \<union> set (am_tools m) \<and> catalog_lookup cat n = Some t \<and> bf_max_risk f > 0 \<longrightarrow>
            rk_score (te_risk t) \<le> bf_max_risk f))"
proof -
  obtain m where m: "manifest_parse_file decode (io_fs io) (bf_manifest f) = Inr m"
    using assms by (auto simp: run_build_def split: if_splits sum.splits)
  obtain cat where c: "load_catalog decode_catalog embedded (io_fs io) (bf_catalog f) = Inr cat"
    using assms m by (auto simp: run_build_def split: if_splits sum.splits)
  have v: "catalog_validate cat (am_tools m) = None"
    using assms m c by (auto simp: run_build_def split: if_splits option.splits)
  have risk: "\<not> (bf_max_risk f > 0 \<and> max_risk_score cat (image_tools m cat) > bf_max_risk f)" and dry: "\<not> bf_dry_run f"
    using assms m c v by (auto simp: run_build_def Let_def split: if_splits)
  have "rk_score (te_risk t) \<le> bf_max_risk f"
    if "n \<in> set (core_tools cat) \<union> set (am_tools m)" "catalog_lookup cat n = Some t" "bf_max_risk f > 0" for n t
    using max_risk_ge [of n "image_tools m cat" cat t] image_tools_spec(3) [of m cat] that risk by auto
  moreover have "validate_manifest m = None"
    using m by (auto simp: manifest_parse_file_def manifest_parse_def split: sum.splits option.splits)
  then have "am_name m \<noteq> [] \<and> bi_image (am_base m) \<noteq> [] \<and> (pc_text (am_prompt m) = []) = (pc_source (am_prompt m) \<noteq> None)"
    by (auto simp: validate_manifest_def split: if_splits)
  ultimately show ?thesis using m c v dry by (auto simp: catalog_validate_None)
qed

definition demo_flags :: build_flags where
  "demo_flags = \<lparr>bf_manifest = ''/m.yaml'', bf_output = [], bf_only = ''k8s'', bf_dry_run = False, bf_catalog = [],
     bf_max_risk = 7\<rparr>"

definition demo_io :: cmd_io where
  "demo_io = \<lparr>io_fs = \<lparr>fs_nodes = [([''m.yaml''], FileNode ''M'')], fs_cwd = []\<rparr>, io_out = [], io_err = []\<rparr>"

theorem build_passes_gates_witness:
  "\<exists>io'. run_build (\<lambda>_. Inr demo_manifest) (\<lambda>_. Inr demo_catalog) [] (\<lambda>x. x) demo_flags demo_io = (None, io')
     \<and> io_out io' \<noteq> io_out demo_io \<and> \<not> bf_dry_run demo_flags"
proof -
  let ?r = "run_build (\<lambda>_. Inr demo_manifest) (\<lambda>_. Inr demo_catalog) [] (\<lambda>x. x) demo_flags demo_io"
  have m: "manifest_parse_file (\<lambda>_. Inr demo_manifest) (io_fs demo_io) (bf_manifest demo_flags) = Inr demo_manifest" by code_simp
  have "load_catalog (\<lambda>_. Inr demo_catalog) [] (io_fs demo_io) (bf_catalog demo_flags) = Inr demo_catalog" by code_simp
  moreover have "catalog_validate demo_catalog (am_tools demo_manifest) = None" by code_simp
  moreover have "max_risk_score demo_catalog (image_tools demo_manifest demo_catalog) = 7" by code_simp
  moreover have "document_break \<noteq> []" by code_simp
  ultimately obtain io' where r: "?r = (None, io')" "io_out io' \<noteq> []"
    using m by (auto simp: run_build_def Let_def build_containerfile_def build_k8s_def demo_flags_def)
  have "io_out io' \<noteq> io_out demo_io" using r(2) by (simp add: demo_io_def)
  then show ?thesis using r(1) build_passes_gates [OF r(1)] by blast
qed

subsection \<open>Secrets on their way to the cluster\<close>

text \<open>What the cluster reads in the data of a Secret: keys, and base64 values with padding.\<close>

definition b64_std_val :: "char \<Rightarrow> nat option" where
  "b64_std_val c = (if c = CHR ''+'' then Some 62 else if c = CHR ''/'' then Some 63
     else if c \<in> {CHR ''-'', CHR ''_''} then None else b64_val c)"

definition b64_std_decode :: "string \<Rightarrow> string option" where
  "b64_std_decode s =
     (let ds = map b64_std_val (takeWhile (\<lambda>c. c \<noteq> CHR ''='') s) in
      if length s mod 4 = 0 \<and> list_all (\<lambda>d. d \<noteq> None) ds then b64_bytes (map the ds) else None)"

definition secret_line :: "string \<Rightarrow> (string \<times> string) option" where
  "secret_line l = (case str_cut (CHR '':'') l of
     Some (k, v) \<Rightarrow> map_option (Pair (drop 2 k)) (b64_std_decode (drop 1 v)) | None \<Rightarrow> None)"

definition read_secret :: "string \<Rightarrow> (string \<times> string) list" where
  "read_secret doc = map the (filter (\<lambda>e. e \<noteq> None)
     (map secret_line (tl (dropWhile (\<lambda>l. l \<noteq> ''data:'') (split_on (CHR 0x0A) doc)))))"

lemma b64_std_char_cases:
  assumes "v < 64"
  obtains "v = 62" | "v = 63"
  | "v < 62" "b64_std_char v = b64_char v" "b64_char v \<notin> {CHR ''+'', CHR ''/'', CHR ''-'', CHR ''_'', CHR ''=''}"
proof -
  have special: "b64_val (CHR ''+'') = None" "b64_val (CHR ''/'') = None" "b64_val (CHR ''='') = None"
    "b64_val (CHR ''-'') = Some 62" "b64_val (CHR ''_'') = Some 63" by (simp_all add: b64_val_def)
  have "b64_char v \<notin> {CHR ''+'', CHR ''/'', CHR ''-'', CHR ''_'', CHR ''=''}" if "v < 62"
  proof
    assume "b64_char v \<in> {CHR ''+'', CHR ''/'', CHR ''-'', CHR ''_'', CHR ''=''}"
    then have "b64_val (b64_char v) \<in> {None, Some 62, Some 63}" using special by force
    then show False using b64_val_char [of v] that by simp
  qed
  moreover have "b64_std_char v = b64_char v" if "v < 62" using that by (simp add: b64_std_char_def)
  moreover have "v = 62 \<or> v = 63 \<or> v < 62" using assms by auto
  ultimately show thesis using that by blast
qed

lemma b64_std_val_char: "v < 64 \<Longrightarrow> b64_std_val (b64_std_char v) = Some v"
  by (erule b64_std_char_cases) (simp_all add: b64_std_val_def b64_std_char_def b64_val_char)

lemma b64_std_char_plain: "v < 64 \<Longrightarrow> b64_std_char v \<noteq> CHR ''='' \<and> b64_std_char v \<noteq> CHR 0x0A"
  using b64_char_not_break [of v] by (elim b64_std_char_cases) (simp_all add: b64_std_char_def)

lemma length_b64_digits: "length (b64_digits xs) + (3 - length xs mod 3) mod 3 = 4 * ((length xs + 2) div 3)"
proof (induction xs rule: b64_digits.induct)
  case (4 x y z r)
  have "(length (x # y # z # r) + 2) div 3 = Suc ((length r + 2) div 3)" by simp
  then show ?case using 4 by simp
qed auto

lemma b64_std_digits: "d \<in> set (b64_digits (map of_char s)) \<Longrightarrow> d < 64"
  by (rule b64_digits_range [of "map of_char s"]) (auto simp: nat_of_char_less_256)

lemma b64_std_roundtrip: "b64_std_decode (b64_std_encode s) = Some s"
proof -
  let ?ds = "b64_digits (map of_char s)"
  have body: "takeWhile (\<lambda>c. c \<noteq> CHR ''='') (b64_std_encode s) = map b64_std_char ?ds"
    using b64_std_digits b64_std_char_plain
    by (simp add: b64_std_encode_def takeWhile_append takeWhile_replicate)
  have "\<forall>d \<in> set ?ds. b64_std_val (b64_std_char d) = Some d"
    using b64_std_digits b64_std_val_char by simp
  then have "map (\<lambda>d. the (b64_std_val (b64_std_char d))) ?ds = ?ds" "list_all (\<lambda>d. b64_std_val (b64_std_char d) \<noteq> None) ?ds"
    by (auto simp: list_all_iff intro: map_idI)
  moreover have "length (b64_std_encode s) mod 4 = 0"
    using length_b64_digits [of "map of_char s :: nat list"] by (simp add: b64_std_encode_def)
  moreover have "b64_bytes ?ds = Some s"
    using b64_bytes_digits [of "map of_char s"] by (simp add: nat_of_char_less_256 comp_def)
  ultimately show ?thesis by (simp add: b64_std_decode_def Let_def body list.pred_map comp_def)
qed

lemma b64_std_encode_line: "CHR 0x0A \<notin> set (b64_std_encode s)"
proof -
  have "\<forall>d \<in> set (b64_digits (map of_char s)). CHR 0x0A \<noteq> b64_std_char d"
    using b64_std_digits [of _ s] b64_std_char_plain by metis
  then show ?thesis by (auto simp: b64_std_encode_def)
qed

lemma secret_line_entry: "CHR '':'' \<notin> set k \<Longrightarrow> secret_line (''  '' @ k @ '': '' @ b64_std_encode v) = Some (k, v)"
  using str_cut_append [of "CHR '':''" "''  '' @ k" "'' '' @ b64_std_encode v"]
  by (simp add: secret_line_def b64_std_roundtrip)

definition plain_key :: "string \<Rightarrow> bool" where
  "plain_key k \<longleftrightarrow> CHR '':'' \<notin> set k \<and> CHR 0x0A \<notin> set k"

lemma insort_key_map_fst:
  "insort_key fst (k, f v) (map (\<lambda>(k, v). (k, f v)) xs) = map (\<lambda>(k, v). (k, f v)) (insort_key fst (k, v) xs)"
  by (induction xs) auto

lemma sort_key_map_fst:
  "sort_key fst (map (\<lambda>(k, v). (k, f v)) xs) = map (\<lambda>(k, v). (k, f v)) (sort_key fst xs)"
proof (induction xs)
  case (Cons x xs)
  then show ?case by (cases x) (simp add: insort_key_map_fst)
qed simp

lemma read_secret_text:
  assumes "CHR 0x0A \<notin> set name" "\<forall>(k, v) \<in> set secrets. plain_key k"
  shows "read_secret (secret_text name (encode_secrets secrets)) = sort_key fst secrets"
proof -
  let ?l = "\<lambda>(k, v). ''  '' @ k @ '': '' @ b64_std_encode v"
  have sorted: "sort_key fst (encode_secrets secrets) = map (\<lambda>(k, v). (k, b64_std_encode v)) (sort_key fst secrets)"
    unfolding encode_secrets_def by (rule sort_key_map_fst)
  let ?body = "map ?l (sort_key fst secrets)"
  have doc: "secret_text name (encode_secrets secrets) =
      unlines ([''apiVersion: v1'', ''kind: Secret'', ''metadata:'', ''  name: '' @ name @ ''-secrets'', ''  labels:'',
       ''    app: '' @ name, ''type: Opaque'', ''data:''] @ ?body)"
    by (simp add: secret_text_def sorted comp_def case_prod_unfold)
  have "list_all (\<lambda>l. CHR 0x0A \<notin> set l) ?body"
    using assms(2) b64_std_encode_line by (auto simp: list_all_iff plain_key_def)
  then have "split_on (CHR 0x0A) (secret_text name (encode_secrets secrets)) =
      ([''apiVersion: v1'', ''kind: Secret'', ''metadata:'', ''  name: '' @ name @ ''-secrets'', ''  labels:'',
       ''    app: '' @ name, ''type: Opaque'', ''data:''] @ ?body) @ [[]]"
    unfolding doc using assms(1) by (intro split_unlines) (simp add: list_all_iff)
  then have "tl (dropWhile (\<lambda>l. l \<noteq> ''data:'') (split_on (CHR 0x0A) (secret_text name (encode_secrets secrets)))) = ?body @ [[]]"
    by simp
  moreover have "map secret_line ?body = map Some (sort_key fst secrets)"
    using assms(2) secret_line_entry by (auto simp: plain_key_def)
  moreover have "secret_line [] = None" by (simp add: secret_line_def)
  moreover have "map the (map Some xs) = xs" for xs :: "(string \<times> string) list" by (simp add: comp_def)
  ultimately show ?thesis by (simp add: read_secret_def comp_def del: map_map)
qed

text \<open>The value given to a secret: the last flag for it, else a value of the environment.\<close>

definition flag_value :: "string list \<Rightarrow> string \<Rightarrow> string option" where
  "flag_value flags n = map_of (rev (map (\<lambda>s. the (str_cut (CHR ''='') s)) flags)) n"

definition given_value :: "(string \<Rightarrow> string) \<Rightarrow> string list \<Rightarrow> string \<Rightarrow> string option" where
  "given_value getenv flags n =
     (case flag_value flags n of Some v \<Rightarrow> Some v | None \<Rightarrow> if getenv n \<noteq> [] then Some (getenv n) else None)"

lemma parse_secret_flags_value:
  "parse_secret_flags flags = Inr m \<Longrightarrow> map_of m = flag_value flags \<and> distinct (map fst m)"
proof (induction flags arbitrary: m rule: rev_induct)
  case Nil
  then show ?case by (simp add: flag_value_def fun_eq_iff)
next
  case (snoc s flags)
  then obtain m0 kv where m0: "parse_secret_flags flags = Inr m0" "str_cut (CHR ''='') s = Some kv" "m = map_put (fst kv) (snd kv) m0"
    by (auto simp: bind_res_Inr_iff split: option.splits)
  then show ?case using snoc.IH [OF m0(1)] by (cases kv) (simp add: flag_value_def fun_eq_iff)
qed

lemma resolve_decls_value:
  "resolve_decls getenv ov res ds = Inr r \<Longrightarrow> distinct (map fst res) \<Longrightarrow>
   distinct (map fst r) \<and> fst ` set r \<subseteq> fst ` set res \<union> sd_name ` set ds
   \<and> (\<forall>n. map_of r n = (let v = (case map_of ov n of Some v \<Rightarrow> Some v | None \<Rightarrow> if getenv n \<noteq> [] then Some (getenv n) else None) in
        if n \<in> sd_name ` set ds \<and> v \<noteq> None then v else map_of res n))
   \<and> (\<forall>d \<in> set ds. sd_required d \<longrightarrow> map_of ov (sd_name d) \<noteq> None \<or> getenv (sd_name d) \<noteq> [])"
proof (induction ds arbitrary: res)
  case (Cons d ds)
  let ?v = "case map_of ov (sd_name d) of Some v \<Rightarrow> Some v | None \<Rightarrow> if getenv (sd_name d) \<noteq> [] then Some (getenv (sd_name d)) else None"
  show ?case
  proof (cases ?v)
    case None
    then have "map_of ov (sd_name d) = None" "getenv (sd_name d) = []" by (auto split: option.splits if_splits)
    then have "resolve_decls getenv ov res ds = Inr r" "\<not> sd_required d" using Cons.prems(1) by (auto split: if_splits)
    from Cons.IH [OF this(1) Cons.prems(2)] this(2) None show ?thesis by (auto simp: Let_def)
  next
    case (Some v)
    then have "resolve_decls getenv ov (map_put (sd_name d) v res) ds = Inr r"
      using Cons.prems(1) by (auto split: option.splits if_splits)
    from Cons.IH [OF this] Cons.prems(2) Some show ?thesis
      by (auto simp: Let_def keys_map_put split: option.splits if_splits)
  qed
qed (simp add: Let_def)

text \<open>
  C23. Secrets reach the cluster: when a deployment is printed, every required secret was given, and
  reading the data of its Secret document gives exactly the declared secrets that were given, each
  with the value of its last flag or else of the environment. The document exists just when some
  secret was given, and then the Deployment takes its environment from it.
\<close>

theorem deployed_secrets:
  assumes run: "run_deploy decode getenv order f io = (None, io')" and out: "df_output f = []"
    and m: "manifest_parse_file decode (io_fs io) (df_manifest f) = Inr m"
    and plain: "CHR 0x0A \<notin> set (am_name m)" "\<forall>d \<in> set (am_secrets m). plain_key (sd_name d)"
  shows "\<exists>k. io_out io' = io_out io @ print_k8s_manifests k \<and> io_fs io' = io_fs io
     \<and> (\<forall>d \<in> set (am_secrets m). sd_required d \<longrightarrow> given_value getenv (df_secrets f) (sd_name d) \<noteq> None)
     \<and> (\<forall>n. map_of (read_secret (ko_secret k)) n =
          (if n \<in> sd_name ` set (am_secrets m) then given_value getenv (df_secrets f) n else None))
     \<and> (ko_secret k \<noteq> [] \<longleftrightarrow> (\<exists>d \<in> set (am_secrets m). given_value getenv (df_secrets f) (sd_name d) \<noteq> None))
     \<and> (ko_secret k \<noteq> [] \<longrightarrow> (\<exists>a b. ko_deployment k = a @ unlines (secret_ref_lines (am_name m)) @ b))"
proof -
  obtain r where r: "resolve_secrets getenv (am_secrets m) (df_secrets f) = Inr r"
    "io' = io\<lparr>io_out := io_out io @ print_k8s_manifests (generate_k8s m r)\<rparr>"
    using run out m by (auto simp: run_deploy_def Let_def split: sum.splits)
  obtain ov where ov: "parse_secret_flags (df_secrets f) = Inr ov" "resolve_decls getenv ov [] (am_secrets m) = Inr r"
    using r(1) by (auto simp: resolve_secrets_def bind_res_Inr_iff simp del: parse_secret_flags.simps)
  have flags: "map_of ov = flag_value (df_secrets f)" using parse_secret_flags_value [OF ov(1)] by simp
  let ?g = "given_value getenv (df_secrets f)"
  have given: "?g n = (case map_of ov n of Some v \<Rightarrow> Some v | None \<Rightarrow> if getenv n \<noteq> [] then Some (getenv n) else None)" for n
    by (simp add: given_value_def flags)
  note v = resolve_decls_value [OF ov(2), folded given, simplified Let_def, simplified]
  have r_of: "map_of r n = (if n \<in> sd_name ` set (am_secrets m) then ?g n else None)" for n using v by auto
  have req: "\<forall>d \<in> set (am_secrets m). sd_required d \<longrightarrow> ?g (sd_name d) \<noteq> None"
    using v by (auto simp: given split: option.splits)
  let ?k = "generate_k8s m r"
  have keys: "\<forall>(k, v) \<in> set r. plain_key k" using v plain(2) by force
  have secret: "ko_secret ?k = (if r = [] then [] else secret_text (am_name m) (encode_secrets r))"
    by (simp add: generate_k8s_def Let_def)
  have "read_secret (ko_secret ?k) = sort_key fst r"
  proof (cases "r = []")
    case True
    then have "ko_secret ?k = []" unfolding secret by (rule if_P)
    moreover have "read_secret [] = []" by code_simp
    ultimately show ?thesis using True by simp
  next
    case False
    then show ?thesis using read_secret_text [OF plain(1) keys] by (simp add: secret)
  qed
  moreover have "map_of (sort_key fst r) = map_of r"
  proof (rule map_of_inject_set [THEN iffD2])
    show "distinct (map fst r)" using v by simp
    then show "distinct (map fst (sort_key fst r))"
      by (metis distinct_map distinct_sort set_sort)
  qed simp
  ultimately have read: "\<forall>n. map_of (read_secret (ko_secret ?k)) n = (if n \<in> sd_name ` set (am_secrets m) then ?g n else None)"
    by (simp add: r_of)
  have "ko_secret ?k \<noteq> [] \<longleftrightarrow> r \<noteq> []" by (simp add: secret secret_text_def unlines_def)
  moreover have "r \<noteq> [] \<longleftrightarrow> (\<exists>n. map_of r n \<noteq> None)" by (cases r) auto
  ultimately have iff: "ko_secret ?k \<noteq> [] \<longleftrightarrow> (\<exists>d \<in> set (am_secrets m). ?g (sd_name d) \<noteq> None)"
    by (auto simp: r_of)
  have ref: "ko_secret ?k \<noteq> [] \<longrightarrow> (\<exists>a b. ko_deployment ?k = a @ unlines (secret_ref_lines (am_name m)) @ b)"
  proof
    assume "ko_secret ?k \<noteq> []"
    then have "0 < length r" by (auto simp: secret split: if_splits)
    then show "\<exists>a b. ko_deployment ?k = a @ unlines (secret_ref_lines (am_name m)) @ b"
      by (simp only: generate_k8s_def Let_def k8s_output.simps deployment_text_def if_True unlines_append append.assoc)
        (intro exI, rule refl)
  qed
  show ?thesis using r(2) req read iff ref by (intro exI [of _ ?k]) simp
qed

definition demo_deploy :: deploy_flags where
  "demo_deploy = \<lparr>df_manifest = ''/m.yaml'', df_secrets = [''KEY=a=b''], df_output = []\<rparr>"

theorem deployed_secrets_witness:
  "\<exists>io' k. run_deploy (\<lambda>_. Inr demo_manifest) (\<lambda>_. []) (\<lambda>x. x) demo_deploy demo_io = (None, io')
     \<and> io_out io' = print_k8s_manifests k \<and> map_of (read_secret (ko_secret k)) ''KEY'' = Some ''a=b''"
proof -
  let ?r = "run_deploy (\<lambda>_. Inr demo_manifest) (\<lambda>_. []) (\<lambda>x. x) demo_deploy demo_io"
  have m: "manifest_parse_file (\<lambda>_. Inr demo_manifest) (io_fs demo_io) (df_manifest demo_deploy) = Inr demo_manifest" by code_simp
  have "resolve_secrets (\<lambda>_. []) (am_secrets demo_manifest) (df_secrets demo_deploy) = Inr [(''KEY'', ''a=b'')]" by code_simp
  then obtain io' where r: "?r = (None, io')" using m by (simp add: run_deploy_def Let_def demo_deploy_def)
  have "CHR 0x0A \<notin> set (am_name demo_manifest)" "\<forall>d \<in> set (am_secrets demo_manifest). plain_key (sd_name d)"
    by (simp_all add: demo_manifest_def plain_key_def)
  from deployed_secrets [OF r _ m this]
  have "\<exists>k. io_out io' = print_k8s_manifests k \<and> map_of (read_secret (ko_secret k)) ''KEY'' = given_value (\<lambda>_. []) (df_secrets demo_deploy) ''KEY''"
    by (auto simp: demo_deploy_def demo_io_def demo_manifest_def)
  moreover have "given_value (\<lambda>_. []) (df_secrets demo_deploy) ''KEY'' = Some ''a=b''" by code_simp
  ultimately show ?thesis using r by auto
qed

end
