(* ===== verification/Bridge.thy ===== *)
theory Bridge
  imports Session_Sqlite Inbound_Auth Go_Json_Text Go_Fs
begin

section \<open>internal/bridge: A2A messages in and out\<close>

text \<open>
  The executor that answers an A2A message (executor.go) over a session store and a processor, the
  client that sends one to another agent (client.go), and the agent cards. Events go to a consumer
  that may stop: \<open>go n\<close> is its answer to the n-th event. Every operation on the store comes with
  its fault \<open>f\<close> and its time; spans and log lines are left out.

  \<open>bridge_step\<close> interleaves any number of requests, each in the stretches between the calls of the
  store, with the reaper of the store.
\<close>

subsection \<open>executor.go\<close>

datatype a2a_event =
    TaskSubmitted
  | StatusWorking
  | StatusFailed string
  | StatusCompleted
  | StatusCanceled
  | ArtifactText string

text \<open>
  What the executor reads of a request: whether a task is stored, the text of every part of the
  message (empty for a part of another kind), the values of \<open>x-session-id\<close>, and the claims the
  middleware left in the context.
\<close>

record a2a_request =
  ar_stored_task :: bool
  ar_parts :: "string list option"
  ar_session_header :: "string list option"
  ar_claims :: "claims option"

record ('f, 'e, 's) session_backend =
  sb_get_or_create :: "'f \<Rightarrow> string \<Rightarrow> string \<Rightarrow> int \<Rightarrow> 's \<Rightarrow> ('e + session) \<times> 's"
  sb_append :: "'f \<Rightarrow> string \<Rightarrow> message \<Rightarrow> int \<Rightarrow> 's \<Rightarrow> ('e + unit) \<times> 's"
  sb_append_and_snapshot :: "'f \<Rightarrow> string \<Rightarrow> message \<Rightarrow> int \<Rightarrow> 's \<Rightarrow> ('e + message list option) \<times> 's"
  sb_error_text :: "'e \<Rightarrow> string"

record ('f, 'e, 's, 'w) executor =
  ex_process :: "(message list \<Rightarrow> 'w \<Rightarrow> (string + string) \<times> 'w) option"
  ex_sessions :: "('f, 'e, 's) session_backend option"
  ex_system_prompt :: string

definition session_id_of :: "a2a_request \<Rightarrow> string" where
  "session_id_of rq = (case ar_session_header rq of Some (v # _) \<Rightarrow> v | _ \<Rightarrow> [])"

definition session_key :: "claims option \<Rightarrow> string \<Rightarrow> string" where
  "session_key c sid =
     (if sid = [] then []
      else (case c of Some cl \<Rightarrow> cl_subject cl @ ''|'' @ cl_azp cl @ ''|'' @ sid | None \<Rightarrow> sid))"

definition request_key :: "a2a_request \<Rightarrow> string" where
  "request_key rq =
     (let sid = session_id_of rq; sid1 = (if length sid > 64 then take 64 sid else sid) in
      session_key (ar_claims rq) sid1)"

definition extract_text_content :: "string list option \<Rightarrow> string" where
  "extract_text_content parts =
     (case parts of None \<Rightarrow> [] | Some ps \<Rightarrow> str_join nl (filter (\<lambda>t. t \<noteq> []) ps))"

definition user_message :: "a2a_request \<Rightarrow> message" where
  "user_message rq = text_message ''user'' (extract_text_content (ar_parts rq))"

text \<open>The three calls of the store: before the message, with it, and with the answer.\<close>

definition open_session ::
  "('f, 'e, 's) session_backend \<Rightarrow> string \<Rightarrow> 'f \<Rightarrow> int \<Rightarrow> a2a_request \<Rightarrow> 's \<Rightarrow> (string + unit) \<times> 's" where
  "open_session sb prompt f now rq s =
     (case sb_get_or_create sb f (request_key rq) prompt now s of
        (Inl e, s1) \<Rightarrow> (Inl (''Session error: '' @ sb_error_text sb e), s1)
      | (Inr _, s1) \<Rightarrow> (Inr (), s1))"

definition ask_session ::
  "('f, 'e, 's) session_backend \<Rightarrow> 'f \<Rightarrow> int \<Rightarrow> a2a_request \<Rightarrow> 's \<Rightarrow> (string + message list) \<times> 's" where
  "ask_session sb f now rq s =
     (case sb_append_and_snapshot sb f (request_key rq) (user_message rq) now s of
        (Inl e, s1) \<Rightarrow> (Inl (''Session error: '' @ sb_error_text sb e), s1)
      | (Inr None, s1) \<Rightarrow> (Inr [], s1)
      | (Inr (Some ms), s1) \<Rightarrow> (Inr ms, s1))"

definition save_answer ::
  "('f, 'e, 's) session_backend \<Rightarrow> 'f \<Rightarrow> int \<Rightarrow> a2a_request \<Rightarrow> string \<Rightarrow> 's \<Rightarrow> 's" where
  "save_answer sb f now rq result s =
     snd (sb_append sb f (request_key rq) (text_message ''assistant'' result) now s)"

text \<open>The conversation of a request and its answer, each with the store around it.\<close>

definition conversation_for ::
  "('f, 'e, 's, 'w) executor \<Rightarrow> (nat \<Rightarrow> 'f) \<Rightarrow> (nat \<Rightarrow> int) \<Rightarrow> a2a_request \<Rightarrow> 's \<Rightarrow> (string + message list) \<times> 's" where
  "conversation_for e f t rq s =
     (case (ex_sessions e, request_key rq = []) of
        (Some sb, False) \<Rightarrow>
          (case open_session sb (ex_system_prompt e) (f 0) (t 0) rq s of
             (Inl reason, s1) \<Rightarrow> (Inl reason, s1)
           | (Inr _, s1) \<Rightarrow> ask_session sb (f 1) (t 1) rq s1)
      | _ \<Rightarrow> (Inr [text_message ''system'' (ex_system_prompt e), user_message rq], s))"

definition keep_answer ::
  "('f, 'e, 's, 'w) executor \<Rightarrow> (nat \<Rightarrow> 'f) \<Rightarrow> (nat \<Rightarrow> int) \<Rightarrow> a2a_request \<Rightarrow> string \<Rightarrow> 's \<Rightarrow> 's" where
  "keep_answer e f t rq result s =
     (case (ex_sessions e, request_key rq = []) of
        (Some sb, False) \<Rightarrow> save_answer sb (f 2) (t 2) rq result s
      | _ \<Rightarrow> s)"

definition execute ::
  "('f, 'e, 's, 'w) executor \<Rightarrow> (nat \<Rightarrow> bool) \<Rightarrow> (nat \<Rightarrow> 'f) \<Rightarrow> (nat \<Rightarrow> int) \<Rightarrow> a2a_request \<Rightarrow> 's \<times> 'w \<Rightarrow>
   a2a_event list \<times> 's \<times> 'w" where
  "execute e go f t rq sw =
     (let (s, w) = sw;
          submitted = (if ar_stored_task rq then [] else [TaskSubmitted]);
          started = submitted @ [StatusWorking] in
      if \<not> ar_stored_task rq \<and> \<not> go 0 then (submitted, s, w)
      else if \<not> go (length submitted) then (started, s, w)
      else (case ex_process e of
          None \<Rightarrow> (started @ [StatusFailed ''agent not configured''], s, w)
        | Some process \<Rightarrow>
            (case conversation_for e f t rq s of
               (Inl reason, s1) \<Rightarrow> (started @ [StatusFailed reason], s1, w)
             | (Inr messages, s1) \<Rightarrow>
                 (case process messages w of
                    (Inl err, w1) \<Rightarrow> (started @ [StatusFailed (''Processing failed: '' @ err)], s1, w1)
                  | (Inr result, w1) \<Rightarrow>
                      (let s2 = keep_answer e f t rq result s1; answered = started @ [ArtifactText result] in
                       if \<not> go (length started) then (answered, s2, w1)
                       else (answered @ [StatusCompleted], s2, w1))))))"

definition cancel_task :: "a2a_event list" where
  "cancel_task = [StatusCanceled]"

subsection \<open>client.go\<close>

text \<open>
  A request is the text or, without one, the identifier of a document; the service parameters are
  the session and whatever the propagator of traces adds. The transport and the names of the two
  failure states are of the A2A library.
\<close>

record invoke_request =
  iv_agent_url :: string
  iv_document_id :: string
  iv_message_text :: string
  iv_session_id :: string

datatype a2a_content = TextContent string | DataContent "(string \<times> json) list"

record a2a_call =
  ac_url :: string
  ac_content :: a2a_content
  ac_params :: "(string \<times> string) list"

record a2a_task =
  tk_state :: string
  tk_message :: "string list option"
  tk_artifacts :: "string list list"

datatype send_result = SentTask a2a_task | SentMessage "string list" | SentOther string

record 'w a2a_transport =
  at_connect :: "string \<Rightarrow> string option"
  at_send :: "a2a_call \<Rightarrow> 'w \<Rightarrow> (string + send_result) \<times> 'w"
  at_trace :: "(string \<times> string) list"
  at_failed :: string
  at_rejected :: string

record invoke_result =
  iv_text :: string
  iv_state :: string

definition extract_text_from_parts :: "string list \<Rightarrow> string" where
  "extract_text_from_parts parts =
     (case filter (\<lambda>t. t \<noteq> []) parts of [] \<Rightarrow> [] | t # ts \<Rightarrow> foldl (\<lambda>r x. r @ nl @ x) t ts)"

fun first_text :: "string list list \<Rightarrow> string" where
  "first_text [] = []"
| "first_text (ps # pss) = (if extract_text_from_parts ps \<noteq> [] then extract_text_from_parts ps else first_text pss)"

definition parse_task :: "'w a2a_transport \<Rightarrow> a2a_task \<Rightarrow> invoke_result" where
  "parse_task tr task =
     (let status = (case tk_message task of Some ps \<Rightarrow> extract_text_from_parts ps | None \<Rightarrow> []) in
      if tk_state task = at_failed tr \<or> tk_state task = at_rejected tr
      then \<lparr>iv_text = (if status \<noteq> [] then status else ''agent returned '' @ tk_state task), iv_state = tk_state task\<rparr>
      else \<lparr>iv_text = (if first_text (tk_artifacts task) \<noteq> [] then first_text (tk_artifacts task) else status),
            iv_state = tk_state task\<rparr>)"

definition parse_message :: "string list \<Rightarrow> invoke_result" where
  "parse_message parts = \<lparr>iv_text = extract_text_from_parts parts, iv_state = ''completed''\<rparr>"

definition parse_result :: "'w a2a_transport \<Rightarrow> send_result \<Rightarrow> string + invoke_result" where
  "parse_result tr r =
     (case r of
        SentTask task \<Rightarrow> Inr (parse_task tr task)
      | SentMessage parts \<Rightarrow> Inr (parse_message parts)
      | SentOther ty \<Rightarrow> Inl (''unexpected result type: '' @ ty))"

definition a2a_call_of :: "'w a2a_transport \<Rightarrow> invoke_request \<Rightarrow> a2a_call" where
  "a2a_call_of tr rq =
     \<lparr>ac_url = iv_agent_url rq,
      ac_content = (if iv_message_text rq \<noteq> [] then TextContent (iv_message_text rq)
        else DataContent [(''document_id'', JStr (iv_document_id rq))]),
      ac_params = (if iv_session_id rq \<noteq> [] then [(''x-session-id'', iv_session_id rq)] else []) @ at_trace tr\<rparr>"

definition a2a_invoke :: "'w a2a_transport \<Rightarrow> invoke_request \<Rightarrow> 'w \<Rightarrow> (string + invoke_result) \<times> 'w" where
  "a2a_invoke tr rq w =
     (case at_connect tr (iv_agent_url rq) of
        Some e \<Rightarrow> (Inl (''failed to create A2A client: '' @ e), w)
      | None \<Rightarrow>
          (case at_send tr (a2a_call_of tr rq) w of
             (Inl e, w1) \<Rightarrow> (Inl (''A2A message/send failed: '' @ e), w1)
           | (Inr r, w1) \<Rightarrow> (parse_result tr r, w1)))"

subsection \<open>Agent cards\<close>

record agent_skill =
  as_id :: string
  as_name :: string
  as_description :: string
  as_tags :: "string list"
  as_examples :: "string list"

record agent_interface =
  if_url :: string
  if_transport :: string

record agent_card =
  card_name :: string
  card_description :: string
  card_version :: string
  card_interfaces :: "agent_interface list"
  card_skills :: "agent_skill list"
  card_input_modes :: "string list"
  card_output_modes :: "string list"

definition jsonrpc_interface :: "string \<Rightarrow> agent_interface" where
  "jsonrpc_interface url = \<lparr>if_url = url, if_transport = ''JSONRPC''\<rparr>"

definition build_agent_card :: "string \<Rightarrow> string \<Rightarrow> string \<Rightarrow> string \<Rightarrow> agent_skill list \<Rightarrow> agent_card" where
  "build_agent_card name description version url skills =
     \<lparr>card_name = name, card_description = description, card_version = version,
      card_interfaces = [jsonrpc_interface url], card_skills = skills,
      card_input_modes = [''application/json''], card_output_modes = [''text/plain'']\<rparr>"

text \<open>
  The card as a caller sees it: every interface at the address the caller used. \<open>encode\<close> writes the
  card as JSON; an encoder that fails leaves the body as it is.
\<close>

definition rewritten_card :: "agent_card \<Rightarrow> bool \<Rightarrow> string \<Rightarrow> headers \<Rightarrow> agent_card" where
  "rewritten_card ac tls host hs =
     (let scheme0 = (if tls then ''https'' else ''http'');
          proto = header_get ''X-Forwarded-Proto'' hs;
          base_url = (if proto \<noteq> [] then proto else scheme0) @ ''://'' @ host;
          rewritten = map (\<lambda>i. i\<lparr>if_url := base_url\<rparr>) (card_interfaces ac) in
      ac\<lparr>card_interfaces := (if length rewritten = 0 then [jsonrpc_interface base_url] else rewritten)\<rparr>)"

definition dynamic_card_handler ::
  "(agent_card \<Rightarrow> string + string) \<Rightarrow> agent_card \<Rightarrow> bool \<Rightarrow> string \<Rightarrow> headers \<Rightarrow> http_response" where
  "dynamic_card_handler encode ac tls host hs =
     \<lparr>rs_status = 200,
      rs_headers = header_set ''Access-Control-Allow-Origin'' ''*'' (header_set ''Content-Type'' ''application/json'' []),
      rs_body = (case encode (rewritten_card ac tls host hs) of Inr body \<Rightarrow> body | Inl _ \<Rightarrow> [])\<rparr>"

definition signed_card_handler ::
  "fs \<Rightarrow> string \<Rightarrow> ('c http_request \<Rightarrow> http_response) \<Rightarrow> 'c http_request \<Rightarrow> http_response" where
  "signed_card_handler F path fallback =
     (case os_read_file F path of
        Inl _ \<Rightarrow> fallback
      | Inr data \<Rightarrow> (\<lambda>_. \<lparr>rs_status = 200, rs_headers = header_set ''Content-Type'' ''application/json'' [], rs_body = data\<rparr>))"

subsection \<open>What the consumer sees\<close>

text \<open>The outcome of a request, aside from its events: the reason of a failure or the answer.\<close>

definition outcome ::
  "('f, 'e, 's, 'w) executor \<Rightarrow> (nat \<Rightarrow> 'f) \<Rightarrow> (nat \<Rightarrow> int) \<Rightarrow> a2a_request \<Rightarrow> 's \<times> 'w \<Rightarrow> string + string" where
  "outcome e f t rq sw =
     (case ex_process e of
        None \<Rightarrow> Inl ''agent not configured''
      | Some process \<Rightarrow>
          bind_res (fst (conversation_for e f t rq (fst sw))) (\<lambda>ms.
            (case fst (process ms (snd sw)) of Inl err \<Rightarrow> Inl (''Processing failed: '' @ err) | Inr r \<Rightarrow> Inr r)))"

definition first_events :: "a2a_request \<Rightarrow> a2a_event list" where
  "first_events rq = (if ar_stored_task rq then [] else [TaskSubmitted]) @ [StatusWorking]"

lemma execute_all:
  "fst (execute e (\<lambda>_. True) f t rq sw) = first_events rq @
     (case outcome e f t rq sw of Inl reason \<Rightarrow> [StatusFailed reason] | Inr result \<Rightarrow> [ArtifactText result, StatusCompleted])"
  by (cases sw) (auto simp: execute_def outcome_def first_events_def bind_res_def Let_def split: option.splits prod.splits sum.splits)

lemma execute_prefix: "has_prefix (fst (execute e (\<lambda>_. True) f t rq sw)) (fst (execute e go f t rq sw))"
  by (cases sw) (auto simp: execute_def Let_def has_prefix_def split: option.splits prod.splits sum.splits)

definition lets_start :: "(nat \<Rightarrow> bool) \<Rightarrow> a2a_request \<Rightarrow> bool" where
  "lets_start go rq \<longleftrightarrow> list_all go [0..<length (first_events rq)]"

lemma execute_early: "\<not> lets_start go rq \<Longrightarrow> snd (execute e go f t rq sw) = sw"
  by (cases sw) (auto simp: lets_start_def execute_def first_events_def Let_def)

lemma execute_late: "lets_start go rq \<Longrightarrow> snd (execute e go f t rq sw) = snd (execute e (\<lambda>_. True) f t rq sw)"
  by (cases sw) (auto simp: lets_start_def execute_def first_events_def Let_def split: option.splits prod.splits sum.splits)

text \<open>
  C25. Every A2A request is answered once: a consumer that takes all events sees the task submitted
  if it is new, then working, and then either a failure with its reason or the answer as an artifact
  and the completion, according to the outcome; any other consumer sees a prefix of that. A consumer
  that stops before the work starts leaves the sessions and the world as they were.
\<close>

theorem executor_answers_once:
  "fst (execute e (\<lambda>_. True) f t rq sw) = first_events rq @
     (case outcome e f t rq sw of Inl reason \<Rightarrow> [StatusFailed reason] | Inr result \<Rightarrow> [ArtifactText result, StatusCompleted])
   \<and> has_prefix (fst (execute e (\<lambda>_. True) f t rq sw)) (fst (execute e go f t rq sw))
   \<and> snd (execute e go f t rq sw) = (if lets_start go rq then snd (execute e (\<lambda>_. True) f t rq sw) else sw)"
  using execute_prefix by (intro conjI execute_all) (simp_all add: execute_early execute_late)

subsection \<open>Requests side by side\<close>

datatype turn = Opened | Asked "message list" | Closed

text \<open>
  A system of requests over one store, each in some stretch of its turn. \<open>bs_said\<close> notes what was
  handed to the store, and for which request.
\<close>

record 's bridge_system =
  bs_store :: 's
  bs_turns :: "(nat \<times> a2a_request \<times> turn) list"
  bs_said :: "(a2a_request \<times> message) list"

definition put_turn :: "nat \<Rightarrow> a2a_request \<Rightarrow> turn \<Rightarrow> 's \<Rightarrow> (a2a_request \<times> message) list \<Rightarrow> 's bridge_system \<Rightarrow> 's bridge_system" where
  "put_turn i rq tn s said S = \<lparr>bs_store = s, bs_turns = map_put i (rq, tn) (bs_turns S), bs_said = bs_said S @ said\<rparr>"

inductive bridge_step ::
  "('f, 'e, 's) session_backend \<Rightarrow> ('f \<Rightarrow> int \<Rightarrow> 's \<Rightarrow> 's) \<Rightarrow> string \<Rightarrow>
   's bridge_system \<Rightarrow> 's bridge_system \<Rightarrow> bool"
  for sb reap prompt where
  opens: "map_of (bs_turns S) i = None \<Longrightarrow> request_key rq \<noteq> [] \<Longrightarrow>
     open_session sb prompt f now rq (bs_store S) = (r, s') \<Longrightarrow>
     bridge_step sb reap prompt S (put_turn i rq (if is_err r then Closed else Opened) s' [] S)"
| asks: "map_of (bs_turns S) i = Some (rq, Opened) \<Longrightarrow> ask_session sb f now rq (bs_store S) = (r, s') \<Longrightarrow>
     bridge_step sb reap prompt S
       (put_turn i rq (case r of Inr ms \<Rightarrow> Asked ms | Inl _ \<Rightarrow> Closed) s' [(rq, user_message rq)] S)"
| answers: "map_of (bs_turns S) i = Some (rq, Asked ms) \<Longrightarrow>
     bridge_step sb reap prompt S
       (put_turn i rq Closed (save_answer sb f now rq result (bs_store S)) [(rq, text_message ''assistant'' result)] S)"
| fails: "map_of (bs_turns S) i = Some (rq, Asked ms) \<Longrightarrow>
     bridge_step sb reap prompt S (put_turn i rq Closed (bs_store S) [] S)"
| reaps: "bridge_step sb reap prompt S (S\<lparr>bs_store := reap f now (bs_store S)\<rparr>)"

inductive bridge_reachable ::
  "('f, 'e, 's) session_backend \<Rightarrow> ('f \<Rightarrow> int \<Rightarrow> 's \<Rightarrow> 's) \<Rightarrow> string \<Rightarrow> 's \<Rightarrow>
   's bridge_system \<Rightarrow> bool"
  for sb reap prompt s0 where
  init: "bridge_reachable sb reap prompt s0 \<lparr>bs_store = s0, bs_turns = [], bs_said = []\<rparr>"
| step: "bridge_reachable sb reap prompt s0 S \<Longrightarrow> bridge_step sb reap prompt S S' \<Longrightarrow>
     bridge_reachable sb reap prompt s0 S'"

text \<open>
  What a conversation under a key may hold: a start, which is the prompt or what the store held under
  that key to begin with, and then what was said under that key.
\<close>

definition starts_of :: "string \<Rightarrow> sessions_spec \<Rightarrow> string \<Rightarrow> message list set" where
  "starts_of prompt old k = insert [text_message ''system'' prompt] (set_option (old k))"

definition said_under :: "(a2a_request \<times> message) list \<Rightarrow> string \<Rightarrow> message set" where
  "said_under said k = {m. \<exists>rq. (rq, m) \<in> set said \<and> request_key rq = k}"

definition own_words ::
  "string \<Rightarrow> sessions_spec \<Rightarrow> (a2a_request \<times> message) list \<Rightarrow> string \<Rightarrow> message list \<Rightarrow> bool" where
  "own_words prompt old said k ms \<longleftrightarrow>
     (\<exists>start rest. ms = start @ rest \<and> start \<in> starts_of prompt old k \<and> set rest \<subseteq> said_under said k)"

lemma own_words_start: "start \<in> starts_of prompt old k \<Longrightarrow> own_words prompt old said k start"
  unfolding own_words_def by (intro exI [of _ start] exI [of _ "[]"]) simp

lemma own_words_more: "own_words prompt old said k ms \<Longrightarrow> own_words prompt old (said @ extra) k ms"
  by (fastforce simp: own_words_def said_under_def)

lemma own_words_append:
  assumes "own_words prompt old said k ms" "request_key rq = k"
  shows "own_words prompt old (said @ [(rq, m)]) k (ms @ [m])"
proof -
  obtain start rest where ms: "ms = start @ rest" "start \<in> starts_of prompt old k" "set rest \<subseteq> said_under said k"
    using assms(1) unfolding own_words_def by blast
  then have "set (rest @ [m]) \<subseteq> said_under (said @ [(rq, m)]) k" using assms(2) by (auto simp: said_under_def)
  with ms show ?thesis unfolding own_words_def by (intro exI [of _ start] exI [of _ "rest @ [m]"]) simp
qed

text \<open>A backend made of the operations of a store.\<close>

definition backend_of where
  "backend_of create app snap err =
     \<lparr>sb_get_or_create = create, sb_append = app, sb_append_and_snapshot = snap, sb_error_text = err\<rparr>"

context session_store
begin

abbreviation backend :: "('e \<Rightarrow> string) \<Rightarrow> ('f, 'e, 's) session_backend" where
  "backend err \<equiv> backend_of get_or_create append append_and_snapshot err"

definition kept :: "string \<Rightarrow> sessions_spec \<Rightarrow> (a2a_request \<times> message) list \<Rightarrow> 's \<Rightarrow> bool" where
  "kept prompt old said s \<longleftrightarrow> inv s \<and> (\<forall>k ms. spec s k = Some ms \<longrightarrow> own_words prompt old said k ms)"

lemma kept_more: "kept prompt old said s \<Longrightarrow> kept prompt old (said @ extra) s"
  using own_words_more unfolding kept_def by blast

lemma kept_spec: "kept prompt old said s \<Longrightarrow> inv s' \<Longrightarrow> spec s' \<subseteq>\<^sub>m spec s \<Longrightarrow> kept prompt old said s'"
  unfolding kept_def map_le_def by (metis domI)

lemma kept_append:
  assumes "kept prompt old said s" "inv s'" "spec s' = spec s \<or> spec s' = spec_append (request_key rq) m (spec s)"
  shows "kept prompt old (said @ [(rq, m)]) s'"
proof -
  have k: "\<forall>k ms. spec s k = Some ms \<longrightarrow> own_words prompt old said k ms" using assms(1) by (simp add: kept_def)
  have "own_words prompt old (said @ [(rq, m)]) k ms" if ms: "spec s' k = Some ms" for k ms
  proof (cases "spec s k = Some ms")
    case True
    with k have "own_words prompt old said k ms" by blast
    then show ?thesis by (rule own_words_more)
  next
    case False
    then have s': "spec s' = spec_append (request_key rq) m (spec s)" using assms(3) ms by auto
    then obtain ms0 where "k = request_key rq" "spec s k = Some ms0" "ms = ms0 @ [m]"
      using False ms by (auto simp: spec_append_def split: option.splits if_splits)
    with k show ?thesis by (auto intro: own_words_append)
  qed
  then show ?thesis using assms(2) by (simp add: kept_def)
qed

lemma kept_open:
  assumes "kept prompt old said s" "open_session (backend err) prompt f now rq s = (r, s')"
  shows "kept prompt old said s'"
proof -
  have inv: "inv s" using assms(1) by (simp add: kept_def)
  obtain x s1 where x: "get_or_create f (request_key rq) prompt now s = (x, s1)" by fastforce
  then have s1: "s1 = s'" using assms(2) by (auto simp: open_session_def backend_of_def split: sum.splits)
  have "inv s'" using inv_create [OF inv, of f "request_key rq" prompt now] x s1 by simp
  moreover have "spec s' = spec s \<or> spec s' = spec_create (request_key rq) prompt (spec s)"
    using create_ok [OF inv] create_failed [OF inv] x s1 by (cases x) blast+
  moreover have "own_words prompt old said k [text_message ''system'' prompt]" for k
    by (rule own_words_start) (simp add: starts_of_def)
  ultimately show ?thesis using assms(1)
    by (auto simp: kept_def spec_create_def split: option.splits if_splits)
qed

lemma kept_ask:
  assumes "kept prompt old said s" "storable (user_message rq)" "ask_session (backend err) f now rq s = (r, s')"
  shows "kept prompt old (said @ [(rq, user_message rq)]) s'
    \<and> (\<forall>ms. r = Inr ms \<longrightarrow> ms = [] \<or> own_words prompt old (said @ [(rq, user_message rq)]) (request_key rq) ms)"
proof -
  have inv: "inv s" using assms(1) by (simp add: kept_def)
  let ?m = "user_message rq"
  obtain x where x: "append_and_snapshot f (request_key rq) ?m now s = (x, s')"
    "r = (case x of Inl e \<Rightarrow> Inl (''Session error: '' @ err e) | Inr None \<Rightarrow> Inr [] | Inr (Some ms) \<Rightarrow> Inr ms)"
    using assms(3) by (auto simp: ask_session_def backend_of_def split: prod.splits sum.splits option.splits)
  have "snd (append_and_snapshot f (request_key rq) ?m now s) = snd (append f (request_key rq) ?m now s)"
    by (rule snapshot_state [OF inv])
  then have inv': "inv s'" using inv_append [OF inv, of f "request_key rq" ?m now] x(1) by simp
  have "spec s' = spec s \<or> spec s' = spec_append (request_key rq) ?m (spec s)"
  proof (cases x)
    case (Inl e)
    then show ?thesis using snapshot_failed [OF inv assms(2)] x(1) by blast
  next
    case (Inr ms)
    then show ?thesis using snapshot_ok [OF inv] append_ok [OF inv assms(2)] x(1) by blast
  qed
  from kept_append [OF assms(1) inv' this] have k: "kept prompt old (said @ [(rq, ?m)]) s'" .
  moreover have "ms = [] \<or> own_words prompt old (said @ [(rq, ?m)]) (request_key rq) ms" if "r = Inr ms" for ms
  proof -
    have "x = Inr None \<and> ms = [] \<or> x = Inr (Some ms)" using that x(2) by (auto split: sum.splits option.splits)
    moreover have "spec s' (request_key rq) = Some ms" if "x = Inr (Some ms)"
      using snapshot_ok [OF inv, of f "request_key rq" ?m now "Some ms" s'] x(1) that by simp
    ultimately show ?thesis using k by (auto simp: kept_def)
  qed
  ultimately show ?thesis by blast
qed

lemma kept_answer:
  assumes "kept prompt old said s" "storable (text_message ''assistant'' result)"
  shows "kept prompt old (said @ [(rq, text_message ''assistant'' result)]) (save_answer (backend err) f now rq result s)"
proof -
  have inv: "inv s" using assms(1) by (simp add: kept_def)
  obtain x s' where x: "append f (request_key rq) (text_message ''assistant'' result) now s = (x, s')" by fastforce
  then have s': "save_answer (backend err) f now rq result s = s'" by (simp add: save_answer_def backend_of_def)
  have "inv s'" using inv_append [OF inv, of f "request_key rq" "text_message ''assistant'' result" now] x by simp
  moreover have "spec s' = spec s \<or> spec s' = spec_append (request_key rq) (text_message ''assistant'' result) (spec s)"
    using append_ok [OF inv assms(2)] append_failed [OF inv] x by (cases x) blast+
  ultimately show ?thesis unfolding s' by (rule kept_append [OF assms(1)])
qed

definition turn_ok :: "string \<Rightarrow> sessions_spec \<Rightarrow> (a2a_request \<times> message) list \<Rightarrow> a2a_request \<times> turn \<Rightarrow> bool" where
  "turn_ok prompt old said t \<longleftrightarrow> request_key (fst t) \<noteq> [] \<and>
     (case snd t of Asked ms \<Rightarrow> ms = [] \<or> own_words prompt old said (request_key (fst t)) ms | _ \<Rightarrow> True)"

lemma turn_ok_more: "turn_ok prompt old said t \<Longrightarrow> turn_ok prompt old (said @ extra) t"
  using own_words_more by (auto simp: turn_ok_def split: turn.splits)

definition bridge_inv :: "string \<Rightarrow> sessions_spec \<Rightarrow> 's bridge_system \<Rightarrow> bool" where
  "bridge_inv prompt old S \<longleftrightarrow> kept prompt old (bs_said S) (bs_store S)
     \<and> (\<forall>i t. map_of (bs_turns S) i = Some t \<longrightarrow> turn_ok prompt old (bs_said S) t)
     \<and> (\<forall>(rq, m) \<in> set (bs_said S). request_key rq \<noteq> [])"

lemma bridge_inv_put:
  assumes "bridge_inv prompt old S" "kept prompt old (bs_said S @ said) s"
    "turn_ok prompt old (bs_said S @ said) (rq, tn)" "\<forall>(r, m) \<in> set said. r = rq"
  shows "bridge_inv prompt old (put_turn i rq tn s said S)"
proof -
  have "request_key rq \<noteq> []" using assms(3) by (simp add: turn_ok_def)
  then show ?thesis
    using assms turn_ok_more [of prompt old "bs_said S"]
    by (auto simp: bridge_inv_def put_turn_def split: if_splits)
qed

lemma bridge_inv_step:
  assumes plain: "\<And>r c. storable (text_message r c)"
  assumes "bridge_step (backend err) reap prompt S S'" "bridge_inv prompt old S"
  shows "bridge_inv prompt old S'"
  using assms(2,3)
proof (induction rule: bridge_step.induct)
  case (opens S i rq f now r s')
  have "kept prompt old (bs_said S) s'"
    using kept_open [OF _ opens(3)] opens(4) by (simp add: bridge_inv_def)
  then show ?case using opens(2,4) by (intro bridge_inv_put) (auto simp: turn_ok_def)
next
  case (asks S i rq f now r s')
  have "request_key rq \<noteq> []" using asks(1,3) by (auto simp: bridge_inv_def turn_ok_def)
  moreover have "storable (user_message rq)" unfolding user_message_def by (rule plain)
  ultimately show ?case
    using kept_ask [OF _ _ asks(2)] asks(3)
    by (intro bridge_inv_put) (auto simp: bridge_inv_def turn_ok_def split: sum.splits)
next
  case (answers S i rq ms f now result)
  have "request_key rq \<noteq> []" using answers(1,2) by (auto simp: bridge_inv_def turn_ok_def)
  then show ?case
    using kept_answer [OF _ plain] answers(2) by (intro bridge_inv_put) (auto simp: bridge_inv_def turn_ok_def)
next
  case (fails S i rq ms)
  have "request_key rq \<noteq> []" using fails by (auto simp: bridge_inv_def turn_ok_def)
  then show ?case using fails(2) by (intro bridge_inv_put) (auto simp: bridge_inv_def turn_ok_def)
next
  case (reaps S f now)
  have "inv (bs_store S)" using reaps by (simp add: bridge_inv_def kept_def)
  then have "kept prompt old (bs_said S) (reap f now (bs_store S))"
    using reaps kept_spec [OF _ inv_reap reap_removes] by (simp add: bridge_inv_def)
  then show ?case using reaps by (simp add: bridge_inv_def)
qed

lemma bridge_inv_reachable:
  assumes plain: "\<And>r c. storable (text_message r c)" and init: "inv s0"
    and reach: "bridge_reachable (backend err) reap prompt s0 S"
  shows "bridge_inv prompt (spec s0) S"
  using reach
proof (induction rule: bridge_reachable.induct)
  case init
  have "kept prompt (spec s0) [] s0" using assms(2) by (auto simp: kept_def starts_of_def intro: own_words_start)
  then show ?case by (simp add: bridge_inv_def)
next
  case (step S S')
  then show ?case using bridge_inv_step [OF plain] by blast
qed

text \<open>What a turn is asked with, read off the invariant.\<close>

lemma asked_own_words:
  assumes "\<And>r c. storable (text_message r c)" "inv s0" "bridge_reachable (backend err) reap prompt s0 S"
    "map_of (bs_turns S) i = Some (rq, Asked ms)" "ms \<noteq> []"
  shows "request_key rq \<noteq> [] \<and> own_words prompt (spec s0) (bs_said S) (request_key rq) ms"
proof -
  have "turn_ok prompt (spec s0) (bs_said S) (rq, Asked ms)"
    using bridge_inv_reachable [OF assms(1-3)] assms(4) by (auto simp: bridge_inv_def)
  then show ?thesis using assms(5) by (simp add: turn_ok_def)
qed

end

definition mem_backend :: "('f, string, memory_store) session_backend" where
  "mem_backend = backend_of (\<lambda>_. mem_get_or_create) (\<lambda>_. mem_append) (\<lambda>_. mem_append_and_snapshot) (\<lambda>e. e)"

definition sql_backend :: "(sql_error \<Rightarrow> string) \<Rightarrow> (sql_faults, sql_error, sql_store) session_backend" where
  "sql_backend err = backend_of sql_get_or_create sql_append sql_append_and_snapshot err"

text \<open>A verified caller whose names hold no separator of the key.\<close>

definition plain_caller :: "a2a_request \<Rightarrow> bool" where
  "plain_caller rq \<longleftrightarrow> (case ar_claims rq of
     Some c \<Rightarrow> CHR ''|'' \<notin> set (cl_subject c) \<and> CHR ''|'' \<notin> set (cl_azp c) | None \<Rightarrow> False)"

definition same_conversation :: "a2a_request \<Rightarrow> a2a_request \<Rightarrow> bool" where
  "same_conversation rq rq' \<longleftrightarrow>
     map_option (\<lambda>c. (cl_subject c, cl_azp c)) (ar_claims rq) = map_option (\<lambda>c. (cl_subject c, cl_azp c)) (ar_claims rq')
     \<and> take 64 (session_id_of rq) = take 64 (session_id_of rq')"

lemma cut_injective: "x \<notin> set a \<Longrightarrow> x \<notin> set b \<Longrightarrow> a @ x # c = b @ x # d \<Longrightarrow> a = b \<and> c = d"
  by (metis str_cut_append option.inject prod.inject)

lemma plain_key_same:
  assumes "plain_caller rq" "plain_caller rq'" "request_key rq = request_key rq'" "request_key rq \<noteq> []"
  shows "same_conversation rq rq'"
proof -
  obtain c c' where c: "ar_claims rq = Some c" "ar_claims rq' = Some c'"
    "CHR ''|'' \<notin> set (cl_subject c)" "CHR ''|'' \<notin> set (cl_azp c)"
    "CHR ''|'' \<notin> set (cl_subject c')" "CHR ''|'' \<notin> set (cl_azp c')"
    using assms(1,2) by (auto simp: plain_caller_def split: option.splits)
  have key: "request_key r = (if take 64 (session_id_of r) = [] then []
      else cl_subject d @ CHR ''|'' # cl_azp d @ CHR ''|'' # take 64 (session_id_of r))" if "ar_claims r = Some d" for r d
    using that by (simp add: request_key_def session_key_def Let_def)
  have "cl_subject c @ CHR ''|'' # cl_azp c @ CHR ''|'' # take 64 (session_id_of rq)
      = cl_subject c' @ CHR ''|'' # cl_azp c' @ CHR ''|'' # take 64 (session_id_of rq')"
    using assms(3,4) unfolding key [OF c(1)] key [OF c(2)] by (simp split: if_splits)
  from cut_injective [OF c(3,5) this] have "cl_subject c = cl_subject c'"
    and "cl_azp c @ CHR ''|'' # take 64 (session_id_of rq) = cl_azp c' @ CHR ''|'' # take 64 (session_id_of rq')" by auto
  with cut_injective [OF c(4,6)] show ?thesis by (auto simp: same_conversation_def c)
qed

text \<open>
  Two requests whose keys tell them apart: both by callers with plain names, or both without a caller
  (as when the service runs without authentication).
\<close>

definition told_apart :: "a2a_request \<Rightarrow> a2a_request \<Rightarrow> bool" where
  "told_apart rq r \<longleftrightarrow> plain_caller rq \<and> plain_caller r \<or> ar_claims rq = None \<and> ar_claims r = None"

lemma told_apart_key:
  assumes "told_apart rq r" "request_key r = request_key rq" "request_key rq \<noteq> []"
  shows "same_conversation rq r"
proof (cases "plain_caller rq \<and> plain_caller r")
  case True
  then show ?thesis using plain_key_same [of rq r] assms(2,3) by simp
next
  case False
  then have "ar_claims rq = None" "ar_claims r = None" using assms(1) by (auto simp: told_apart_def)
  moreover have "request_key x = take 64 (session_id_of x)" if "ar_claims x = None" for x
    using that by (simp add: request_key_def session_key_def Let_def)
  ultimately show ?thesis using assms(2) by (simp add: same_conversation_def)
qed

text \<open>A message of the conversation of a request: said under its key, and by the same caller if told apart.\<close>

definition said_in_conversation :: "(a2a_request \<times> message) list \<Rightarrow> a2a_request \<Rightarrow> message \<Rightarrow> bool" where
  "said_in_conversation said rq m \<longleftrightarrow>
     (\<exists>r. (r, m) \<in> set said \<and> request_key r = request_key rq \<and> (told_apart rq r \<longrightarrow> same_conversation rq r))"

lemma own_words_isolated:
  assumes "request_key rq \<noteq> [] \<and> own_words prompt old said (request_key rq) ms"
  shows "\<exists>start rest. ms = start @ rest
    \<and> (start = [text_message ''system'' prompt] \<or> old (request_key rq) = Some start)
    \<and> (\<forall>m \<in> set rest. said_in_conversation said rq m)"
proof -
  obtain start rest where ms: "ms = start @ rest" "start \<in> starts_of prompt old (request_key rq)"
    "set rest \<subseteq> said_under said (request_key rq)" using assms unfolding own_words_def by blast
  have "said_in_conversation said rq m" if "m \<in> set rest" for m
    using that ms(3) told_apart_key assms unfolding said_in_conversation_def said_under_def by blast
  then show ?thesis using ms(1,2) by (intro exI [of _ start] exI [of _ rest]) (auto simp: starts_of_def)
qed

lemma sql_text_storable: "sql_storable (text_message r c)"
  by (simp add: sql_storable_def)

text \<open>
  C26. Conversations do not mix. However requests of any callers interleave over the database, with
  failing statements, failing runs of the model and the reaper, from any well-formed database: a
  conversation the model is asked with is empty, or it is the agent's prompt or what the database
  held under the key of this request to begin with, followed by messages each of which was said by
  or answered to a request with the same session key. Requests with the same key are of the same
  caller and the same session id when both callers are verified and neither name holds a "|", or
  when neither request has a caller; a "|" in a name is not escaped and can make two keys collide
  (\<open>session_key_collision\<close>).
\<close>

theorem conversations_isolated:
  assumes "bridge_reachable (sql_backend err) sql_reap prompt s0 S" "sql_inv s0"
    "map_of (bs_turns S) i = Some (rq, Asked ms)" "ms \<noteq> []"
  shows "\<exists>start rest. ms = start @ rest
    \<and> (start = [text_message ''system'' prompt] \<or> sql_spec s0 (request_key rq) = Some start)
    \<and> (\<forall>m \<in> set rest. \<exists>r. (r, m) \<in> set (bs_said S) \<and> request_key r = request_key rq
          \<and> (plain_caller rq \<and> plain_caller r \<or> ar_claims rq = None \<and> ar_claims r = None
               \<longrightarrow> same_conversation rq r))"
  using own_words_isolated [OF sql.asked_own_words [OF sql_text_storable assms(2)
    assms(1) [unfolded sql_backend_def] assms(3,4)]]
  unfolding said_in_conversation_def told_apart_def .

definition caller_claims :: "string \<Rightarrow> string \<Rightarrow> claims" where
  "caller_claims sub azp = \<lparr>cl_subject = sub, cl_issuer = ''i'', cl_audience = [], cl_azp = azp, cl_scopes = [],
     cl_expiry = 0, cl_raw = []\<rparr>"

definition request_by :: "string \<Rightarrow> string \<Rightarrow> string \<Rightarrow> string \<Rightarrow> a2a_request" where
  "request_by sub azp sid txt = \<lparr>ar_stored_task = False, ar_parts = Some [txt],
     ar_session_header = Some [sid], ar_claims = Some (caller_claims sub azp)\<rparr>"

text \<open>A first request, from the empty database up to the question to the model.\<close>

definition first_turn :: "(sql_store \<times> sql_store) \<times> (string + message list)" where
  "first_turn =
     (let rq = request_by ''ana'' ''cli'' ''s1'' ''hi''; sb = sql_backend (\<lambda>_. []);
          s1 = snd (open_session sb ''p'' no_faults 0 rq (new_sqlite_store 60 (\<lambda>_. 0)));
          (r, s2) = ask_session sb no_faults 1 rq s1 in ((s1, s2), r))"

theorem conversations_isolated_witness:
  "\<exists>S :: sql_store bridge_system. map_of (bs_turns S) 0 = Some (request_by ''ana'' ''cli'' ''s1'' ''hi'',
       Asked [text_message ''system'' ''p'', text_message ''user'' ''hi''])
     \<and> (\<exists>r. (r, text_message ''user'' ''hi'') \<in> set (bs_said S)
          \<and> same_conversation (request_by ''ana'' ''cli'' ''s1'' ''hi'') r)"
proof -
  let ?rq = "request_by ''ana'' ''cli'' ''s1'' ''hi''" and ?sb = "sql_backend (\<lambda>_. [])"
  let ?s0 = "new_sqlite_store 60 (\<lambda>_. 0)"
  let ?ms = "[text_message ''system'' ''p'', text_message ''user'' ''hi'']"
  define S0 where "S0 = \<lparr>bs_store = ?s0, bs_turns = [], bs_said = []\<rparr>"
  define s1 where "s1 = snd (open_session ?sb ''p'' no_faults 0 ?rq ?s0)"
  define s2 where "s2 = snd (ask_session ?sb no_faults 1 ?rq s1)"
  define S1 where "S1 = put_turn 0 ?rq Opened s1 [] S0"
  define S2 where "S2 = put_turn 0 ?rq (Asked ?ms) s2 [(?rq, user_message ?rq)] S1"
  have rq: "request_key ?rq \<noteq> []" "user_message ?rq = text_message ''user'' ''hi''" by code_simp+
  have "fst (open_session ?sb ''p'' no_faults 0 ?rq ?s0) = Inr ()" by code_simp
  then have open_: "open_session ?sb ''p'' no_faults 0 ?rq ?s0 = (Inr (), s1)" by (simp add: s1_def prod_eq_iff)
  have "snd first_turn = Inr ?ms" by code_simp
  then have "fst (ask_session ?sb no_faults 1 ?rq s1) = Inr ?ms" by (simp add: first_turn_def s1_def Let_def split: prod.splits)
  then have ask: "ask_session ?sb no_faults 1 ?rq s1 = (Inr ?ms, s2)" by (simp add: s2_def prod_eq_iff)
  let ?reach = "bridge_reachable ?sb sql_reap ''p'' ?s0"
  have "bridge_step ?sb sql_reap ''p'' S0 S1"
    using bridge_step.opens [of S0 0 ?rq ?sb "''p''" no_faults 0 "Inr ()" s1 sql_reap] rq open_
    by (simp add: S0_def S1_def)
  moreover have "bridge_step ?sb sql_reap ''p'' S1 S2"
    using bridge_step.asks [of S1 0 ?rq ?sb no_faults 1 "Inr ?ms" s2 sql_reap "''p''"] ask
    by (simp add: S1_def S2_def put_turn_def)
  moreover have "?reach S0" unfolding S0_def by (rule bridge_reachable.init)
  ultimately have reach: "?reach S2" by (blast intro: bridge_reachable.step)
  have turn: "map_of (bs_turns S2) 0 = Some (?rq, Asked ?ms)" by (simp add: S2_def put_turn_def)
  have empty: "sql_spec ?s0 k = None" for k by (simp add: sql_spec_def new_sqlite_store_def)
  have said: "bs_said S2 = [(?rq, text_message ''user'' ''hi'')]"
    using rq(2) by (simp add: S0_def S1_def S2_def put_turn_def)
  have plain: "plain_caller ?rq" by code_simp
  obtain start rest where "?ms = start @ rest"
    "start = [text_message ''system'' ''p''] \<or> sql_spec ?s0 (request_key ?rq) = Some start"
    "\<forall>m \<in> set rest. \<exists>r. (r, m) \<in> set (bs_said S2) \<and> request_key r = request_key ?rq
       \<and> (plain_caller ?rq \<and> plain_caller r \<or> ar_claims ?rq = None \<and> ar_claims r = None \<longrightarrow> same_conversation ?rq r)"
    using conversations_isolated [OF reach sql_inv_new turn] by blast
  then have "\<exists>r. (r, text_message ''user'' ''hi'') \<in> set (bs_said S2) \<and> same_conversation ?rq r"
    using empty plain said by auto
  with turn show ?thesis by (intro exI [of _ S2] conjI)
qed

text \<open>
  The separator is not escaped: with it in a name, two callers share a key. And when the reaper
  removes a session between the two calls, the model is asked with no message at all.
\<close>

lemma session_key_collision:
  "request_key (request_by ''a|b'' ''c'' ''s'' []) = request_key (request_by ''a'' ''b|c'' ''s'' [])"
  by code_simp

lemma reaped_turn_is_empty:
  "ask_session mem_backend f now rq (new_memory_store ttl) = (Inr [], new_memory_store ttl)"
  by (simp add: ask_session_def mem_backend_def backend_of_def mem_append_and_snapshot_def new_memory_store_def)

text \<open>The same over the store in memory.\<close>

lemma memory_conversations_isolated:
  assumes "bridge_reachable mem_backend (\<lambda>_. mem_reap) prompt s0 S" "mem_inv s0"
    "map_of (bs_turns S) i = Some (rq, Asked ms)" "ms \<noteq> []"
  shows "\<exists>start rest. ms = start @ rest
    \<and> (start = [text_message ''system'' prompt] \<or> mem_spec s0 (request_key rq) = Some start)
    \<and> (\<forall>m \<in> set rest. said_in_conversation (bs_said S) rq m)"
  using mem.asked_own_words [OF _ assms(2) assms(1) [unfolded mem_backend_def] assms(3,4)]
  by (intro own_words_isolated) simp

end
