(* ===== verification/Web_Tools.thy ===== *)
theory Web_Tools
  imports Tool_Registry Go_Url Go_Http Go_Json_Text Workspace_Tools
begin

section \<open>internal/egress, internal/webfetch and internal/fetchdoc: the tools that fetch\<close>

text \<open>
  Descriptions of failed requests (egress), the tool that fetches a URL, with its list of allowed
  hosts, and the tool that fetches a document of a configured service. A request is sent by
  \<open>we_send\<close>, which may answer anything and change the world \<open>'w\<close>; \<open>http_do\<close> is the redirect loop of
  \<open>http.Client.Do\<close> around it, with the check of the caller. Texts of library errors and the
  resolution of a Location header are part of the environment too. Log lines are left out.
\<close>

subsection \<open>The client\<close>

record http_call =
  hc_method :: string
  hc_url :: url
  hc_headers :: headers

record 'w web_env =
  we_send :: "http_call \<Rightarrow> 'w \<Rightarrow> http_result \<times> 'w"
  we_location :: "url \<Rightarrow> string \<Rightarrow> string + url"
  we_parse_error :: "string \<Rightarrow> string"
  we_client_error :: "url \<Rightarrow> string \<Rightarrow> string"
  we_quote :: "string \<Rightarrow> string"
  we_lower :: "string \<Rightarrow> string"

definition redirect_statuses :: "int list" where
  "redirect_statuses = [301, 302, 303, 307, 308]"

text \<open>The Location a response redirects to; a redirect without one is an ordinary response.\<close>

definition redirect_location :: "http_result \<Rightarrow> string option" where
  "redirect_location r =
     (case r of
        HttpFailed _ \<Rightarrow> None
      | HttpReply st h _ \<Rightarrow>
          if st \<in> set redirect_statuses \<and> header_get ''Location'' h \<noteq> [] then Some (header_get ''Location'' h) else None
      | HttpBroken st h _ _ \<Rightarrow>
          if st \<in> set redirect_statuses \<and> header_get ''Location'' h \<noteq> [] then Some (header_get ''Location'' h) else None)"

text \<open>
  One GET with its redirects: \<open>via\<close> counts the requests made, \<open>check\<close> is what \<open>CheckRedirect\<close> says of
  the next URL, and no more than \<open>limit\<close> requests are made.
\<close>

function http_do ::
  "'w web_env \<Rightarrow> (url \<Rightarrow> string option) \<Rightarrow> nat \<Rightarrow> string \<Rightarrow> headers \<Rightarrow> nat \<Rightarrow> url \<Rightarrow> 'w \<Rightarrow> (string + http_result) \<times> 'w"
where
  "http_do env check limit many hs via u w =
     (let (r, w1) = we_send env \<lparr>hc_method = ''GET'', hc_url = u, hc_headers = hs\<rparr> w in
      case r of
        HttpFailed e \<Rightarrow> (Inl (we_client_error env u e), w1)
      | _ \<Rightarrow>
          (case redirect_location r of
             None \<Rightarrow> (Inr r, w1)
           | Some loc \<Rightarrow>
               (case we_location env u loc of
                  Inl e \<Rightarrow> (Inl (we_client_error env u e), w1)
                | Inr u1 \<Rightarrow>
                    (case check u1 of
                       Some e \<Rightarrow> (Inl (we_client_error env u1 e), w1)
                     | None \<Rightarrow>
                         if Suc via \<ge> limit then (Inl (we_client_error env u1 many), w1)
                         else http_do env check limit many hs (Suc via) u1 w1))))"
  by pat_completeness auto
termination
  by (relation "measure (\<lambda>(env, check, limit, many, hs, via, u, w). limit - via)") auto

declare http_do.simps [simp del]

definition status_of :: "http_result \<Rightarrow> int" where
  "status_of r = (case r of HttpFailed _ \<Rightarrow> 0 | HttpReply st _ _ \<Rightarrow> st | HttpBroken st _ _ _ \<Rightarrow> st)"

definition body_seen :: "http_result \<Rightarrow> string" where
  "body_seen r = (case r of HttpFailed _ \<Rightarrow> [] | HttpReply _ _ b \<Rightarrow> b | HttpBroken _ _ b _ \<Rightarrow> b)"

subsection \<open>denial.go\<close>

definition max_error_body :: nat where "max_error_body = 4 * 1024"

definition sandbox_policy_errors :: "string list" where
  "sandbox_policy_errors =
     [''policy_denied'', ''ssrf_denied'', ''middleware_denied'', ''middleware_failed'',
      ''credential_endpoint_mismatch'', ''unsupported_l7_protocol'']"

definition blocked_by_policy :: string where
  "blocked_by_policy = ''blocked by sandbox network policy''"

text \<open>The field error of a body that decodes; null and a document without it give the empty text.\<close>

definition error_field :: "string \<Rightarrow> string option" where
  "error_field body =
     (case json_parse body of
        Some (JObj kvs) \<Rightarrow>
          fold_fields (\<lambda>k v e. if field_is k ''error'' then string_field v (\<lambda>s _. s) e else Some e) kvs []
      | Some JNull \<Rightarrow> Some []
      | _ \<Rightarrow> None)"

definition describe_response :: "int \<Rightarrow> string \<Rightarrow> string" where
  "describe_response st full_body =
     (case error_field (take max_error_body full_body) of
        Some e \<Rightarrow>
          if e \<noteq> [] then (if e \<in> set sandbox_policy_errors then blocked_by_policy else itoa st @ '' '' @ e)
          else itoa st @ '' '' @ (if status_text st = [] then ''unknown status'' else status_text st)
      | None \<Rightarrow> itoa st @ '' '' @ (if status_text st = [] then ''unknown status'' else status_text st))"

definition describe_error :: "(string \<Rightarrow> string) \<Rightarrow> string \<Rightarrow> string" where
  "describe_error ul msg =
     (if str_contains msg ''http: server gave HTTP response to HTTPS client'' then blocked_by_policy
      else if str_contains (to_lower ul msg) ''proxyconnect'' then blocked_by_policy
      else ''request failed: '' @ msg)"

subsection \<open>webfetch.go\<close>

definition is_host_allowed :: "(string \<Rightarrow> string) \<Rightarrow> string list \<Rightarrow> string \<Rightarrow> bool" where
  "is_host_allowed ul allowed host =
     list_ex (\<lambda>a. to_lower ul host = to_lower ul a \<or> has_suffix (to_lower ul host) (''.'' @ to_lower ul a)) allowed"

definition check_redirect :: "'w web_env \<Rightarrow> string list \<Rightarrow> url \<Rightarrow> string option" where
  "check_redirect env allowed u =
     (if length allowed > 0 \<and> \<not> is_host_allowed (we_lower env) allowed (hostname u)
      then Some (''redirect to non-allowed host: '' @ hostname u) else None)"

definition web_fetch_execute :: "'w web_env \<Rightarrow> string list \<Rightarrow> args \<Rightarrow> 'w \<Rightarrow> tool_result \<times> 'w" where
  "web_fetch_execute env allowed a w =
     (let raw = str_or_empty ''url'' a in
      if raw = [] then (tool_errorf ''url is required'', w)
      else (case url_parse raw of
          None \<Rightarrow> (tool_errorf (''invalid URL: '' @ we_parse_error env raw), w)
        | Some u \<Rightarrow>
            if map lower_char (u_scheme u) \<notin> {''http'', ''https''}
            then (tool_errorf (''unsupported URL scheme: '' @ u_scheme u), w)
            else if length allowed > 0 \<and> \<not> is_host_allowed (we_lower env) allowed (hostname u)
            then (tool_errorf (''Host not allowed: '' @ hostname u), w)
            else
              (case http_do env (check_redirect env allowed) 10 ''too many redirects'' [] 0 u w of
                 (Inl e, w1) \<Rightarrow> (tool_errorf (''fetch failed: '' @ e), w1)
               | (Inr r, w1) \<Rightarrow>
                   (case read_limited 100000 r of
                      Inl e \<Rightarrow> (tool_errorf (''failed to read response: '' @ e), w1)
                    | Inr body \<Rightarrow>
                        if status_of r \<noteq> 200
                        then (tool_errorf (''HTTP '' @ itoa (status_of r) @ '': '' @ body), w1)
                        else (tool_ok body, w1)))))"

definition web_fetch_tool :: "'w web_env \<Rightarrow> string list \<Rightarrow> 'w tool" where
  "web_fetch_tool env allowed =
     \<lparr>t_name = ''web_fetch'',
      t_description = ''Fetch content from a URL via HTTP GET. Returns the response body as text.'',
      t_parameters = object_schema [string_param ''url'' ''The URL to fetch''] [''url''],
      t_execute = web_fetch_execute env allowed\<rparr>"

subsection \<open>fetchdoc.go\<close>

text \<open>\<open>url.PathEscape\<close>: what a segment of a path may hold as it is, and the rest as escapes.\<close>

definition segment_char :: "char \<Rightarrow> bool" where
  "segment_char c \<longleftrightarrow> is_alnum c \<or> c \<in> set ''-_.~$&+=:@''"

definition upper_hex :: "nat \<Rightarrow> char" where
  "upper_hex n = (if n < 10 then char_of (48 + n) else char_of (55 + n))"

definition path_escape :: "string \<Rightarrow> string" where
  "path_escape s = concat (map (\<lambda>c. if segment_char c then [c]
     else [CHR 0x25, upper_hex (of_char c div 16), upper_hex (of_char c mod 16)]) s)"

type_synonym doc_services = "(string \<times> string) list"

definition service_names :: "doc_services \<Rightarrow> string list" where
  "service_names services = sort (map fst services)"

text \<open>
  The text of a document: the fields title and content of the object, or of the object nested in it
  as document.
\<close>

definition document_text :: "(string \<times> json) list \<Rightarrow> string" where
  "document_text result =
     (let doc = (case get_obj ''document'' result of Some nested \<Rightarrow> nested | None \<Rightarrow> result) in
      ''**Document:** '' @ str_or_empty ''title'' doc @ nl @ nl @ str_or_empty ''content'' doc)"

text \<open>
  The decoder takes the first value of the body; a map is decoded from an object or null, with the
  last of equal keys.
\<close>

definition decode_object :: "string \<Rightarrow> (string \<times> json) list option" where
  "decode_object body =
     (case read_value (Suc (length body)) body of
        Some (JObj kvs, _) \<Rightarrow> Some (of_pairs kvs)
      | Some (JNull, _) \<Rightarrow> Some []
      | _ \<Rightarrow> None)"

definition document_endpoint :: "string \<Rightarrow> string \<Rightarrow> string" where
  "document_endpoint base doc_id = trim_right_set {CHR ''/''} base @ ''/documents/'' @ path_escape doc_id"

definition fetch_document_execute ::
  "'w web_env \<Rightarrow> (http_result \<Rightarrow> string) \<Rightarrow> doc_services \<Rightarrow> args \<Rightarrow> 'w \<Rightarrow> tool_result \<times> 'w" where
  "fetch_document_execute env decode_error services a w =
     (let service = str_or_empty ''service'' a; doc_id = str_or_empty ''document_id'' a in
      if service = [] then (tool_errorf ''service is required'', w)
      else if doc_id = [] then (tool_errorf ''document_id is required'', w)
      else if doc_id = ''.'' \<or> doc_id = ''..''
        then (tool_errorf (''invalid document_id '' @ we_quote env doc_id @ '': must name a document''), w)
      else (case map_of services service of
          None \<Rightarrow> (tool_errorf (''unknown document service '' @ we_quote env service @ ''; available: ''
              @ str_join '', '' (service_names services)), w)
        | Some base \<Rightarrow>
            (case url_parse (document_endpoint base doc_id) of
               None \<Rightarrow> (tool_errorf (doc_id @ '': ''
                   @ describe_error (we_lower env) (we_parse_error env (document_endpoint base doc_id))), w)
             | Some u \<Rightarrow>
                 (case http_do env (\<lambda>_. None) 10 ''stopped after 10 redirects''
                         (header_set ''Accept'' ''application/json'' []) 0 u w of
                    (Inl e, w1) \<Rightarrow> (tool_errorf (doc_id @ '': '' @ describe_error (we_lower env) e), w1)
                  | (Inr r, w1) \<Rightarrow>
                      if status_of r \<noteq> 200
                      then (tool_errorf (doc_id @ '': '' @ describe_response (status_of r) (body_seen r)), w1)
                      else (case decode_object (body_seen r) of
                          None \<Rightarrow> (tool_errorf (doc_id @ '': failed to decode response: '' @ decode_error r), w1)
                        | Some result \<Rightarrow> (tool_ok (document_text result), w1))))))"

definition fetch_document_tool ::
  "'w web_env \<Rightarrow> (http_result \<Rightarrow> string) \<Rightarrow> doc_services \<Rightarrow> 'w tool" where
  "fetch_document_tool env decode_error services =
     \<lparr>t_name = ''fetch_document'',
      t_description = ''Fetch a document from a named document service by ID (e.g., DOC-001). '' @
        ''Returns the document title and content. Available services: '' @
        str_join '', '' (service_names services) @ ''.'',
      t_parameters = object_schema
        [(''service'', JObj [(''type'', JStr ''string''), (''description'', JStr ''Document service name''),
            (''enum'', JArr (map JStr (service_names services)))]),
         string_param ''document_id'' ''Document ID (e.g., DOC-001)''] [''service'', ''document_id''],
      t_execute = fetch_document_execute env decode_error services\<rparr>"

subsection \<open>Where requests go\<close>

text \<open>The environment that notes every request it sends.\<close>

definition traced :: "'w web_env \<Rightarrow> ('w \<times> http_call list) web_env" where
  "traced env = \<lparr>we_send = \<lambda>c (w, cs). (let (r, w1) = we_send env c w in (r, (w1, cs @ [c]))),
     we_location = we_location env, we_parse_error = we_parse_error env, we_client_error = we_client_error env,
     we_quote = we_quote env, we_lower = we_lower env\<rparr>"

lemma traced_simps [simp]:
  "we_send (traced env) c (w, cs) = (fst (we_send env c w), (snd (we_send env c w), cs @ [c]))"
  "we_location (traced env) = we_location env" "we_parse_error (traced env) = we_parse_error env"
  "we_client_error (traced env) = we_client_error env" "we_quote (traced env) = we_quote env"
  "we_lower (traced env) = we_lower env"
  by (simp_all add: traced_def split: prod.splits)

text \<open>
  Whatever the servers answer, the loop sends its first request and then only requests the check
  lets through, all with the given headers, and at most \<open>limit - via\<close> of them (but one at least).
\<close>

definition call_ok :: "(url \<Rightarrow> bool) \<Rightarrow> headers \<Rightarrow> http_call \<Rightarrow> bool" where
  "call_ok ok hs c \<longleftrightarrow> ok (hc_url c) \<and> hc_method c = ''GET'' \<and> hc_headers c = hs"

lemma http_do_calls:
  "\<exists>cs'. snd (snd (http_do (traced env) check limit many hs via u (w, cs))) = cs @ cs'
     \<and> 0 < length cs' \<and> length cs' \<le> max 1 (limit - via)
     \<and> hc_url (hd cs') = u \<and> list_all (call_ok (\<lambda>v. v = u \<or> check v = None) hs) cs'"
proof (induction "limit - via" arbitrary: via u w cs rule: less_induct)
  case less
  let ?c = "\<lparr>hc_method = ''GET'', hc_url = u, hc_headers = hs\<rparr>"
  let ?w1 = "(snd (we_send env ?c w), cs @ [?c])"
  have one: "\<exists>cs'. cs @ [?c] = cs @ cs' \<and> 0 < length cs' \<and> length cs' \<le> max 1 (limit - via)
      \<and> hc_url (hd cs') = u \<and> list_all (call_ok (\<lambda>v. v = u \<or> check v = None) hs) cs'"
    by (intro exI [of _ "[?c]"]) (simp add: call_ok_def)
  show ?case
  proof (cases "\<exists>loc u1. redirect_location (fst (we_send env ?c w)) = Some loc \<and> we_location env u loc = Inr u1
      \<and> check u1 = None \<and> \<not> Suc via \<ge> limit")
    case False
    then have "snd (http_do (traced env) check limit many hs via u (w, cs)) = ?w1"
      by (subst http_do.simps) (auto split: http_result.splits option.splits sum.splits)
    then show ?thesis using one by simp
  next
    case True
    then obtain loc u1 where r: "redirect_location (fst (we_send env ?c w)) = Some loc" "we_location env u loc = Inr u1"
      "check u1 = None" "\<not> Suc via \<ge> limit" by blast
    have step: "http_do (traced env) check limit many hs via u (w, cs) = http_do (traced env) check limit many hs (Suc via) u1 ?w1"
      using r by (subst http_do.simps) (auto simp: redirect_location_def split: http_result.splits)
    have "limit - Suc via < limit - via" using r(4) by simp
    from less [OF this, of u1 "fst ?w1" "snd ?w1"] obtain cs' where cs':
      "snd (snd (http_do (traced env) check limit many hs (Suc via) u1 ?w1)) = (cs @ [?c]) @ cs'"
      "length cs' \<le> max 1 (limit - Suc via)" "list_all (call_ok (\<lambda>v. v = u1 \<or> check v = None) hs) cs'" by auto
    have "list_all (call_ok (\<lambda>v. v = u \<or> check v = None) hs) cs'"
      using cs'(3) r(3) by (auto simp: list_all_iff call_ok_def)
    then show ?thesis using cs'(1,2) r(4) unfolding step
      by (intro exI [of _ "?c # cs'"]) (auto simp: call_ok_def)
  qed
qed

text \<open>What holds of the world before every request the check lets through, and where a response comes from.\<close>

lemma http_do_inv:
  assumes "\<And>v w. Q v \<Longrightarrow> P w \<Longrightarrow> P (snd (we_send env \<lparr>hc_method = ''GET'', hc_url = v, hc_headers = hs\<rparr> w))"
    "\<And>v. check v = None \<Longrightarrow> Q v" "Q u" "P w" "http_do env check limit many hs via u w = (res, w')"
  shows "P w' \<and> (\<forall>r. res = Inr r \<longrightarrow>
    (\<exists>v w1. Q v \<and> P w1 \<and> we_send env \<lparr>hc_method = ''GET'', hc_url = v, hc_headers = hs\<rparr> w1 = (r, w')))"
  using assms(3-5)
proof (induction "limit - via" arbitrary: via u w rule: less_induct)
  case less
  let ?c = "\<lparr>hc_method = ''GET'', hc_url = u, hc_headers = hs\<rparr>"
  obtain r w1 where s: "we_send env ?c w = (r, w1)" by fastforce
  have P1: "P w1" using assms(1) [OF less(2,3)] s by simp
  show ?case
  proof (cases "\<exists>loc u1. redirect_location r = Some loc \<and> we_location env u loc = Inr u1
      \<and> check u1 = None \<and> \<not> Suc via \<ge> limit")
    case False
    then have "w' = w1 \<and> (\<forall>x. res = Inr x \<longrightarrow> x = r)"
      using less(4) by (subst (asm) http_do.simps) (auto simp: s split: http_result.splits option.splits sum.splits if_splits)
    then show ?thesis using P1 less(2,3) s by blast
  next
    case True
    then obtain loc u1 where r: "redirect_location r = Some loc" "we_location env u loc = Inr u1" "check u1 = None"
      "\<not> Suc via \<ge> limit" by blast
    have "http_do env check limit many hs via u w = http_do env check limit many hs (Suc via) u1 w1"
      using r by (subst http_do.simps) (auto simp: s redirect_location_def split: http_result.splits)
    then have "http_do env check limit many hs (Suc via) u1 w1 = (res, w')" using less(4) by simp
    moreover have "limit - Suc via < limit - via" using r(4) by simp
    ultimately show ?thesis using less(1) assms(2) [OF r(3)] P1 by blast
  qed
qed

lemma host_allowed_iff:
  "is_host_allowed ul allowed host \<longleftrightarrow>
     (\<exists>a \<in> set allowed. to_lower ul host = to_lower ul a \<or> (\<exists>sub. to_lower ul host = sub @ ''.'' @ to_lower ul a))"
  by (auto simp: is_host_allowed_def list_ex_iff has_suffix_iff)

text \<open>
  C24. The fetch tool stays on the allowed hosts: with a list of hosts, whatever the servers answer
  and wherever they redirect, every request goes to a host of the list or to a name below one (a dot
  before it); it is a GET without headers of the agent, and there are at most ten. When the URL given
  is not of http or https or its host is not allowed, no request is made and the result is an error.
\<close>

theorem web_fetch_stays_on_hosts:
  assumes "allowed \<noteq> []"
  shows "\<exists>calls. snd (snd (web_fetch_execute (traced env) allowed a (w, []))) = calls \<and> length calls \<le> 10
     \<and> list_all (\<lambda>c. (\<exists>h \<in> set allowed. let host = to_lower (we_lower env) (hostname (hc_url c)) in
            host = to_lower (we_lower env) h \<or> (\<exists>sub. host = sub @ ''.'' @ to_lower (we_lower env) h))
          \<and> hc_method c = ''GET'' \<and> hc_headers c = []) calls
     \<and> (if calls = [] then res_error (fst (web_fetch_execute (traced env) allowed a (w, [])))
        else (\<exists>u. url_parse (str_or_empty ''url'' a) = Some u \<and> hc_url (hd calls) = u
          \<and> map lower_char (u_scheme u) \<in> {''http'', ''https''}))"
proof -
  let ?x = "web_fetch_execute (traced env) allowed a (w, [])" and ?raw = "str_or_empty ''url'' a"
  let ?chk = "check_redirect (traced env) allowed"
  have chk: "?chk v = None \<longleftrightarrow> is_host_allowed (we_lower env) allowed (hostname v)" for v
    using assms by (simp add: check_redirect_def)
  show ?thesis
  proof (cases "\<exists>u. ?raw \<noteq> [] \<and> url_parse ?raw = Some u \<and> map lower_char (u_scheme u) \<in> {''http'', ''https''}
      \<and> is_host_allowed (we_lower env) allowed (hostname u)")
    case False
    then have "snd ?x = (w, [])" "res_error (fst ?x)"
      using assms by (auto simp: web_fetch_execute_def Let_def split: option.splits)
    then show ?thesis by simp
  next
    case True
    then obtain u where u: "?raw \<noteq> []" "url_parse ?raw = Some u" "map lower_char (u_scheme u) \<in> {''http'', ''https''}"
      "is_host_allowed (we_lower env) allowed (hostname u)" by (elim exE conjE) (rule that)
    let ?do = "http_do (traced env) ?chk 10 ''too many redirects'' [] 0 u (w, [])"
    have "snd ?x = snd ?do"
      using u assms by (simp add: web_fetch_execute_def Let_def split: prod.splits sum.splits)
    moreover obtain cs where cs: "snd (snd ?do) = cs" "0 < length cs" "length cs \<le> 10" "hc_url (hd cs) = u"
      "list_all (call_ok (\<lambda>v. v = u \<or> ?chk v = None) []) cs"
      using http_do_calls [of env ?chk 10 "''too many redirects''" "[]" 0 u w "[]"] by auto
    moreover have hosts: "list_all (\<lambda>c. (\<exists>h \<in> set allowed. let host = to_lower (we_lower env) (hostname (hc_url c)) in
            host = to_lower (we_lower env) h \<or> (\<exists>sub. host = sub @ ''.'' @ to_lower (we_lower env) h))
          \<and> hc_method c = ''GET'' \<and> hc_headers c = []) cs"
    proof -
      have "\<forall>c \<in> set cs. is_host_allowed (we_lower env) allowed (hostname (hc_url c)) \<and> hc_method c = ''GET'' \<and> hc_headers c = []"
        using cs(5) u(4) unfolding chk list_all_iff call_ok_def by auto
      then show ?thesis unfolding host_allowed_iff by (simp add: list_all_iff Let_def)
    qed
    ultimately have x: "snd (snd ?x) = cs" "cs \<noteq> []" by auto
    have "if cs = [] then res_error (fst ?x) else (\<exists>u. url_parse ?raw = Some u \<and> hc_url (hd cs) = u
          \<and> map lower_char (u_scheme u) \<in> {''http'', ''https''})" using x(2) cs(4) u(2,3) by simp
    with x(1) cs(3) hosts show ?thesis by (intro exI [of _ cs] conjI)
  qed
qed

text \<open>A server that redirects every request to another host.\<close>

definition bounce_env :: "nat web_env" where
  "bounce_env = \<lparr>we_send = \<lambda>c n. (HttpReply 302 [(''Location'', [if n < 2 then ''http://docs.example.org/'' else ''http://evil.org/''])] [], n + 1),
     we_location = \<lambda>u l. (case url_parse l of Some v \<Rightarrow> Inr v | None \<Rightarrow> Inl ''bad''),
     we_parse_error = \<lambda>_. ''bad'', we_client_error = \<lambda>_ e. e, we_quote = \<lambda>s. s, we_lower = \<lambda>s. s\<rparr>"

theorem web_fetch_stays_on_hosts_witness:
  "map (hostname \<circ> hc_url) (snd (snd (web_fetch_execute (traced bounce_env) [''Example.org''] [(''url'', JStr ''http://example.org/a'')] (0, []))))
     = [''example.org'', ''docs.example.org'', ''docs.example.org'']
   \<and> length (snd (snd (web_fetch_execute (traced bounce_env) [''Example.org''] [(''url'', JStr ''http://example.org/a'')] (0, [])))) \<le> 10"
proof -
  have "map (hostname \<circ> hc_url) (snd (snd (web_fetch_execute (traced bounce_env) [''Example.org''] [(''url'', JStr ''http://example.org/a'')] (0, []))))
     = [''example.org'', ''docs.example.org'', ''docs.example.org'']" by code_simp
  moreover have "[''Example.org''] \<noteq> []" by simp
  ultimately show ?thesis
    using web_fetch_stays_on_hosts [of "[''Example.org'']" bounce_env "[(''url'', JStr ''http://example.org/a'')]" 0] by auto
qed

subsection \<open>The document of a service\<close>

lemma path_escape_segment: "c \<in> set (path_escape s) \<Longrightarrow> segment_char c \<or> c = CHR 0x25"
proof -
  have "list_all (\<lambda>n. segment_char (upper_hex n)) [0..<16]" by code_simp
  then have "segment_char (upper_hex n)" if "n < 16" for n using that by (simp add: list_all_iff)
  moreover have "(of_char d :: nat) div 16 < 16" for d by (simp add: nat_of_char_less_256 less_mult_imp_div_less)
  ultimately show "c \<in> set (path_escape s) \<Longrightarrow> segment_char c \<or> c = CHR 0x25"
    by (auto simp: path_escape_def split: if_splits)
qed

text \<open>
  The identifier of a document is one segment of the path: it adds no slash, question mark, or
  fragment to the endpoint, whatever the model asks for.
\<close>

lemma document_endpoint_segment:
  "\<exists>seg. document_endpoint base doc_id = trim_right_set {CHR ''/''} base @ ''/documents/'' @ seg
     \<and> CHR ''/'' \<notin> set seg \<and> CHR ''?'' \<notin> set seg \<and> CHR ''#'' \<notin> set seg"
proof -
  have "\<not> (segment_char c \<or> c = CHR 0x25)" if "c \<in> {CHR ''/'', CHR ''?'', CHR ''#''}" for c
    using that by (auto simp: segment_char_def is_alnum_def is_letter_def is_digit_def)
  then have "\<forall>c \<in> {CHR ''/'', CHR ''?'', CHR ''#''}. c \<notin> set (path_escape doc_id)"
    using path_escape_segment by metis
  then show ?thesis by (intro exI [of _ "path_escape doc_id"]) (simp add: document_endpoint_def)
qed

end
