(* ===== verification/A2A_Call.thy ===== *)
theory A2A_Call
  imports Bridge Web_Tools Go_Encoding
begin

section \<open>internal/a2acall: calling a peer whose card is verified\<close>

text \<open>
  The verification of signed agent cards (cardverify.go) and the tool that calls a configured peer
  (a2acall.go). The JSON decoder of the card type, the canonical form of RFC 8785 and the check of a
  JWS are parameters (\<open>card_lib\<close>); a raw field of a card is its JSON value. The state of the tool is
  the list of peers whose card verified; calls of the tool run one after another.
\<close>

subsection \<open>Keys\<close>

datatype 'k public_key = EcdsaKey bool 'k | RsaKey nat 'k | OtherKey string

record card_signature =
  sg_protected :: string
  sg_signature :: string

record 'k card_lib =
  cl_signatures :: "string \<Rightarrow> string + card_signature list"
  cl_canonical :: "json \<Rightarrow> string + string"
  cl_verify :: "string \<Rightarrow> 'k public_key \<Rightarrow> string \<Rightarrow> bool"

record 'k key_lib =
  kl_pem :: "string \<Rightarrow> string option"
  kl_pkix :: "string \<Rightarrow> string + 'k public_key"
  kl_pkcs1 :: "string \<Rightarrow> 'k public_key option"

definition load_card_public_key :: "'k key_lib \<Rightarrow> fs \<Rightarrow> string \<Rightarrow> string + 'k public_key" where
  "load_card_public_key lib F path =
     (case os_read_file F path of
        Inl e \<Rightarrow> Inl (''read card public key: '' @ path_error_text e)
      | Inr data \<Rightarrow>
          (case kl_pem lib data of
             None \<Rightarrow> Inl ''card public key is not PEM-encoded''
           | Some block \<Rightarrow>
               bind_res (case kl_pkix lib block of
                   Inr k \<Rightarrow> Inr k
                 | Inl e \<Rightarrow> (case kl_pkcs1 lib block of Some k \<Rightarrow> Inr k | None \<Rightarrow> Inl (''parse card public key: '' @ e)))
                 (\<lambda>key. case key of
                    EcdsaKey p256 k \<Rightarrow> if \<not> p256 then Inl ''card public key must use the P-256 curve'' else Inr key
                  | RsaKey bits k \<Rightarrow>
                      if bits < 2048
                      then Inl (''card public key is '' @ itoa (int bits) @ '' bits; at least 2048 required'')
                      else Inr key
                  | OtherKey ty \<Rightarrow> Inl (''unsupported card public key type '' @ ty))))"

definition verify_algorithm :: "'k public_key \<Rightarrow> string + string" where
  "verify_algorithm pub =
     (case pub of
        EcdsaKey p256 _ \<Rightarrow> if \<not> p256 then Inl ''agent card key must use the P-256 curve'' else Inr ''ES256''
      | RsaKey _ _ \<Rightarrow> Inr ''RS256''
      | OtherKey ty \<Rightarrow> Inl (''unsupported agent card key type '' @ ty))"

subsection \<open>What a signature may cover\<close>

type_synonym raw_card = "(string \<times> json) list"

datatype card_error = CardFormat string | CardSignature | CardHttp int string | CardOther string

definition required_card_fields :: "string list" where
  "required_card_fields =
     [''name'', ''description'', ''version'', ''capabilities'', ''skills'', ''supportedInterfaces'',
      ''defaultInputModes'', ''defaultOutputModes'']"

definition is_zero_collection :: "json \<Rightarrow> bool" where
  "is_zero_collection v =
     (case v of JNull \<Rightarrow> True | JStr s \<Rightarrow> s = [] | JArr xs \<Rightarrow> length xs = 0 | JObj kvs \<Rightarrow> length kvs = 0 | _ \<Rightarrow> False)"

definition is_zero_json :: "json \<Rightarrow> bool" where
  "is_zero_json v =
     (case v of JNull \<Rightarrow> True | JBool b \<Rightarrow> \<not> b | JStr s \<Rightarrow> s = [] | JNum n \<Rightarrow> n = 0
      | JArr xs \<Rightarrow> length xs = 0 | JObj kvs \<Rightarrow> length kvs = 0)"

definition strip_values :: "(json \<Rightarrow> bool) \<Rightarrow> raw_card \<Rightarrow> raw_card" where
  "strip_values zero raw =
     (let out = filter (\<lambda>(k, v). k \<in> set required_card_fields \<or> \<not> zero v) raw in
      case map_of out ''capabilities'' of
        Some (JObj caps) \<Rightarrow> map_put ''capabilities'' (JObj (filter (\<lambda>(k, v). \<not> zero v) (of_pairs caps))) out
      | _ \<Rightarrow> out)"

definition strip_empty_collections :: "raw_card \<Rightarrow> raw_card" where
  "strip_empty_collections raw = strip_values is_zero_collection raw"

definition strip_all_defaults :: "raw_card \<Rightarrow> raw_card" where
  "strip_all_defaults raw = strip_values is_zero_json raw"

definition drop_empty_required :: "raw_card \<Rightarrow> raw_card" where
  "drop_empty_required raw = filter (\<lambda>(k, v). \<not> (k \<in> set required_card_fields \<and> is_zero_json v)) raw"

definition card_forms :: "raw_card \<Rightarrow> raw_card list" where
  "card_forms raw = [raw, strip_empty_collections raw, strip_all_defaults raw, drop_empty_required (strip_all_defaults raw)]"

definition canonicalize :: "'k card_lib \<Rightarrow> raw_card \<Rightarrow> card_error + string" where
  "canonicalize lib raw =
     (case cl_canonical lib (JObj raw) of Inl e \<Rightarrow> Inl (CardFormat (''canonicalize: '' @ e)) | Inr s \<Rightarrow> Inr s)"

fun distinct_payloads :: "'k card_lib \<Rightarrow> string list \<Rightarrow> raw_card list \<Rightarrow> card_error + string list" where
  "distinct_payloads lib candidates [] = Inr candidates"
| "distinct_payloads lib candidates (form # forms) =
     bind_res (canonicalize lib form) (\<lambda>c.
       distinct_payloads lib (if c \<in> set candidates then candidates else candidates @ [c]) forms)"

definition raw_fields :: "string \<Rightarrow> raw_card option" where
  "raw_fields body = (case json_parse body of
     Some (JObj kvs) \<Rightarrow> Some (map_del ''signatures'' (of_pairs kvs)) | Some JNull \<Rightarrow> Some [] | _ \<Rightarrow> None)"

definition card_payloads :: "'k card_lib \<Rightarrow> string \<Rightarrow> card_error + string list" where
  "card_payloads lib body =
     (case raw_fields body of
        None \<Rightarrow> Inl (CardFormat ''the card is not an object'')
      | Some raw \<Rightarrow> distinct_payloads lib [] (card_forms raw))"

subsection \<open>One signature\<close>

record jws_header =
  jh_alg :: string
  jh_typ :: string
  jh_kid :: string

definition header_field :: "string \<Rightarrow> json \<Rightarrow> jws_header \<Rightarrow> jws_header option" where
  "header_field k v h =
     (if field_is k ''alg'' then string_field v (\<lambda>s h. h\<lparr>jh_alg := s\<rparr>) h
      else if field_is k ''typ'' then string_field v (\<lambda>s h. h\<lparr>jh_typ := s\<rparr>) h
      else if field_is k ''kid'' then string_field v (\<lambda>s h. h\<lparr>jh_kid := s\<rparr>) h
      else Some h)"

definition decode_header :: "string \<Rightarrow> jws_header option" where
  "decode_header s =
     (let h0 = \<lparr>jh_alg = [], jh_typ = [], jh_kid = []\<rparr> in
      case json_parse s of Some (JObj kvs) \<Rightarrow> fold_fields header_field kvs h0 | Some JNull \<Rightarrow> Some h0 | _ \<Rightarrow> None)"

definition compact_jws :: "card_signature \<Rightarrow> string \<Rightarrow> string" where
  "compact_jws sg payload = sg_protected sg @ ''.'' @ b64url_encode payload @ ''.'' @ sg_signature sg"

definition verify_signature ::
  "'k card_lib \<Rightarrow> card_signature \<Rightarrow> string \<Rightarrow> 'k public_key \<Rightarrow> string list \<Rightarrow> card_error + bool" where
  "verify_signature lib sg alg pub payloads =
     (case b64url_decode (sg_protected sg) of
        None \<Rightarrow> Inl (CardFormat ''protected header is not base64url'')
      | Some text_ \<Rightarrow>
          (case decode_header text_ of
             None \<Rightarrow> Inl (CardFormat ''protected header is not JSON'')
           | Some h \<Rightarrow>
               if jh_alg h \<noteq> alg then Inl (CardFormat ''unsupported alg'')
               else if jh_typ h \<noteq> ''JOSE'' then Inl (CardFormat ''protected header typ, want JOSE'')
               else if jh_kid h = [] then Inl (CardFormat ''protected header has no kid'')
               else if b64url_decode (sg_signature sg) = None then Inl (CardFormat ''signature is not base64url'')
               else Inr (list_ex (\<lambda>p. cl_verify lib alg pub (compact_jws sg p)) payloads)))"

text \<open>The loop over the signatures, with what it has seen: an entry of a bad format, one that does not verify.\<close>

fun check_signatures ::
  "'k card_lib \<Rightarrow> string \<Rightarrow> 'k public_key \<Rightarrow> string list \<Rightarrow> bool \<Rightarrow> bool \<Rightarrow> card_signature list \<Rightarrow> card_error option" where
  "check_signatures lib alg pub payloads saw_format saw_mismatch [] =
     (if saw_format \<and> \<not> saw_mismatch then Some (CardFormat ''no usable signature entry'') else Some CardSignature)"
| "check_signatures lib alg pub payloads saw_format saw_mismatch (sg # sgs) =
     (case verify_signature lib sg alg pub payloads of
        Inl _ \<Rightarrow> check_signatures lib alg pub payloads True saw_mismatch sgs
      | Inr True \<Rightarrow> None
      | Inr False \<Rightarrow> check_signatures lib alg pub payloads saw_format True sgs)"

definition check_card :: "'k card_lib \<Rightarrow> 'k public_key \<Rightarrow> string \<Rightarrow> card_error option" where
  "check_card lib pub body =
     (case cl_signatures lib body of
        Inl e \<Rightarrow> Some (CardFormat e)
      | Inr sgs \<Rightarrow>
          (case card_payloads lib body of
             Inl e \<Rightarrow> Some e
           | Inr payloads \<Rightarrow>
               (case verify_algorithm pub of
                  Inl e \<Rightarrow> Some (CardOther e)
                | Inr alg \<Rightarrow> check_signatures lib alg pub payloads False False sgs)))"

subsection \<open>Fetching the card\<close>

definition card_path :: string where "card_path = ''/.well-known/agent-card.json''"
definition max_card_bytes :: nat where "max_card_bytes = 2 ^ 20"
definition max_card_err_body :: nat where "max_card_err_body = 2 ^ 12"

definition card_redirect :: "url \<Rightarrow> url \<Rightarrow> string option" where
  "card_redirect peer u =
     (if u_host u \<noteq> u_host peer \<or> u_scheme u \<noteq> u_scheme peer
      then Some (''agent card redirect to '' @ u_scheme u @ ''://'' @ u_host u @ '' rejected'') else None)"

definition fetch_card :: "'w web_env \<Rightarrow> url \<Rightarrow> 'w \<Rightarrow> (card_error + string) \<times> 'w" where
  "fetch_card env peer w =
     (let card_url = \<lparr>u_scheme = u_scheme peer, u_opaque = [], u_host = u_host peer, u_path = card_path, u_query = []\<rparr> in
      case http_do env (card_redirect peer) 5 ''too many agent card redirects''
             (header_set ''Accept'' ''application/json'' []) 0 card_url w of
        (Inl e, w1) \<Rightarrow> (Inl (CardOther (''fetch agent card: '' @ e)), w1)
      | (Inr r, w1) \<Rightarrow>
          if status_of r \<noteq> 200 then (Inl (CardHttp (status_of r) (take max_card_err_body (body_seen r))), w1)
          else (case read_limited (max_card_bytes + 1) r of
              Inl e \<Rightarrow> (Inl (CardOther (''read agent card: '' @ e)), w1)
            | Inr body \<Rightarrow>
                if length body > max_card_bytes then (Inl (CardFormat ''card exceeds 1048576 bytes''), w1)
                else (Inr body, w1)))"

definition verify_card ::
  "'k card_lib \<Rightarrow> 'w web_env \<Rightarrow> string \<Rightarrow> 'k public_key option \<Rightarrow> 'w \<Rightarrow> card_error option \<times> 'w" where
  "verify_card lib env peer_url pub w =
     (case pub of
        None \<Rightarrow> (None, w)
      | Some key \<Rightarrow>
          (case url_parse peer_url of
             None \<Rightarrow> (Some (CardOther (''parse peer URL: '' @ we_parse_error env peer_url)), w)
           | Some u \<Rightarrow>
               if u_host u = [] \<or> (u_scheme u \<noteq> ''http'' \<and> u_scheme u \<noteq> ''https'')
               then (Some (CardOther (''peer URL '' @ we_quote env peer_url @ '' is not an absolute http or https URL'')), w)
               else (case fetch_card env u w of
                   (Inl e, w1) \<Rightarrow> (Some e, w1)
                 | (Inr body, w1) \<Rightarrow> (check_card lib key body, w1))))"

subsection \<open>a2acall.go\<close>

record 'k peer =
  pr_name :: string
  pr_url :: string
  pr_description :: string
  pr_timeout :: int
  pr_card_key :: "'k public_key option"

definition peer_timeout :: "'k peer \<Rightarrow> int" where
  "peer_timeout p = (if pr_timeout p > 0 then pr_timeout p else 120 * 10 ^ 9)"

text \<open>\<open>ae_send\<close> also gives the HTTP exchanges the A2A library made for the call.\<close>

record 'w a2a_env =
  ae_web :: "'w web_env"
  ae_connect :: "string \<Rightarrow> string option"
  ae_send :: "a2a_call \<Rightarrow> 'w \<Rightarrow> ((string + send_result) \<times> http_result list) \<times> 'w"
  ae_trace :: "(string \<times> string) list"
  ae_failed :: string
  ae_rejected :: string

definition capture_round_trip :: "(int \<times> string) option \<Rightarrow> http_result \<Rightarrow> (int \<times> string) option" where
  "capture_round_trip cap r = (if status_of r \<ge> 400 then Some (status_of r, take (64 * 1024) (body_seen r)) else cap)"

definition capturing :: "'w a2a_env \<Rightarrow> ('w \<times> (int \<times> string) option) a2a_transport" where
  "capturing env = \<lparr>at_connect = ae_connect env,
     at_send = (\<lambda>c (w, cap). (let ((r, xs), w1) = ae_send env c w in (r, (w1, foldl capture_round_trip cap xs)))),
     at_trace = ae_trace env, at_failed = ae_failed env, at_rejected = ae_rejected env\<rparr>"

definition state_name :: "(string \<Rightarrow> string) \<Rightarrow> string \<Rightarrow> string" where
  "state_name ul raw =
     map (\<lambda>c. if c = CHR ''_'' then CHR ''-'' else c) (trim_prefix (to_lower ul raw) ''task_state_'')"

definition format_result :: "(string \<Rightarrow> string) \<Rightarrow> string \<Rightarrow> string \<Rightarrow> tool_result" where
  "format_result ul raw_state txt =
     (let state = state_name ul raw_state in
      if state \<in> {''failed'', ''rejected'', ''canceled'', ''cancelled''} then tool_errorf (''['' @ state @ ''] '' @ txt)
      else if state \<in> {''input-required'', ''auth-required''}
        then tool_ok (''['' @ state @ ''] peer needs more input: '' @ txt)
      else tool_ok (''['' @ state @ ''] '' @ txt))"

definition card_error_reason :: "(string \<Rightarrow> string) \<Rightarrow> card_error \<Rightarrow> string" where
  "card_error_reason ul e =
     (case e of
        CardHttp st body \<Rightarrow> describe_response st body
      | CardFormat _ \<Rightarrow> ''agent card format invalid''
      | CardSignature \<Rightarrow> ''agent card signature invalid''
      | CardOther msg \<Rightarrow> describe_error ul msg)"

definition peer_by_name :: "'k peer list \<Rightarrow> string \<Rightarrow> 'k peer option" where
  "peer_by_name peers name = map_of (rev (map (\<lambda>p. (pr_name p, p)) peers)) name"

definition peer_names :: "'k peer list \<Rightarrow> string list" where
  "peer_names peers = map pr_name peers"

text \<open>The card of a peer with a key is checked once; only a success is kept.\<close>

definition ensure_card ::
  "'k card_lib \<Rightarrow> 'w a2a_env \<Rightarrow> 'k peer \<Rightarrow> 'w \<times> string list \<Rightarrow> card_error option \<times> 'w \<times> string list" where
  "ensure_card lib env p st =
     (let (w, verified) = st in
      if pr_card_key p \<noteq> None \<and> pr_name p \<notin> set verified
      then (case verify_card lib (ae_web env) (pr_url p) (pr_card_key p) w of
          (Some e, w1) \<Rightarrow> (Some e, w1, verified)
        | (None, w1) \<Rightarrow> (None, w1, pr_name p # verified))
      else (None, w, verified))"

definition call_peer :: "'w a2a_env \<Rightarrow> 'k peer \<Rightarrow> string \<Rightarrow> 'w \<Rightarrow> tool_result \<times> 'w" where
  "call_peer env p message w =
     (let ul = we_lower (ae_web env) in
      case a2a_invoke (capturing env)
             \<lparr>iv_agent_url = pr_url p, iv_document_id = [], iv_message_text = message, iv_session_id = []\<rparr> (w, None) of
        (Inr r, (w1, _)) \<Rightarrow> (format_result ul (iv_state r) (iv_text r), w1)
      | (Inl e, (w1, Some (st, body))) \<Rightarrow> (tool_errorf (''peer '' @ pr_name p @ '': '' @ describe_response st body), w1)
      | (Inl e, (w1, None)) \<Rightarrow> (tool_errorf (''peer '' @ pr_name p @ '': '' @ describe_error ul e), w1))"

definition a2a_call_execute ::
  "'k card_lib \<Rightarrow> 'w a2a_env \<Rightarrow> 'k peer list \<Rightarrow> args \<Rightarrow> 'w \<times> string list \<Rightarrow> tool_result \<times> 'w \<times> string list" where
  "a2a_call_execute lib env peers a st =
     (let name = str_or_empty ''peer'' a; message = str_or_empty ''message'' a in
      if name = [] then (tool_errorf ''peer is required'', st)
      else if message = [] then (tool_errorf ''message is required'', st)
      else (case peer_by_name peers name of
          None \<Rightarrow> (tool_errorf (''unknown peer '' @ we_quote (ae_web env) name @ ''; available: ''
              @ str_join '', '' (peer_names peers)), st)
        | Some p \<Rightarrow>
            (case ensure_card lib env p st of
               (Some e, st1) \<Rightarrow>
                 (tool_errorf (''peer '' @ name @ '': '' @ card_error_reason (we_lower (ae_web env)) e), st1)
             | (None, (w1, verified)) \<Rightarrow>
                 (let (r, w2) = call_peer env p message w1 in (r, (w2, verified))))))"

definition a2a_call_tool :: "'k card_lib \<Rightarrow> 'w a2a_env \<Rightarrow> 'k peer list \<Rightarrow> ('w \<times> string list) tool" where
  "a2a_call_tool lib env peers =
     \<lparr>t_name = ''a2a_call'',
      t_description = ''Call a configured peer A2A agent by name. Peers: '' @
        str_join ''; '' (map (\<lambda>p. pr_name p @ '': '' @ pr_description p) peers) @ ''.'',
      t_parameters = object_schema
        [(''peer'', JObj [(''type'', JStr ''string''), (''description'', JStr ''Peer agent name''),
            (''enum'', JArr (map JStr (peer_names peers)))]),
         string_param ''message'' ''Message to send to the peer''] [''peer'', ''message''],
      t_execute = a2a_call_execute lib env peers\<rparr>"

subsection \<open>Nothing is sent to a peer before its card verified\<close>

datatype peer_event = Got url http_result | Sent a2a_call

text \<open>The environment that notes every response and every message it sends to a peer.\<close>

definition logged :: "'w a2a_env \<Rightarrow> ('w \<times> peer_event list) a2a_env" where
  "logged env = \<lparr>ae_web = \<lparr>we_send = \<lambda>c (w, tr). (let (r, w1) = we_send (ae_web env) c w in (r, (w1, tr @ [Got (hc_url c) r]))),
       we_location = we_location (ae_web env), we_parse_error = we_parse_error (ae_web env),
       we_client_error = we_client_error (ae_web env), we_quote = we_quote (ae_web env), we_lower = we_lower (ae_web env)\<rparr>,
     ae_connect = ae_connect env,
     ae_send = \<lambda>c (w, tr). (let (x, w1) = ae_send env c w in (x, (w1, tr @ [Sent c]))),
     ae_trace = ae_trace env, ae_failed = ae_failed env, ae_rejected = ae_rejected env\<rparr>"

fun a2a_calls :: "'k card_lib \<Rightarrow> 'w a2a_env \<Rightarrow> 'k peer list \<Rightarrow> args list \<Rightarrow> 'w \<times> string list \<Rightarrow> 'w \<times> string list" where
  "a2a_calls lib env peers [] st = st"
| "a2a_calls lib env peers (a # as) st = a2a_calls lib env peers as (snd (a2a_call_execute lib env peers a st))"

text \<open>
  A card verifies under a key when one of its signatures, for the algorithm of the key, is good for
  the canonical text of one of its forms.
\<close>

definition card_valid :: "'k card_lib \<Rightarrow> 'k public_key \<Rightarrow> string \<Rightarrow> bool" where
  "card_valid lib key body \<longleftrightarrow>
     (\<exists>sgs sg alg raw form payload. cl_signatures lib body = Inr sgs \<and> sg \<in> set sgs \<and> verify_algorithm key = Inr alg
        \<and> raw_fields body = Some raw \<and> form \<in> set (card_forms raw) \<and> cl_canonical lib (JObj form) = Inr payload
        \<and> cl_verify lib alg key (compact_jws sg payload))"

definition card_seen :: "'k card_lib \<Rightarrow> 'k peer \<Rightarrow> 'k public_key \<Rightarrow> peer_event list \<Rightarrow> bool" where
  "card_seen lib p key tr \<longleftrightarrow>
     (\<exists>u v r. url_parse (pr_url p) = Some u \<and> Got v r \<in> set tr \<and> u_host v = u_host u \<and> u_scheme v = u_scheme u
        \<and> status_of r = 200 \<and> card_valid lib key (body_seen r))"

definition sent_ok :: "'k card_lib \<Rightarrow> 'k peer list \<Rightarrow> a2a_call \<Rightarrow> peer_event list \<Rightarrow> bool" where
  "sent_ok lib peers c tr \<longleftrightarrow>
     (\<exists>p \<in> set peers. ac_url c = pr_url p \<and> (case pr_card_key p of None \<Rightarrow> True | Some key \<Rightarrow> card_seen lib p key tr))"

definition call_inv :: "'k card_lib \<Rightarrow> 'k peer list \<Rightarrow> peer_event list \<Rightarrow> string list \<Rightarrow> bool" where
  "call_inv lib peers tr verified \<longleftrightarrow>
     (\<forall>name \<in> set verified. \<forall>p key. peer_by_name peers name = Some p \<and> pr_card_key p = Some key \<longrightarrow> card_seen lib p key tr)
     \<and> (\<forall>i < length tr. \<forall>c. tr ! i = Sent c \<longrightarrow> sent_ok lib peers c (take i tr))"

lemma card_seen_append: "card_seen lib p key tr \<Longrightarrow> card_seen lib p key (tr @ tr')"
  unfolding card_seen_def by auto

lemma call_inv_got: "call_inv lib peers tr verified \<Longrightarrow> call_inv lib peers (tr @ [Got v r]) verified"
  using card_seen_append unfolding call_inv_def by (fastforce simp: nth_append less_Suc_eq)

lemma call_inv_sent:
  "call_inv lib peers tr verified \<Longrightarrow> sent_ok lib peers c tr \<Longrightarrow> call_inv lib peers (tr @ [Sent c]) verified"
  using card_seen_append unfolding call_inv_def by (fastforce simp: nth_append less_Suc_eq)

lemma call_inv_verified:
  "call_inv lib peers tr verified \<Longrightarrow> peer_by_name peers name = Some p \<Longrightarrow> pr_card_key p = Some key \<Longrightarrow>
   card_seen lib p key tr \<Longrightarrow> call_inv lib peers tr (name # verified)"
  unfolding call_inv_def by simp

lemma peer_by_name_Some: "peer_by_name peers name = Some p \<Longrightarrow> p \<in> set peers \<and> pr_name p = name"
  unfolding peer_by_name_def by (drule map_of_SomeD) auto

lemma distinct_payloads_from:
  "distinct_payloads lib cs forms = Inr ps \<Longrightarrow> p \<in> set ps \<Longrightarrow>
   p \<in> set cs \<or> (\<exists>form \<in> set forms. cl_canonical lib (JObj form) = Inr p)"
proof (induction forms arbitrary: cs)
  case (Cons form forms)
  then obtain c where c: "cl_canonical lib (JObj form) = Inr c"
    "distinct_payloads lib (if c \<in> set cs then cs else cs @ [c]) forms = Inr ps"
    by (auto simp: bind_res_Inr_iff canonicalize_def split: sum.splits)
  from Cons.IH [OF c(2) Cons.prems(2)] c(1) show ?case by (auto split: if_splits)
qed simp

lemma check_signatures_valid:
  "check_signatures lib alg pub ps b1 b2 sgs = None \<Longrightarrow>
   \<exists>sg \<in> set sgs. \<exists>p \<in> set ps. cl_verify lib alg pub (compact_jws sg p)"
proof (induction sgs arbitrary: b1 b2)
  case Nil
  then show ?case by (simp split: if_splits)
next
  case (Cons sg sgs)
  show ?case
  proof (cases "verify_signature lib sg alg pub ps = Inr True")
    case True
    then have "list_ex (\<lambda>p. cl_verify lib alg pub (compact_jws sg p)) ps"
      by (auto simp: verify_signature_def split: option.splits if_splits)
    then show ?thesis by (auto simp: list_ex_iff)
  next
    case False
    then have "\<exists>b1 b2. check_signatures lib alg pub ps b1 b2 sgs = None"
      using Cons.prems by (auto split: sum.splits bool.splits)
    with Cons.IH show ?thesis by force
  qed
qed

lemma check_card_valid: "check_card lib pub body = None \<Longrightarrow> card_valid lib pub body"
proof -
  assume "check_card lib pub body = None"
  then obtain sgs ps alg where c: "cl_signatures lib body = Inr sgs" "card_payloads lib body = Inr ps"
    "verify_algorithm pub = Inr alg" "check_signatures lib alg pub ps False False sgs = None"
    by (auto simp: check_card_def split: sum.splits)
  obtain raw where raw: "raw_fields body = Some raw" "distinct_payloads lib [] (card_forms raw) = Inr ps"
    using c(2) by (auto simp: card_payloads_def split: option.splits)
  obtain sg p where "sg \<in> set sgs" "p \<in> set ps" "cl_verify lib alg pub (compact_jws sg p)"
    using check_signatures_valid [OF c(4)] by blast
  with c(1,3) raw(1) distinct_payloads_from [OF raw(2)] show ?thesis unfolding card_valid_def by fastforce
qed

lemma read_all: "read_limited n r = Inr body \<Longrightarrow> length body < n \<Longrightarrow> body = body_seen r"
  by (auto simp: read_limited_def body_seen_def split: http_result.splits if_splits)

lemma verify_card_logged:
  assumes "call_inv lib peers tr verified" "verify_card lib (ae_web (logged env)) (pr_url p) (pr_card_key p) (w, tr) = (e, (w', tr'))"
  shows "call_inv lib peers tr' verified \<and> (e = None \<longrightarrow> (\<forall>key. pr_card_key p = Some key \<longrightarrow> card_seen lib p key tr'))"
proof (cases "\<exists>key u. pr_card_key p = Some key \<and> url_parse (pr_url p) = Some u \<and> u_host u \<noteq> [] \<and> (u_scheme u = ''http'' \<or> u_scheme u = ''https'')")
  case False
  then have "tr' = tr \<and> (e = None \<longrightarrow> pr_card_key p = None)"
    using assms(2) by (auto simp: verify_card_def split: option.splits if_splits)
  then show ?thesis using assms(1) by auto
next
  case True
  then obtain key u where u: "pr_card_key p = Some key" "url_parse (pr_url p) = Some u" "u_host u \<noteq> []"
    "u_scheme u = ''http'' \<or> u_scheme u = ''https''" by (elim exE conjE) (rule that)
  let ?env = "ae_web (logged env)"
  let ?cu = "\<lparr>u_scheme = u_scheme u, u_opaque = [], u_host = u_host u, u_path = card_path, u_query = []\<rparr>"
  let ?hs = "header_set ''Accept'' ''application/json'' []"
  obtain res where f: "fetch_card ?env u (w, tr) = (res, (w', tr'))"
    "e = (case res of Inl e \<Rightarrow> Some e | Inr body \<Rightarrow> check_card lib key body)"
    using assms(2) u by (auto simp: verify_card_def split: prod.splits sum.splits)
  obtain d where d: "http_do ?env (card_redirect u) 5 ''too many agent card redirects'' ?hs 0 ?cu (w, tr) = (d, (w', tr'))"
    using f(1) by (auto simp: fetch_card_def Let_def split: prod.splits sum.splits if_splits)
  define Q where "Q = (\<lambda>v :: url. u_host v = u_host u \<and> u_scheme v = u_scheme u)"
  have send: "we_send ?env c x = (fst (we_send (ae_web env) c (fst x)),
      (snd (we_send (ae_web env) c (fst x)), snd x @ [Got (hc_url c) (fst (we_send (ae_web env) c (fst x)))]))" for c x
    by (cases x) (simp add: logged_def split: prod.splits)
  have inv: "call_inv lib peers (snd (w', tr')) verified \<and> (\<forall>r. d = Inr r \<longrightarrow> (\<exists>v w1. Q v \<and> call_inv lib peers (snd w1) verified
      \<and> we_send ?env \<lparr>hc_method = ''GET'', hc_url = v, hc_headers = ?hs\<rparr> w1 = (r, (w', tr'))))"
  proof (rule http_do_inv [OF _ _ _ _ d])
    show "call_inv lib peers (snd (snd (we_send ?env \<lparr>hc_method = ''GET'', hc_url = v, hc_headers = ?hs\<rparr> x))) verified"
      if "call_inv lib peers (snd x) verified" for v x using that by (simp add: send call_inv_got)
    show "Q v" if "card_redirect u v = None" for v using that by (auto simp: card_redirect_def Q_def split: if_splits)
    show "Q ?cu" by (simp add: Q_def)
    show "call_inv lib peers (snd (w, tr)) verified" using assms(1) by simp
  qed
  have "card_seen lib p key tr'" if none: "e = None"
  proof -
    obtain body where body: "res = Inr body" "check_card lib key body = None"
      using f(2) none by (auto split: sum.splits)
    obtain r where r: "d = Inr r" "status_of r = 200" "read_limited (max_card_bytes + 1) r = Inr body" "length body \<le> max_card_bytes"
      using f(1) d body(1) by (auto simp: fetch_card_def Let_def split: sum.splits if_splits)
    then have bs: "body = body_seen r" by (intro read_all) auto
    obtain v x where v: "Q v" "we_send ?env \<lparr>hc_method = ''GET'', hc_url = v, hc_headers = ?hs\<rparr> x = (r, (w', tr'))"
      using inv r(1) by blast
    then have "Got v r \<in> set tr'" by (auto simp: send)
    then show ?thesis using u(2) v(1) r(2) check_card_valid [OF body(2)] bs unfolding card_seen_def Q_def by blast
  qed
  then show ?thesis using inv u(1) by simp
qed

lemma ensure_card_logged:
  assumes "call_inv lib peers tr verified" "peer_by_name peers name = Some p"
    "ensure_card lib (logged env) p ((w, tr), verified) = (e, ((w', tr'), verified'))"
  shows "call_inv lib peers tr' verified' \<and> (e = None \<longrightarrow> (\<forall>key. pr_card_key p = Some key \<longrightarrow> card_seen lib p key tr'))"
proof (cases "pr_card_key p \<noteq> None \<and> pr_name p \<notin> set verified")
  case False
  then have e: "tr' = tr" "verified' = verified" using assms(3) by (auto simp: ensure_card_def split: if_splits)
  have "card_seen lib p key tr" if "pr_card_key p = Some key" for key
    using False that assms(1,2) peer_by_name_Some [OF assms(2)] unfolding call_inv_def by auto
  then show ?thesis using assms(1) by (simp add: e)
next
  case True
  then obtain e1 where v: "verify_card lib (ae_web (logged env)) (pr_url p) (pr_card_key p) (w, tr) = (e1, (w', tr'))"
    "e = e1" "verified' = (if e1 = None then pr_name p # verified else verified)"
    using assms(3) by (auto simp: ensure_card_def split: prod.splits option.splits)
  from True obtain key where key: "pr_card_key p = Some key" by blast
  from verify_card_logged [OF assms(1) v(1)] key
  have "call_inv lib peers tr' verified" "e1 = None \<longrightarrow> card_seen lib p key tr'" by auto
  moreover have "peer_by_name peers (pr_name p) = Some p" using assms(2) peer_by_name_Some [OF assms(2)] by simp
  ultimately show ?thesis using key v(2,3) call_inv_verified [of lib peers tr' verified "pr_name p" p key] by auto
qed

lemma a2a_invoke_sends:
  "snd (a2a_invoke (capturing env) rq (w, cap)) = (w, cap)
   \<or> fst (snd (a2a_invoke (capturing env) rq (w, cap))) = snd (ae_send env (a2a_call_of (capturing env) rq) w)"
  by (auto simp: a2a_invoke_def capturing_def split: option.splits prod.splits sum.splits)

lemma call_peer_logged:
  assumes "call_inv lib peers tr verified" "p \<in> set peers" "\<forall>key. pr_card_key p = Some key \<longrightarrow> card_seen lib p key tr"
    "call_peer (logged env) p message (w, tr) = (r, (w', tr'))"
  shows "call_inv lib peers tr' verified"
proof -
  let ?rq = "\<lparr>iv_agent_url = pr_url p, iv_document_id = [], iv_message_text = message, iv_session_id = []\<rparr>"
  let ?c = "a2a_call_of (capturing (logged env)) ?rq"
  obtain res st where i: "a2a_invoke (capturing (logged env)) ?rq ((w, tr), None) = (res, st)" by (rule prod.exhaust)
  have st: "fst st = (w', tr')"
    using assms(4) i by (auto simp: call_peer_def Let_def split: sum.splits prod.splits option.splits)
  have "tr' = tr \<or> tr' = tr @ [Sent ?c]"
    using a2a_invoke_sends [of "logged env" ?rq "(w, tr)" None] st
    unfolding i by (auto simp: logged_def split: prod.splits)
  moreover have "sent_ok lib peers ?c tr"
    using assms(2,3) unfolding sent_ok_def by (intro bexI [of _ p]) (auto simp: a2a_call_of_def split: option.splits)
  ultimately show ?thesis using assms(1) call_inv_sent by metis
qed

lemma a2a_call_logged:
  assumes "call_inv lib peers tr verified"
    "a2a_call_execute lib (logged env) peers a ((w, tr), verified) = (r, ((w', tr'), verified'))"
  shows "call_inv lib peers tr' verified'"
proof (cases "\<exists>p. str_or_empty ''peer'' a \<noteq> [] \<and> str_or_empty ''message'' a \<noteq> [] \<and> peer_by_name peers (str_or_empty ''peer'' a) = Some p")
  case False
  then have "tr' = tr \<and> verified' = verified"
    using assms(2) by (auto simp: a2a_call_execute_def Let_def split: if_splits option.splits)
  then show ?thesis using assms(1) by simp
next
  case True
  then obtain p where p: "str_or_empty ''peer'' a \<noteq> []" "str_or_empty ''message'' a \<noteq> []"
    "peer_by_name peers (str_or_empty ''peer'' a) = Some p" by blast
  obtain e w1 tr1 verified1 where e: "ensure_card lib (logged env) p ((w, tr), verified) = (e, ((w1, tr1), verified1))"
    by (metis prod.exhaust)
  note en = ensure_card_logged [OF assms(1) p(3) e]
  show ?thesis
  proof (cases e)
    case (Some x)
    then show ?thesis using assms(2) p e en by (simp add: a2a_call_execute_def Let_def)
  next
    case None
    obtain r2 w2 tr2 where c: "call_peer (logged env) p (str_or_empty ''message'' a) (w1, tr1) = (r2, (w2, tr2))"
      by (metis prod.exhaust)
    have "call_inv lib peers tr2 verified1"
      using call_peer_logged [OF _ _ _ c] en None peer_by_name_Some [OF p(3)] by blast
    then show ?thesis using assms(2) p e c None by (simp add: a2a_call_execute_def Let_def)
  qed
qed

lemma a2a_calls_logged:
  "call_inv lib peers tr verified \<Longrightarrow> a2a_calls lib (logged env) peers as ((w, tr), verified) = ((w', tr'), verified') \<Longrightarrow>
   call_inv lib peers tr' verified'"
proof (induction as arbitrary: w tr verified)
  case (Cons a as)
  obtain r w1 tr1 verified1 where "a2a_call_execute lib (logged env) peers a ((w, tr), verified) = (r, ((w1, tr1), verified1))"
    by (metis prod.exhaust)
  with Cons a2a_call_logged show ?case by fastforce
qed simp

text \<open>
  C27. A peer with a key never gets a message before its card verified: over any series of tool
  calls, with whatever the network answers, each message goes to the URL of a configured peer, and
  when that peer has a key, a card was received before from the scheme and host of that very URL,
  with status 200 and a signature good for the canonical form of that card under the key.
\<close>

theorem peers_verified_before_messages:
  assumes "a2a_calls lib (logged env) peers as ((w, []), []) = ((w', tr), verified)" "tr = before @ Sent c # after"
  shows "\<exists>p \<in> set peers. ac_url c = pr_url p
     \<and> (case pr_card_key p of None \<Rightarrow> True | Some key \<Rightarrow>
          (\<exists>u v r. url_parse (pr_url p) = Some u \<and> Got v r \<in> set before \<and> u_host v = u_host u \<and> u_scheme v = u_scheme u
             \<and> status_of r = 200 \<and> card_valid lib key (body_seen r)))"
proof -
  have "call_inv lib peers [] []" by (simp add: call_inv_def)
  from a2a_calls_logged [OF this assms(1)] have "\<forall>i < length tr. \<forall>c. tr ! i = Sent c \<longrightarrow> sent_ok lib peers c (take i tr)"
    by (simp add: call_inv_def)
  from this [rule_format, of "length before" c] have "sent_ok lib peers c before" by (simp add: assms(2))
  then show ?thesis by (simp only: sent_ok_def card_seen_def)
qed

definition demo_lib :: "nat card_lib" where
  "demo_lib = \<lparr>cl_signatures = \<lambda>_. Inr [\<lparr>sg_protected = b64url_encode (json_lit (\<lambda>_. [])
        (JObj [(''alg'', JStr ''ES256''), (''typ'', JStr ''JOSE''), (''kid'', JStr ''k1'')])), sg_signature = ''c2ln''\<rparr>],
     cl_canonical = \<lambda>v. (case v of JObj kvs \<Rightarrow> Inr (str_join '','' (map fst kvs)) | _ \<Rightarrow> Inl []),
     cl_verify = \<lambda>alg k s. str_contains s (b64url_encode ''name,version'')\<rparr>"

definition demo_a2a :: "unit a2a_env" where
  "demo_a2a = \<lparr>ae_web = \<lparr>we_send = \<lambda>c w. (HttpReply 200 [] (json_lit (\<lambda>_. [])
        (JObj [(''name'', JStr ''p''), (''version'', JStr ''1''), (''url'', JStr []), (''signatures'', JArr [])])), w),
       we_location = \<lambda>u _. Inr u, we_parse_error = \<lambda>_. [], we_client_error = \<lambda>_ e. e, we_quote = \<lambda>s. s, we_lower = \<lambda>s. s\<rparr>,
     ae_connect = \<lambda>_. None, ae_send = \<lambda>c w. ((Inr (SentMessage [''pong'']), []), w), ae_trace = [],
     ae_failed = ''TASK_STATE_FAILED'', ae_rejected = ''TASK_STATE_REJECTED''\<rparr>"

definition demo_peer :: "nat peer" where
  "demo_peer = \<lparr>pr_name = ''docs'', pr_url = ''https://docs.example.org:8443/a2a'', pr_description = [], pr_timeout = 0,
     pr_card_key = Some (EcdsaKey True 5)\<rparr>"

definition demo_events :: "peer_event list" where
  "demo_events = snd (fst (a2a_calls demo_lib (logged demo_a2a) [demo_peer]
     [[(''peer'', JStr ''docs''), (''message'', JStr ''ping'')]] (((), []), [])))"

fun is_sent :: "peer_event \<Rightarrow> bool" where
  "is_sent (Sent _) = True"
| "is_sent (Got _ _) = False"

theorem peers_verified_before_messages_witness:
  "\<exists>g c. demo_events = [g, Sent c] \<and> ac_url c = ''https://docs.example.org:8443/a2a''
     \<and> (\<exists>v r. Got v r \<in> {g} \<and> u_host v = ''docs.example.org:8443'' \<and> card_valid demo_lib (EcdsaKey True 5) (body_seen r))"
proof -
  let ?run = "a2a_calls demo_lib (logged demo_a2a) [demo_peer] [[(''peer'', JStr ''docs''), (''message'', JStr ''ping'')]] (((), []), [])"
  have "map is_sent demo_events = [False, True]" by code_simp
  then obtain g e where ge: "demo_events = [g, e]" "is_sent e" by (auto simp: map_eq_Cons_conv)
  then obtain c where g: "demo_events = [g, Sent c]" by (cases e) auto
  have "?run = (((), [g] @ Sent c # []), snd ?run)" using g by (simp add: demo_events_def prod_eq_iff)
  from peers_verified_before_messages [OF this refl]
  have "ac_url c = pr_url demo_peer" "\<exists>u v r. url_parse (pr_url demo_peer) = Some u \<and> Got v r \<in> {g} \<and> u_host v = u_host u
      \<and> card_valid demo_lib (EcdsaKey True 5) (body_seen r)" by (auto simp: demo_peer_def)
  moreover have "map_option u_host (url_parse (pr_url demo_peer)) = Some ''docs.example.org:8443''" by code_simp
  ultimately show ?thesis using g by (intro exI [of _ g] exI [of _ c]) (auto simp: demo_peer_def)
qed

subsection \<open>What the accepted forms change\<close>

text \<open>
  A form leaves out signatures and fields of default value, and keeps every other field outside the
  capabilities as it was served.
\<close>

lemma strip_values_field:
  assumes "k \<noteq> ''capabilities''" "distinct (map fst raw)"
  shows "map_of (strip_values zero raw) k =
    (case map_of raw k of Some v \<Rightarrow> if k \<in> set required_card_fields \<or> \<not> zero v then Some v else None | None \<Rightarrow> None)"
proof -
  let ?out = "filter (\<lambda>(k, v). k \<in> set required_card_fields \<or> \<not> zero v) raw"
  have "map_of ?out k = (case map_of raw k of Some v \<Rightarrow> if k \<in> set required_card_fields \<or> \<not> zero v then Some v else None | None \<Rightarrow> None)"
    using assms(2)
  proof (induction raw)
    case (Cons e raw)
    have "map_of raw (fst e) = None" using Cons.prems by (simp add: map_of_eq_None_iff)
    moreover have "map_of (filter (\<lambda>(k, v). k \<in> set required_card_fields \<or> \<not> zero v) raw) (fst e) = None"
      using Cons.prems by (auto simp: map_of_eq_None_iff)
    ultimately show ?case using Cons by (cases e) auto
  qed simp
  moreover have "map_of (strip_values zero raw) k = map_of ?out k"
    using assms(1) by (simp add: strip_values_def Let_def split: option.splits json.splits)
  ultimately show ?thesis by simp
qed

end
