(* ===== verification/OpenAI_Provider.thy ===== *)
theory OpenAI_Provider
  imports Llm Go_Url Go_Http Go_Json_Text
begin

section \<open>internal/openai: the client of OpenAI-compatible services\<close>

text \<open>
  Construction with its defaults, the request built from a conversation, and the reading of the
  event stream into a response. \<open>post\<close> is the HTTP client (with its redirects), \<open>ctx_err n\<close> the error
  of the context at the n-th line of the stream, \<open>ft\<close> the text of a number. A decoder works on JSON
  values: a number that is an integer counts as one however it is written. Spans, log lines and the
  type, id and role fields nobody reads are only checked for their types. A nil map is an empty one,
  and a value of the model always marshals; \<open>url_error\<close> is the text of a URL that does not parse.
\<close>

subsection \<open>Construction\<close>

record oai_client =
  oc_base_url :: string
  oc_api_key :: string
  oc_model :: string
  oc_max_tokens :: int
  oc_timeout :: int
  oc_provider_name :: string

definition new_openai_compat_provider :: "llm_config \<Rightarrow> string + oai_client" where
  "new_openai_compat_provider cfg =
     (if cfg_api_key cfg = [] then Inl ''API key is required''
      else if cfg_base_url cfg = [] \<and> cfg_provider cfg = ''litellm''
        then Inl ''base_url is required for LiteLLM provider''
      else
        let base0 = (if cfg_base_url cfg = [] then ''https://api.openai.com/v1'' else cfg_base_url cfg) in
        Inr \<lparr>oc_base_url = trim_suffix base0 ''/'', oc_api_key = cfg_api_key cfg,
          oc_model = (if cfg_model cfg = [] then (if cfg_provider cfg = ''litellm'' then ''qwen3-14b'' else ''gpt-4o'')
            else cfg_model cfg),
          oc_max_tokens = (if cfg_max_tokens cfg = 0 then 4096 else cfg_max_tokens cfg),
          oc_timeout = (if cfg_timeout cfg = 0 then 45 else cfg_timeout cfg) * 10 ^ 9,
          oc_provider_name = (if cfg_provider cfg = [] then ''openai'' else cfg_provider cfg)\<rparr>)"

subsection \<open>Decoders\<close>

record oai_usage =
  us_prompt :: int
  us_completion :: int
  us_total :: int

definition usage_field :: "string \<Rightarrow> json \<Rightarrow> oai_usage \<Rightarrow> oai_usage option" where
  "usage_field k v u =
     (if field_is k ''prompt_tokens'' then int_field v (\<lambda>n u. u\<lparr>us_prompt := n\<rparr>) u
      else if field_is k ''completion_tokens'' then int_field v (\<lambda>n u. u\<lparr>us_completion := n\<rparr>) u
      else if field_is k ''total_tokens'' then int_field v (\<lambda>n u. u\<lparr>us_total := n\<rparr>) u
      else Some u)"

definition no_usage :: oai_usage where "no_usage = \<lparr>us_prompt = 0, us_completion = 0, us_total = 0\<rparr>"

record tool_delta =
  tdl_index :: int
  tdl_id :: string
  tdl_name :: string
  tdl_args :: string

definition function_field :: "string \<Rightarrow> json \<Rightarrow> tool_delta \<Rightarrow> tool_delta option" where
  "function_field k v d =
     (if field_is k ''name'' then string_field v (\<lambda>s d. d\<lparr>tdl_name := s\<rparr>) d
      else if field_is k ''arguments'' then string_field v (\<lambda>s d. d\<lparr>tdl_args := s\<rparr>) d
      else Some d)"

definition tool_delta_field :: "string \<Rightarrow> json \<Rightarrow> tool_delta \<Rightarrow> tool_delta option" where
  "tool_delta_field k v d =
     (if field_is k ''index'' then int_field v (\<lambda>n d. d\<lparr>tdl_index := n\<rparr>) d
      else if field_is k ''id'' then string_field v (\<lambda>s d. d\<lparr>tdl_id := s\<rparr>) d
      else if field_is k ''type'' then string_field v (\<lambda>s d. d) d
      else if field_is k ''function'' then struct_of function_field d v
      else Some d)"

definition no_delta :: tool_delta where
  "no_delta = \<lparr>tdl_index = 0, tdl_id = [], tdl_name = [], tdl_args = []\<rparr>"

record stream_choice =
  sch_content :: string
  sch_tool_calls :: "tool_delta list"
  sch_finish :: "string option"

definition delta_field :: "string \<Rightarrow> json \<Rightarrow> stream_choice \<Rightarrow> stream_choice option" where
  "delta_field k v c =
     (if field_is k ''role'' then string_field v (\<lambda>s c. c) c
      else if field_is k ''content'' then string_field v (\<lambda>s c. c\<lparr>sch_content := s\<rparr>) c
      else if field_is k ''tool_calls'' then
        map_option (\<lambda>ds. c\<lparr>sch_tool_calls := ds\<rparr>) (struct_list tool_delta_field no_delta v)
      else Some c)"

definition choice_field :: "string \<Rightarrow> json \<Rightarrow> stream_choice \<Rightarrow> stream_choice option" where
  "choice_field k v c =
     (if field_is k ''index'' then int_field v (\<lambda>n c. c) c
      else if field_is k ''delta'' then struct_of delta_field c v
      else if field_is k ''finish_reason'' then
        (case v of JNull \<Rightarrow> Some (c\<lparr>sch_finish := None\<rparr>) | _ \<Rightarrow> string_field v (\<lambda>s c. c\<lparr>sch_finish := Some s\<rparr>) c)
      else Some c)"

definition no_choice :: stream_choice where
  "no_choice = \<lparr>sch_content = [], sch_tool_calls = [], sch_finish = None\<rparr>"

record stream_chunk =
  sc_choices :: "stream_choice list"
  sc_usage :: "oai_usage option"

definition chunk_field :: "string \<Rightarrow> json \<Rightarrow> stream_chunk \<Rightarrow> stream_chunk option" where
  "chunk_field k v c =
     (if field_is k ''id'' then string_field v (\<lambda>s c. c) c
      else if field_is k ''choices'' then map_option (\<lambda>cs. c\<lparr>sc_choices := cs\<rparr>) (struct_list choice_field no_choice v)
      else if field_is k ''usage'' then
        (case v of
           JNull \<Rightarrow> Some (c\<lparr>sc_usage := None\<rparr>)
         | _ \<Rightarrow> map_option (\<lambda>u. c\<lparr>sc_usage := Some u\<rparr>)
             (struct_of usage_field (case sc_usage c of Some u \<Rightarrow> u | None \<Rightarrow> no_usage) v))
      else Some c)"

definition decode_chunk :: "string \<Rightarrow> stream_chunk option" where
  "decode_chunk s = Option.bind (json_parse s) (struct_of chunk_field \<lparr>sc_choices = [], sc_usage = None\<rparr>)"

subsection \<open>The request\<close>

definition tool_call_json :: "(rat \<Rightarrow> string) \<Rightarrow> tool_call \<Rightarrow> json" where
  "tool_call_json ft tc =
     JObj [(''id'', JStr (tc_id tc)), (''type'', JStr ''function''),
       (''function'', JObj [(''name'', JStr (tc_name tc)),
          (''arguments'', JStr (json_lit ft (JObj (recode_args (tc_args tc)))))])]"

text \<open>The raw messages one message becomes; a role the switch does not know leaves a nil one, which is null.\<close>

definition oai_messages_of :: "(rat \<Rightarrow> string) \<Rightarrow> message \<Rightarrow> json list" where
  "oai_messages_of ft m =
     (if msg_role m = ''system'' \<or> msg_role m = ''user''
      then [JObj [(''content'', JStr (msg_content m)), (''role'', JStr (msg_role m))]]
      else if msg_role m = ''assistant'' then
        [JObj ((if msg_content m \<noteq> [] then [(''content'', JStr (msg_content m))] else [])
           @ [(''role'', JStr ''assistant'')]
           @ (if length (msg_tool_calls m) > 0
              then [(''tool_calls'', JArr (map (tool_call_json ft) (msg_tool_calls m)))] else []))]
      else if msg_role m = ''tool'' then
        map (\<lambda>r. JObj [(''content'', JStr (tr_output r)), (''role'', JStr ''tool''),
          (''tool_call_id'', JStr (tr_tool_use_id r))]) (msg_tool_results m)
      else [JNull])"

definition oai_tool_def :: "tool_definition \<Rightarrow> json" where
  "oai_tool_def td =
     JObj [(''type'', JStr ''function''),
       (''function'', JObj [(''name'', JStr (td_name td)), (''description'', JStr (td_description td)),
          (''parameters'', JObj (recode_args (td_parameters td)))])]"

definition oai_stream_request ::
  "(rat \<Rightarrow> string) \<Rightarrow> oai_client \<Rightarrow> message list \<Rightarrow> tool_definition list \<Rightarrow> json" where
  "oai_stream_request ft p msgs tools =
     JObj ([(''model'', JStr (oc_model p)),
        (''messages'', let ms = concat (map (oai_messages_of ft) msgs) in if ms = [] then JNull else JArr ms)]
       @ (if tools = [] then [] else [(''tools'', JArr (map oai_tool_def tools))])
       @ (if oc_max_tokens p = 0 then [] else [(''max_tokens'', JNum (of_int (oc_max_tokens p)))])
       @ [(''stream'', JBool True)])"

definition oai_headers :: "oai_client \<Rightarrow> headers" where
  "oai_headers p = header_set ''Authorization'' (''Bearer '' @ oc_api_key p)
     (header_set ''Content-Type'' ''application/json'' [])"

definition completions_url :: "oai_client \<Rightarrow> string" where
  "completions_url p = oc_base_url p @ ''/chat/completions''"

subsection \<open>The event stream\<close>

text \<open>\<open>bufio.Scanner\<close>: lines without their end, up to the first that is too long for its buffer.\<close>

definition max_scan_token :: nat where "max_scan_token = 64 * 1024"

definition drop_cr :: "string \<Rightarrow> string" where
  "drop_cr l = (if l \<noteq> [] \<and> last l = CHR 0x0D then butlast l else l)"

definition raw_lines :: "string \<Rightarrow> string list" where
  "raw_lines s = (let ls = split_on (CHR 0x0A) s in if last ls = [] then butlast ls else ls)"

definition scan_lines :: "string \<Rightarrow> string list \<times> bool" where
  "scan_lines s =
     (let ls = raw_lines s; ok = takeWhile (\<lambda>l. length l < max_scan_token) ls in
      (map drop_cr ok, length ok < length ls))"

record pending_call =
  pc_id :: string
  pc_name :: string
  pc_args :: string

record stream_state =
  ss_content :: string
  ss_finish :: string
  ss_usage :: "oai_usage option"
  ss_calls :: "(int \<times> pending_call) list"
  ss_events :: "stream_event list"

definition new_stream_state :: stream_state where
  "new_stream_state = \<lparr>ss_content = [], ss_finish = [], ss_usage = None, ss_calls = [], ss_events = []\<rparr>"

definition add_tool_delta :: "(int \<times> pending_call) list \<Rightarrow> tool_delta \<Rightarrow> (int \<times> pending_call) list" where
  "add_tool_delta calls d =
     (let c = (case map_of calls (tdl_index d) of Some c \<Rightarrow> c | None \<Rightarrow> \<lparr>pc_id = [], pc_name = [], pc_args = []\<rparr>) in
      map_put (tdl_index d)
        \<lparr>pc_id = (if tdl_id d \<noteq> [] then tdl_id d else pc_id c),
         pc_name = (if tdl_name d \<noteq> [] then tdl_name d else pc_name c),
         pc_args = pc_args c @ tdl_args d\<rparr> calls)"

definition on_chunk :: "stream_state \<Rightarrow> stream_chunk \<Rightarrow> stream_state" where
  "on_chunk st chunk =
     (let usage1 = (case sc_usage chunk of Some u \<Rightarrow> Some u | None \<Rightarrow> ss_usage st) in
      case sc_choices chunk of
        [] \<Rightarrow> st\<lparr>ss_usage := usage1\<rparr>
      | choice # _ \<Rightarrow>
          \<lparr>ss_content = ss_content st @ sch_content choice,
           ss_finish = (case sch_finish choice of Some f \<Rightarrow> f | None \<Rightarrow> ss_finish st),
           ss_usage = usage1,
           ss_calls = foldl add_tool_delta (ss_calls st) (sch_tool_calls choice),
           ss_events = ss_events st @ (if sch_content choice \<noteq> [] then [StreamTextDelta (sch_content choice)] else [])\<rparr>)"

datatype stream_end = Finished | OutOfLines | Cancelled string

fun read_stream :: "(nat \<Rightarrow> string option) \<Rightarrow> nat \<Rightarrow> stream_state \<Rightarrow> string list \<Rightarrow> stream_end \<times> stream_state" where
  "read_stream ctx_error n st [] = (OutOfLines, st)"
| "read_stream ctx_error n st (line # lines) =
     (case ctx_error n of
        Some e \<Rightarrow> (Cancelled e, st)
      | None \<Rightarrow>
          if line = [] then read_stream ctx_error (Suc n) st lines
          else if line = ''data: [DONE]'' then (Finished, st)
          else if \<not> has_prefix line ''data: '' then read_stream ctx_error (Suc n) st lines
          else (case decode_chunk (trim_prefix line ''data: '') of
              None \<Rightarrow> read_stream ctx_error (Suc n) st lines
            | Some chunk \<Rightarrow> read_stream ctx_error (Suc n) (on_chunk st chunk) lines))"

definition decode_args :: "string \<Rightarrow> args" where
  "decode_args raw =
     (case json_parse raw of Some (JObj kvs) \<Rightarrow> of_pairs kvs | Some JNull \<Rightarrow> [] | _ \<Rightarrow> [(''_raw'', JStr raw)])"

text \<open>The loop over the indices 0, 1, ... up to the number of calls.\<close>

definition built_calls :: "(int \<times> pending_call) list \<Rightarrow> tool_call list" where
  "built_calls calls =
     concat (map (\<lambda>i. case map_of calls (int i) of
         None \<Rightarrow> []
       | Some c \<Rightarrow> [\<lparr>tc_id = pc_id c, tc_name = pc_name c, tc_args = decode_args (pc_args c)\<rparr>]) [0..<length calls])"

definition stream_usage :: "oai_usage option \<Rightarrow> usage" where
  "stream_usage u =
     (case u of
        None \<Rightarrow> zero_usage
      | Some u \<Rightarrow> zero_usage\<lparr>input_tokens := us_prompt u, output_tokens := us_completion u, total_tokens := us_total u\<rparr>)"

definition built_response :: "stream_state \<Rightarrow> response" where
  "built_response st =
     \<lparr>resp_stop_reason = (if ss_finish st = ''tool_calls'' then StopReasonToolUse else StopReasonEndTurn),
      resp_content = ss_content st, resp_tool_calls = built_calls (ss_calls st), resp_usage = stream_usage (ss_usage st)\<rparr>"

text \<open>What the reader of the body makes of it: the bytes seen and the error that cut it short.\<close>

definition read_body :: "(nat \<Rightarrow> string option) \<Rightarrow> string \<Rightarrow> string option \<Rightarrow> stream_event list \<times> (string + response)" where
  "read_body ctx_error body broken =
     (let (lines, too_long) = scan_lines body in
      case read_stream ctx_error 0 new_stream_state lines of
        (Cancelled e, st) \<Rightarrow> (ss_events st, Inl e)
      | (Finished, st) \<Rightarrow> (ss_events st @ [StreamDone (stream_usage (ss_usage st))], Inr (built_response st))
      | (OutOfLines, st) \<Rightarrow>
          (case (if too_long then Some ''bufio.Scanner: token too long'' else broken) of
             Some e \<Rightarrow> (ss_events st @ [StreamError (''stream read error: '' @ e)], Inl (''stream read error: '' @ e))
           | None \<Rightarrow> (ss_events st @ [StreamDone (stream_usage (ss_usage st))], Inr (built_response st))))"

definition stream_with_tools ::
  "(string \<Rightarrow> string) \<Rightarrow> (rat \<Rightarrow> string) \<Rightarrow> (string \<Rightarrow> headers \<Rightarrow> string \<Rightarrow> 'w \<Rightarrow> http_result \<times> 'w) \<Rightarrow> (nat \<Rightarrow> string option) \<Rightarrow> oai_client \<Rightarrow>
   message list \<Rightarrow> tool_definition list \<Rightarrow> 'w \<Rightarrow> stream_event list \<times> (string + response) \<times> 'w" where
  "stream_with_tools url_error ft post ctx_error p msgs tools w =
     (if url_parse (completions_url p) = None
      then ([], Inl (''failed to create request: '' @ url_error (completions_url p)), w)
      else let (r, w1) = post (completions_url p) (oai_headers p) (json_lit ft (oai_stream_request ft p msgs tools)) w in
      case r of
        HttpFailed e \<Rightarrow> ([StreamError (''API request failed: '' @ e)], Inl (''API request failed: '' @ e), w1)
      | HttpReply st _ body \<Rightarrow>
          if st \<noteq> 200
          then let e = ''API returned status '' @ itoa st @ '': '' @ body in ([StreamError e], Inl e, w1)
          else let (evs, res) = read_body ctx_error body None in (evs, res, w1)
      | HttpBroken st _ body broken \<Rightarrow>
          if st \<noteq> 200
          then let e = ''API returned status '' @ itoa st @ '': '' @ body in ([StreamError e], Inl e, w1)
          else let (evs, res) = read_body ctx_error body (Some broken) in (evs, res, w1))"

definition complete_with_tools_openai where
  "complete_with_tools_openai url_error ft post ctx_error p msgs tools w =
     (let (_, res, w1) = stream_with_tools url_error ft post ctx_error p msgs tools w in (res, w1))"

subsection \<open>Complete\<close>

text \<open>The parts of a whole answer the code looks at: the content of every choice and the message of an error.\<close>

record chat_answer =
  ca_contents :: "string list"
  ca_error :: "string option"

definition answer_message_field :: "string \<Rightarrow> json \<Rightarrow> string \<Rightarrow> string option" where
  "answer_message_field k v s =
     (if field_is k ''role'' then string_field v (\<lambda>_ s. s) s
      else if field_is k ''content'' then string_field v (\<lambda>c _. c) s else Some s)"

definition answer_choice_field :: "string \<Rightarrow> json \<Rightarrow> string \<Rightarrow> string option" where
  "answer_choice_field k v s =
     (if field_is k ''index'' then int_field v (\<lambda>_ s. s) s
      else if field_is k ''message'' then struct_of answer_message_field s v
      else if field_is k ''finish_reason'' then string_field v (\<lambda>_ s. s) s else Some s)"

definition answer_error_field :: "string \<Rightarrow> json \<Rightarrow> string \<Rightarrow> string option" where
  "answer_error_field k v s =
     (if field_is k ''message'' then string_field v (\<lambda>m _. m) s
      else if field_is k ''type'' \<or> field_is k ''code'' then string_field v (\<lambda>_ s. s) s else Some s)"

definition answer_field :: "string \<Rightarrow> json \<Rightarrow> chat_answer \<Rightarrow> chat_answer option" where
  "answer_field k v a =
     (if field_is k ''id'' \<or> field_is k ''object'' \<or> field_is k ''model'' then string_field v (\<lambda>_ a. a) a
      else if field_is k ''created'' then int_field v (\<lambda>_ a. a) a
      else if field_is k ''choices'' then map_option (\<lambda>cs. a\<lparr>ca_contents := cs\<rparr>) (struct_list answer_choice_field [] v)
      else if field_is k ''usage'' then map_option (\<lambda>_. a) (struct_of usage_field no_usage v)
      else if field_is k ''error'' then
        (case v of
           JNull \<Rightarrow> Some (a\<lparr>ca_error := None\<rparr>)
         | _ \<Rightarrow> map_option (\<lambda>m. a\<lparr>ca_error := Some m\<rparr>)
             (struct_of answer_error_field (case ca_error a of Some m \<Rightarrow> m | None \<Rightarrow> []) v))
      else Some a)"

definition decode_answer :: "string \<Rightarrow> chat_answer option" where
  "decode_answer body = Option.bind (json_parse body) (struct_of answer_field \<lparr>ca_contents = [], ca_error = None\<rparr>)"

definition oai_chat_request :: "oai_client \<Rightarrow> string \<Rightarrow> string \<Rightarrow> json" where
  "oai_chat_request p system_prompt user_prompt =
     JObj ([(''model'', JStr (oc_model p)),
        (''messages'', JArr [JObj [(''role'', JStr ''system''), (''content'', JStr system_prompt)],
           JObj [(''role'', JStr ''user''), (''content'', JStr user_prompt)]])]
       @ (if oc_max_tokens p = 0 then [] else [(''max_tokens'', JNum (of_int (oc_max_tokens p)))]))"

definition complete_openai ::
  "(string \<Rightarrow> string) \<Rightarrow> (rat \<Rightarrow> string) \<Rightarrow> (string \<Rightarrow> headers \<Rightarrow> string \<Rightarrow> 'w \<Rightarrow> http_result \<times> 'w) \<Rightarrow> (string \<Rightarrow> string) \<Rightarrow> oai_client \<Rightarrow>
   string \<Rightarrow> string \<Rightarrow> 'w \<Rightarrow> (string + string) \<times> 'w" where
  "complete_openai url_error ft post decode_error p system_prompt user_prompt w =
     (if url_parse (completions_url p) = None
      then (Inl (''failed to create request: '' @ url_error (completions_url p)), w)
      else let (r, w1) = post (completions_url p) (oai_headers p) (json_lit ft (oai_chat_request p system_prompt user_prompt)) w in
      (case r of
         HttpFailed e \<Rightarrow> Inl (''API request failed: '' @ e)
       | HttpBroken _ _ _ e \<Rightarrow> Inl (''failed to read response: '' @ e)
       | HttpReply st _ body \<Rightarrow>
           if st \<noteq> 200
           then (case Option.bind (decode_answer body) ca_error of
               Some m \<Rightarrow> Inl (''API error ('' @ itoa st @ ''): '' @ m)
             | None \<Rightarrow> Inl (''API returned status '' @ itoa st @ '': '' @ body))
           else (case decode_answer body of
               None \<Rightarrow> Inl (''failed to parse response: '' @ decode_error body)
             | Some a \<Rightarrow> (case ca_contents a of [] \<Rightarrow> Inl ''empty response from API'' | c # _ \<Rightarrow> Inr c)), w1))"

subsection \<open>What a stream amounts to\<close>






definition last_filled :: "string list \<Rightarrow> string" where
  "last_filled xs = (let ys = filter (\<lambda>x. x \<noteq> []) xs in if ys = [] then [] else last ys)"


lemma last_filled_snoc: "last_filled (xs @ [x]) = (if x \<noteq> [] then x else last_filled xs)"
  by (simp add: last_filled_def Let_def)




definition pending_of :: "tool_delta list \<Rightarrow> pending_call" where
  "pending_of ds = \<lparr>pc_id = last_filled (map tdl_id ds), pc_name = last_filled (map tdl_name ds),
     pc_args = concat (map tdl_args ds)\<rparr>"

lemma pending_of_snoc:
  "pending_of (ds @ [d]) =
     \<lparr>pc_id = (if tdl_id d \<noteq> [] then tdl_id d else pc_id (pending_of ds)),
      pc_name = (if tdl_name d \<noteq> [] then tdl_name d else pc_name (pending_of ds)),
      pc_args = pc_args (pending_of ds) @ tdl_args d\<rparr>"
  by (simp add: pending_of_def last_filled_snoc)

lemma pending_of_Nil: "pending_of [] = \<lparr>pc_id = [], pc_name = [], pc_args = []\<rparr>"
  by (simp add: pending_of_def last_filled_def)

lemma pending_of_single: "pending_of [d] = \<lparr>pc_id = tdl_id d, pc_name = tdl_name d, pc_args = tdl_args d\<rparr>"
  using pending_of_snoc [of "[]" d] by (simp add: pending_of_Nil)

lemma foldl_add_tool_delta:
  "map_of (foldl add_tool_delta [] ds) i =
     (if i \<in> tdl_index ` set ds then Some (pending_of (filter (\<lambda>d. tdl_index d = i) ds)) else None)"
proof (induction ds arbitrary: i rule: rev_induct)
  case (snoc d ds)
  have "filter (\<lambda>e. tdl_index e = tdl_index d) ds = []" if "tdl_index d \<notin> tdl_index ` set ds"
    using that by (force simp: filter_empty_conv image_iff)
  then show ?case
    using snoc.IH [of "tdl_index d"] snoc.IH [of i]
    by (cases "i = tdl_index d"; cases "tdl_index d \<in> tdl_index ` set ds")
      (simp_all add: add_tool_delta_def Let_def pending_of_snoc pending_of_Nil pending_of_single)
qed simp

lemma calls_keys: "distinct (map fst (foldl add_tool_delta [] ds)) \<and> fst ` set (foldl add_tool_delta [] ds) = tdl_index ` set ds"
  by (induction ds rule: rev_induct) (simp_all add: add_tool_delta_def Let_def keys_map_put)

lemma calls_length: "length (foldl add_tool_delta [] ds) = card (tdl_index ` set ds)"
  using calls_keys [of ds] distinct_card [of "map fst (foldl add_tool_delta [] ds)"] by simp

text \<open>The call of an index: what its deltas amount to.\<close>

definition call_of_deltas :: "tool_delta list \<Rightarrow> tool_call" where
  "call_of_deltas ds = \<lparr>tc_id = last_filled (map tdl_id ds), tc_name = last_filled (map tdl_name ds),
     tc_args = decode_args (concat (map tdl_args ds))\<rparr>"

lemma built_calls_fold:
  "built_calls (foldl add_tool_delta [] ds) =
     map (\<lambda>i. call_of_deltas (filter (\<lambda>d. tdl_index d = i) ds))
       (filter (\<lambda>i. i \<in> tdl_index ` set ds) (map int [0..<card (tdl_index ` set ds)]))"
proof -
  have "concat (map (\<lambda>i. case map_of (foldl add_tool_delta [] ds) (int i) of None \<Rightarrow> []
        | Some c \<Rightarrow> [\<lparr>tc_id = pc_id c, tc_name = pc_name c, tc_args = decode_args (pc_args c)\<rparr>]) ns)
      = map (\<lambda>i. call_of_deltas (filter (\<lambda>d. tdl_index d = i) ds)) (filter (\<lambda>i. i \<in> tdl_index ` set ds) (map int ns))" for ns
    by (induction ns) (simp_all add: foldl_add_tool_delta pending_of_def call_of_deltas_def)
  then show ?thesis by (simp only: built_calls_def calls_length)
qed


text \<open>
  The calls of a response are those the model sent when its indices are 0, 1, ... without a gap;
  with a gap the calls above it are lost.
\<close>

lemma dense_indices_keep_every_call:
  assumes "tdl_index ` set ds = int ` {..<n}"
  shows "built_calls (foldl add_tool_delta [] ds) =
    map (\<lambda>i. call_of_deltas (filter (\<lambda>d. tdl_index d = int i) ds)) [0..<n]"
proof -
  have "card (tdl_index ` set ds) = n" by (simp add: assms card_image)
  moreover have "filter (\<lambda>i. i \<in> int ` {..<n}) (map int [0..<n]) = map int [0..<n]"
    by (auto simp: filter_id_conv)
  ultimately show ?thesis by (simp add: built_calls_fold assms)
qed

lemma sparse_index_is_lost:
  "built_calls (foldl add_tool_delta [] [\<lparr>tdl_index = 1, tdl_id = ''a'', tdl_name = ''exec'', tdl_args = ''{}''\<rparr>]) = []"
  by code_simp

lemma empty_arguments_become_raw: "decode_args [] = [(''_raw'', JStr [])]"
  by code_simp

end
