(* ===== verification/Anthropic_Provider.thy ===== *)
theory Anthropic_Provider
  imports Tool_Loop Go_Json_Text
begin

section \<open>internal/anthropic: the client of the Anthropic API\<close>

text \<open>
  The provider turns a conversation into the parameters of the vendor's package and the message
  this package accumulates from the event stream into a response. The package itself is a record of
  parameters: its two calls, its accumulator and its view of a text delta. Spans are left out, nil
  maps are empty ones, and token counts stay below the width of an int.
\<close>

subsection \<open>Construction\<close>

record ant_client =
  an_api_key :: string
  an_model :: string
  an_max_tokens :: int
  an_timeout :: int

definition new_anthropic_provider :: "llm_config \<Rightarrow> string + ant_client" where
  "new_anthropic_provider cfg =
     (if cfg_api_key cfg = [] then Inl ''API key is required''
      else Inr \<lparr>an_api_key = cfg_api_key cfg,
        an_model = (if cfg_model cfg = [] then ''claude-sonnet-4-6'' else cfg_model cfg),
        an_max_tokens = (if cfg_max_tokens cfg = 0 then 4096 else cfg_max_tokens cfg),
        an_timeout = (if cfg_timeout cfg = 0 then 45 else cfg_timeout cfg) * 10 ^ 9\<rparr>)"

text \<open>The base URL of the configuration is not used: two that differ in it give the same client.\<close>

lemma anthropic_ignores_base_url: "new_anthropic_provider (cfg\<lparr>cfg_base_url := u\<rparr>) = new_anthropic_provider cfg"
  by (simp add: new_anthropic_provider_def)

subsection \<open>Parameters of a request\<close>

datatype block_param =
    TextBlock string
  | ToolUseBlock string args string
  | ToolResultBlock string string bool

record message_param =
  mp_role :: string
  mp_content :: "block_param list"

record tool_param =
  tp_name :: string
  tp_description :: string
  tp_properties :: json
  tp_required :: "string list"

record new_params =
  np_model :: string
  np_max_tokens :: int
  np_messages :: "message_param list"
  np_tools :: "tool_param list"
  np_system :: "string list"

definition ant_message :: "message \<Rightarrow> message_param list" where
  "ant_message m =
     (if msg_role m = ''user'' then [\<lparr>mp_role = ''user'', mp_content = [TextBlock (msg_content m)]\<rparr>]
      else if msg_role m = ''assistant'' then
        [\<lparr>mp_role = ''assistant'',
          mp_content = (if msg_content m \<noteq> [] then [TextBlock (msg_content m)] else [])
            @ map (\<lambda>tc. ToolUseBlock (tc_id tc) (tc_args tc) (tc_name tc)) (msg_tool_calls m)\<rparr>]
      else if msg_role m = ''tool'' then
        [\<lparr>mp_role = ''user'',
          mp_content = map (\<lambda>r. ToolResultBlock (tr_tool_use_id r) (tr_output r) (tr_is_error r)) (msg_tool_results m)\<rparr>]
      else [])"

text \<open>Every system message replaces the one before it.\<close>

definition ant_convert :: "message list \<Rightarrow> message_param list \<times> string" where
  "ant_convert messages =
     foldl (\<lambda>(ms, sys) m. if msg_role m = ''system'' then (ms, msg_content m) else (ms @ ant_message m, sys))
       ([], []) messages"

definition ant_tool :: "tool_definition \<Rightarrow> tool_param" where
  "ant_tool td =
     \<lparr>tp_name = td_name td, tp_description = td_description td,
      tp_properties = (case map_of (td_parameters td) ''properties'' of Some v \<Rightarrow> v | None \<Rightarrow> JNull),
      tp_required = (case map_of (td_parameters td) ''required'' of
          Some (JArr items) \<Rightarrow> concat (map (\<lambda>item. case item of JStr s \<Rightarrow> [s] | _ \<Rightarrow> []) items)
        | _ \<Rightarrow> [])\<rparr>"

definition ant_params :: "ant_client \<Rightarrow> message list \<Rightarrow> tool_definition list \<Rightarrow> new_params" where
  "ant_params p messages tools =
     (let (ms, sys) = ant_convert messages in
      \<lparr>np_model = an_model p, np_max_tokens = an_max_tokens p, np_messages = ms, np_tools = map ant_tool tools,
       np_system = (if sys \<noteq> [] then [sys] else [])\<rparr>)"

subsection \<open>Calls\<close>

record content_block =
  cb_type :: string
  cb_text :: string
  cb_id :: string
  cb_name :: string
  cb_input :: string

record sdk_message =
  sm_content :: "content_block list"
  sm_stop_reason :: string
  sm_input_tokens :: int
  sm_output_tokens :: int
  sm_cache_read :: int
  sm_cache_creation :: int

record ('ev, 'acc, 'w) anthropic_sdk =
  messages_new :: "ant_client \<Rightarrow> new_params \<Rightarrow> 'w \<Rightarrow> (string + sdk_message) \<times> 'w"
  messages_stream :: "ant_client \<Rightarrow> new_params \<Rightarrow> 'w \<Rightarrow> 'ev list \<times> string option \<times> 'w"
  empty_message :: 'acc
  accumulate :: "'ev \<Rightarrow> 'acc \<Rightarrow> string + 'acc"
  message_of :: "'acc \<Rightarrow> sdk_message"
  text_delta_of :: "'ev \<Rightarrow> string option"
  input_error :: "string \<Rightarrow> string"

definition block_texts :: "content_block list \<Rightarrow> string" where
  "block_texts bs = concat (map (\<lambda>b. if cb_type b = ''text'' then cb_text b else []) bs)"

definition complete_anthropic ::
  "('ev, 'acc, 'w) anthropic_sdk \<Rightarrow> ant_client \<Rightarrow> string \<Rightarrow> string \<Rightarrow> 'w \<Rightarrow> (string + string) \<times> 'w" where
  "complete_anthropic S p system_prompt user_prompt w =
     (let (r, w1) = messages_new S p
        \<lparr>np_model = an_model p, np_max_tokens = an_max_tokens p,
         np_messages = [\<lparr>mp_role = ''user'', mp_content = [TextBlock user_prompt]\<rparr>], np_tools = [],
         np_system = [system_prompt]\<rparr> w in
      (case r of
         Inl e \<Rightarrow> Inl (''API request failed: '' @ e)
       | Inr m \<Rightarrow> if sm_content m = [] then Inl ''empty response from API'' else Inr (block_texts (sm_content m)), w1))"

fun read_events ::
  "('ev, 'acc, 'w) anthropic_sdk \<Rightarrow> 'acc \<Rightarrow> stream_event list \<Rightarrow> 'ev list \<Rightarrow> stream_event list \<times> (string + 'acc)" where
  "read_events S acc out [] = (out, Inr acc)"
| "read_events S acc out (ev # evs) =
     (case accumulate S ev acc of
        Inl e \<Rightarrow> (out @ [StreamError (''accumulate error: '' @ e)], Inl (''stream accumulate failed: '' @ e))
      | Inr acc' \<Rightarrow>
          read_events S acc' (out @ (case text_delta_of S ev of
              Some t \<Rightarrow> if t \<noteq> [] then [StreamTextDelta t] else []
            | None \<Rightarrow> [])) evs)"

definition block_args :: "('ev, 'acc, 'w) anthropic_sdk \<Rightarrow> content_block \<Rightarrow> string + args" where
  "block_args S b =
     (if cb_input b = [] then Inr []
      else (case json_parse (cb_input b) of
          Some (JObj kvs) \<Rightarrow> Inr (of_pairs kvs)
        | Some JNull \<Rightarrow> Inr []
        | _ \<Rightarrow> Inl (''failed to parse tool input: '' @ input_error S (cb_input b))))"

fun add_blocks :: "('ev, 'acc, 'w) anthropic_sdk \<Rightarrow> response \<Rightarrow> content_block list \<Rightarrow> string + response" where
  "add_blocks S resp [] = Inr resp"
| "add_blocks S resp (b # bs) =
     (if cb_type b = ''text'' then add_blocks S (resp\<lparr>resp_content := resp_content resp @ cb_text b\<rparr>) bs
      else if cb_type b = ''tool_use'' then
        (case block_args S b of
           Inl e \<Rightarrow> Inl e
         | Inr a \<Rightarrow> add_blocks S (resp\<lparr>resp_tool_calls :=
             resp_tool_calls resp @ [\<lparr>tc_id = cb_id b, tc_name = cb_name b, tc_args = a\<rparr>]\<rparr>) bs)
      else add_blocks S resp bs)"

definition empty_response :: "sdk_message \<Rightarrow> response" where
  "empty_response m =
     \<lparr>resp_stop_reason = (if sm_stop_reason m = ''tool_use'' then StopReasonToolUse else StopReasonEndTurn),
      resp_content = [], resp_tool_calls = [],
      resp_usage = \<lparr>input_tokens = sm_input_tokens m, output_tokens = sm_output_tokens m,
        cache_read_tokens = sm_cache_read m, cache_write_tokens = sm_cache_creation m,
        total_tokens = sm_input_tokens m + sm_output_tokens m\<rparr>\<rparr>"

definition stream_with_tools_anthropic ::
  "('ev, 'acc, 'w) anthropic_sdk \<Rightarrow> ant_client \<Rightarrow> message list \<Rightarrow> tool_definition list \<Rightarrow> 'w \<Rightarrow>
   stream_event list \<times> (string + response) \<times> 'w" where
  "stream_with_tools_anthropic S p messages tools w =
     (let (evs, stream_err, w1) = messages_stream S p (ant_params p messages tools) w in
      case read_events S (empty_message S) [] evs of
        (out, Inl e) \<Rightarrow> (out, Inl e, w1)
      | (out, Inr acc) \<Rightarrow>
          (case stream_err of
             Some e \<Rightarrow> (out @ [StreamError (''stream error: '' @ e)], Inl (''API streaming failed: '' @ e), w1)
           | None \<Rightarrow>
               (case add_blocks S (empty_response (message_of S acc)) (sm_content (message_of S acc)) of
                  Inl e \<Rightarrow> (out, Inl e, w1)
                | Inr resp \<Rightarrow> (out @ [StreamDone (resp_usage resp)], Inr resp, w1))))"

definition complete_with_tools_anthropic ::
  "('ev, 'acc, 'w) anthropic_sdk \<Rightarrow> ant_client \<Rightarrow> message list \<Rightarrow> tool_definition list \<Rightarrow> 'w \<Rightarrow> (string + response) \<times> 'w" where
  "complete_with_tools_anthropic S p messages tools w =
     (let (_, res, w1) = stream_with_tools_anthropic S p messages tools w in (res, w1))"

subsection \<open>Requests keep calls and results together\<close>

lemma ant_convert_append:
  "ant_convert (xs @ ys) =
     (fst (ant_convert xs) @ fst (ant_convert ys),
      if \<exists>m \<in> set ys. msg_role m = ''system'' then snd (ant_convert ys) else snd (ant_convert xs))"
  by (induction ys rule: rev_induct) (auto simp: ant_convert_def case_prod_beta ant_message_def)

lemma ant_convert_messages: "fst (ant_convert ms) = concat (map (\<lambda>m. if msg_role m = ''system'' then [] else ant_message m) ms)"
  by (induction ms rule: rev_induct) (simp_all add: ant_convert_append, simp_all add: ant_convert_def)

text \<open>Two system messages: only the later one is sent.\<close>

lemma last_system_message_wins:
  "np_system (ant_params p [text_message ''system'' ''a'', text_message ''user'' ''q'', text_message ''system'' ''b''] []) = [''b'']"
  by (simp add: ant_params_def ant_convert_def)

definition use_ids :: "message_param \<Rightarrow> string list" where
  "use_ids m = concat (map (\<lambda>b. case b of ToolUseBlock i _ _ \<Rightarrow> [i] | _ \<Rightarrow> []) (mp_content m))"

definition result_ids :: "message_param \<Rightarrow> string list" where
  "result_ids m = concat (map (\<lambda>b. case b of ToolResultBlock i _ _ \<Rightarrow> [i] | _ \<Rightarrow> []) (mp_content m))"

text \<open>What the API demands: the results of a message with tool uses are all in the next message.\<close>

fun blocks_paired :: "message_param list \<Rightarrow> bool" where
  "blocks_paired [] = True"
| "blocks_paired (m # ms) =
     (if use_ids m = [] then result_ids m = [] \<and> blocks_paired ms
      else (case ms of [] \<Rightarrow> False
         | t # ms' \<Rightarrow> mp_role m = ''assistant'' \<and> mp_role t = ''user'' \<and> result_ids m = []
             \<and> use_ids t = [] \<and> result_ids t = use_ids m \<and> blocks_paired ms'))"

lemma concat_singletons: "concat (map (\<lambda>x. [f x]) xs) = map f xs"
  by (induction xs) simp_all

lemma assistant_ids:
  "msg_role m = ''assistant'' \<Longrightarrow> \<exists>p. ant_message m = [p] \<and> mp_role p = ''assistant''
     \<and> use_ids p = map tc_id (msg_tool_calls m) \<and> result_ids p = []"
  by (auto simp: ant_message_def use_ids_def result_ids_def concat_singletons o_def)

lemma tool_ids:
  "msg_role m = ''tool'' \<Longrightarrow> \<exists>p. ant_message m = [p] \<and> mp_role p = ''user''
     \<and> use_ids p = [] \<and> result_ids p = map tr_tool_use_id (msg_tool_results m)"
  by (simp add: ant_message_def use_ids_def result_ids_def concat_singletons o_def)

lemma callless_ids:
  "msg_role m \<noteq> ''tool'' \<Longrightarrow> msg_tool_calls m = [] \<Longrightarrow> p \<in> set (ant_message m) \<Longrightarrow> use_ids p = [] \<and> result_ids p = []"
  by (auto simp: ant_message_def use_ids_def result_ids_def split: if_splits)

lemma blocks_paired_plain: "\<forall>p \<in> set ps. use_ids p = [] \<and> result_ids p = [] \<Longrightarrow> blocks_paired (ps @ qs) = blocks_paired qs"
  by (induction ps) simp_all

text \<open>
  C29. A request keeps what the agentic loop keeps. Made of a conversation in which every assistant
  message with tool calls is followed by the message with their results, it has directly after each
  message with tool uses a user message with one result for every use, in their order, and nowhere
  else a result; the calls of the request are those of the conversation, and its system prompt is
  the last one of the conversation.
\<close>

theorem anthropic_request_paired:
  assumes "wf_transcript messages"
  shows "blocks_paired (np_messages (ant_params p messages tools))
    \<and> concat (map use_ids (np_messages (ant_params p messages tools))) = map tc_id (concat (map msg_tool_calls messages))
    \<and> np_system (ant_params p messages tools) =
        (let sys = filter (\<lambda>m. msg_role m = ''system'') messages in
         if sys = [] \<or> msg_content (last sys) = [] then [] else [msg_content (last sys)])"
proof -
  let ?conv = "\<lambda>ms. concat (map (\<lambda>m. if msg_role m = ''system'' then [] else ant_message m) ms)"
  have pair: "blocks_paired (?conv messages)
      \<and> concat (map use_ids (?conv messages)) = map tc_id (concat (map msg_tool_calls messages))"
    using assms
  proof (induction messages rule: wf_transcript.induct)
    case (2 m ms)
    show ?case
    proof (cases "msg_tool_calls m = []")
      case True
      let ?ps = "if msg_role m = ''system'' then [] else ant_message m"
      have plain: "\<forall>p \<in> set ?ps. use_ids p = [] \<and> result_ids p = []"
        using 2(3) True callless_ids [of m] by simp
      then have "concat (map use_ids ?ps) = []" by (simp split: if_splits)
      with plain show ?thesis using 2(1) 2(3) True by (simp add: blocks_paired_plain)
    next
      case False
      then obtain t rest where ms: "ms = t # rest" and wf: "msg_role m = ''assistant''" "msg_role t = ''tool''" "msg_tool_calls t = []"
        "map tr_tool_use_id (msg_tool_results t) = map tc_id (msg_tool_calls m)" "wf_transcript rest"
        using 2(3) by (auto split: list.splits)
      from assistant_ids [OF wf(1)] tool_ids [OF wf(2)] 2(2) [OF False ms] wf False ms
      show ?thesis by auto
    qed
  qed simp
  have sys: "snd (ant_convert messages) =
      (let s = filter (\<lambda>m. msg_role m = ''system'') messages in if s = [] then [] else msg_content (last s))"
    by (induction messages rule: rev_induct) (simp_all add: ant_convert_def case_prod_beta Let_def)
  show ?thesis using pair sys
    by (simp add: ant_params_def case_prod_beta ant_convert_messages Let_def)
qed

theorem anthropic_request_paired_witness:
  "let ps = np_messages (ant_params \<lparr>an_api_key = ''k'', an_model = ''m'', an_max_tokens = 10, an_timeout = 1\<rparr>
      [text_message ''system'' ''s'', text_message ''user'' ''q'',
       \<lparr>msg_role = ''assistant'', msg_content = [], msg_tool_calls = [echo_call ''a'' ''x'', echo_call ''b'' ''y''], msg_tool_results = []\<rparr>,
       \<lparr>msg_role = ''tool'', msg_content = [], msg_tool_calls = [], msg_tool_results =
         [\<lparr>tr_tool_use_id = ''a'', tr_output = ''x'', tr_is_error = False\<rparr>, \<lparr>tr_tool_use_id = ''b'', tr_output = ''y'', tr_is_error = False\<rparr>]\<rparr>] [])
   in blocks_paired ps \<and> concat (map use_ids ps) = [''a'', ''b'']"
  using anthropic_request_paired [of "[text_message ''system'' ''s'', text_message ''user'' ''q'',
       \<lparr>msg_role = ''assistant'', msg_content = [], msg_tool_calls = [echo_call ''a'' ''x'', echo_call ''b'' ''y''], msg_tool_results = []\<rparr>,
       \<lparr>msg_role = ''tool'', msg_content = [], msg_tool_calls = [], msg_tool_results =
         [\<lparr>tr_tool_use_id = ''a'', tr_output = ''x'', tr_is_error = False\<rparr>, \<lparr>tr_tool_use_id = ''b'', tr_output = ''y'', tr_is_error = False\<rparr>]\<rparr>]"
     "\<lparr>an_api_key = ''k'', an_model = ''m'', an_max_tokens = 10, an_timeout = 1\<rparr>" "[]"]
  by (simp add: echo_call_def Let_def)

subsection \<open>Answers\<close>

lemma read_events_ok:
  "read_events S acc out evs = (out', Inr acc') \<Longrightarrow>
   out' = out @ map StreamTextDelta (filter (\<lambda>t. t \<noteq> []) (concat (map (\<lambda>e. case text_delta_of S e of Some t \<Rightarrow> [t] | None \<Rightarrow> []) evs)))"
proof (induction evs arbitrary: acc out)
  case (Cons ev evs)
  from Cons.prems obtain acc2 where "accumulate S ev acc = Inr acc2"
    by (auto split: sum.splits)
  with Cons.prems Cons.IH [of acc2 "out @ (case text_delta_of S ev of Some t \<Rightarrow> if t \<noteq> [] then [StreamTextDelta t] else [] | None \<Rightarrow> [])"]
  show ?case by (simp split: option.splits)
qed simp

lemma add_blocks_ok:
  "add_blocks S resp bs = Inr r \<Longrightarrow>
     resp_content r = resp_content resp @ block_texts bs
     \<and> map tc_id (resp_tool_calls r) = map tc_id (resp_tool_calls resp) @ map cb_id (filter (\<lambda>b. cb_type b = ''tool_use'') bs)
     \<and> resp_usage r = resp_usage resp \<and> resp_stop_reason r = resp_stop_reason resp"
  by (induction bs arbitrary: resp) (auto simp: block_texts_def split: if_splits sum.splits)

lemma add_blocks_fails:
  "(\<exists>e. add_blocks S resp bs = Inl e) \<longleftrightarrow> (\<exists>b \<in> set bs. cb_type b = ''tool_use'' \<and> (\<exists>e. block_args S b = Inl e))"
  by (induction bs arbitrary: resp) (auto split: sum.splits)

text \<open>
  A turn without an error hands on the text deltas in order and then the usage, and answers with
  the texts joined and the tool uses in order.
\<close>

lemma anthropic_turn:
  assumes "stream_with_tools_anthropic S p messages tools w = (out, Inr resp, w1)"
  shows "\<exists>evs acc. messages_stream S p (ant_params p messages tools) w = (evs, None, w1)
    \<and> out = map StreamTextDelta (filter (\<lambda>t. t \<noteq> []) (concat (map (\<lambda>e. case text_delta_of S e of Some t \<Rightarrow> [t] | None \<Rightarrow> []) evs)))
        @ [StreamDone (resp_usage resp)]
    \<and> resp_content resp = block_texts (sm_content (message_of S acc))
    \<and> map tc_id (resp_tool_calls resp) = map cb_id (filter (\<lambda>b. cb_type b = ''tool_use'') (sm_content (message_of S acc)))"
  using assms
  by (auto simp: stream_with_tools_anthropic_def empty_response_def split: prod.splits sum.splits option.splits
      dest!: read_events_ok add_blocks_ok)

end
