(* ===== verification/Skills.thy ===== *)
theory Skills
  imports Bridge Workspace_Tools
begin

section \<open>pkg/skills and the skill commands\<close>

text \<open>
  Skills are directories with a SKILL.md: discovery and loading (loader.go), their entries in the
  agent card (a2a.go), the validation of a skill card (card/parse.go), the tool load_skill
  (internal/cmd/runtime.go) and the commands that list and delete them (internal/cmd/skill_*.go).
  \<open>yaml\<close> is the YAML decoder and \<open>q\<close> the verb %q; log lines are left out, and what a failed read of
  a skill.yaml reports is only logged.
\<close>

subsection \<open>Walking a directory\<close>

text \<open>Entries of a directory in the order of their names, and the node a path names, its last link not followed.\<close>

definition dir_entries :: "fs \<Rightarrow> string list \<Rightarrow> string list" where
  "dir_entries F p = sort (remdups (map last (filter (\<lambda>q. q \<noteq> [] \<and> butlast q = p) (map fst (fs_nodes F)))))"

definition os_lstat :: "fs \<Rightarrow> string \<Rightarrow> string list option" where
  "os_lstat F path =
     (let es = split_on (CHR ''/'') path in
      if path = [] then None
      else if last es \<in> {[], dot, dotdot} then (case resolve F kernel_links path of Found p \<Rightarrow> Some p | _ \<Rightarrow> None)
      else (case namei F kernel_links (if is_abs path then [] else fs_cwd F) (butlast es) of
          Found d \<Rightarrow> if node_at F (d @ [last es]) \<noteq> None then Some (d @ [last es]) else None
        | _ \<Rightarrow> None))"

text \<open>
  \<open>filepath.WalkDir\<close> with the rule both callers have, to skip a directory by its name: what is no
  directory, with its path as the callback gets it.
\<close>

definition fs_depth :: "fs \<Rightarrow> nat" where
  "fs_depth F = Max (insert 0 (length ` fst ` set (fs_nodes F)))"

lemma dir_entries_node: "n \<in> set (dir_entries F p) \<longleftrightarrow> p @ [n] \<in> fst ` set (fs_nodes F)"
proof
  assume "n \<in> set (dir_entries F p)"
  then obtain q where "q \<in> fst ` set (fs_nodes F)" "q \<noteq> []" "butlast q = p" "n = last q"
    by (auto simp: dir_entries_def)
  then show "p @ [n] \<in> fst ` set (fs_nodes F)" by (metis append_butlast_last_id)
next
  assume "p @ [n] \<in> fst ` set (fs_nodes F)"
  then have "last (p @ [n]) \<in> last ` {q \<in> fst ` set (fs_nodes F). q \<noteq> [] \<and> butlast q = p}" by (intro imageI) simp
  then show "n \<in> set (dir_entries F p)" by (simp add: dir_entries_def)
qed

lemma dir_entries_depth: "n \<in> set (dir_entries F p) \<Longrightarrow> length p < fs_depth F"
proof -
  assume "n \<in> set (dir_entries F p)"
  then have "length (p @ [n]) \<in> length ` fst ` set (fs_nodes F)" unfolding dir_entries_node by (rule imageI)
  then have "length (p @ [n]) \<le> fs_depth F" unfolding fs_depth_def by (intro Max_ge) simp_all
  then show ?thesis by simp
qed

function walk_dir :: "fs \<Rightarrow> (string \<Rightarrow> bool) \<Rightarrow> string list \<Rightarrow> string \<Rightarrow> string \<Rightarrow> (string \<times> string) list" where
  "walk_dir F skip p path name =
     (if node_at F p = Some DirNode
      then if skip name then []
        else concat (map (\<lambda>n. walk_dir F skip (p @ [n]) (path_join [path, n]) n) (dir_entries F p))
      else [(path, name)])"
  by pat_completeness auto
termination
  by (relation "measure (\<lambda>(F, skip, p, path, name). fs_depth F - length p)") (use dir_entries_depth in fastforce)+

declare walk_dir.simps [simp del]

definition walk_root :: "fs \<Rightarrow> (string \<Rightarrow> bool) \<Rightarrow> string \<Rightarrow> (string \<times> string) list" where
  "walk_root F skip top_dir =
     (case os_lstat F top_dir of None \<Rightarrow> [] | Some p \<Rightarrow> walk_dir F skip p top_dir (path_base top_dir))"

definition hidden_name :: "string \<Rightarrow> bool" where
  "hidden_name name = has_prefix name ''..''"

text \<open>The files SKILL.md below a directory, in the order of the walk.\<close>

definition skill_files :: "fs \<Rightarrow> string \<Rightarrow> string list" where
  "skill_files F dir = map fst (filter (\<lambda>(p, name). name = ''SKILL.md'') (walk_root F hidden_name dir))"

subsection \<open>Discovery\<close>

record skill_meta =
  sm_name :: string
  sm_description :: string
  sm_dir :: string

record skill_yaml =
  sy_name :: string
  sy_namespace :: string
  sy_version :: string
  sy_description :: string
  sy_author :: string
  sy_tags :: "string list"
  sy_authors :: "string list"
  sy_required :: "string list"
  sy_examples :: "string list"

definition frontmatter_line :: "skill_meta \<Rightarrow> string \<Rightarrow> skill_meta" where
  "frontmatter_line m raw =
     (let line = trim_space raw;
          m1 = (if has_prefix line ''name:'' then m\<lparr>sm_name := trim_space (trim_prefix line ''name:'')\<rparr> else m) in
      if has_prefix line ''description:''
      then m1\<lparr>sm_description := trim_space (trim_prefix line ''description:'')\<rparr> else m1)"

definition parse_frontmatter :: "fs \<Rightarrow> string \<Rightarrow> string + skill_meta" where
  "parse_frontmatter F path =
     (case os_read_file F path of
        Inl e \<Rightarrow> Inl (path_error_text e)
      | Inr content \<Rightarrow>
          if \<not> has_prefix content ''---'' then Inl ''no frontmatter found''
          else (case str_index (drop 3 content) ''---'' of
              None \<Rightarrow> Inl ''unclosed frontmatter''
            | Some n \<Rightarrow>
                let m = foldl frontmatter_line \<lparr>sm_name = [], sm_description = [], sm_dir = []\<rparr>
                    (split_on (CHR 0x0A) (take n (drop 3 content))) in
                if sm_name m = [] then Inl ''skill has no name'' else Inr m))"

definition parse_skill_yaml :: "(string \<Rightarrow> skill_yaml option) \<Rightarrow> fs \<Rightarrow> string \<Rightarrow> skill_yaml option" where
  "parse_skill_yaml yaml F path = (case os_read_file F path of Inl _ \<Rightarrow> None | Inr c \<Rightarrow> yaml c)"

text \<open>The skill of one SKILL.md; its description is that of the skill.yaml when there is one.\<close>

definition skill_at :: "(string \<Rightarrow> skill_yaml option) \<Rightarrow> fs \<Rightarrow> string \<Rightarrow> skill_meta list" where
  "skill_at yaml F path =
     (case parse_frontmatter F path of
        Inl _ \<Rightarrow> []
      | Inr meta \<Rightarrow>
          (let dir = path_dir path; card = path_join [dir, ''skill.yaml''] in
           [meta\<lparr>sm_dir := dir,
             sm_description :=
               (if stat_dir F card = None then sm_description meta
                else (case parse_skill_yaml yaml F card of
                    Some sy \<Rightarrow> if sy_description sy \<noteq> [] then sy_description sy else sm_description meta
                  | None \<Rightarrow> sm_description meta))\<rparr>]))"

definition discover :: "(string \<Rightarrow> skill_yaml option) \<Rightarrow> fs \<Rightarrow> string \<Rightarrow> skill_meta list" where
  "discover yaml F dir =
     (case resolve F kernel_links dir of
        Absent _ _ \<Rightarrow> []
      | Failed NotExist \<Rightarrow> []
      | _ \<Rightarrow> concat (map (skill_at yaml F) (skill_files F dir)))"

definition load_content :: "(string \<Rightarrow> string) \<Rightarrow> fs \<Rightarrow> string \<Rightarrow> string \<Rightarrow> string + string" where
  "load_content q F dir name =
     (let shown = (\<lambda>c. ''=== SKILL: '' @ name @ '' ==='' @ [CHR 0x0A] @ c) in
      if name = [] \<or> name \<noteq> path_base name \<or> name = dot \<or> name = dotdot
      then Inl (''invalid skill name: '' @ q name)
      else (case os_read_file F (path_join [dir, name, ''SKILL.md'']) of
          Inr c \<Rightarrow> Inr (shown c)
        | Inl _ \<Rightarrow>
            (case filter (\<lambda>p. path_base (path_dir p) = name) (skill_files F dir) of
               [] \<Rightarrow> Inl (''skill '' @ [CHR 0x27] @ name @ [CHR 0x27] @ '' not found'')
             | p # _ \<Rightarrow>
                 (case os_read_file F p of
                    Inl e \<Rightarrow> Inl (''skill '' @ [CHR 0x27] @ name @ [CHR 0x27] @ '': '' @ path_error_text e)
                  | Inr c \<Rightarrow> Inr (shown c)))))"

definition build_summary :: "skill_meta list \<Rightarrow> string" where
  "build_summary skills =
     (if skills = [] then []
      else [CHR 0x0A] @ ''Available skills (call load_skill to get full instructions):'' @ [CHR 0x0A]
        @ concat (map (\<lambda>s. ''  - '' @ sm_name s @ '': '' @ sm_description s @ [CHR 0x0A]) skills))"

definition load_skill_execute :: "(string \<Rightarrow> string) \<Rightarrow> string \<Rightarrow> args \<Rightarrow> fs \<Rightarrow> tool_result" where
  "load_skill_execute q dir a F =
     (let name = str_or_empty ''name'' a in
      if name = [] then tool_errorf ''skill name is required''
      else (case load_content q F dir name of Inl e \<Rightarrow> tool_errorf e | Inr c \<Rightarrow> tool_ok c))"

subsection \<open>Skills in the agent card\<close>

definition derive_tags :: "skill_yaml \<Rightarrow> string list" where
  "derive_tags sy =
     (if length (sy_tags sy) > 0 then sy_tags sy
      else (if sy_namespace sy \<noteq> [] then [sy_namespace sy] else [])
        @ (if sy_author sy \<noteq> [] then [sy_author sy]
           else (case sy_authors sy of a # _ \<Rightarrow> if a \<noteq> [] then [a] else [] | [] \<Rightarrow> []))
        @ sy_required sy)"

definition derive_examples :: "skill_yaml \<Rightarrow> string list" where
  "derive_examples sy = filter (\<lambda>e. e \<noteq> []) (sy_examples sy)"

definition to_agent_skill :: "(string \<Rightarrow> skill_yaml option) \<Rightarrow> fs \<Rightarrow> skill_meta \<Rightarrow> agent_skill" where
  "to_agent_skill yaml F m =
     (let skill = \<lparr>as_id = sm_name m, as_name = sm_name m, as_description = sm_description m, as_tags = [], as_examples = []\<rparr> in
      case parse_skill_yaml yaml F (path_join [sm_dir m, ''skill.yaml'']) of
        None \<Rightarrow> skill
      | Some sy \<Rightarrow> skill\<lparr>as_description := (if sy_description sy \<noteq> [] then sy_description sy else as_description skill),
          as_tags := derive_tags sy, as_examples := derive_examples sy\<rparr>)"

definition to_agent_skills :: "(string \<Rightarrow> skill_yaml option) \<Rightarrow> fs \<Rightarrow> skill_meta list \<Rightarrow> agent_skill list" where
  "to_agent_skills yaml F metas = map (to_agent_skill yaml F) metas"

definition merge_skills :: "agent_skill list \<Rightarrow> agent_skill list \<Rightarrow> agent_skill list" where
  "merge_skills static discovered = static @ filter (\<lambda>s. as_id s \<notin> as_id ` set static) discovered"

text \<open>Two directories with skills of one name are both listed: only the static entries are looked up.\<close>

lemma merge_keeps_duplicates: "merge_skills [] [s, s] = [s, s]"
  by (simp add: merge_skills_def)

subsection \<open>Skill cards\<close>

record card_meta =
  scd_name :: string
  scd_namespace :: string
  scd_ref :: string
  scd_version :: string
  scd_description :: string
  scd_author :: string
  scd_license :: string
  scd_extra :: "(string \<times> string) list"

record tool_deps =
  tdp_required :: "string list"
  tdp_optional :: "string list"

record tool_pack_ref =
  tpr_name :: string
  tpr_ref :: string

record card_dependencies =
  cdp_skills :: "string list"
  cdp_tool_packs :: "tool_pack_ref list"

record resource_hints =
  rhi_memory :: string
  rhi_cpu :: string

record card_compatibility =
  cco_min_agent_version :: string
  cco_environment :: string

record card_spec =
  csp_tools :: tool_deps
  csp_allowed_tools :: string
  csp_dependencies :: card_dependencies
  csp_resources :: resource_hints
  csp_compatibility :: card_compatibility

record skill_card_doc =
  scd_api_version :: string
  scd_kind :: string
  scd_metadata :: card_meta
  scd_spec :: card_spec

text \<open>The pattern \<open>^[a-z0-9]([a-z0-9-]{0,62}[a-z0-9])?$\<close>.\<close>

definition lower_alnum :: "char \<Rightarrow> bool" where
  "lower_alnum c \<longleftrightarrow> (CHR ''a'' \<le> c \<and> c \<le> CHR ''z'') \<or> (CHR ''0'' \<le> c \<and> c \<le> CHR ''9'')"

definition card_name_ok :: "string \<Rightarrow> bool" where
  "card_name_ok s \<longleftrightarrow> s \<noteq> [] \<and> length s \<le> 64 \<and> lower_alnum (hd s) \<and> lower_alnum (last s)
     \<and> list_all (\<lambda>c. lower_alnum c \<or> c = CHR ''-'') s"

definition validate_card :: "(string \<Rightarrow> string) \<Rightarrow> skill_card_doc \<Rightarrow> string option" where
  "validate_card q sc =
     (let m = scd_metadata sc in
      if scd_api_version sc = [] then Some ''apiVersion is required''
      else if scd_api_version sc \<noteq> ''docsclaw.io/v1alpha1''
        then Some (''unsupported apiVersion '' @ q (scd_api_version sc) @ '' (expected docsclaw.io/v1alpha1)'')
      else if scd_kind sc \<noteq> ''SkillCard'' then Some (''kind must be '' @ [CHR 0x22] @ ''SkillCard'' @ [CHR 0x22] @ '', got '' @ q (scd_kind sc))
      else if scd_name m = [] then Some ''metadata.name is required''
      else if \<not> card_name_ok (scd_name m)
        then Some (''metadata.name '' @ q (scd_name m) @ '' does not match Agent Skills naming rules (lowercase a-z, digits 0-9, hyphens, 1-64 chars, no leading/trailing/consecutive hyphens)'')
      else if str_contains (scd_name m) ''--'' then Some (''metadata.name '' @ q (scd_name m) @ '' contains consecutive hyphens'')
      else if scd_namespace m = [] then Some ''metadata.namespace is required''
      else if scd_ref m = [] then Some ''metadata.ref is required''
      else if scd_version m = [] then Some ''metadata.version is required''
      else if scd_description m = [] then Some ''metadata.description is required''
      else if length (scd_description m) > 1024
        then Some (''metadata.description exceeds 1024 characters ('' @ itoa (int (length (scd_description m))) @ '')'')
      else if scd_author m = [] then Some ''metadata.author is required''
      else None)"

definition parse_card :: "(string \<Rightarrow> string + skill_card_doc) \<Rightarrow> (string \<Rightarrow> string) \<Rightarrow> fs \<Rightarrow> string \<Rightarrow> string + skill_card_doc" where
  "parse_card yaml q F path =
     (case os_read_file F path of
        Inl e \<Rightarrow> Inl (''failed to read skill.yaml: '' @ path_error_text e)
      | Inr data \<Rightarrow>
          (case yaml data of
             Inl e \<Rightarrow> Inl (''failed to unmarshal skill.yaml: '' @ e)
           | Inr sc \<Rightarrow> (case validate_card q sc of Some e \<Rightarrow> Inl e | None \<Rightarrow> Inr sc)))"

text \<open>A card that passes has a name that is one plain path element.\<close>

lemma valid_card_name:
  assumes "validate_card q sc = None"
  shows "CHR ''/'' \<notin> set (scd_name (scd_metadata sc))" "CHR ''.'' \<notin> set (scd_name (scd_metadata sc))"
    "scd_name (scd_metadata sc) \<noteq> []" "length (scd_name (scd_metadata sc)) \<le> 64"
proof -
  have "card_name_ok (scd_name (scd_metadata sc))"
    using assms by (auto simp: validate_card_def Let_def split: if_splits)
  then show "CHR ''/'' \<notin> set (scd_name (scd_metadata sc))" "CHR ''.'' \<notin> set (scd_name (scd_metadata sc))"
    "scd_name (scd_metadata sc) \<noteq> []" "length (scd_name (scd_metadata sc)) \<le> 64"
    by (auto simp: card_name_ok_def lower_alnum_def list_all_iff less_eq_char_def)
qed

subsection \<open>The commands skill list and skill delete\<close>

definition pad_right :: "nat \<Rightarrow> string \<Rightarrow> string" where
  "pad_right n s = s @ replicate (n - rune_count s) (CHR '' '')"

definition skill_row :: "string \<Rightarrow> string \<Rightarrow> string \<Rightarrow> string" where
  "skill_row name ver desc = pad_right 25 name @ '' '' @ pad_right 10 ver @ '' '' @ desc @ [CHR 0x0A]"

definition list_entry :: "(string \<Rightarrow> skill_yaml option) \<Rightarrow> fs \<Rightarrow> string \<Rightarrow> string \<Rightarrow> string list" where
  "list_entry yaml F dir entry =
     (let skill_dir = path_join [dir, entry]; md = path_join [skill_dir, ''SKILL.md''] in
      case parse_skill_yaml yaml F (path_join [skill_dir, ''skill.yaml'']) of
        Some sy \<Rightarrow> [skill_row (if sy_name sy = [] then entry else sy_name sy) (sy_version sy) (sy_description sy)]
      | None \<Rightarrow>
          (case parse_frontmatter F md of
             Inr meta \<Rightarrow> [skill_row (if sm_name meta = [] then entry else sm_name meta) ''-'' (sm_description meta)]
           | Inl _ \<Rightarrow> if stat_dir F md \<noteq> None then [skill_row entry ''-'' ''(failed to parse SKILL.md)''] else []))"

text \<open>\<open>os.ReadDir\<close>: the canonical path of the directory, or why it cannot be read.\<close>

definition os_read_dir :: "fs \<Rightarrow> string \<Rightarrow> path_error + string list" where
  "os_read_dir F path =
     (case resolve F kernel_links path of
        Found p \<Rightarrow> if node_at F p = Some DirNode then Inr p
          else Inl \<lparr>pe_op = ''fdopendir'', pe_path = path, pe_err = NotDir\<rparr>
      | Absent _ _ \<Rightarrow> Inl \<lparr>pe_op = ''open'', pe_path = path, pe_err = NotExist\<rparr>
      | Failed e \<Rightarrow> Inl \<lparr>pe_op = ''open'', pe_path = path, pe_err = e\<rparr>)"

definition skills_home :: "string + string \<Rightarrow> string + string" where
  "skills_home home =
     (case home of Inl e \<Rightarrow> Inl (''get home dir: '' @ e) | Inr h \<Rightarrow> Inr (path_join [h, ''.docsclaw'', ''skills'']))"

definition skill_list :: "(string \<Rightarrow> skill_yaml option) \<Rightarrow> string + string \<Rightarrow> string option \<Rightarrow> fs \<Rightarrow> string + string" where
  "skill_list yaml home arg F =
     bind_res (case arg of Some d \<Rightarrow> Inr d | None \<Rightarrow> skills_home home) (\<lambda>dir.
       (case os_read_dir F dir of
          Inl e \<Rightarrow> if pe_err e = NotExist then Inr (''No skills found.'' @ [CHR 0x0A])
            else Inl (''read directory: '' @ path_error_text e)
        | Inr p \<Rightarrow>
            (let rows = concat (map (list_entry yaml F dir) (filter (\<lambda>n. node_at F (p @ [n]) = Some DirNode) (dir_entries F p))) in
             Inr (if rows = [] then ''No skills found.'' @ [CHR 0x0A] else concat rows))))"

text \<open>
  \<open>os.RemoveAll\<close>: the entry a path names, a link itself, with all below it. \<open>fails\<close> tells which
  entries of the disk cannot be removed, and why: these and the directories above them stay, all
  else below the path goes, and the error of the first one is reported. A path that ends in a dot is
  refused, and the root directory stays, empty.
\<close>

definition stuck_entries :: "(string list \<Rightarrow> fs_error option) \<Rightarrow> fs \<Rightarrow> string list \<Rightarrow> string list list" where
  "stuck_entries fails F top_path = filter (\<lambda>q. prefix top_path q \<and> fails q \<noteq> None) (map fst (fs_nodes F))"

definition remove_tree :: "(string list \<Rightarrow> fs_error option) \<Rightarrow> fs \<Rightarrow> string list \<Rightarrow> fs" where
  "remove_tree fails F top_path =
     F\<lparr>fs_nodes := filter (\<lambda>(q, n). \<not> prefix top_path q \<or> list_ex (prefix q) (stuck_entries fails F top_path)) (fs_nodes F)\<rparr>"

definition os_remove_all :: "(string list \<Rightarrow> fs_error option) \<Rightarrow> fs \<Rightarrow> string \<Rightarrow> path_error option \<times> fs" where
  "os_remove_all fails F path =
     (let es = split_on (CHR ''/'') (trim_right_set {CHR ''/''} path);
          failed = (\<lambda>p e. Some \<lparr>pe_op = ''unlinkat'', pe_path = p, pe_err = e\<rparr>) in
      if path = [] then (None, F)
      else if last path = CHR ''.'' \<and> last es = dot then (Some \<lparr>pe_op = ''RemoveAll'', pe_path = path, pe_err = InvalidArg\<rparr>, F)
      else if es = [[]] then (failed path Busy, remove_tree fails F [])
      else (case namei F kernel_links (if is_abs path then [] else fs_cwd F) (butlast es) of
          Found d \<Rightarrow>
            (case stuck_entries fails F (d @ [last es]) of
               [] \<Rightarrow> None
             | q # _ \<Rightarrow> failed (str_join ''/'' (path # drop (Suc (length d)) q)) (case fails q of Some e \<Rightarrow> e | None \<Rightarrow> Busy),
             remove_tree fails F (d @ [last es]))
        | Absent _ _ \<Rightarrow> (None, F)
        | Failed e \<Rightarrow> if e = NotExist then (None, F) else (failed path e, F)))"

definition skill_delete ::
  "(string \<Rightarrow> string) \<Rightarrow> string + string \<Rightarrow> (string list \<Rightarrow> fs_error option) \<Rightarrow> string \<Rightarrow> string \<Rightarrow> fs \<Rightarrow> (string + string) \<times> fs" where
  "skill_delete q home fails dir_flag name F =
     (if name \<noteq> path_base name \<or> name = dot \<or> name = dotdot then (Inl (''invalid skill name: '' @ q name), F)
      else (case (if dir_flag = [] then skills_home home else Inr dir_flag) of
          Inl e \<Rightarrow> (Inl e, F)
        | Inr dir \<Rightarrow>
            (let skill_path = path_join [dir, name] in
             if stat_dir F (path_join [skill_path, ''skill.yaml'']) = None \<and> stat_dir F (path_join [skill_path, ''SKILL.md'']) = None
             then (Inl (''skill '' @ q name @ '' not found in '' @ dir @ '' (no skill.yaml or SKILL.md)''), F)
             else (case os_remove_all fails F skill_path of
                 (Some e, F1) \<Rightarrow> (Inl (''failed to delete skill: '' @ path_error_text e), F1)
               | (None, F1) \<Rightarrow> (Inr (''Deleted skill '' @ q name @ '' from '' @ dir @ [CHR 0x0A]), F1)))))"

subsection \<open>Names and paths\<close>

lemma path_base_cases: "path_base s = dot \<or> path_base s = ''/'' \<or> CHR ''/'' \<notin> set (path_base s) \<and> path_base s \<noteq> []"
proof -
  let ?q = "trim_right_set {CHR ''/''} s"
  have "CHR ''/'' \<notin> set (last (split_on (CHR ''/'') ?q))"
    using split_on_free [of "last (split_on (CHR ''/'') ?q)" "CHR ''/''" ?q] by simp
  moreover have "last (split_on (CHR ''/'') ?q) \<noteq> []" if "?q \<noteq> []"
  proof
    assume e: "last (split_on (CHR ''/'') ?q) = []"
    have "str_join ''/'' (split_on (CHR ''/'') ?q) = ?q" by simp
    moreover have "split_on (CHR ''/'') ?q = butlast (split_on (CHR ''/'') ?q) @ [[]]"
      using e by (metis append_butlast_last_id split_on_not_Nil)
    ultimately have q: "str_join ''/'' (butlast (split_on (CHR ''/'') ?q) @ [[]]) = ?q" by simp
    have "\<exists>b. ?q = b @ ''/''"
    proof (cases "butlast (split_on (CHR ''/'') ?q) = []")
      case True
      with q that show ?thesis by simp
    next
      case False
      with q show ?thesis unfolding join_snoc by (metis append_Nil2)
    qed
    then have "last ?q = CHR ''/''" by (metis last_snoc)
    moreover have "last ?q = hd (dropWhile (\<lambda>c. c \<in> {CHR ''/''}) (rev s))"
      by (simp add: trim_right_set_def last_rev)
    moreover have "dropWhile (\<lambda>c. c \<in> {CHR ''/''}) (rev s) \<noteq> []" using that by (auto simp: trim_right_set_def)
    ultimately show False using hd_dropWhile [of "\<lambda>c. c \<in> {CHR ''/''}" "rev s"] by simp
  qed
  ultimately show ?thesis by (auto simp: path_base_def Let_def)
qed

lemma path_base_free: "CHR ''/'' \<notin> set s \<Longrightarrow> s \<noteq> [] \<Longrightarrow> path_base s = s"
proof -
  assume s: "CHR ''/'' \<notin> set s" "s \<noteq> []"
  then have "trim_right_set {CHR ''/''} s = s"
    by (cases s rule: rev_cases) (auto simp: trim_right_set_def)
  with s show ?thesis by (simp add: path_base_def split_on_notin)
qed

lemma path_base_idem [simp]: "path_base (path_base s) = path_base s"
proof -
  have "path_base dot = dot" "path_base ''/'' = ''/''" by code_simp+
  with path_base_cases [of s] path_base_free [of "path_base s"] show ?thesis by metis
qed

lemma base_name_ok: "name = path_base name \<Longrightarrow> name \<noteq> dot \<Longrightarrow> name \<noteq> dotdot \<Longrightarrow> name \<noteq> ''/'' \<Longrightarrow> name_ok name"
  using path_base_cases [of name] by (auto simp: name_ok_def elem_ok_def)

lemma stat_node:
  assumes "fs_wf F" "no_links F" "list_all name_ok xs" "stat_dir F (path_string xs) \<noteq> None"
  shows "node_at F xs \<noteq> None"
proof -
  from assms(4) obtain p where p: "resolve F kernel_links (path_string xs) = Found p"
    by (auto simp: stat_dir_def split: walk.splits)
  with resolve_lexical [OF assms(1,2), of kernel_links "path_string xs"] assms(3) have "p = xs"
    by (simp add: abs_elems_string)
  moreover have "walk_end_ok F (Found p)"
    using namei_end [OF assms(1), of "[]" kernel_links] p by (metis is_abs_path_string node_at_Nil path_string_not_Nil resolve_def)
  ultimately show ?thesis by auto
qed

lemma fs_wf_parents:
  assumes "fs_wf F" "node_at F (p @ q) \<noteq> None" "q \<noteq> []"
  shows "node_at F p = Some DirNode"
  using assms(2,3)
proof (induction q rule: rev_induct)
  case (snoc x xs)
  then have "node_at F (p @ xs) = Some DirNode"
    using fs_wf_node [OF assms(1), of "p @ xs @ [x]"] by (auto simp: butlast_append)
  with snoc.IH show ?case by (cases "xs = []") auto
qed simp

subsection \<open>Loading what was discovered\<close>

text \<open>
  C30. A discovered skill is loaded. A skill found in the file \<open>f\<close> below the skills directory, and so
  listed in the summary, whose name is the name of its directory (not "." or ".."), is what the tool load_skill answers
  for that name: exactly the text of \<open>f\<close>. Two conditions, both needed: no other SKILL.md of the walk
  lies in a directory of that name (the first one would be shown), and the path dir/name/SKILL.md,
  which is tried first, is \<open>f\<close> itself or cannot be read (it could otherwise lead through a link to a
  file the walk does not see). A name from the frontmatter that differs from the directory is listed
  all the same and not found (\<open>renamed_skill_not_found\<close>).
\<close>

theorem discovered_skill_loads:
  assumes "m \<in> set (discover yaml F dir)" "f \<in> set (skill_files F dir)" "m \<in> set (skill_at yaml F f)"
    and "sm_name m = path_base (path_dir f)" "sm_name m \<notin> {dot, dotdot}"
    and "\<forall>p \<in> set (skill_files F dir). path_base (path_dir p) = sm_name m \<longrightarrow> p = f"
    and "path_join [dir, sm_name m, ''SKILL.md''] = f \<or> is_err (os_read_file F (path_join [dir, sm_name m, ''SKILL.md'']))"
  shows "sm_dir m = path_dir f \<and> (\<exists>content. os_read_file F f = Inr content
    \<and> load_skill_execute q dir [(''name'', JStr (sm_name m))] F
      = tool_ok (''=== SKILL: '' @ sm_name m @ '' ==='' @ [CHR 0x0A] @ content))"
proof
  let ?name = "sm_name m" and ?direct = "path_join [dir, sm_name m, ''SKILL.md'']"
  show "sm_dir m = path_dir f" using assms(3) by (cases "parse_frontmatter F f") (simp_all add: skill_at_def Let_def)
  have "path_base (path_dir f) \<noteq> []" using path_base_cases [of "path_dir f"] by (auto simp: dot_def)
  then have name: "?name \<noteq> []" "path_base ?name = ?name" "?name \<noteq> dot" "?name \<noteq> dotdot"
    using assms(5) by (simp_all add: assms(4) del: path_base_idem, simp)
  obtain content where content: "os_read_file F f = Inr content"
    using assms(3) by (cases "os_read_file F f") (simp_all add: skill_at_def parse_frontmatter_def)
  obtain p ps where first: "filter (\<lambda>p. path_base (path_dir p) = ?name) (skill_files F dir) = p # ps"
    using assms(2,4) by (cases "filter (\<lambda>p. path_base (path_dir p) = ?name) (skill_files F dir)")
      (auto simp: filter_empty_conv)
  then have "p \<in> set (filter (\<lambda>p. path_base (path_dir p) = ?name) (skill_files F dir))" by simp
  then have p: "p = f" using assms(6) by simp
  have "load_skill_execute q dir [(''name'', JStr ?name)] F =
      (case os_read_file F ?direct of
         Inr c \<Rightarrow> tool_ok (''=== SKILL: '' @ ?name @ '' ==='' @ [CHR 0x0A] @ c)
       | Inl _ \<Rightarrow> tool_ok (''=== SKILL: '' @ ?name @ '' ==='' @ [CHR 0x0A] @ content))"
    using name content
    by (simp add: load_skill_execute_def str_or_empty_def get_str_def load_content_def first p split: sum.splits)
  then have "load_skill_execute q dir [(''name'', JStr ?name)] F
      = tool_ok (''=== SKILL: '' @ ?name @ '' ==='' @ [CHR 0x0A] @ content)"
    using assms(7) content by (cases "os_read_file F ?direct") auto
  with content show "\<exists>content. os_read_file F f = Inr content
    \<and> load_skill_execute q dir [(''name'', JStr ?name)] F
      = tool_ok (''=== SKILL: '' @ ?name @ '' ==='' @ [CHR 0x0A] @ content)" by blast
qed

definition skills_fs :: fs where
  "skills_fs = \<lparr>fs_nodes =
     [([''s''], DirNode), ([''s'', ''SKILL.md''], FileNode ''notes''), ([''s'', ''..data''], DirNode),
      ([''s'', ''hr''], DirNode), ([''s'', ''hr'', ''cv''], DirNode),
      ([''s'', ''hr'', ''cv'', ''SKILL.md''], FileNode (''---'' @ nl @ ''name: cv'' @ nl @ ''description: screens'' @ nl @ ''---'' @ nl @ ''Read it.'')),
      ([''s'', ''old''], DirNode),
      ([''s'', ''old'', ''SKILL.md''], FileNode (''---'' @ nl @ ''name: new'' @ nl @ ''---''))],
     fs_cwd = []\<rparr>"

lemma skills_demo:
  "skill_files skills_fs ''/s'' = [''/s/SKILL.md'', ''/s/hr/cv/SKILL.md'', ''/s/old/SKILL.md'']"
  "discover (\<lambda>_. None) skills_fs ''/s'' =
     [\<lparr>sm_name = ''cv'', sm_description = ''screens'', sm_dir = ''/s/hr/cv''\<rparr>, \<lparr>sm_name = ''new'', sm_description = [], sm_dir = ''/s/old''\<rparr>]"
  by code_simp+

text \<open>The skill of another name than its directory: the summary names it, the tool does not find it.\<close>

lemma renamed_skill_not_found:
  "load_skill_execute (\<lambda>s. s) ''/s'' [(''name'', JStr ''new'')] skills_fs
     = tool_errorf (''skill '' @ [CHR 0x27] @ ''new'' @ [CHR 0x27] @ '' not found'')"
  by code_simp

theorem discovered_skill_loads_witness:
  "load_skill_execute (\<lambda>s. s) ''/s'' [(''name'', JStr ''cv'')] skills_fs
     = tool_ok (''=== SKILL: '' @ ''cv'' @ '' ==='' @ [CHR 0x0A] @
         (''---'' @ nl @ ''name: cv'' @ nl @ ''description: screens'' @ nl @ ''---'' @ nl @ ''Read it.''))"
proof -
  let ?m = "\<lparr>sm_name = ''cv'', sm_description = ''screens'', sm_dir = ''/s/hr/cv''\<rparr>" and ?f = "''/s/hr/cv/SKILL.md''"
  have "skill_at (\<lambda>_. None) skills_fs ?f = [?m]" by code_simp
  then have at: "?m \<in> set (skill_at (\<lambda>_. None) skills_fs ?f)" by simp
  have in_files: "?m \<in> set (discover (\<lambda>_. None) skills_fs ''/s'')" "?f \<in> set (skill_files skills_fs ''/s'')"
    by (simp_all add: skills_demo)
  have named: "sm_name ?m = path_base (path_dir ?f)" "sm_name ?m \<notin> {dot, dotdot}" by code_simp+
  have "list_all (\<lambda>p. path_base (path_dir p) \<noteq> ''cv'' \<or> p = ?f) [''/s/SKILL.md'', ''/s/hr/cv/SKILL.md'', ''/s/old/SKILL.md'']"
    by code_simp
  then have only: "\<forall>p \<in> set (skill_files skills_fs ''/s''). path_base (path_dir p) = sm_name ?m \<longrightarrow> p = ?f"
    unfolding skills_demo list_all_iff by auto
  have "is_err (os_read_file skills_fs (path_join [''/s'', ''cv'', ''SKILL.md'']))" by code_simp
  then have direct: "path_join [''/s'', sm_name ?m, ''SKILL.md''] = ?f
      \<or> is_err (os_read_file skills_fs (path_join [''/s'', sm_name ?m, ''SKILL.md'']))" by simp
  have "os_read_file skills_fs ?f = Inr (''---'' @ nl @ ''name: cv'' @ nl @ ''description: screens'' @ nl @ ''---'' @ nl @ ''Read it.'')"
    by code_simp
  with discovered_skill_loads [OF in_files at named only direct, of "\<lambda>s. s"] show ?thesis by simp
qed

subsection \<open>Deleting a skill\<close>

text \<open>
  "/" is its own base name, and joined to the directory it is the directory: a skill that lies
  directly in the skills directory lets the command delete all of them.
\<close>

lemma delete_slash_deletes_all:
  "snd (skill_delete (\<lambda>s. s) (Inl []) (\<lambda>_. None) ''/s'' ''/'' skills_fs) = \<lparr>fs_nodes = [], fs_cwd = []\<rparr>"
  by code_simp

lemma remove_all_names:
  assumes "fs_wf F" "node_at F D = Some DirNode" "name_ok name" "list_all name_ok D"
  shows "snd (os_remove_all fails F (path_string (D @ [name]))) = remove_tree fails F (D @ [name])"
    "fst (os_remove_all fails F (path_string (D @ [name]))) = None \<longleftrightarrow> stuck_entries fails F (D @ [name]) = []"
proof -
  let ?path = "path_string (D @ [name])"
  have ok: "list_all name_ok (D @ [name])" using assms by simp
  have join: "str_join ''/'' (D @ [name]) = (if D = [] then name else str_join ''/'' D @ ''/'' @ name)" by (rule join_snoc)
  have name: "name \<noteq> []" "CHR ''/'' \<notin> set name" "name \<noteq> dot" using assms(3) by (auto simp: name_ok_def elem_ok_def)
  then have "last name \<noteq> CHR ''/''" using last_in_set by metis
  then have l: "last ?path \<noteq> CHR ''/''" using name join by (simp add: path_string_def)
  have "trim_right_set {CHR ''/''} ?path = ?path"
  proof -
    obtain u v where uv: "?path = u @ [v]" by (metis path_string_not_Nil rev_exhaust)
    then have "v \<noteq> CHR ''/''" using l by simp
    then show ?thesis by (simp add: uv trim_right_set_def)
  qed
  moreover have "split_on (CHR ''/'') ?path = [] # D @ [name]"
    using ok by (auto simp: path_string_def split_on_join list_all_iff name_ok_def elem_ok_def)
  moreover have "namei F kernel_links [] ([] # D) = Found D"
    using namei_down [OF assms(1), of "[]" D kernel_links "[]"] assms(2) by (simp add: namei_skip)
  ultimately show "snd (os_remove_all fails F ?path) = remove_tree fails F (D @ [name])"
    "fst (os_remove_all fails F ?path) = None \<longleftrightarrow> stuck_entries fails F (D @ [name]) = []"
    using name by (simp_all add: os_remove_all_def Let_def split: list.splits)
qed

lemma remove_tree_all: "stuck_entries fails F p = [] \<Longrightarrow> remove_tree fails F p = F\<lparr>fs_nodes := filter (\<lambda>(q, n). \<not> prefix p q) (fs_nodes F)\<rparr>"
  by (simp add: remove_tree_def)

lemma stuck_entry: "stuck_entries fails F p \<noteq> [] \<longleftrightarrow> (\<exists>q n. (q, n) \<in> set (fs_nodes F) \<and> prefix p q \<and> fails q \<noteq> None)"
  by (force simp: stuck_entries_def filter_empty_conv)

lemma remove_tree_stuck: "remove_tree fails F p = F\<lparr>fs_nodes := filter
    (\<lambda>(q, n). prefix p q \<longrightarrow> (\<exists>r k. (r, k) \<in> set (fs_nodes F) \<and> prefix q r \<and> fails r \<noteq> None)) (fs_nodes F)\<rparr>"
proof -
  have "(\<not> prefix p q \<or> list_ex (prefix q) (stuck_entries fails F p))
      = (prefix p q \<longrightarrow> (\<exists>r k. (r, k) \<in> set (fs_nodes F) \<and> prefix q r \<and> fails r \<noteq> None))" for q
  proof (cases "prefix p q")
    case True
    then have "prefix p r" if "prefix q r" for r using that by (rule prefix_order.trans)
    then show ?thesis by (fastforce simp: stuck_entries_def list_ex_iff)
  qed simp
  then show ?thesis by (simp only: remove_tree_def)
qed

text \<open>
  C31. The command skill delete removes one skill. For a skills directory given by its absolute
  path and not the root, no symbolic links and a name other than "/" (which deletes the whole directory, see
  \<open>delete_slash_deletes_all\<close>): on success the name is a plain name, a file skill.yaml or SKILL.md was
  there, no entry below the directory of that name resisted removal, and exactly that directory is
  gone with all below it. On an error the disk is unchanged, or the removal itself failed because of
  such an entry: then everything outside the directory of that name is untouched, and below it just
  the entries that could not be removed and the directories above them are left.
\<close>

theorem skill_delete_removes_one:
  assumes "fs_wf F" "no_links F" "list_all name_ok D" "D \<noteq> []" "name \<noteq> ''/''"
  shows "let stuck = (\<lambda>p. \<exists>q n. (q, n) \<in> set (fs_nodes F) \<and> prefix p q \<and> fails q \<noteq> None);
      skill_there = (name_ok name
        \<and> (node_at F (D @ [name, ''skill.yaml'']) \<noteq> None \<or> node_at F (D @ [name, ''SKILL.md'']) \<noteq> None)) in
    case skill_delete q home fails (path_string D) name F of
      (Inr out, F1) \<Rightarrow> skill_there \<and> \<not> stuck (D @ [name])
        \<and> F1 = F\<lparr>fs_nodes := filter (\<lambda>(p, n). \<not> prefix (D @ [name]) p) (fs_nodes F)\<rparr>
    | (Inl e, F1) \<Rightarrow> F1 = F \<or> skill_there \<and> stuck (D @ [name])
        \<and> F1 = F\<lparr>fs_nodes := filter (\<lambda>(p, n). prefix (D @ [name]) p \<longrightarrow> stuck p) (fs_nodes F)\<rparr>"
proof (cases "name \<noteq> path_base name \<or> name = dot \<or> name = dotdot")
  case True
  then show ?thesis by (auto simp: skill_delete_def)
next
  case False
  then have name: "name_ok name" using base_name_ok assms(5) by blast
  let ?sp = "path_string (D @ [name])"
  have files: "name_ok ''skill.yaml''" "name_ok ''SKILL.md''" by code_simp+
  have join: "path_join [path_string D, name] = ?sp"
    "path_join [?sp, ''skill.yaml''] = path_string (D @ [name, ''skill.yaml''])"
    "path_join [?sp, ''SKILL.md''] = path_string (D @ [name, ''SKILL.md''])"
    using path_join_string [of D name] path_join_string [of "D @ [name]"] name assms(3) files by simp_all
  show ?thesis
  proof (cases "stat_dir F (path_string (D @ [name, ''skill.yaml''])) = None
      \<and> stat_dir F (path_string (D @ [name, ''SKILL.md''])) = None")
    case True
    with False show ?thesis by (auto simp: skill_delete_def join Let_def)
  next
    case some: False
    have there: "node_at F (D @ [name, ''skill.yaml'']) \<noteq> None \<or> node_at F (D @ [name, ''SKILL.md'']) \<noteq> None"
      using some stat_node [OF assms(1,2)] name assms(3) files by auto
    then have "node_at F D = Some DirNode" using fs_wf_parents [OF assms(1)] by blast
    note removed = remove_all_names [OF assms(1) this name assms(3), of fails]
    have e: "skill_delete q home fails (path_string D) name F =
        (case os_remove_all fails F ?sp of
           (Some e, F1) \<Rightarrow> (Inl (''failed to delete skill: '' @ path_error_text e), F1)
         | (None, F1) \<Rightarrow> (Inr (''Deleted skill '' @ q name @ '' from '' @ path_string D @ [CHR 0x0A]), F1))"
      using False some by (auto simp: skill_delete_def join Let_def)
    show ?thesis
    proof (cases "stuck_entries fails F (D @ [name]) = []")
      case True
      then have "os_remove_all fails F ?sp = (None, F\<lparr>fs_nodes := filter (\<lambda>(p, n). \<not> prefix (D @ [name]) p) (fs_nodes F)\<rparr>)"
        using removed by (simp add: prod_eq_iff remove_tree_all)
      moreover have "\<not> (\<exists>q n. (q, n) \<in> set (fs_nodes F) \<and> prefix (D @ [name]) q \<and> fails q \<noteq> None)"
        using True unfolding stuck_entry [symmetric] by simp
      ultimately show ?thesis using there name unfolding e Let_def by simp
    next
      case False
      then obtain err where "os_remove_all fails F ?sp = (Some err, remove_tree fails F (D @ [name]))"
        using removed by (metis not_None_eq prod.collapse)
      then show ?thesis using there name False unfolding e Let_def stuck_entry remove_tree_stuck by simp
    qed
  qed
qed

theorem skill_delete_removes_one_witness:
  "(case skill_delete (\<lambda>s. s) (Inl []) (\<lambda>_. None) ''/s/hr'' ''cv'' skills_fs of
      (Inl e, F1) \<Rightarrow> False
    | (Inr out, F1) \<Rightarrow> node_at F1 [''s'', ''hr'', ''cv'', ''SKILL.md''] = None \<and> node_at F1 [''s'', ''old'', ''SKILL.md''] \<noteq> None)"
proof -
  have wf: "fs_wf skills_fs" by (simp add: fs_wf_def skills_fs_def node_at_def name_ok_def elem_ok_def dot_def dotdot_def)
  have nl: "no_links skills_fs" by (simp add: no_links_def skills_fs_def)
  have p: "path_string [''s'', ''hr''] = ''/s/hr''" "list_all name_ok [''s'', ''hr'']" "''cv'' \<noteq> ''/''" by code_simp+
  have ok: "\<not> is_err (fst (skill_delete (\<lambda>s. s) (Inl []) (\<lambda>_. None) ''/s/hr'' ''cv'' skills_fs))" by code_simp
  from skill_delete_removes_one [OF wf nl p(2) _ p(3), where q = "\<lambda>s. s" and home = "Inl []" and fails = "\<lambda>_. None"] ok show ?thesis
    by (cases "skill_delete (\<lambda>s. s) (Inl []) (\<lambda>_. None) ''/s/hr'' ''cv'' skills_fs")
      (auto simp: p(1) node_at_def skills_fs_def Let_def split: sum.splits)
qed

text \<open>A file that cannot be removed: the command fails, the file and its directory stay, its sibling is gone.\<close>

lemma delete_partly_fails:
  "(let F = skills_fs\<lparr>fs_nodes := fs_nodes skills_fs @ [([''s'', ''hr'', ''cv'', ''notes''], FileNode [])]\<rparr>;
       (r, F1) = skill_delete (\<lambda>s. s) (Inl []) (\<lambda>p. if p = [''s'', ''hr'', ''cv'', ''notes''] then Some Busy else None) ''/s/hr'' ''cv'' F
    in is_err r \<and> node_at F1 [''s'', ''hr'', ''cv''] = Some DirNode
      \<and> node_at F1 [''s'', ''hr'', ''cv'', ''notes''] = Some (FileNode []) \<and> node_at F1 [''s'', ''hr'', ''cv'', ''SKILL.md''] = None)"
  by code_simp

end
