(* ===== verification/Go_Duration.thy ===== *)
theory Go_Duration
  imports Go_Json
begin

section \<open>time.ParseDuration\<close>

text \<open>
  A duration is its nanoseconds. A fraction is taken exactly, where the library computes in floats
  and so may be off in the last place of a fraction with many digits.
\<close>

definition duration_units :: "(string \<times> nat) list" where
  "duration_units =
     [(''ns'', 1), (''us'', 10 ^ 3), ([CHR 0xC2, CHR 0xB5, CHR ''s''], 10 ^ 3), ([CHR 0xCE, CHR 0xBC, CHR ''s''], 10 ^ 3),
      (''ms'', 10 ^ 6), (''s'', 10 ^ 9), (''m'', 60 * 10 ^ 9), (''h'', 3600 * 10 ^ 9)]"

definition is_digit_char :: "char \<Rightarrow> bool" where
  "is_digit_char c \<longleftrightarrow> CHR ''0'' \<le> c \<and> c \<le> CHR ''9''"

text \<open>One number with its unit: its nanoseconds and the rest.\<close>

definition duration_item :: "string \<Rightarrow> (nat \<times> string) option" where
  "duration_item s =
     (let whole = takeWhile is_digit_char s; s1 = drop (length whole) s;
          frac = (if has_prefix s1 ''.'' then takeWhile is_digit_char (tl s1) else []);
          s2 = (if has_prefix s1 ''.'' then drop (length frac) (tl s1) else s1);
          u = takeWhile (\<lambda>c. c \<noteq> CHR ''.'' \<and> \<not> is_digit_char c) s2;
          v = nat (nat_val whole) in
      if whole = [] \<and> frac = [] then None
      else (case map_of duration_units u of
          None \<Rightarrow> None
        | Some unit \<Rightarrow>
            (let d = v * unit + (nat (nat_val frac) * unit) div 10 ^ length frac in
             if v > 2 ^ 63 \<or> v > 2 ^ 63 div unit \<or> d > 2 ^ 63 then None else Some (d, drop (length u) s2))))"

lemma duration_item_shorter: "duration_item s = Some (d, r) \<Longrightarrow> length r < length s"
proof -
  let ?w = "takeWhile is_digit_char s"
  let ?s1 = "drop (length ?w) s"
  let ?f = "if has_prefix ?s1 ''.'' then takeWhile is_digit_char (tl ?s1) else []"
  let ?s2 = "if has_prefix ?s1 ''.'' then drop (length ?f) (tl ?s1) else ?s1"
  let ?u = "takeWhile (\<lambda>c. c \<noteq> CHR ''.'' \<and> \<not> is_digit_char c) ?s2"
  assume a: "duration_item s = Some (d, r)"
  then have u: "map_of duration_units ?u \<noteq> None" "r = drop (length ?u) ?s2"
    unfolding duration_item_def Let_def by (cases "map_of duration_units ?u"; simp only: option.case if_True if_False split: if_split_asm; simp)+
  have "map_of duration_units [] = None" by code_simp
  with u(1) have "?u \<noteq> []" by metis
  moreover have "length ?u \<le> length ?s2" by (rule length_takeWhile_le)
  ultimately have "length r < length ?s2" unfolding u(2) length_drop using length_greater_0_conv [of ?u] by linarith
  also have "length ?s2 \<le> length s" by (auto simp: has_prefix_def)
  finally show ?thesis .
qed

function duration_items :: "nat \<Rightarrow> string \<Rightarrow> nat option" where
  "duration_items d s =
     (if s = [] then Some d
      else (case duration_item s of
          None \<Rightarrow> None
        | Some (v, r) \<Rightarrow> if d + v > 2 ^ 63 then None else duration_items (d + v) r))"
  by pat_completeness auto
termination
  by (relation "measure (\<lambda>(d, s). length s)") (auto dest: duration_item_shorter)

declare duration_items.simps [simp del]

definition parse_duration :: "string \<Rightarrow> int option" where
  "parse_duration s0 =
     (let neg = has_prefix s0 ''-'';
          s = (if has_prefix s0 ''-'' \<or> has_prefix s0 ''+'' then tl s0 else s0) in
      if s = ''0'' then Some 0
      else if s = [] then None
      else (case duration_items 0 s of
          None \<Rightarrow> None
        | Some d \<Rightarrow> if neg then Some (- int d) else if d > 2 ^ 63 - 1 then None else Some (int d)))"

lemma parse_duration_demo:
  "parse_duration ''1h30m'' = Some (90 * 60 * 10 ^ 9)" "parse_duration ''-1.5s'' = Some (- 1500000000)"
  "parse_duration ''10'' = None" "parse_duration ''.s'' = None" "parse_duration ''2562048h'' = None"
  by code_simp+

end
