(* ===== verification/Mcp_Client.thy ===== *)
theory Mcp_Client
  imports Tool_Loop
begin

section \<open>internal/mcpclient: tools of MCP servers\<close>

text \<open>
  The configuration of the servers (transport.go), the manager that connects to all of them and
  collects their tools (mcpclient.go), and a tool that passes its calls on (tool.go). The MCP
  package is a record of parameters: connect, list the tools, call one, close. The order of the
  variables of an environment is that of its list; log lines are left out.
\<close>

subsection \<open>Servers\<close>

record mcp_server_config =
  ms_name :: string
  ms_transport :: string
  ms_url :: string
  ms_command :: string
  ms_args :: "string list"
  ms_env :: "(string \<times> string) list"

text \<open>A command gets the environment of the process only when variables are added to it; else it inherits it.\<close>

datatype mcp_transport =
    StreamableHttp string
  | CommandStdio string "string list" "string list option"

definition validate_server :: "(string \<Rightarrow> string) \<Rightarrow> mcp_server_config \<Rightarrow> string option" where
  "validate_server q c =
     (if ms_name c = [] then Some ''MCP server: name is required''
      else if ms_transport c = ''streamable_http'' then
        (if ms_url c = [] then Some (''MCP server '' @ q (ms_name c) @ '': url is required for streamable_http transport'') else None)
      else if ms_transport c = ''stdio'' then
        (if ms_command c = [] then Some (''MCP server '' @ q (ms_name c) @ '': command is required for stdio transport'') else None)
      else Some (''MCP server '' @ q (ms_name c) @ '': unsupported transport '' @ q (ms_transport c)
        @ '' (must be '' @ q ''streamable_http'' @ '' or '' @ q ''stdio'' @ '')''))"

definition env_slice :: "(string \<times> string) list \<Rightarrow> string list" where
  "env_slice env = map (\<lambda>(k, v). k @ ''='' @ v) env"

text \<open>\<open>None\<close> is the panic that validation rules out.\<close>

definition new_transport :: "string list \<Rightarrow> mcp_server_config \<Rightarrow> mcp_transport option" where
  "new_transport environ c =
     (if ms_transport c = ''streamable_http'' then Some (StreamableHttp (ms_url c))
      else if ms_transport c = ''stdio''
        then Some (CommandStdio (ms_command c) (ms_args c)
          (if length (ms_env c) > 0 then Some (environ @ env_slice (ms_env c)) else None))
      else None)"

lemma validated_transport: "validate_server q c = None \<Longrightarrow> new_transport environ c \<noteq> None"
  by (auto simp: validate_server_def new_transport_def split: if_splits)

subsection \<open>The manager\<close>

record mcp_tool_info =
  mi_name :: string
  mi_description :: string
  mi_schema :: "args option"

record mcp_result =
  mr_parts :: "string option list"
  mr_is_error :: bool

record ('s, 'w) mcp_lib =
  mcp_connect :: "mcp_transport \<Rightarrow> 'w \<Rightarrow> (string + 's) \<times> 'w"
  mcp_list_tools :: "'s \<Rightarrow> 'w \<Rightarrow> (string + mcp_tool_info list) \<times> 'w"
  mcp_call :: "'s \<Rightarrow> string \<Rightarrow> args \<Rightarrow> 'w \<Rightarrow> (string + mcp_result) \<times> 'w"
  mcp_close :: "'s \<Rightarrow> 'w \<Rightarrow> string option \<times> 'w"

record 's mcp_tool_ref =
  mct_prefix :: string
  mct_name :: string
  mct_desc :: string
  mct_schema :: args
  mct_session :: 's

record 's server_conn =
  sv_name :: string
  sv_session :: 's
  sv_tools :: "'s mcp_tool_ref list"

definition mcp_tool_name :: "'s mcp_tool_ref \<Rightarrow> string" where
  "mcp_tool_name t = mct_prefix t @ ''_'' @ mct_name t"

fun close_manager :: "('s, 'w) mcp_lib \<Rightarrow> 's server_conn list \<Rightarrow> 'w \<Rightarrow> string option \<times> 'w" where
  "close_manager lib [] w = (None, w)"
| "close_manager lib (s # ss) w =
     (let (e, w1) = mcp_close lib (sv_session s) w; (later, w2) = close_manager lib ss w1 in
      (if later \<noteq> None then later else e, w2))"

text \<open>The tools of one server, and the names taken with the server that took them.\<close>

fun add_server_tools ::
  "(string \<Rightarrow> string) \<Rightarrow> string \<Rightarrow> 's \<Rightarrow> mcp_tool_info list \<Rightarrow> (string \<times> string) list \<Rightarrow> 's mcp_tool_ref list \<Rightarrow>
   string + 's mcp_tool_ref list \<times> (string \<times> string) list" where
  "add_server_tools q server s [] names acc = Inr (acc, names)"
| "add_server_tools q server s (t # ts) names acc =
     (let prefixed = server @ ''_'' @ mi_name t in
      case map_of names prefixed of
        Some existing \<Rightarrow> Inl (''MCP tool '' @ q prefixed @ '': already registered (from server '' @ q existing @ '')'')
      | None \<Rightarrow> add_server_tools q server s ts ((prefixed, server) # names)
          (acc @ [\<lparr>mct_prefix = server, mct_name = mi_name t, mct_desc = mi_description t,
             mct_schema = (case mi_schema t of Some sc \<Rightarrow> sc | None \<Rightarrow> [(''type'', JStr ''object'')]),
             mct_session = s\<rparr>]))"

fun connect_servers ::
  "(string \<Rightarrow> string) \<Rightarrow> ('s, 'w) mcp_lib \<Rightarrow> (string \<times> mcp_transport) list \<Rightarrow> 's server_conn list \<Rightarrow> (string \<times> string) list \<Rightarrow>
   'w \<Rightarrow> (string + 's server_conn list) \<times> 'w" where
  "connect_servers q lib [] mgr names w = (Inr mgr, w)"
| "connect_servers q lib ((server, tr) # es) mgr names w =
     (case mcp_connect lib tr w of
        (Inl e, w1) \<Rightarrow> (Inl (''MCP server '' @ q server @ '': failed to connect: '' @ e), snd (close_manager lib mgr w1))
      | (Inr s, w1) \<Rightarrow>
          (let conn = \<lparr>sv_name = server, sv_session = s, sv_tools = []\<rparr> in
           case mcp_list_tools lib s w1 of
             (Inl e, w2) \<Rightarrow> (Inl (''MCP server '' @ q server @ '': failed to list tools: '' @ e),
                 snd (close_manager lib (mgr @ [conn]) w2))
           | (Inr ts, w2) \<Rightarrow>
               (case add_server_tools q server s ts names [] of
                  Inl e \<Rightarrow> (Inl e, snd (close_manager lib (mgr @ [conn]) w2))
                | Inr (refs, names1) \<Rightarrow> connect_servers q lib es (mgr @ [conn\<lparr>sv_tools := refs\<rparr>]) names1 w2)))"

text \<open>All configurations are checked before the first connection.\<close>

fun server_entries ::
  "(string \<Rightarrow> string) \<Rightarrow> string list \<Rightarrow> string list \<Rightarrow> mcp_server_config list \<Rightarrow> string + (string \<times> mcp_transport) list" where
  "server_entries q environ seen [] = Inr []"
| "server_entries q environ seen (c # cs) =
     (case validate_server q c of
        Some e \<Rightarrow> Inl e
      | None \<Rightarrow>
          if ms_name c \<in> set seen then Inl (''MCP server '' @ q (ms_name c) @ '': duplicate name'')
          else bind_res (server_entries q environ (ms_name c # seen) cs)
            (\<lambda>es. Inr ((ms_name c, the (new_transport environ c)) # es)))"

definition new_manager ::
  "(string \<Rightarrow> string) \<Rightarrow> string list \<Rightarrow> ('s, 'w) mcp_lib \<Rightarrow> mcp_server_config list \<Rightarrow> 'w \<Rightarrow> (string + 's server_conn list) \<times> 'w" where
  "new_manager q environ lib configs w =
     (case server_entries q environ [] configs of
        Inl e \<Rightarrow> (Inl e, w)
      | Inr es \<Rightarrow> connect_servers q lib es [] [] w)"

subsection \<open>The tools\<close>

definition convert_result :: "mcp_result \<Rightarrow> tool_result" where
  "convert_result r =
     (let output = str_join nl (concat (map (\<lambda>p. case p of Some t \<Rightarrow> [t] | None \<Rightarrow> []) (mr_parts r))) in
      if mr_is_error r then tool_errorf output else tool_ok output)"

definition mcp_execute :: "('s, 'w) mcp_lib \<Rightarrow> 's mcp_tool_ref \<Rightarrow> args \<Rightarrow> 'w \<Rightarrow> tool_result \<times> 'w" where
  "mcp_execute lib t a w =
     (case mcp_call lib (mct_session t) (mct_name t) a w of
        (Inl e, w1) \<Rightarrow> (tool_errorf (''MCP call failed: '' @ e), w1)
      | (Inr r, w1) \<Rightarrow> (convert_result r, w1))"

definition mcp_tool :: "('s, 'w) mcp_lib \<Rightarrow> 's mcp_tool_ref \<Rightarrow> 'w tool" where
  "mcp_tool lib t = \<lparr>t_name = mcp_tool_name t, t_description = mct_desc t, t_parameters = mct_schema t,
     t_execute = mcp_execute lib t\<rparr>"

definition manager_refs :: "'s server_conn list \<Rightarrow> 's mcp_tool_ref list" where
  "manager_refs mgr = concat (map sv_tools mgr)"

definition manager_tools :: "('s, 'w) mcp_lib \<Rightarrow> 's server_conn list \<Rightarrow> 'w tool list" where
  "manager_tools lib mgr = map (mcp_tool lib) (manager_refs mgr)"

subsection \<open>Sessions are accounted for\<close>

definition open_sessions :: "'s server_conn list \<Rightarrow> 's multiset" where
  "open_sessions mgr = mset (map sv_session mgr)"

text \<open>
  What the package is relied on for: a book of the open sessions can be read off the world, to which
  a connection adds the session it gives, from which a close removes it (also one that reports an
  error), and which nothing else changes.
\<close>

locale session_book =
  fixes lib :: "('s, 'w) mcp_lib" and opened :: "'w \<Rightarrow> 's multiset"
  assumes connect_failed: "mcp_connect lib tr w = (Inl e, w1) \<Longrightarrow> opened w1 = opened w"
    and connect_opens: "mcp_connect lib tr w = (Inr s, w1) \<Longrightarrow> opened w1 = add_mset s (opened w)"
    and list_keeps: "mcp_list_tools lib s w = (r, w1) \<Longrightarrow> opened w1 = opened w"
    and call_keeps: "mcp_call lib s n a w = (c, w1) \<Longrightarrow> opened w1 = opened w"
    and close_closes: "mcp_close lib s w = (z, w1) \<Longrightarrow> opened w1 = opened w - {#s#}"
begin

lemma close_manager_opened: "opened (snd (close_manager lib mgr w)) = opened w - open_sessions mgr"
proof (induction mgr arbitrary: w)
  case (Cons sv mgr)
  obtain z w1 where z: "mcp_close lib (sv_session sv) w = (z, w1)" by fastforce
  show ?case using Cons.IH [of w1] close_closes [OF z]
    by (simp add: z open_sessions_def Let_def case_prod_beta)
qed (simp add: open_sessions_def)

lemma connect_servers_opened:
  assumes "connect_servers q lib es mgr names w = (r, w1)" "opened w = op + open_sessions mgr"
  shows "opened w1 = (case r of Inl e \<Rightarrow> op | Inr mgr1 \<Rightarrow> op + open_sessions mgr1)"
  using assms
proof (induction es arbitrary: mgr names w)
  case (Cons entry es)
  obtain server tr c w2 where entry: "entry = (server, tr)" and c: "mcp_connect lib tr w = (c, w2)" by fastforce
  show ?case
  proof (cases c)
    case (Inl e)
    with Cons.prems c connect_failed [of tr w e w2] show ?thesis
      by (auto simp: entry close_manager_opened)
  next
    case (Inr s)
    let ?conn = "\<lparr>sv_name = server, sv_session = s, sv_tools = []\<rparr>"
    obtain l w3 where l: "mcp_list_tools lib s w2 = (l, w3)" by fastforce
    have w3: "opened w3 = op + open_sessions (mgr @ [?conn\<lparr>sv_tools := ts\<rparr>])" for ts
      using connect_opens [of tr w s w2] list_keeps [OF l] c Inr Cons.prems(2) by (simp add: open_sessions_def)
    from w3 [of "[]"] have "opened (snd (close_manager lib (mgr @ [?conn]) w3)) = op"
      by (simp add: close_manager_opened)
    with Cons.prems(1) c Inr l Cons.IH [OF _ w3] show ?thesis
      by (auto simp: entry Let_def split: sum.splits prod.splits)
  qed
qed auto

lemma new_manager_opened:
  assumes "new_manager q environ lib configs w = (r, w1)"
  shows "opened w1 = (case r of Inl e \<Rightarrow> opened w | Inr mgr \<Rightarrow> opened w + open_sessions mgr)"
proof (cases "server_entries q environ [] configs")
  case (Inr es)
  with assms connect_servers_opened [of q es "[]" "[]" w r w1 "opened w"] show ?thesis
    by (simp add: new_manager_def open_sessions_def)
qed (use assms in \<open>auto simp: new_manager_def\<close>)

end

text \<open>Any package with a book kept beside its world.\<close>

definition booked :: "('s, 'w) mcp_lib \<Rightarrow> ('s, 'w \<times> 's multiset) mcp_lib" where
  "booked lib =
     \<lparr>mcp_connect = (\<lambda>tr (w, op). case mcp_connect lib tr w of
          (Inl e, w1) \<Rightarrow> (Inl e, (w1, op)) | (Inr s, w1) \<Rightarrow> (Inr s, (w1, add_mset s op))),
      mcp_list_tools = (\<lambda>s (w, op). let (r, w1) = mcp_list_tools lib s w in (r, (w1, op))),
      mcp_call = (\<lambda>s n a (w, op). let (r, w1) = mcp_call lib s n a w in (r, (w1, op))),
      mcp_close = (\<lambda>s (w, op). let (e, w1) = mcp_close lib s w in (e, (w1, op - {#s#})))\<rparr>"

interpretation booked_sessions: session_book "booked lib" snd for lib :: "('s, 'w) mcp_lib"
  by unfold_locales (auto simp: booked_def Let_def split: prod.splits sum.splits)

text \<open>Names of tools are unique over all servers.\<close>

lemma add_server_tools_names:
  "add_server_tools q server s ts names acc = Inr (refs, names1) \<Longrightarrow> distinct (map fst names) \<Longrightarrow>
   distinct (map fst names1) \<and> (\<exists>new. refs = acc @ new \<and> mset (map fst names1) = mset (map fst names) + mset (map mcp_tool_name new))"
proof (induction ts arbitrary: names acc)
  case (Cons t ts)
  let ?ref = "\<lparr>mct_prefix = server, mct_name = mi_name t, mct_desc = mi_description t,
     mct_schema = (case mi_schema t of Some sc \<Rightarrow> sc | None \<Rightarrow> [(''type'', JStr ''object'')]), mct_session = s\<rparr>"
  have free: "map_of names (server @ ''_'' @ mi_name t) = None"
    using Cons.prems(1) by (cases "map_of names (server @ ''_'' @ mi_name t)") (simp_all add: Let_def)
  then have "distinct (map fst ((server @ ''_'' @ mi_name t, server) # names))"
    using Cons.prems(2) by (simp add: map_of_eq_None_iff)
  from Cons.IH [OF _ this] Cons.prems(1) free obtain new where
    "distinct (map fst names1)" "refs = acc @ ?ref # new"
    "mset (map fst names1) = mset (map fst names) + mset (map mcp_tool_name (?ref # new))"
    by (fastforce simp: Let_def mcp_tool_name_def)
  then show ?case by blast
qed auto

lemma connect_servers_names:
  "connect_servers q lib es mgr names w = (Inr mgr1, w1) \<Longrightarrow> distinct (map fst names) \<Longrightarrow>
   mset (map fst names) = mset (map mcp_tool_name (manager_refs mgr)) \<Longrightarrow> distinct (map mcp_tool_name (manager_refs mgr1))"
proof (induction es arbitrary: mgr names w)
  case Nil
  then show ?case by (metis Pair_inject connect_servers.simps(1) mset_eq_imp_distinct_iff sum.inject(2))
next
  case (Cons entry es)
  obtain server tr where entry: "entry = (server, tr)" by fastforce
  from Cons.prems(1) obtain s w2 ts w3 refs names1 where
    s: "mcp_connect lib tr w = (Inr s, w2)" "mcp_list_tools lib s w2 = (Inr ts, w3)"
    "add_server_tools q server s ts names [] = Inr (refs, names1)"
    "connect_servers q lib es (mgr @ [\<lparr>sv_name = server, sv_session = s, sv_tools = refs\<rparr>]) names1 w3 = (Inr mgr1, w1)"
    by (auto simp: entry Let_def split: prod.splits sum.splits)
  from add_server_tools_names [OF s(3) Cons.prems(2)] Cons.prems(3)
  have "distinct (map fst names1)" "mset (map fst names1) =
      mset (map mcp_tool_name (manager_refs (mgr @ [\<lparr>sv_name = server, sv_session = s, sv_tools = refs\<rparr>])))"
    by (auto simp: manager_refs_def)
  with Cons.IH [OF s(4)] show ?case by blast
qed

lemma manager_names_distinct:
  "new_manager q environ lib configs w = (Inr mgr, w1) \<Longrightarrow> distinct (map mcp_tool_name (manager_refs mgr))"
  using connect_servers_names [of q lib _ "[]" "[]" w mgr w1]
  by (auto simp: new_manager_def manager_refs_def split: sum.splits)

end
