(* ===== verification/Rag_Search.thy ===== *)
theory Rag_Search
  imports Go_Http Go_Url Go_Json_Text Workspace_Tools
begin

section \<open>pkg/rag and internal/ragsearch: search in the document store\<close>

text \<open>
  The configuration with its defaults, the Weaviate client with its GraphQL query and the reading
  of its answer, and the tool rag_search. Distances and scores are rational numbers where the code
  has floats. \<open>post\<close> is the HTTP client, \<open>ft\<close> the text of a JSON number, \<open>show2\<close> the verb %.2f, \<open>huge\<close>
  what the conversion of a number beyond int gives (the language leaves it open).
\<close>

record rag_config =
  rg_backend :: string
  rg_url :: string
  rg_collection :: string
  rg_text_field :: string
  rg_default_limit :: int
  rg_max_limit :: int

definition apply_rag_defaults :: "rag_config \<Rightarrow> rag_config" where
  "apply_rag_defaults c =
     c\<lparr>rg_text_field := (if rg_text_field c = [] then ''content'' else rg_text_field c),
       rg_default_limit := (if rg_default_limit c \<le> 0 then 5 else rg_default_limit c),
       rg_max_limit := (if rg_max_limit c \<le> 0 then 20 else rg_max_limit c)\<rparr>"

record weaviate =
  wv_base_url :: string
  wv_collection :: string
  wv_text_field :: string

definition new_weaviate_client :: "string \<Rightarrow> string \<Rightarrow> string \<Rightarrow> string + weaviate" where
  "new_weaviate_client base collection text_field =
     (let base1 = trim_right_set {CHR ''/''} base in
      if base1 = [] then Inl ''weaviate: base URL is required''
      else if collection = [] then Inl ''weaviate: collection is required''
      else Inr \<lparr>wv_base_url = base1, wv_collection = collection, wv_text_field = text_field\<rparr>)"

text \<open>\<open>NewClient\<close> fills in the defaults of the configuration it is given: they are its second result.\<close>

definition new_rag_client :: "(string \<Rightarrow> string) \<Rightarrow> rag_config \<Rightarrow> (string + weaviate) \<times> rag_config" where
  "new_rag_client q cfg =
     (if rg_backend cfg = [] then (Inl (''rag: backend is required (e.g. '' @ q ''weaviate'' @ '')''), cfg)
      else let c = apply_rag_defaults cfg in
        (if rg_backend c = ''weaviate'' then new_weaviate_client (rg_url c) (rg_collection c) (rg_text_field c)
         else Inl (''unsupported RAG backend: '' @ q (rg_backend c)), c))"

subsection \<open>A search\<close>

definition quote_graphql :: "string \<Rightarrow> string" where
  "quote_graphql s = json_quote s"

definition graphql_before :: "weaviate \<Rightarrow> string" where
  "graphql_before v = ''{ Get { '' @ wv_collection v @ ''(nearText: {concepts: [''"

definition graphql_after :: "weaviate \<Rightarrow> int \<Rightarrow> string" where
  "graphql_after v limit = '']}, limit: '' @ itoa limit @ '') { '' @ wv_text_field v @ '' _additional { id distance } } } }''"

definition graphql_query :: "weaviate \<Rightarrow> string \<Rightarrow> int \<Rightarrow> string" where
  "graphql_query v query limit = graphql_before v @ quote_graphql query @ graphql_after v limit"

record rag_chunk =
  ck_id :: string
  ck_text :: string
  ck_score :: rat

record graphql_response =
  gr_data :: args
  gr_errors :: "string list"

definition graphql_error_field :: "string \<Rightarrow> json \<Rightarrow> string \<Rightarrow> string option" where
  "graphql_error_field k v s = (if field_is k ''message'' then string_field v (\<lambda>m _. m) s else Some s)"

definition graphql_field :: "string \<Rightarrow> json \<Rightarrow> graphql_response \<Rightarrow> graphql_response option" where
  "graphql_field k v r =
     (if field_is k ''data'' then
        (case v of JObj kvs \<Rightarrow> Some (r\<lparr>gr_data := of_pairs kvs\<rparr>) | JNull \<Rightarrow> Some (r\<lparr>gr_data := []\<rparr>) | _ \<Rightarrow> None)
      else if field_is k ''errors'' then map_option (\<lambda>es. r\<lparr>gr_errors := es\<rparr>) (struct_list graphql_error_field [] v)
      else Some r)"

definition decode_graphql :: "string \<Rightarrow> graphql_response option" where
  "decode_graphql body = Option.bind (json_parse body) (struct_of graphql_field \<lparr>gr_data = [], gr_errors = []\<rparr>)"

definition parse_chunk :: "weaviate \<Rightarrow> json \<Rightarrow> rag_chunk list" where
  "parse_chunk v item =
     (case item of
        JObj obj \<Rightarrow>
          (let additional = (case map_of obj ''_additional'' of Some (JObj a) \<Rightarrow> a | _ \<Rightarrow> []) in
           case map_of additional ''distance'' of
             Some (JNum d) \<Rightarrow> [\<lparr>ck_id = str_or_empty ''id'' additional,
               ck_text = str_or_empty (wv_text_field v) obj, ck_score = 1 - d\<rparr>]
           | _ \<Rightarrow> [])
      | _ \<Rightarrow> [])"

definition parse_chunks :: "weaviate \<Rightarrow> args \<Rightarrow> string + rag_chunk list" where
  "parse_chunks v data =
     (case map_of data ''Get'' of
        Some (JObj got) \<Rightarrow>
          (case map_of got (wv_collection v) of
             Some (JArr items) \<Rightarrow> Inr (concat (map (parse_chunk v) items))
           | _ \<Rightarrow> Inr [])
      | _ \<Rightarrow> Inl (''weaviate: unexpected response: missing '' @ [CHR 0x27] @ ''Get'' @ [CHR 0x27] @ '' key''))"

record 'w rag_env =
  rv_post :: "string \<Rightarrow> headers \<Rightarrow> string \<Rightarrow> 'w \<Rightarrow> http_result \<times> 'w"
  rv_number :: "rat \<Rightarrow> string"
  rv_show2 :: "rat \<Rightarrow> string"
  rv_huge :: int
  rv_url_error :: "string \<Rightarrow> string"
  rv_decode_error :: "string \<Rightarrow> string"

definition http_status :: "http_result \<Rightarrow> int" where
  "http_status r = (case r of HttpReply st _ _ \<Rightarrow> st | HttpBroken st _ _ _ \<Rightarrow> st | HttpFailed _ \<Rightarrow> 0)"

definition read_answer :: "'w rag_env \<Rightarrow> weaviate \<Rightarrow> int \<Rightarrow> string \<Rightarrow> string + rag_chunk list" where
  "read_answer env v st body =
     (if st \<noteq> 200 then Inl (''weaviate: HTTP '' @ itoa st @ '': '' @ body)
      else (case decode_graphql body of
          None \<Rightarrow> Inl (''weaviate: decode response: '' @ rv_decode_error env body)
        | Some r \<Rightarrow>
            if length (gr_errors r) > 0 then Inl (''weaviate graphql: '' @ str_join ''; '' (gr_errors r))
            else parse_chunks v (gr_data r)))"

definition search_body :: "'w rag_env \<Rightarrow> weaviate \<Rightarrow> string \<Rightarrow> int \<Rightarrow> string" where
  "search_body env v query limit = json_lit (rv_number env) (JObj [(''query'', JStr (graphql_query v query limit))])"

definition weaviate_search ::
  "'w rag_env \<Rightarrow> weaviate \<Rightarrow> string \<Rightarrow> int \<Rightarrow> 'w \<Rightarrow> (string + rag_chunk list) \<times> 'w" where
  "weaviate_search env v query limit w =
     (let url = wv_base_url v @ ''/v1/graphql'' in
      if url_parse url = None then (Inl (''weaviate: create request: '' @ rv_url_error env url), w)
      else
        (let (r, w1) = rv_post env url (header_set ''Content-Type'' ''application/json'' []) (search_body env v query limit) w in
         (case r of
            HttpFailed e \<Rightarrow> Inl (''weaviate: request failed: '' @ e)
          | _ \<Rightarrow> (case read_limited (2 ^ 20) r of
                Inl e \<Rightarrow> Inl (''weaviate: read response: '' @ e)
              | Inr body \<Rightarrow> read_answer env v (http_status r) body), w1)))"

subsection \<open>The tool\<close>

definition search_limit :: "int \<Rightarrow> rag_config \<Rightarrow> args \<Rightarrow> int" where
  "search_limit huge cfg a =
     (let limit = (case get_num ''limit'' a of
          Some l \<Rightarrow> if l > 0 then (if l < 2 ^ 63 then \<lfloor>l\<rfloor> else huge) else rg_default_limit cfg
        | None \<Rightarrow> rg_default_limit cfg) in
      if limit > rg_max_limit cfg then rg_max_limit cfg else limit)"

definition chunk_lines :: "'w rag_env \<Rightarrow> nat \<Rightarrow> rag_chunk \<Rightarrow> string" where
  "chunk_lines env i c = ''['' @ itoa (int i + 1) @ ''] (score: '' @ rv_show2 env (ck_score c) @ '')'' @ nl @ ck_text c @ nl @ nl"

definition rag_search_execute :: "'w rag_env \<Rightarrow> weaviate \<Rightarrow> rag_config \<Rightarrow> args \<Rightarrow> 'w \<Rightarrow> tool_result \<times> 'w" where
  "rag_search_execute env v cfg a w =
     (let query = trim_space (str_or_empty ''query'' a) in
      if query = [] then (tool_errorf ''query is required'', w)
      else (case weaviate_search env v query (search_limit (rv_huge env) cfg a) w of
          (Inl e, w1) \<Rightarrow> (tool_errorf (''rag search failed: '' @ e), w1)
        | (Inr chunks, w1) \<Rightarrow>
            (if chunks = [] then tool_ok ''No results found for the query.''
             else tool_ok (trim_right_set {CHR 0x0A}
               (concat (map (\<lambda>(i, c). chunk_lines env i c) (enumerate 0 chunks)))), w1)))"

definition rag_search_tool :: "'w rag_env \<Rightarrow> weaviate \<Rightarrow> rag_config \<Rightarrow> 'w tool" where
  "rag_search_tool env v cfg =
     \<lparr>t_name = ''rag_search'',
      t_description = ''Search the document store for chunks semantically related to the query. '' @
        ''Use this when the user'' @ [CHR 0x27] @ ''s question requires information from indexed documents. '' @
        ''Returns the top-k most relevant text chunks.'',
      t_parameters = object_schema
        [string_param ''query'' ''The search query text'',
         (''limit'', JObj [(''type'', JStr ''integer''), (''description'',
            JStr (''Number of chunks to return (default: '' @ itoa (rg_default_limit cfg) @ '', max: '' @ itoa (rg_max_limit cfg) @ '')''))])]
        [''query''],
      t_execute = rag_search_execute env v cfg\<rparr>"

subsection \<open>What is asked of the store\<close>

text \<open>A limit between zero and one is cut to zero, and a huge one need not be large any more.\<close>

lemma small_limit_is_zero: "search_limit huge \<lparr>rg_backend = [], rg_url = [], rg_collection = [], rg_text_field = [],
    rg_default_limit = 5, rg_max_limit = 20\<rparr> [(''limit'', JNum (1 / 2))] = 0"
  by code_simp

lemma search_limit_bounds:
  "search_limit huge (apply_rag_defaults c) a \<le> rg_max_limit (apply_rag_defaults c)"
  "1 \<le> search_limit huge (apply_rag_defaults c) a
    \<or> (\<exists>l. get_num ''limit'' a = Some l \<and> (0 < l \<and> l < 1 \<and> search_limit huge (apply_rag_defaults c) a = 0 \<or> 2 ^ 63 \<le> l))"
proof -
  have d: "0 < rg_default_limit (apply_rag_defaults c)" "0 < rg_max_limit (apply_rag_defaults c)"
    by (simp_all add: apply_rag_defaults_def)
  show "search_limit huge (apply_rag_defaults c) a \<le> rg_max_limit (apply_rag_defaults c)"
    by (simp add: search_limit_def Let_def)
  show "1 \<le> search_limit huge (apply_rag_defaults c) a
    \<or> (\<exists>l. get_num ''limit'' a = Some l \<and> (0 < l \<and> l < 1 \<and> search_limit huge (apply_rag_defaults c) a = 0 \<or> 2 ^ 63 \<le> l))"
  proof (cases "\<exists>l. get_num ''limit'' a = Some l \<and> 0 < l \<and> l < 2 ^ 63")
    case True
    then obtain l where l: "get_num ''limit'' a = Some l" "0 < l" "l < 2 ^ 63" by blast
    show ?thesis
    proof (cases "l < 1")
      case True
      with l(2) have "\<lfloor>l\<rfloor> = 0" by (simp add: floor_eq_iff)
      with l d True show ?thesis by (auto simp: search_limit_def Let_def)
    next
      case False
      with l d show ?thesis by (simp add: search_limit_def Let_def le_floor_iff)
    qed
  qed (use d in \<open>auto simp: search_limit_def Let_def not_less split: option.splits\<close>)
qed

text \<open>
  C32. The model cannot get out of its place in a search. For every query the literal in the
  GraphQL text reads back as the query (with bytes that are no UTF-8 replaced) and is followed by
  the fixed rest of the text, so that the query cannot close it. The number asked for is never above
  the limit of the configuration; it is at least one unless the model gives a limit between 0 and 1,
  which is cut to 0, or one from 2^63 on, which the language may convert to anything, a negative
  number included. A blank query asks nothing.
\<close>

theorem rag_search_contained:
  "let query = trim_space (str_or_empty ''query'' a); cfg = apply_rag_defaults c in
    if query = [] then rag_search_execute env v cfg a w = (tool_errorf ''query is required'', w)
    else \<exists>limit. limit \<le> rg_max_limit cfg
      \<and> (1 \<le> limit \<or> (\<exists>l. get_num ''limit'' a = Some l \<and> (0 < l \<and> l < 1 \<and> limit = 0 \<or> 2 ^ 63 \<le> l)))
      \<and> snd (rag_search_execute env v cfg a w) = snd (weaviate_search env v query limit w)
      \<and> graphql_query v query limit = graphql_before v @ [CHR 0x22] @ tl (quote_graphql query) @ graphql_after v limit
      \<and> read_chars (tl (quote_graphql query) @ graphql_after v limit) = Some (coerce_utf8 query, graphql_after v limit)"
proof (cases "trim_space (str_or_empty ''query'' a) = []")
  case False
  let ?q = "trim_space (str_or_empty ''query'' a)" and ?l = "search_limit (rv_huge env) (apply_rag_defaults c) a"
  have "snd (rag_search_execute env v (apply_rag_defaults c) a w) = snd (weaviate_search env v ?q ?l w)"
    using False by (simp add: rag_search_execute_def Let_def split: prod.splits sum.splits)
  moreover have "graphql_query v ?q ?l = graphql_before v @ [CHR 0x22] @ tl (quote_graphql ?q) @ graphql_after v ?l"
    by (simp add: graphql_query_def quote_graphql_def json_quote_def)
  moreover have "read_chars (tl (quote_graphql ?q) @ graphql_after v ?l) = Some (coerce_utf8 ?q, graphql_after v ?l)"
    by (simp add: quote_graphql_def json_quote_def read_chars_json)
  ultimately show ?thesis using False search_limit_bounds [of "rv_huge env" c a]
    unfolding Let_def if_not_P [OF False] by (intro exI [of _ ?l] conjI)
qed (simp add: rag_search_execute_def Let_def)

definition quoting_args :: args where
  "quoting_args = [(''query'', JStr ('' say '' @ [CHR 0x22] @ ''x''))] @ [(''limit'', JNum 50)]"

theorem rag_search_contained_witness:
  "\<exists>limit. 1 \<le> limit \<and> limit \<le> 20
    \<and> read_chars (tl (quote_graphql (''say '' @ [CHR 0x22] @ ''x'')) @ graphql_after \<lparr>wv_base_url = ''http://s'', wv_collection = ''Docs'', wv_text_field = ''content''\<rparr> limit)
      = Some (''say '' @ [CHR 0x22] @ ''x'', graphql_after \<lparr>wv_base_url = ''http://s'', wv_collection = ''Docs'', wv_text_field = ''content''\<rparr> limit)"
proof -
  let ?v = "\<lparr>wv_base_url = ''http://s'', wv_collection = ''Docs'', wv_text_field = ''content''\<rparr>"
  let ?c = "\<lparr>rg_backend = ''weaviate'', rg_url = ''http://s'', rg_collection = ''Docs'', rg_text_field = [], rg_default_limit = 0, rg_max_limit = 0\<rparr>"
  have q: "trim_space (str_or_empty ''query'' quoting_args) = ''say '' @ [CHR 0x22] @ ''x''"
    "coerce_utf8 (''say '' @ [CHR 0x22] @ ''x'') = ''say '' @ [CHR 0x22] @ ''x''"
    "rg_max_limit (apply_rag_defaults ?c) = 20" "get_num ''limit'' quoting_args = Some 50"
    by code_simp+
  from rag_search_contained [where a = quoting_args and c = ?c and v = ?v and env = undefined and w = "()"] show ?thesis
    by (simp only: q Let_def) auto
qed

end
