(* ===== verification/Settings.thy ===== *)
theory Settings
  imports Llm Go_Json
begin

section \<open>internal/config and loadConfig: the settings of the process\<close>

text \<open>
  viper, which joins flags, environment, file and defaults, is a parameter: the function from the keys that
  \<open>Load\<close> sets by hand to the settings or an error. \<open>env\<close> is \<open>os.Getenv\<close>, which gives the empty string for a
  variable that is not set.
\<close>

record service_config =
  sc_port :: int
  sc_health_port :: int
  sc_host :: string
  sc_plain_http :: bool
  sc_log_level :: string

record otel_config =
  ot_enabled :: bool
  ot_collector :: string
  ot_stdout :: bool

record settings =
  st_service :: service_config
  st_otel :: otel_config
  st_config_dir :: string
  st_skills_dir :: string
  st_workspace :: string
  st_profile :: string
  st_llm :: llm_config
  st_session_db :: string

definition service_addr :: "service_config \<Rightarrow> string" where
  "service_addr c = sc_host c @ '':'' @ itoa (sc_port c)"

definition health_addr :: "service_config \<Rightarrow> string" where
  "health_addr c = sc_host c @ '':'' @ itoa (sc_health_port c)"

text \<open>\<open>strconv.Atoi\<close> on 64-bit integers.\<close>

definition atoi :: "string \<Rightarrow> int option" where
  "atoi s =
     (let neg = has_prefix s ''-''; d = (if neg \<or> has_prefix s ''+'' then tl s else s);
          n = (if neg then - nat_val d else nat_val d) in
      if d = [] \<or> \<not> list_all is_digit d \<or> n < - (2 ^ 63) \<or> n \<ge> 2 ^ 63 then None else Some n)"

subsection \<open>Defaults\<close>

datatype setting = SetText string | SetInt int | SetBool bool

definition set_defaults :: "string \<Rightarrow> (string \<times> setting) list" where
  "set_defaults service =
     (let agent = service \<in> {''summarizer-service'', ''reviewer-service'', ''zt-agent'', ''docsclaw''} in
      [(''service.host'', SetText []), (''service.listen_plain_http'', SetBool True), (''service.log_level'', SetText ''info''),
       (''service.port'', SetInt (if agent then 8000 else 8080)),
       (''service.health_port'', SetInt (if agent then 8100 else 8180)),
       (''otel.enabled'', SetBool False), (''otel.collector_endpoint'', SetText []), (''otel.stdout_exporter'', SetBool False),
       (''storage.enabled'', SetBool False), (''storage.bucket_host'', SetText ''localhost''),
       (''storage.bucket_port'', SetInt 9000), (''storage.bucket_name'', SetText ''documents''),
       (''storage.use_ssl'', SetBool False), (''storage.insecure_tls'', SetBool False),
       (''storage.region'', SetText ''us-east-1'')])"

text \<open>The search path of the configuration file.\<close>

definition config_paths :: "string \<Rightarrow> string list" where
  "config_paths service = [''.'', ''./'' @ service, ''/etc/docsclaw/'']"

subsection \<open>Loading\<close>

text \<open>What \<open>Load\<close> sets by hand: a PORT that is no number is ignored.\<close>

definition set_by_env :: "(string \<Rightarrow> string) \<Rightarrow> (string \<times> setting) list" where
  "set_by_env env =
     (if env ''PORT'' \<noteq> [] then (case atoi (env ''PORT'') of Some p \<Rightarrow> [(''service.port'', SetInt p)] | None \<Rightarrow> []) else [])
     @ (if env ''HOST'' \<noteq> [] then [(''service.host'', SetText (env ''HOST''))] else [])"

record viper =
  vp_read :: "string option"
  vp_unmarshal :: "(string \<times> setting) list \<Rightarrow> string + settings"

text \<open>\<open>vp_read\<close> is the error of reading the file, if there is one and it is not that no file was found.\<close>

definition load_settings :: "(string \<Rightarrow> string) \<Rightarrow> viper \<Rightarrow> string + settings" where
  "load_settings env v =
     (case vp_read v of
        Some e \<Rightarrow> Inl (''failed to read config file: '' @ e)
      | None \<Rightarrow>
          (case vp_unmarshal v (set_by_env env) of
             Inl e \<Rightarrow> Inl (''failed to unmarshal config: '' @ e)
           | Inr cfg \<Rightarrow> Inr cfg))"

definition or_else :: "string \<Rightarrow> string \<Rightarrow> string" where
  "or_else s t = (if s = [] then t else s)"

definition load_config :: "(string \<Rightarrow> string) \<Rightarrow> viper \<Rightarrow> string + settings" where
  "load_config env v =
     (case load_settings env v of
        Inl e \<Rightarrow> Inl (''failed to load config: '' @ e)
      | Inr cfg \<Rightarrow>
          Inr (cfg\<lparr>st_config_dir := or_else (st_config_dir cfg) ''/config/agent'',
            st_llm := (st_llm cfg)
              \<lparr>cfg_provider := or_else (cfg_provider (st_llm cfg)) (env ''LLM_PROVIDER''),
               cfg_api_key := or_else (cfg_api_key (st_llm cfg)) (or_else (env ''LLM_API_KEY'') (env ''ANTHROPIC_API_KEY'')),
               cfg_base_url := or_else (cfg_base_url (st_llm cfg)) (env ''LLM_BASE_URL''),
               cfg_model := or_else (cfg_model (st_llm cfg)) (env ''LLM_MODEL'')\<rparr>\<rparr>))"

subsection \<open>Object storage\<close>

record storage_config =
  so_enabled :: bool
  so_host :: string
  so_port :: int
  so_bucket :: string
  so_use_ssl :: bool
  so_insecure :: bool
  so_region :: string

definition env_bool :: "string \<Rightarrow> bool" where
  "env_bool s \<longleftrightarrow> s = ''true'' \<or> s = ''1''"

definition load_storage_from_env :: "(string \<Rightarrow> string) \<Rightarrow> storage_config \<Rightarrow> storage_config" where
  "load_storage_from_env env cfg =
     (let host = or_else (env ''BUCKET_HOST'') (so_host cfg);
          port = (if env ''BUCKET_PORT'' \<noteq> [] then (case atoi (env ''BUCKET_PORT'') of Some p \<Rightarrow> p | None \<Rightarrow> so_port cfg) else so_port cfg) in
      cfg\<lparr>so_host := host, so_port := port,
        so_bucket := or_else (env ''BUCKET_NAME'') (so_bucket cfg),
        so_region := or_else (env ''BUCKET_REGION'') (so_region cfg),
        so_use_ssl := (if env ''BUCKET_SSL'' \<noteq> [] then env_bool (env ''BUCKET_SSL'') else if port = 443 then True else so_use_ssl cfg),
        so_insecure := (if env ''BUCKET_INSECURE_TLS'' \<noteq> [] then env_bool (env ''BUCKET_INSECURE_TLS'')
          else if has_suffix host ''.svc'' then True else so_insecure cfg)\<rparr>)"

text \<open>A key of the configuration file or a flag wins over the variables of the provider.\<close>

lemma configured_key_wins:
  "load_config env v = Inr cfg \<Longrightarrow> vp_unmarshal v (set_by_env env) = Inr s \<Longrightarrow> cfg_api_key (st_llm s) \<noteq> [] \<Longrightarrow>
   cfg_api_key (st_llm cfg) = cfg_api_key (st_llm s)"
  by (auto simp: load_config_def load_settings_def or_else_def split: option.splits sum.splits)


end
