(* ===== verification/Agent_Config.thy ===== *)
theory Agent_Config
  imports A2A_Call Skills Rag_Search Mcp_Client Go_Duration Exec_Tool Inbound_Auth
begin

section \<open>internal/cmd: the configuration of an agent\<close>

text \<open>
  The files of the configuration directory (agentconfig.go and the loaders of serve.go) and the
  settings of the process (config.go, loadConfig). The decoders of YAML and of the agent card, and
  the texts of library errors, are parameters (\<open>load_lib\<close>); viper is the function that gives the settings once
  some keys are set. A map of the configuration is a list of its entries in the order of the
  iteration.
\<close>

subsection \<open>Loaders of serve.go\<close>

record ('k, 'c) load_lib =
  ll_yaml :: "string \<Rightarrow> string + 'c"
  ll_card :: "string \<Rightarrow> string + agent_card"
  ll_json_error :: "string \<Rightarrow> string"
  ll_url_error :: "string \<Rightarrow> string"
  ll_duration_error :: "string \<Rightarrow> string"
  ll_quote :: "string \<Rightarrow> string"
  ll_lower :: "string \<Rightarrow> string"
  ll_keys :: "'k key_lib"

definition is_not_exist :: "path_error \<Rightarrow> bool" where
  "is_not_exist e \<longleftrightarrow> pe_err e = NotExist"

definition load_system_prompt :: "fs \<Rightarrow> string \<Rightarrow> string + string" where
  "load_system_prompt F config_dir =
     (let path = path_join [config_dir, ''system-prompt.txt''] in
      case os_read_file F path of
        Inl e \<Rightarrow> Inl (''failed to read system prompt: '' @ path_error_text e)
      | Inr data \<Rightarrow>
          (let prompt = trim_space data in
           if prompt = [] then Inl (''system prompt is empty: '' @ path) else Inr prompt))"

definition fallback_card :: agent_card where
  "fallback_card = \<lparr>card_name = ''docsclaw'', card_description = ''DocsClaw Agent'', card_version = ''1.0.0'',
     card_interfaces = [], card_skills = [], card_input_modes = [''application/json''],
     card_output_modes = [''text/plain'']\<rparr>"

definition load_agent_card :: "('k, 'c) load_lib \<Rightarrow> fs \<Rightarrow> string \<Rightarrow> string + agent_card" where
  "load_agent_card lib F config_dir =
     (case os_read_file F (path_join [config_dir, ''agent-card.json'']) of
        Inl e \<Rightarrow> if is_not_exist e then Inr fallback_card else Inl (''failed to read agent card: '' @ path_error_text e)
      | Inr data \<Rightarrow>
          (case ll_card lib data of
             Inl e \<Rightarrow> Inl (''failed to parse agent card: '' @ e)
           | Inr ac \<Rightarrow> Inr ac))"

text \<open>A map of strings: null leaves the empty string of a new entry, another type is an error.\<close>

definition string_entry :: "string \<times> json \<Rightarrow> (string \<times> string) option" where
  "string_entry kv = (case snd kv of JStr s \<Rightarrow> Some (fst kv, s) | JNull \<Rightarrow> Some (fst kv, []) | _ \<Rightarrow> None)"

definition decode_string_map :: "string \<Rightarrow> (string \<times> string) list option" where
  "decode_string_map s =
     (case json_parse s of
        Some (JObj kvs) \<Rightarrow> map_option of_pairs (those (map string_entry kvs))
      | Some JNull \<Rightarrow> Some []
      | _ \<Rightarrow> None)"

definition load_prompt_variants :: "('k, 'c) load_lib \<Rightarrow> fs \<Rightarrow> string \<Rightarrow> string + (string \<times> string) list" where
  "load_prompt_variants lib F config_dir =
     (case os_read_file F (path_join [config_dir, ''prompts.json'']) of
        Inl e \<Rightarrow> if is_not_exist e then Inr [] else Inl (''failed to read prompt variants: '' @ path_error_text e)
      | Inr data \<Rightarrow>
          (case decode_string_map data of
             None \<Rightarrow> Inl (''failed to parse prompt variants: '' @ ll_json_error lib data)
           | Some variants \<Rightarrow> Inr variants))"

text \<open>Of tools.json the runtime uses the names of the tools; the other fields still have to have their types.\<close>

record tool_inventory =
  ti_names :: "string list"
  ti_risk_score :: int

definition bool_field :: "json \<Rightarrow> 'a \<Rightarrow> 'a option" where
  "bool_field v x = (case v of JBool _ \<Rightarrow> Some x | JNull \<Rightarrow> Some x | _ \<Rightarrow> None)"

definition tool_risk_field :: "string \<Rightarrow> json \<Rightarrow> unit \<Rightarrow> unit option" where
  "tool_risk_field k v x =
     (if field_is k ''score'' then int_field v (\<lambda>_ y. y) x
      else if field_is k ''codeexecution'' \<or> field_is k ''networkcapable'' then bool_field v x
      else Some x)"

definition tool_entry_field :: "string \<Rightarrow> json \<Rightarrow> string \<Rightarrow> string option" where
  "tool_entry_field k v name =
     (if field_is k ''name'' then string_field v (\<lambda>s _. s) name
      else if field_is k ''package'' \<or> field_is k ''tier'' then string_field v (\<lambda>_ y. y) name
      else if field_is k ''risk'' then map_option (\<lambda>_. name) (struct_of tool_risk_field () v)
      else Some name)"

definition tools_json_field :: "string \<Rightarrow> json \<Rightarrow> tool_inventory \<Rightarrow> tool_inventory option" where
  "tools_json_field k v t =
     (if field_is k ''manifestversion'' \<or> field_is k ''agentname'' \<or> field_is k ''base'' \<or> field_is k ''highesttier''
      then string_field v (\<lambda>_ y. y) t
      else if field_is k ''riskscore'' then int_field v (\<lambda>n y. y\<lparr>ti_risk_score := n\<rparr>) t
      else if field_is k ''tools'' then map_option (\<lambda>ns. t\<lparr>ti_names := ns\<rparr>) (struct_list tool_entry_field [] v)
      else Some t)"

definition decode_tools_json :: "string \<Rightarrow> tool_inventory option" where
  "decode_tools_json s =
     Option.bind (json_parse s) (struct_of tools_json_field \<lparr>ti_names = [], ti_risk_score = 0\<rparr>)"

definition load_tools_json :: "('k, 'c) load_lib \<Rightarrow> fs \<Rightarrow> string \<Rightarrow> string + tool_inventory option" where
  "load_tools_json lib F path =
     (case os_read_file F path of
        Inl e \<Rightarrow> if is_not_exist e then Inr None else Inl (''read tools.json: '' @ path_error_text e)
      | Inr data \<Rightarrow>
          (case decode_tools_json data of
             None \<Rightarrow> Inl (''parse tools.json: '' @ ll_json_error lib data)
           | Some tj \<Rightarrow> Inr (Some tj)))"

definition tool_name_char :: "char \<Rightarrow> bool" where
  "tool_name_char c \<longleftrightarrow> is_alnum c \<or> c \<in> set '' _-''"

definition sanitize_tool_name :: "string \<Rightarrow> string" where
  "sanitize_tool_name name = filter tool_name_char name"

text \<open>The first keyword of the iteration that occurs in the message decides.\<close>

definition select_prompt :: "(string \<Rightarrow> string) \<Rightarrow> string \<Rightarrow> (string \<times> string) list \<Rightarrow> string \<Rightarrow> string" where
  "select_prompt ul default_prompt variants message =
     (case find (\<lambda>(keyword, _). str_contains (to_lower ul message) (to_lower ul keyword)) variants of
        Some (_, prompt) \<Rightarrow> prompt
      | None \<Rightarrow> default_prompt)"

definition resolve_workspace :: "string \<Rightarrow> string \<Rightarrow> string" where
  "resolve_workspace cfg_workspace flag_workspace =
     (if trim_space cfg_workspace \<noteq> [] then trim_space cfg_workspace
      else if trim_space flag_workspace \<noteq> [] then trim_space flag_workspace
      else ''/workspace'')"

subsection \<open>agent-config.yaml\<close>

record inbound_cfg =
  in_enabled :: bool
  in_issuer :: string
  in_jwks_url :: string
  in_audience :: string
  in_scopes :: "string list"
  in_callers :: "string list"
  in_clock_skew :: string

record 'k a2a_peer =
  ap_name :: string
  ap_url :: string
  ap_description :: string
  ap_timeout :: int
  ap_card_public_key :: string
  ap_card_key :: "'k public_key option"

record 'k agent_config =
  ag_allowed :: "string list"
  ag_exec :: exec_config
  ag_allowed_hosts :: "string list"
  ag_workspace :: string
  ag_mcp :: "mcp_server_config list"
  ag_max_iterations :: int
  ag_rag :: "rag_config option"
  ag_skills_dir :: string
  ag_documents :: doc_services
  ag_inbound :: "inbound_cfg option"
  ag_peers :: "'k a2a_peer list"

type_synonym 'k config_lib = "('k, 'k agent_config) load_lib"

definition validate_inbound :: "'k config_lib \<Rightarrow> inbound_cfg option \<Rightarrow> string option" where
  "validate_inbound lib block =
     (case block of
        None \<Rightarrow> None
      | Some c \<Rightarrow>
          if \<not> in_enabled c then None
          else if trim_space (in_issuer c) = [] then Some ''inbound_auth.issuer is required when inbound auth is enabled''
          else if trim_space (in_audience c) = [] then Some ''inbound_auth.audience is required when inbound auth is enabled''
          else if trim_space (in_jwks_url c) = [] then Some ''inbound_auth.jwks_url is required when inbound auth is enabled''
          else if in_clock_skew c \<noteq> [] \<and> parse_duration (in_clock_skew c) = None
            then Some (''inbound_auth.clock_skew: '' @ ll_duration_error lib (in_clock_skew c))
          else None)"

definition to_inbound_auth :: "'k config_lib \<Rightarrow> inbound_cfg option \<Rightarrow> string list \<Rightarrow> string + auth_config" where
  "to_inbound_auth lib block exempt =
     (case block of
        None \<Rightarrow> Inl ''inbound auth config is nil''
      | Some c \<Rightarrow>
          (let cfg = \<lparr>ac_issuer = in_issuer c, ac_jwks_url = in_jwks_url c, ac_audience = in_audience c,
             ac_required_scopes = in_scopes c, ac_allowed_callers = in_callers c, ac_clock_skew = 0,
             ac_exempt_paths = exempt, ac_min_refresh = 0\<rparr> in
           if in_clock_skew c = [] then Inr cfg
           else (case parse_duration (in_clock_skew c) of
               None \<Rightarrow> Inl (''inbound_auth.clock_skew: '' @ ll_duration_error lib (in_clock_skew c))
             | Some skew \<Rightarrow> Inr (cfg\<lparr>ac_clock_skew := skew\<rparr>))))"

definition resolve_host :: "string \<Rightarrow> bool \<Rightarrow> string" where
  "resolve_host configured auth_enabled =
     (if configured \<noteq> [] then configured else if auth_enabled then ''127.0.0.1'' else ''0.0.0.0'')"

definition service_name_ok :: "string \<Rightarrow> bool" where
  "service_name_ok s \<longleftrightarrow> s \<noteq> [] \<and> lower_alnum (hd s) \<and> list_all (\<lambda>c. lower_alnum c \<or> c = CHR ''-'') (tl s)"

definition service_name_pattern :: string where
  "service_name_pattern = ''^[a-z0-9][a-z0-9-]*$''"

definition absolute_http :: "url \<Rightarrow> bool" where
  "absolute_http u \<longleftrightarrow> u_scheme u \<noteq> [] \<and> (u_scheme u = ''http'' \<or> u_scheme u = ''https'') \<and> u_host u \<noteq> []"

text \<open>\<open>seen\<close> are the names of the peers before.\<close>

fun validate_peers_from :: "'k config_lib \<Rightarrow> string list \<Rightarrow> 'k a2a_peer list \<Rightarrow> string option" where
  "validate_peers_from lib seen [] = None"
| "validate_peers_from lib seen (p # ps) =
     (let where_at = ''a2a_peers['' @ ll_quote lib (ap_name p) @ '']: '' in
      if \<not> service_name_ok (ap_name p) then Some (where_at @ ''name must match '' @ service_name_pattern)
      else if ap_name p \<in> set seen then Some (where_at @ ''duplicate name'')
      else (case url_parse (ap_url p) of
          None \<Rightarrow> Some (where_at @ ''invalid URL: '' @ ll_url_error lib (ap_url p))
        | Some u \<Rightarrow>
            if \<not> absolute_http u then Some (where_at @ ''must be an absolute http or https URL'')
            else if ap_timeout p < 0 then Some (where_at @ ''timeout_seconds must not be negative'')
            else if ap_timeout p > 3600 then Some (where_at @ ''timeout_seconds must not exceed 3600'')
            else validate_peers_from lib (ap_name p # seen) ps))"

definition validate_a2a_peers :: "'k config_lib \<Rightarrow> 'k a2a_peer list \<Rightarrow> string option" where
  "validate_a2a_peers lib peers = validate_peers_from lib [] peers"

fun validate_document_services :: "'k config_lib \<Rightarrow> doc_services \<Rightarrow> string option" where
  "validate_document_services lib [] = None"
| "validate_document_services lib ((name, raw) # rest) =
     (let where_at = ''document_services['' @ ll_quote lib name @ '']: '' in
      if \<not> service_name_ok name then Some (where_at @ ''name must match '' @ service_name_pattern)
      else (case url_parse raw of
          None \<Rightarrow> Some (where_at @ ''invalid URL: '' @ ll_url_error lib raw)
        | Some u \<Rightarrow>
            if \<not> absolute_http u then Some (where_at @ ''must be an absolute http or https URL'')
            else validate_document_services lib rest))"

fun load_peer_card_keys :: "'k config_lib \<Rightarrow> fs \<Rightarrow> string \<Rightarrow> 'k a2a_peer list \<Rightarrow> string + 'k a2a_peer list" where
  "load_peer_card_keys lib F config_dir [] = Inr []"
| "load_peer_card_keys lib F config_dir (p # ps) =
     bind_res
       (if ap_card_public_key p = [] then Inr p
        else
          (let path = (if is_abs (ap_card_public_key p) then ap_card_public_key p
                       else path_join [config_dir, ap_card_public_key p]) in
           case load_card_public_key (ll_keys lib) F path of
             Inl e \<Rightarrow> Inl (''a2a_peers['' @ ll_quote lib (ap_name p) @ '']: card_public_key: '' @ e)
           | Inr key \<Rightarrow> Inr (p\<lparr>ap_card_key := Some key\<rparr>)))
       (\<lambda>p1. bind_res (load_peer_card_keys lib F config_dir ps) (\<lambda>ps1. Inr (p1 # ps1)))"

definition load_agent_config :: "'k config_lib \<Rightarrow> fs \<Rightarrow> string \<Rightarrow> string + 'k agent_config option" where
  "load_agent_config lib F config_dir =
     (case os_read_file F (path_join [config_dir, ''agent-config.yaml'']) of
        Inl e \<Rightarrow> if is_not_exist e then Inr None else Inl (''failed to read agent config: '' @ path_error_text e)
      | Inr data \<Rightarrow>
          (case ll_yaml lib data of
             Inl e \<Rightarrow> Inl (''failed to parse agent config: '' @ e)
           | Inr cfg \<Rightarrow>
               (case validate_document_services lib (ag_documents cfg) of
                  Some e \<Rightarrow> Inl e
                | None \<Rightarrow>
                    (case validate_inbound lib (ag_inbound cfg) of
                       Some e \<Rightarrow> Inl e
                     | None \<Rightarrow>
                         (case validate_a2a_peers lib (ag_peers cfg) of
                            Some e \<Rightarrow> Inl e
                          | None \<Rightarrow>
                              (case load_peer_card_keys lib F config_dir (ag_peers cfg) of
                                 Inl e \<Rightarrow> Inl e
                               | Inr peers \<Rightarrow> Inr (Some (cfg\<lparr>ag_peers := peers\<rparr>))))))))"

definition to_loop_config :: "'k agent_config \<Rightarrow> 'w loop_config" where
  "to_loop_config c =
     (if ag_max_iterations c > 0 then default_loop_config\<lparr>max_iterations := ag_max_iterations c\<rparr> else default_loop_config)"

subsection \<open>A loaded configuration is well formed\<close>

definition card_key_ok :: "'k public_key \<Rightarrow> bool" where
  "card_key_ok k \<longleftrightarrow> (case k of EcdsaKey p256 _ \<Rightarrow> p256 | RsaKey bits _ \<Rightarrow> 2048 \<le> bits | OtherKey _ \<Rightarrow> False)"

definition http_location :: "string \<Rightarrow> bool" where
  "http_location raw \<longleftrightarrow> (\<exists>u. url_parse raw = Some u \<and> absolute_http u)"

definition peer_ok :: "'k a2a_peer \<Rightarrow> bool" where
  "peer_ok p \<longleftrightarrow> service_name_ok (ap_name p) \<and> http_location (ap_url p) \<and> 0 \<le> ap_timeout p \<and> ap_timeout p \<le> 3600
     \<and> (ap_card_public_key p \<noteq> [] \<longrightarrow> (\<exists>k. ap_card_key p = Some k \<and> card_key_ok k))"

text \<open>An enabled block names its issuer, its audience and its keys, and its clock skew is a duration.\<close>

definition inbound_ok :: "inbound_cfg option \<Rightarrow> bool" where
  "inbound_ok block \<longleftrightarrow> (case block of
       None \<Rightarrow> True
     | Some c \<Rightarrow> in_enabled c \<longrightarrow> trim_space (in_issuer c) \<noteq> [] \<and> trim_space (in_audience c) \<noteq> []
         \<and> trim_space (in_jwks_url c) \<noteq> [] \<and> (in_clock_skew c = [] \<or> parse_duration (in_clock_skew c) \<noteq> None))"

definition config_ok :: "'k agent_config \<Rightarrow> bool" where
  "config_ok c \<longleftrightarrow> inbound_ok (ag_inbound c) \<and> list_all peer_ok (ag_peers c) \<and> distinct (map ap_name (ag_peers c))
     \<and> list_all (\<lambda>(name, raw). service_name_ok name \<and> http_location raw) (ag_documents c)"

lemma validated_inbound: "validate_inbound lib block = None \<longleftrightarrow> inbound_ok block"
  by (auto simp: validate_inbound_def inbound_ok_def split: option.splits)

lemma inbound_ok_converts:
  "inbound_ok (Some c) \<Longrightarrow> in_enabled c \<Longrightarrow> \<exists>cfg. to_inbound_auth lib (Some c) exempt = Inr cfg \<and> ac_exempt_paths cfg = exempt
    \<and> ac_issuer cfg = in_issuer c \<and> ac_audience cfg = in_audience c \<and> ac_jwks_url cfg = in_jwks_url c
    \<and> ac_required_scopes cfg = in_scopes c \<and> ac_allowed_callers cfg = in_callers c"
  by (auto simp: inbound_ok_def to_inbound_auth_def Let_def split: option.splits)

lemma validated_documents:
  "validate_document_services lib ds = None \<longleftrightarrow> list_all (\<lambda>(name, raw). service_name_ok name \<and> http_location raw) ds"
  by (induction lib ds rule: validate_document_services.induct) (auto simp: Let_def http_location_def split: option.splits)

definition peer_shape :: "'k a2a_peer \<Rightarrow> bool" where
  "peer_shape p \<longleftrightarrow> service_name_ok (ap_name p) \<and> http_location (ap_url p) \<and> 0 \<le> ap_timeout p \<and> ap_timeout p \<le> 3600"

lemma validated_peers_from:
  "validate_peers_from lib seen ps = None \<longleftrightarrow>
     list_all peer_shape ps \<and> distinct (map ap_name ps) \<and> set seen \<inter> set (map ap_name ps) = {}"
  by (induction lib seen ps rule: validate_peers_from.induct)
     (auto simp: Let_def http_location_def peer_shape_def split: option.splits)

lemma loaded_key_ok: "load_card_public_key lib F path = Inr k \<Longrightarrow> card_key_ok k"
  by (auto simp: load_card_public_key_def card_key_ok_def bind_res_def split: sum.splits option.splits public_key.splits if_splits)

text \<open>Loading the keys changes nothing else of the peers.\<close>

lemma peers_with_keys:
  "load_peer_card_keys lib F d ps = Inr qs \<Longrightarrow> list_all peer_shape ps \<Longrightarrow>
     list_all peer_ok qs \<and> map ap_name qs = map ap_name ps"
proof (induction ps arbitrary: qs)
  case (Cons p ps)
  from Cons.prems(1) obtain p1 qs1 where q: "qs = p1 # qs1" "load_peer_card_keys lib F d ps = Inr qs1"
    "p1 = p \<and> ap_card_public_key p = [] \<or> (\<exists>path k. load_card_public_key (ll_keys lib) F path = Inr k \<and> p1 = p\<lparr>ap_card_key := Some k\<rparr>)"
    by (auto simp: bind_res_def Let_def split: sum.splits if_splits)
  from q(3) Cons.prems(2) have "peer_ok p1 \<and> ap_name p1 = ap_name p"
    by (auto simp: peer_ok_def peer_shape_def dest: loaded_key_ok)
  with Cons.IH [OF q(2)] Cons.prems(2) show ?case by (simp add: q(1))
qed simp

text \<open>
  C33. A configuration that loads is well formed: every peer and document service has a name of the
  pattern and an absolute http or https URL, the names of peers are distinct, timeouts lie between
  0 and 3600 seconds, a peer with a key file has its key, which is P-256 or RSA of at least 2048
  bits, and inbound authentication that is enabled is complete and becomes a configuration of the
  middleware with exactly its values. A directory without the file is the first phase, not an error.
\<close>

theorem loaded_config_ok:
  "case load_agent_config lib F dir of
     Inl e \<Rightarrow> \<not> (\<exists>err. os_read_file F (path_join [dir, ''agent-config.yaml'']) = Inl err \<and> pe_err err = NotExist)
   | Inr None \<Rightarrow> \<exists>err. os_read_file F (path_join [dir, ''agent-config.yaml'']) = Inl err \<and> pe_err err = NotExist
   | Inr (Some c) \<Rightarrow> config_ok c \<and>
       (case ag_inbound c of
          None \<Rightarrow> True
        | Some b \<Rightarrow> if in_enabled b
            then \<exists>cfg. to_inbound_auth lib (Some b) exempt = Inr cfg \<and> ac_exempt_paths cfg = exempt
              \<and> ac_issuer cfg = in_issuer b \<and> ac_audience cfg = in_audience b \<and> ac_jwks_url cfg = in_jwks_url b
              \<and> ac_required_scopes cfg = in_scopes b \<and> ac_allowed_callers cfg = in_callers b
            else True)"
proof (cases "load_agent_config lib F dir")
  case (Inr r)
  show ?thesis
  proof (cases r)
    case (Some c)
    from Inr Some obtain cfg peers where c: "validate_document_services lib (ag_documents cfg) = None"
      "validate_inbound lib (ag_inbound cfg) = None" "validate_a2a_peers lib (ag_peers cfg) = None"
      "load_peer_card_keys lib F dir (ag_peers cfg) = Inr peers" "c = cfg\<lparr>ag_peers := peers\<rparr>"
      by (auto simp: load_agent_config_def split: sum.splits option.splits if_splits)
    from c(3) have "list_all peer_shape (ag_peers cfg)" "distinct (map ap_name (ag_peers cfg))"
      by (simp_all add: validate_a2a_peers_def validated_peers_from)
    with peers_with_keys [OF c(4)] have "list_all peer_ok peers" "distinct (map ap_name peers)" by simp_all
    with c(1,2,5) have ok: "config_ok c" by (simp add: config_ok_def validated_documents validated_inbound)
    have "case ag_inbound c of None \<Rightarrow> True
        | Some b \<Rightarrow> if in_enabled b
            then \<exists>cfg. to_inbound_auth lib (Some b) exempt = Inr cfg \<and> ac_exempt_paths cfg = exempt
              \<and> ac_issuer cfg = in_issuer b \<and> ac_audience cfg = in_audience b \<and> ac_jwks_url cfg = in_jwks_url b
              \<and> ac_required_scopes cfg = in_scopes b \<and> ac_allowed_callers cfg = in_callers b
            else True"
      using ok inbound_ok_converts [of _ lib exempt] by (auto simp: config_ok_def split: option.splits)
    with Inr Some ok show ?thesis by simp
  qed (use Inr in \<open>auto simp: load_agent_config_def is_not_exist_def split: sum.splits option.splits if_splits\<close>)
qed (auto simp: load_agent_config_def is_not_exist_def split: sum.splits option.splits if_splits)

end
