(* ===== verification/Runtime.thy ===== *)
theory Runtime
  imports Agent_Config Settings Workspace_Tools Memory_Store Agent_Context OpenAI_Api
begin

section \<open>internal/cmd/runtime.go and ask.go: the agent put together\<close>

text \<open>
  \<open>buildRuntime\<close> loads the personality, connects the MCP servers, chooses the provider and fills the
  registry; \<open>Run\<close> answers one conversation; ask answers one prompt. The world has the file system, the
  list of peers whose card verified (the state of the tool a2a_call) and a rest, on which the network
  and the processes act. A record of parameters (\<open>host\<close>) gives what lies outside: the libraries of the
  components, the shell, the clock and standard error. Log lines are left out; nil arguments of a
  tool call are empty ones.
\<close>

subsection \<open>The world and the tools on it\<close>

record 'n world =
  wo_fs :: fs
  wo_verified :: "string list"
  wo_net :: 'n

record 'w llm_provider =
  lp_api :: "'w oai_provider"
  lp_complete :: "string \<Rightarrow> string \<Rightarrow> 'w \<Rightarrow> (string + string) \<times> 'w"

text \<open>\<open>hs_panic\<close> is what follows when a tool panics: the exec tool does with a negative limit.\<close>

record ('k, 's, 'n) host =
  hs_load :: "'k config_lib"
  hs_skill_yaml :: "string \<Rightarrow> skill_yaml option"
  hs_shell :: "string \<Rightarrow> int \<Rightarrow> 'n world \<Rightarrow> shell_run \<times> 'n world"
  hs_panic :: "'n world \<Rightarrow> tool_result \<times> 'n world"
  hs_web :: "'n world web_env"
  hs_decode_error :: "http_result \<Rightarrow> string"
  hs_a2a :: "'n world a2a_env"
  hs_cards :: "'k card_lib"
  hs_rag :: "'n world rag_env"
  hs_mcp :: "('s, 'n world) mcp_lib"
  hs_environ :: "string list"
  hs_clock :: "'n world \<Rightarrow> int"
  hs_ctors :: "'n world llm_provider provider_ctors"
  hs_stderr :: "string \<Rightarrow> 'n world \<Rightarrow> 'n world"
  hs_number :: "rat \<Rightarrow> string"

definition quote_of :: "('k, 's, 'n) host \<Rightarrow> string \<Rightarrow> string" where
  "quote_of h = ll_quote (hs_load h)"

definition on_fs :: "(args \<Rightarrow> fs \<Rightarrow> tool_result \<times> fs) \<Rightarrow> args \<Rightarrow> 'n world \<Rightarrow> tool_result \<times> 'n world" where
  "on_fs f a w = (let (r, F) = f a (wo_fs w) in (r, w\<lparr>wo_fs := F\<rparr>))"

definition with_execute :: "'v tool \<Rightarrow> (args \<Rightarrow> 'w \<Rightarrow> tool_result \<times> 'w) \<Rightarrow> 'w tool" where
  "with_execute t f = \<lparr>t_name = t_name t, t_description = t_description t, t_parameters = t_parameters t, t_execute = f\<rparr>"

definition fs_tool :: "fs tool \<Rightarrow> 'n world tool" where
  "fs_tool t = with_execute t (on_fs (t_execute t))"

definition exec_runtime_tool :: "('k, 's, 'n) host \<Rightarrow> exec_config \<Rightarrow> 'n world tool" where
  "exec_runtime_tool h cfg =
     with_execute (the (exec_tool (hs_shell h) default_exec_config))
       (\<lambda>a w. case exec_execute (hs_shell h) (exec_defaults cfg) a w of
          (Some r, w1) \<Rightarrow> (r, w1)
        | (None, w1) \<Rightarrow> hs_panic h w1)"

definition remember_runtime_tool :: "('k, 's, 'n) host \<Rightarrow> string \<Rightarrow> 'n world tool" where
  "remember_runtime_tool h workspace =
     (let store = new_file_store (path_join [workspace, ''MEMORY.md'']) in
      with_execute (remember_tool store 0) (\<lambda>a w. on_fs (remember_execute store (hs_clock h w)) a w))"

definition a2a_runtime_tool :: "('k, 's, 'n) host \<Rightarrow> 'k peer list \<Rightarrow> 'n world tool" where
  "a2a_runtime_tool h peers =
     (let t = a2a_call_tool (hs_cards h) (hs_a2a h) peers in
      with_execute t (\<lambda>a w. let (r, w1, verified) = t_execute t a (w, wo_verified w) in (r, w1\<lparr>wo_verified := verified\<rparr>)))"

definition load_skill_tool :: "('k, 's, 'n) host \<Rightarrow> string \<Rightarrow> 'n world tool" where
  "load_skill_tool h skills_dir =
     \<lparr>t_name = ''load_skill'',
      t_description = ''Load the full instructions for a skill by name. '' @
        ''Use this when you need specialized guidance for a task.'',
      t_parameters = object_schema [string_param ''name'' ''The skill name to load''] [''name''],
      t_execute = (\<lambda>a w. (load_skill_execute (quote_of h) skills_dir a (wo_fs w), w))\<rparr>"

subsection \<open>Tools of the first part of buildRuntime\<close>

definition early_tools :: "('k, 's, 'n) host \<Rightarrow> string \<Rightarrow> 'k agent_config \<Rightarrow> 'n world tool list" where
  "early_tools h workspace c =
     [exec_runtime_tool h (ag_exec c), web_fetch_tool (hs_web h) (ag_allowed_hosts c),
      fs_tool (read_file_tool workspace), fs_tool (write_file_tool workspace), remember_runtime_tool h workspace]"

text \<open>A registration is whether it bypasses the allow list, and the tool (theory \<open>Tool_Registry\<close>).\<close>

definition start_tools ::
  "('k, 's, 'n) host \<Rightarrow> string \<Rightarrow> 'k agent_config \<Rightarrow> 'n world \<Rightarrow>
   (string + (bool \<times> 'n world tool) list \<times> 's server_conn list) \<times> 'n world" where
  "start_tools h workspace c w =
     (let (err, F) = mkdir_all (wo_fs w) workspace; w1 = w\<lparr>wo_fs := F\<rparr>;
          builtin = map (Pair False) (early_tools h workspace c) in
      case err of
        Some e \<Rightarrow> (Inl (''failed to create workspace: '' @ path_error_text e), w1)
      | None \<Rightarrow>
          if length (ag_mcp c) > 0
          then (case new_manager (quote_of h) (hs_environ h) (hs_mcp h) (ag_mcp c) w1 of
              (Inl e, w2) \<Rightarrow> (Inl (''failed to connect to MCP servers: '' @ e), w2)
            | (Inr mgr, w2) \<Rightarrow> (Inr (builtin @ map (Pair True) (manager_tools (hs_mcp h) mgr), mgr), w2))
          else (Inr (builtin, []), w1))"

subsection \<open>Tools of the second part\<close>

definition to_peer :: "'k a2a_peer \<Rightarrow> 'k peer" where
  "to_peer p = \<lparr>pr_name = ap_name p, pr_url = ap_url p, pr_description = ap_description p,
     pr_timeout = (if ap_timeout p > 0 then ap_timeout p * 10 ^ 9 else 120 * 10 ^ 9), pr_card_key = ap_card_key p\<rparr>"

text \<open>The client of the document store fills in the defaults of the configuration.\<close>

definition rag_tools :: "('k, 's, 'n) host \<Rightarrow> rag_config option \<Rightarrow> string + (bool \<times> 'n world tool) list \<times> rag_config option" where
  "rag_tools h block =
     (case block of
        None \<Rightarrow> Inr ([], None)
      | Some c \<Rightarrow>
          (case new_rag_client (quote_of h) c of
             (Inl e, _) \<Rightarrow> Inl (''rag: '' @ e)
           | (Inr v, c1) \<Rightarrow> Inr ([(True, rag_search_tool (hs_rag h) v c1)], Some c1)))"

definition late_tools :: "('k, 's, 'n) host \<Rightarrow> 'k agent_config \<Rightarrow> string \<Rightarrow> skill_meta list \<Rightarrow> (bool \<times> 'n world tool) list" where
  "late_tools h c skills_dir discovered =
     (if length (ag_documents c) > 0
      then [(False, fetch_document_tool (hs_web h) (hs_decode_error h) (ag_documents c))] else [])
     @ (if ''a2a_call'' \<in> set (ag_allowed c) \<and> length (ag_peers c) > 0
        then [(False, a2a_runtime_tool h (map to_peer (ag_peers c)))] else [])
     @ (if length discovered > 0 then [(True, load_skill_tool h skills_dir)] else [])"

subsection \<open>The prompt\<close>

definition workspace_note :: "string \<Rightarrow> string" where
  "workspace_note workspace =
     nl @ nl @ ''Your workspace directory is '' @ workspace @ ''. Always write files there.''"

text \<open>A tools.json that cannot be read is only a warning.\<close>

definition inventory_note :: "('k, 's, 'n) host \<Rightarrow> fs \<Rightarrow> string" where
  "inventory_note h F =
     (case load_tools_json (hs_load h) F ''/etc/docsclaw/tools.json'' of
        Inr (Some tj) \<Rightarrow>
          nl @ nl @ ''Available OS tools: '' @ str_join '', '' (filter (\<lambda>n. n \<noteq> []) (map sanitize_tool_name (ti_names tj)))
            @ nl @ ''Do NOT attempt to use tools not in this list.''
      | _ \<Rightarrow> [])"

subsection \<open>The provider\<close>

definition factory_error_text :: "factory_error \<Rightarrow> string" where
  "factory_error_text e =
     (let registered = (\<lambda>name. name @ '' provider not registered (import _ '' @ [CHR 0x22]
          @ ''github.com/redhat-et/docsclaw/internal/'' @ name @ [CHR 0x22] @ '')'') in
      case e of
        AnthropicNotRegistered \<Rightarrow> registered ''anthropic''
      | OpenAINotRegistered \<Rightarrow> registered ''openai''
      | UnknownProvider p \<Rightarrow> ''unknown LLM provider: '' @ p
      | ConstructorFailed msg \<Rightarrow> msg)"

definition choose_provider ::
  "('k, 's, 'n) host \<Rightarrow> 'n world llm_provider option \<Rightarrow> llm_config \<Rightarrow> string + 'n world llm_provider option" where
  "choose_provider h override c =
     (case override of
        Some p \<Rightarrow> Inr (Some p)
      | None \<Rightarrow>
          if cfg_api_key c \<noteq> []
          then (case new_provider (hs_ctors h) c of
              Inl e \<Rightarrow> Inl (''failed to create LLM provider: '' @ factory_error_text e)
            | Inr p \<Rightarrow> Inr (Some p))
          else Inr None)"

subsection \<open>buildRuntime\<close>

record ('k, 's, 'n) agent_runtime =
  rn_settings :: settings
  rn_config :: "'k agent_config option"
  rn_provider :: "'n world llm_provider option"
  rn_registry :: "'n world registry option"
  rn_loop :: "'n world loop_config"
  rn_system_prompt :: string
  rn_card :: agent_card
  rn_variants :: "(string \<times> string) list"
  rn_base_prompt :: string
  rn_skills_summary :: string
  rn_manager :: "'s server_conn list"

definition load_files ::
  "'k config_lib \<Rightarrow> fs \<Rightarrow> string \<Rightarrow> string + string \<times> agent_card \<times> (string \<times> string) list \<times> 'k agent_config option" where
  "load_files lib F dir =
     bind_res (load_system_prompt F dir) (\<lambda>prompt.
     bind_res (load_agent_card lib F dir) (\<lambda>ac.
     bind_res (load_prompt_variants lib F dir) (\<lambda>variants.
     bind_res (load_agent_config lib F dir) (\<lambda>c. Inr (prompt, ac, variants, c)))))"

text \<open>The flag, then agent-config.yaml, then the directory skills of the configuration.\<close>

definition skills_dir_of :: "settings \<Rightarrow> 'k agent_config option \<Rightarrow> string" where
  "skills_dir_of cfg c =
     (let d1 = st_skills_dir cfg;
          d2 = (case c of Some a \<Rightarrow> (if d1 = [] then ag_skills_dir a else d1) | None \<Rightarrow> d1) in
      if d2 = [] then path_join [st_config_dir cfg, ''skills''] else d2)"

text \<open>What follows the MCP servers: it reads the world and may fail.\<close>

definition finish_runtime ::
  "('k, 's, 'n) host \<Rightarrow> settings \<Rightarrow> 'n world llm_provider option \<Rightarrow> string \<Rightarrow> agent_card \<Rightarrow> (string \<times> string) list \<Rightarrow>
   'k agent_config option \<Rightarrow> string \<Rightarrow> (bool \<times> 'n world tool) list \<Rightarrow> 's server_conn list \<Rightarrow> fs \<Rightarrow>
   string + ('k, 's, 'n) agent_runtime" where
  "finish_runtime h cfg override prompt ac variants c workspace early mgr F =
     (let base = prompt @ (if c = None then [] else workspace_note workspace)
            @ context_load new_context_loader F workspace (fst (resolve_profile (st_profile cfg))) @ inventory_note h F in
      bind_res (choose_provider h override (st_llm cfg)) (\<lambda>provider.
        let skills_dir = skills_dir_of cfg c; discovered = discover (hs_skill_yaml h) F skills_dir;
            ac1 = (if length discovered > 0
              then ac\<lparr>card_skills := merge_skills (card_skills ac) (to_agent_skills (hs_skill_yaml h) F discovered)\<rparr> else ac);
            rt = \<lparr>rn_settings = cfg, rn_config = None, rn_provider = provider, rn_registry = None,
              rn_loop = \<lparr>max_iterations = 0, max_result_bytes = 0, loop_hook = None\<rparr>, rn_system_prompt = base, rn_card = ac1,
              rn_variants = variants, rn_base_prompt = base, rn_skills_summary = [], rn_manager = mgr\<rparr> in
        case c of
          None \<Rightarrow> Inr rt
        | Some a \<Rightarrow>
            bind_res (rag_tools h (ag_rag a)) (\<lambda>(rag, block).
              let summary = build_summary discovered in
              Inr (rt\<lparr>rn_config := Some (a\<lparr>ag_rag := block\<rparr>), rn_loop := to_loop_config a,
                rn_registry := Some (build_registry (ag_allowed a) (early @ rag @ late_tools h a skills_dir discovered)),
                rn_system_prompt := base @ summary, rn_skills_summary := summary\<rparr>))))"

text \<open>An error after the MCP servers are connected closes them. A new a2a_call tool has verified no card.\<close>

definition build_runtime ::
  "('k, 's, 'n) host \<Rightarrow> settings \<Rightarrow> 'n world llm_provider option \<Rightarrow> 'n world \<Rightarrow> (string + ('k, 's, 'n) agent_runtime) \<times> 'n world" where
  "build_runtime h cfg override w =
     (case load_files (hs_load h) (wo_fs w) (st_config_dir cfg) of
        Inl e \<Rightarrow> (Inl e, w)
      | Inr (prompt, ac, variants, c) \<Rightarrow>
          (let workspace = resolve_workspace (case c of Some a \<Rightarrow> ag_workspace a | None \<Rightarrow> []) (st_workspace cfg) in
           case (case c of Some a \<Rightarrow> start_tools h workspace a w | None \<Rightarrow> (Inr ([], []), w)) of
             (Inl e, w1) \<Rightarrow> (Inl e, w1)
           | (Inr (early, mgr), w1) \<Rightarrow>
               (case finish_runtime h cfg override prompt ac variants c workspace early mgr (wo_fs w1) of
                  Inl e \<Rightarrow> (Inl e, snd (close_manager (hs_mcp h) mgr w1))
                | Inr rt \<Rightarrow> (Inr rt, w1\<lparr>wo_verified := []\<rparr>))))"

definition close_runtime :: "('k, 's, 'n) host \<Rightarrow> ('k, 's, 'n) agent_runtime \<Rightarrow> 'n world \<Rightarrow> string option \<times> 'n world" where
  "close_runtime h rt w = close_manager (hs_mcp h) (rn_manager rt) w"

subsection \<open>Run\<close>

definition last_user_content :: "message list \<Rightarrow> string" where
  "last_user_content ms = (case find (\<lambda>m. msg_role m = ''user'') (rev ms) of Some m \<Rightarrow> msg_content m | None \<Rightarrow> [])"

definition mock_answer :: string where
  "mock_answer = ''## Result'' @ nl @ nl @ ''Mock response. Configure LLM_API_KEY to enable AI processing.''"

definition agent_run ::
  "('k, 's, 'n) host \<Rightarrow> ('k, 's, 'n) agent_runtime \<Rightarrow> 'n world tool_hook option \<Rightarrow> message list \<Rightarrow> 'n world \<Rightarrow>
   (string + string) \<times> 'n world" where
  "agent_run h rt hook messages w =
     (case rn_registry rt of
        Some R \<Rightarrow>
          (case rn_provider rt of
             None \<Rightarrow> (Inl ''LLM provider required for tool-use mode'', w)
           | Some p \<Rightarrow>
               (case run_tool_loop (pv_env (lp_api p)) R ((rn_loop rt)\<lparr>loop_hook := hook\<rparr>) messages w of
                  (Inl e, w1) \<Rightarrow> (Inl (''agentic loop failed: '' @ loop_error_text e), w1)
                | (Inr answer, w1) \<Rightarrow> (Inr answer, w1)))
      | None \<Rightarrow>
          (let user_text = last_user_content messages in
           case rn_provider rt of
             None \<Rightarrow> (Inr mock_answer, w)
           | Some p \<Rightarrow>
               (let selected = select_prompt (ll_lower (hs_load h)) (rn_base_prompt rt) (rn_variants rt) user_text @ rn_skills_summary rt in
                case lp_complete p selected user_text w of
                  (Inl e, w1) \<Rightarrow> (Inl (''LLM request failed: '' @ e), w1)
                | (Inr answer, w1) \<Rightarrow> (Inr answer, w1))))"

subsection \<open>ask\<close>

definition right_arrow :: string where "right_arrow = [CHR 0xE2, CHR 0x86, CHR 0x92]"
definition left_arrow :: string where "left_arrow = [CHR 0xE2, CHR 0x86, CHR 0x90]"

definition one_line :: "string \<Rightarrow> string" where
  "one_line s = map (\<lambda>c. if c = CHR 0x0D \<or> c = CHR 0x0A then CHR '' '' else c) s"

definition trace_hook :: "('k, 's, 'n) host \<Rightarrow> 'n world tool_hook" where
  "trace_hook h =
     \<lparr>before_tool_call = (\<lambda>name a w. ((True, []),
        hs_stderr h (right_arrow @ '' '' @ name @ '' '' @ json_text (hs_number h) (JObj a) @ nl) w)),
      after_tool_call = (\<lambda>name a result w.
        hs_stderr h (left_arrow @ '' '' @ name @ '' '' @ (if res_error result then ''error'' else ''ok'') @ '': ''
          @ take 200 (one_line (res_output result)) @ nl) w)\<rparr>"

datatype command_error = UsageError string | PlainError string

definition exit_code_for :: "command_error \<Rightarrow> int" where
  "exit_code_for e = (case e of UsageError _ \<Rightarrow> 2 | PlainError _ \<Rightarrow> 1)"

definition ask_messages :: "('k, 's, 'n) agent_runtime \<Rightarrow> string \<Rightarrow> message list" where
  "ask_messages rt prompt =
     (if rn_registry rt \<noteq> None then [text_message ''system'' (rn_system_prompt rt)] else []) @ [text_message ''user'' prompt]"

definition run_ask ::
  "('k, 's, 'n) host \<Rightarrow> (string \<Rightarrow> string) \<Rightarrow> viper \<Rightarrow> 'n world llm_provider option \<Rightarrow> bool \<Rightarrow> string \<Rightarrow> 'n world \<Rightarrow>
   (string + string) \<times> 'n world" where
  "run_ask h env v override trace prompt w =
     (case load_config env v of
        Inl e \<Rightarrow> (Inl e, w)
      | Inr cfg \<Rightarrow>
          (case build_runtime h cfg override w of
             (Inl e, w1) \<Rightarrow> (Inl e, w1)
           | (Inr rt, w1) \<Rightarrow>
               (let (answer, w2) =
                  (if rn_provider rt = None then (Inl ''LLM API key not configured'', w1)
                   else agent_run h rt (if trace then Some (trace_hook h) else None) (ask_messages rt prompt) w1) in
                (case answer of Inl e \<Rightarrow> Inl e | Inr s \<Rightarrow> Inr (s @ nl), snd (close_runtime h rt w2)))))"

text \<open>The command takes exactly one argument; \<open>count_error\<close> is the text of cobra.\<close>

definition ask_command ::
  "('k, 's, 'n) host \<Rightarrow> (string \<Rightarrow> string) \<Rightarrow> viper \<Rightarrow> (nat \<Rightarrow> string) \<Rightarrow> bool \<Rightarrow> string list \<Rightarrow> 'n world \<Rightarrow>
   (command_error + string) \<times> 'n world" where
  "ask_command h env v count_error trace argv w =
     (case argv of
        [prompt] \<Rightarrow> (let (r, w1) = run_ask h env v None trace prompt w in
          (case r of Inl e \<Rightarrow> Inl (PlainError e) | Inr out \<Rightarrow> Inr out, w1))
      | _ \<Rightarrow> (Inl (UsageError (count_error (length argv))), w))"

subsection \<open>Which tools the model can call\<close>

text \<open>A callable tool was registered under its name, which is listed or was registered past the list.\<close>

lemma reg_get_registered:
  fixes t :: "'w tool"
  assumes "reg_get (build_registry allowed regs) n = Some t"
  shows "t_name t = n" "\<exists>b. (b, t) \<in> set regs"
    "allowed = [] \<or> n \<in> set allowed \<or> (\<exists>u. (True, u) \<in> set regs \<and> t_name u = n)"
proof -
  from reg_get_name [OF reg_wf_build assms] show "t_name t = n" .
  from assms have c: "callable allowed regs n = Some t" by (simp add: reg_get_build)
  then show "allowed = [] \<or> n \<in> set allowed \<or> (\<exists>u. (True, u) \<in> set regs \<and> t_name u = n)"
    by (auto simp: callable_def split: if_splits)
  from c have "map_of (map (\<lambda>(_, t). (t_name t, t)) (rev regs)) n = Some t" by (simp add: callable_def split: if_splits)
  from map_of_SomeD [OF this] show "\<exists>b. (b, t) \<in> set regs" by auto
qed

lemma reg_get_iff:
  "reg_get (build_registry allowed regs) n \<noteq> None \<longleftrightarrow> (\<exists>x \<in> set regs. t_name (snd x) = n)
    \<and> (allowed = [] \<or> n \<in> set allowed \<or> (\<exists>x \<in> set regs. fst x \<and> t_name (snd x) = n))"
proof -
  have "map_of (map (\<lambda>(_, t). (t_name t, t)) (rev regs)) n \<noteq> None \<longleftrightarrow> (\<exists>x \<in> set regs. t_name (snd x) = n)"
    unfolding map_of_eq_None_iff by (force simp: image_iff)
  moreover have "(\<exists>t. (True, t) \<in> set regs \<and> t_name t = n) \<longleftrightarrow> (\<exists>x \<in> set regs. fst x \<and> t_name (snd x) = n)" by force
  ultimately show ?thesis by (simp add: reg_get_build callable_def)
qed

lemma with_execute_name [simp]: "t_name (with_execute t f) = t_name t"
  by (simp add: with_execute_def)

lemma tool_names [simp]:
  "t_name (exec_runtime_tool h ec) = ''exec''" "t_name (web_fetch_tool env hosts) = ''web_fetch''"
  "t_name (fs_tool (read_file_tool ws)) = ''read_file''" "t_name (fs_tool (write_file_tool ws)) = ''write_file''"
  "t_name (remember_runtime_tool h ws) = ''remember''" "t_name (fetch_document_tool env de ds) = ''fetch_document''"
  "t_name (a2a_runtime_tool h peers) = ''a2a_call''" "t_name (load_skill_tool h dir) = ''load_skill''"
  "t_name (rag_search_tool re v rc) = ''rag_search''" "t_name (mcp_tool lib r) = mcp_tool_name r"
  by (simp_all add: exec_runtime_tool_def exec_tool_def exec_defaults_def default_exec_config_def web_fetch_tool_def
      fs_tool_def read_file_tool_def write_file_tool_def remember_runtime_tool_def remember_tool_def fetch_document_tool_def
      a2a_runtime_tool_def a2a_call_tool_def load_skill_tool_def rag_search_tool_def mcp_tool_def Let_def)

text \<open>The registrations of a runtime: the built-in tools and those of the servers, then the others.\<close>

lemma built_registrations:
  assumes "build_runtime h cfg override w = (Inr rt, w1)" "rn_registry rt = Some R" "rn_config rt = Some a"
  obtains ws rag dir found where
    "R = build_registry (ag_allowed a) (map (Pair False) (early_tools h ws a) @ map (Pair True) (manager_tools (hs_mcp h) (rn_manager rt))
      @ rag @ late_tools h a dir found)"
    "\<forall>(b, t) \<in> set rag. b \<and> t_name t = ''rag_search'' \<and> ag_rag a \<noteq> None"
    "found = [] \<longleftrightarrow> rn_skills_summary rt = []"
    "\<forall>(b, t) \<in> set rag. \<exists>v rc. t = rag_search_tool (hs_rag h) v rc"
    "ws = resolve_workspace (ag_workspace a) (st_workspace cfg)" "ag_mcp a = [] \<longrightarrow> rn_manager rt = []"
    "rag = [] \<longleftrightarrow> ag_rag a = None"
proof -
  from assms(1) obtain prompt ac variants c ws early mgr w2 where
    b: "load_files (hs_load h) (wo_fs w) (st_config_dir cfg) = Inr (prompt, ac, variants, c)"
    "(case c of Some a \<Rightarrow> start_tools h ws a w | None \<Rightarrow> (Inr ([], []), w)) = (Inr (early, mgr), w2)"
    "finish_runtime h cfg override prompt ac variants c ws early mgr (wo_fs w2) = Inr rt"
    "ws = resolve_workspace (case c of Some a \<Rightarrow> ag_workspace a | None \<Rightarrow> []) (st_workspace cfg)"
    by (auto simp: build_runtime_def Let_def split: sum.splits prod.splits)
  from b(3) assms(2) obtain a0 where c: "c = Some a0"
    by (cases c) (auto simp: finish_runtime_def Let_def bind_res_def split: sum.splits)
  from b(3) obtain rag block dir found where r: "rag_tools h (ag_rag a0) = Inr (rag, block)"
    "rn_config rt = Some (a0\<lparr>ag_rag := block\<rparr>)" "rn_manager rt = mgr"
    "rn_registry rt = Some (build_registry (ag_allowed a0) (early @ rag @ late_tools h a0 dir found))"
    "rn_skills_summary rt = build_summary found"
    by (auto simp: finish_runtime_def c Let_def bind_res_def split: sum.splits prod.splits)
  from b(2) have early: "early = map (Pair False) (early_tools h ws a0) @ map (Pair True) (manager_tools (hs_mcp h) mgr)"
    by (auto simp: c start_tools_def Let_def manager_tools_def manager_refs_def split: sum.splits prod.splits option.splits if_splits)
  have a: "a = a0\<lparr>ag_rag := block\<rparr>" using r(2) assms(3) by simp
  have same: "early_tools h ws a0 = early_tools h ws a" "late_tools h a0 dir found = late_tools h a dir found" "ag_allowed a0 = ag_allowed a"
    by (simp_all add: a early_tools_def late_tools_def)
  show thesis
  proof (rule that [of ws rag dir found])
    show "R = build_registry (ag_allowed a) (map (Pair False) (early_tools h ws a) @ map (Pair True) (manager_tools (hs_mcp h) (rn_manager rt))
      @ rag @ late_tools h a dir found)"
      using r(3,4) assms(2) early same by simp
    show "\<forall>(b, t) \<in> set rag. b \<and> t_name t = ''rag_search'' \<and> ag_rag a \<noteq> None"
      using r(1) by (auto simp: a rag_tools_def split: option.splits sum.splits prod.splits)
    show "\<forall>(b, t) \<in> set rag. \<exists>v rc. t = rag_search_tool (hs_rag h) v rc"
      using r(1) by (fastforce simp: a rag_tools_def split: option.splits sum.splits prod.splits)
    show "ws = resolve_workspace (ag_workspace a) (st_workspace cfg)" using b(4) by (simp add: a c)
    show "ag_mcp a = [] \<longrightarrow> rn_manager rt = []"
      using b(2) r(3) by (auto simp: a c start_tools_def Let_def split: option.splits prod.splits)
    show "found = [] \<longleftrightarrow> rn_skills_summary rt = []"
      using r(5) by (simp add: build_summary_def)
    show "rag = [] \<longleftrightarrow> ag_rag a = None"
      using r(1) by (auto simp: a rag_tools_def split: option.splits sum.splits prod.splits)
  qed
qed

text \<open>The names that are registered, and the names that are registered past the list.\<close>

definition served_names :: "'s server_conn list \<Rightarrow> string set" where
  "served_names mgr = mcp_tool_name ` set (manager_refs mgr)"

definition builtin_names :: "string set" where
  "builtin_names = {''exec'', ''web_fetch'', ''read_file'', ''write_file'', ''remember''}"

lemma early_names: "(\<exists>t \<in> set (early_tools h ws a). t_name t = n) \<longleftrightarrow> n \<in> builtin_names"
  unfolding early_tools_def builtin_names_def
  by (simp only: list.set bex_simps tool_names insert_iff empty_iff simp_thms
      eq_commute [of n "''exec''"] eq_commute [of n "''web_fetch''"] eq_commute [of n "''read_file''"]
      eq_commute [of n "''write_file''"] eq_commute [of n "''remember''"])

lemma manager_names: "(\<exists>t \<in> set (manager_tools lib mgr). t_name t = n) \<longleftrightarrow> n \<in> served_names mgr"
  by (auto simp: manager_tools_def served_names_def)

lemma late_names:
  fixes h :: "('k, 's, 'n) host"
  shows
  "(\<exists>x \<in> set (late_tools h a dir found). t_name (snd x) = n) \<longleftrightarrow>
     n = ''fetch_document'' \<and> ag_documents a \<noteq> []
     \<or> (n = ''a2a_call'' \<and> ag_peers a \<noteq> []) \<and> ''a2a_call'' \<in> set (ag_allowed a)
     \<or> n = ''load_skill'' \<and> found \<noteq> []"
  "(\<exists>x \<in> set (late_tools h a dir found). fst x \<and> t_name (snd x) = n) \<longleftrightarrow> n = ''load_skill'' \<and> found \<noteq> []"
proof -
  have single: "(\<exists>x \<in> set (if c then [y] else []). P x) \<longleftrightarrow> P y \<and> c" for c P and y :: "bool \<times> 'n world tool" by auto
  show "(\<exists>x \<in> set (late_tools h a dir found). t_name (snd x) = n) \<longleftrightarrow>
     n = ''fetch_document'' \<and> ag_documents a \<noteq> []
     \<or> (n = ''a2a_call'' \<and> ag_peers a \<noteq> []) \<and> ''a2a_call'' \<in> set (ag_allowed a)
     \<or> n = ''load_skill'' \<and> found \<noteq> []"
    "(\<exists>x \<in> set (late_tools h a dir found). fst x \<and> t_name (snd x) = n) \<longleftrightarrow> n = ''load_skill'' \<and> found \<noteq> []"
    unfolding late_tools_def
    by (simp_all only: set_append bex_Un single fst_conv snd_conv tool_names length_greater_0_conv simp_thms conj_ac
      eq_commute [of n "''fetch_document''"] eq_commute [of n "''a2a_call''"] eq_commute [of n "''load_skill''"])
qed

lemma rag_names:
  assumes "\<forall>(b, t) \<in> set regs. b \<and> t_name t = m"
  shows "(\<exists>x \<in> set regs. t_name (snd x) = n) \<longleftrightarrow> n = m \<and> regs \<noteq> []"
    "(\<exists>x \<in> set regs. fst x \<and> t_name (snd x) = n) \<longleftrightarrow> n = m \<and> regs \<noteq> []"
  using assms by (cases regs; auto simp: case_prod_beta)+

text \<open>The tool that stands under a name: of an MCP server, or the program's own with its configuration.\<close>

lemma registered_tool:
  assumes "(b, t) \<in> set (map (Pair False) (early_tools h ws a) @ map (Pair True) (manager_tools lib mgr) @ rag @ late_tools h a dir found)"
    "\<forall>(b, t) \<in> set rag. \<exists>v rc. t = rag_search_tool (hs_rag h) v rc"
  shows "t \<in> set (manager_tools lib mgr) \<or> t \<in> set (early_tools h ws a)
    \<or> t = fetch_document_tool (hs_web h) (hs_decode_error h) (ag_documents a)
    \<or> t = a2a_runtime_tool h (map to_peer (ag_peers a)) \<or> (\<exists>v rc. t = rag_search_tool (hs_rag h) v rc)
    \<or> (\<exists>dir. t = load_skill_tool h dir)"
proof -
  have "(b, t) \<in> set (late_tools h a dir found) \<Longrightarrow> t = fetch_document_tool (hs_web h) (hs_decode_error h) (ag_documents a)
      \<or> t = a2a_runtime_tool h (map to_peer (ag_peers a)) \<or> t = load_skill_tool h dir"
    unfolding late_tools_def by (simp, blast)
  then show ?thesis using assms by auto
qed

text \<open>
  C34. The tools the model can call are exactly those the configuration grants. A name can be called
  if and only if an MCP server serves a tool under it; or it is one of the five built-in tools, or
  fetch_document while document services are configured, and the allow list is empty or has it; or it
  is a2a_call, peers are configured and the list has it; or it is rag_search and a document store is
  configured; or it is load_skill and skills were found. What runs under the name bears that name and
  is a tool of a server or the program's own, made of the configuration; it is the program's own
  whenever no server serves the name. A name that a server serves is callable whatever the list says,
  also when the name is that of a built-in tool, which may then be what runs (see
  \<open>served_name_opens_builtin\<close>).
\<close>

theorem callable_tools_granted:
  assumes "build_runtime h cfg override w = (Inr rt, w1)" "rn_registry rt = Some R" "rn_config rt = Some a"
  shows "let served = mcp_tool_name ` set (manager_refs (rn_manager rt));
             listed = (ag_allowed a = [] \<or> n \<in> set (ag_allowed a)) in
    (reg_get R n \<noteq> None \<longleftrightarrow>
       n \<in> served
       \<or> n \<in> {''exec'', ''web_fetch'', ''read_file'', ''write_file'', ''remember''} \<and> listed
       \<or> n = ''fetch_document'' \<and> ag_documents a \<noteq> [] \<and> listed
       \<or> n = ''a2a_call'' \<and> ag_peers a \<noteq> [] \<and> n \<in> set (ag_allowed a)
       \<or> n = ''rag_search'' \<and> ag_rag a \<noteq> None
       \<or> n = ''load_skill'' \<and> rn_skills_summary rt \<noteq> [])
    \<and> (\<forall>t. reg_get R n = Some t \<longrightarrow> t_name t = n \<and>
        (n \<in> served \<and> t \<in> set (manager_tools (hs_mcp h) (rn_manager rt))
         \<or> t \<in> set (early_tools h (resolve_workspace (ag_workspace a) (st_workspace cfg)) a)
         \<or> t = fetch_document_tool (hs_web h) (hs_decode_error h) (ag_documents a)
         \<or> t = a2a_runtime_tool h (map to_peer (ag_peers a))
         \<or> (\<exists>v rc. t = rag_search_tool (hs_rag h) v rc)
         \<or> (\<exists>dir. t = load_skill_tool h dir)))"
proof -
  obtain ws rag dir found where
    R: "R = build_registry (ag_allowed a) (map (Pair False) (early_tools h ws a) @ map (Pair True) (manager_tools (hs_mcp h) (rn_manager rt))
      @ rag @ late_tools h a dir found)" (is "R = build_registry _ ?regs")
    and rags: "\<forall>(b, t) \<in> set rag. b \<and> t_name t = ''rag_search'' \<and> ag_rag a \<noteq> None"
    and found: "found = [] \<longleftrightarrow> rn_skills_summary rt = []"
    and own: "\<forall>(b, t) \<in> set rag. \<exists>v rc. t = rag_search_tool (hs_rag h) v rc"
    and ws: "ws = resolve_workspace (ag_workspace a) (st_workspace cfg)"
    and rag: "rag = [] \<longleftrightarrow> ag_rag a = None"
    by (rule built_registrations [OF assms(1-3)])
  let ?served = "served_names (rn_manager rt)" and ?listed = "ag_allowed a = [] \<or> n \<in> set (ag_allowed a)"
  have "\<forall>(b, t) \<in> set rag. b \<and> t_name t = ''rag_search''" using rags by (simp add: case_prod_beta)
  note rag_name = rag_names [OF this, of n, unfolded rag]
  have names: "(\<exists>x \<in> set ?regs. t_name (snd x) = n) \<longleftrightarrow>
      (\<exists>t \<in> set (early_tools h ws a). t_name t = n) \<or> (\<exists>t \<in> set (manager_tools (hs_mcp h) (rn_manager rt)). t_name t = n)
      \<or> (\<exists>x \<in> set rag. t_name (snd x) = n) \<or> (\<exists>x \<in> set (late_tools h a dir found). t_name (snd x) = n)"
    by (simp add: bex_Un)
  have past: "(\<exists>x \<in> set ?regs. fst x \<and> t_name (snd x) = n) \<longleftrightarrow>
      (\<exists>t \<in> set (manager_tools (hs_mcp h) (rn_manager rt)). t_name t = n)
      \<or> (\<exists>x \<in> set rag. fst x \<and> t_name (snd x) = n) \<or> (\<exists>x \<in> set (late_tools h a dir found). fst x \<and> t_name (snd x) = n)"
    by (simp add: bex_Un)
  have call: "(n = ''a2a_call'' \<and> ag_peers a \<noteq> []) \<and> ''a2a_call'' \<in> set (ag_allowed a)
      \<longleftrightarrow> (n = ''a2a_call'' \<and> ag_peers a \<noteq> []) \<and> n \<in> set (ag_allowed a)" by metis
  have pick: "(E \<or> S \<or> G \<or> D \<or> A \<and> N \<or> K) \<and> (L \<or> N \<or> S \<or> G \<or> K)
      \<longleftrightarrow> S \<or> E \<and> (L \<or> N) \<or> D \<and> (L \<or> N) \<or> A \<and> N \<or> G \<or> K" for E S G D A N K L by blast
  have "reg_get R n \<noteq> None \<longleftrightarrow> n \<in> ?served \<or> n \<in> builtin_names \<and> ?listed
       \<or> (n = ''fetch_document'' \<and> ag_documents a \<noteq> []) \<and> ?listed
       \<or> (n = ''a2a_call'' \<and> ag_peers a \<noteq> []) \<and> n \<in> set (ag_allowed a)
       \<or> n = ''rag_search'' \<and> ag_rag a \<noteq> None \<or> n = ''load_skill'' \<and> rn_skills_summary rt \<noteq> []"
    unfolding R reg_get_iff names past early_names manager_names rag_name late_names found call by (rule pick)
  moreover have "t_name t = n \<and> (n \<in> ?served \<and> t \<in> set (manager_tools (hs_mcp h) (rn_manager rt))
      \<or> t \<in> set (early_tools h ws a) \<or> t = fetch_document_tool (hs_web h) (hs_decode_error h) (ag_documents a)
      \<or> t = a2a_runtime_tool h (map to_peer (ag_peers a)) \<or> (\<exists>v rc. t = rag_search_tool (hs_rag h) v rc)
      \<or> (\<exists>dir. t = load_skill_tool h dir))" if "reg_get R n = Some t" for t
  proof -
    note reg = reg_get_registered [OF that [unfolded R]]
    from reg(2) obtain b where "(b, t) \<in> set ?regs" ..
    from registered_tool [OF this own] show ?thesis
      using reg(1) manager_names [of "hs_mcp h" "rn_manager rt" n] by blast
  qed
  ultimately show ?thesis unfolding Let_def served_names_def builtin_names_def ws conj_assoc by blast
qed

subsection \<open>No session is left behind\<close>

text \<open>
  C35. Every session with an MCP server is accounted for. A build of the runtime that fails, wherever
  it does, leaves exactly the sessions open that were open before; one that succeeds adds the
  sessions its manager holds, and closing the runtime closes them again.
\<close>

theorem build_accounts_for_sessions:
  assumes "session_book (hs_mcp h) (\<lambda>w. book (wo_net w))"
  shows "case build_runtime h cfg override w of
      (Inl e, w1) \<Rightarrow> book (wo_net w1) = book (wo_net w)
    | (Inr rt, w1) \<Rightarrow> book (wo_net w1) = book (wo_net w) + open_sessions (rn_manager rt)
        \<and> book (wo_net (snd (close_runtime h rt w1))) = book (wo_net w)"
proof -
  let ?opened = "\<lambda>w. book (wo_net w)"
  note opens = session_book.new_manager_opened [OF assms] and closes = session_book.close_manager_opened [OF assms]
  have start: "?opened w1 = (case r of Inl e \<Rightarrow> ?opened w | Inr (early, mgr) \<Rightarrow> ?opened w + open_sessions mgr)"
    if "(case c of Some a \<Rightarrow> start_tools h ws a w | None \<Rightarrow> (Inr ([], []), w)) = (r, w1)" for c ws r w1
    using that by (auto simp: start_tools_def Let_def open_sessions_def dest!: opens split: option.splits prod.splits sum.splits if_splits)
  have mgr: "rn_manager rt = mgr" if "finish_runtime h cfg override p ac vs c ws early mgr F = Inr rt" for p ac vs c ws early mgr F rt
    using that by (auto simp: finish_runtime_def Let_def bind_res_def split: sum.splits option.splits prod.splits)
  show ?thesis
    by (auto simp: build_runtime_def Let_def closes close_runtime_def dest!: start mgr split: sum.splits prod.splits)
qed

subsection \<open>An example\<close>

definition demo_mcp :: "(nat, nat multiset world) mcp_lib" where
  "demo_mcp =
     \<lparr>mcp_connect = (\<lambda>tr w. (Inr 7, w\<lparr>wo_net := add_mset 7 (wo_net w)\<rparr>)),
      mcp_list_tools = (\<lambda>s w. (Inr [\<lparr>mi_name = ''echo'', mi_description = [], mi_schema = None\<rparr>], w)),
      mcp_call = (\<lambda>s n a w. (Inr \<lparr>mr_parts = [], mr_is_error = False\<rparr>, w)),
      mcp_close = (\<lambda>s w. (None, w\<lparr>wo_net := wo_net w - {#s#}\<rparr>))\<rparr>"

interpretation demo_sessions: session_book demo_mcp "\<lambda>w. wo_net w"
  by unfold_locales (auto simp: demo_mcp_def)

definition demo_agent :: "nat agent_config" where
  "demo_agent = \<lparr>ag_allowed = [''read_file''], ag_exec = \<lparr>ec_timeout = 0, ec_max_output = 0\<rparr>, ag_allowed_hosts = [],
     ag_workspace = ''/ws'', ag_mcp = [\<lparr>ms_name = ''m'', ms_transport = ''stdio'', ms_url = [], ms_command = ''serve'',
       ms_args = [], ms_env = []\<rparr>], ag_max_iterations = 0, ag_rag = None, ag_skills_dir = [], ag_documents = [],
     ag_inbound = None, ag_peers = []\<rparr>"

definition demo_loading :: "nat config_lib" where
  "demo_loading = \<lparr>ll_yaml = (\<lambda>_. Inr demo_agent), ll_card = (\<lambda>_. Inr fallback_card), ll_json_error = (\<lambda>s. s),
     ll_url_error = (\<lambda>s. s), ll_duration_error = (\<lambda>s. s), ll_quote = (\<lambda>s. s), ll_lower = (\<lambda>s. s),
     ll_keys = \<lparr>kl_pem = (\<lambda>_. None), kl_pkix = (\<lambda>s. Inl s), kl_pkcs1 = (\<lambda>_. None)\<rparr>\<rparr>"

definition demo_host :: "(nat, nat, nat multiset) host" where
  "demo_host = \<lparr>hs_load = demo_loading, hs_skill_yaml = (\<lambda>_. None), hs_shell = undefined, hs_panic = undefined,
     hs_web = undefined, hs_decode_error = undefined, hs_a2a = undefined, hs_cards = undefined, hs_rag = undefined,
     hs_mcp = demo_mcp, hs_environ = [], hs_clock = (\<lambda>_. 0),
     hs_ctors = \<lparr>new_anthropic = None, new_openai_compat = None\<rparr>, hs_stderr = (\<lambda>_ w. w), hs_number = (\<lambda>_. [])\<rparr>"

definition demo_settings :: "string \<Rightarrow> settings" where
  "demo_settings key = \<lparr>st_service = \<lparr>sc_port = 8000, sc_health_port = 8100, sc_host = [], sc_plain_http = True, sc_log_level = ''info''\<rparr>,
     st_otel = \<lparr>ot_enabled = False, ot_collector = [], ot_stdout = False\<rparr>, st_config_dir = ''/cfg'', st_skills_dir = [],
     st_workspace = [], st_profile = [], st_llm = default_config\<lparr>cfg_api_key := key\<rparr>, st_session_db = []\<rparr>"

definition demo_world :: "nat multiset world" where
  "demo_world = \<lparr>wo_fs = \<lparr>fs_nodes = [([''cfg''], DirNode), ([''cfg'', ''system-prompt.txt''], FileNode ''be brief''),
     ([''cfg'', ''agent-config.yaml''], FileNode ''tools'')], fs_cwd = []\<rparr>, wo_verified = [], wo_net = {#}\<rparr>"

lemma demo_built:
  "case fst (build_runtime demo_host (demo_settings []) None demo_world) of
     Inl e \<Rightarrow> False
   | Inr rt \<Rightarrow> rn_config rt \<noteq> None \<and> (case rn_registry rt of None \<Rightarrow> False
       | Some R \<Rightarrow> reg_get R ''read_file'' \<noteq> None \<and> reg_get R ''m_echo'' \<noteq> None \<and> reg_get R ''exec'' = None)"
  by code_simp

theorem callable_tools_granted_witness:
  "case fst (build_runtime demo_host (demo_settings []) None demo_world) of
     Inl e \<Rightarrow> False
   | Inr rt \<Rightarrow> (case rn_registry rt of None \<Rightarrow> False
       | Some R \<Rightarrow> reg_get R ''rag_search'' = None \<and> (case reg_get R ''read_file'' of None \<Rightarrow> False | Some t \<Rightarrow> t_name t = ''read_file''))"
proof -
  let ?b = "build_runtime demo_host (demo_settings []) None demo_world"
  from demo_built obtain rt R a t where b: "?b = (Inr rt, snd ?b)" "rn_config rt = Some a" "rn_registry rt = Some R"
    "reg_get R ''read_file'' = Some t"
    by (cases ?b) (auto split: sum.splits option.splits)
  have "case fst ?b of Inl e \<Rightarrow> False | Inr rt \<Rightarrow> (case rn_config rt of None \<Rightarrow> False | Some a \<Rightarrow> ag_rag a = None)
      \<and> map mcp_tool_name (manager_refs (rn_manager rt)) = [''m_echo'']" by code_simp
  then have "ag_rag a = None" "map mcp_tool_name (manager_refs (rn_manager rt)) = [''m_echo'']"
    using b(1,2) by (cases ?b; simp)+
  then have none: "ag_rag a = None" "mcp_tool_name ` set (manager_refs (rn_manager rt)) = {''m_echo''}"
    by (metis, metis list.simps(15) empty_set list.set_map)
  note granted = callable_tools_granted [OF b(1,3,2)]
  have "reg_get R ''rag_search'' = None" using granted [of "''rag_search''"] none by (simp add: Let_def)
  moreover have "t_name t = ''read_file''" using granted [of "''read_file''"] b(4) by (simp add: Let_def)
  ultimately show ?thesis using b by (cases ?b) auto
qed

text \<open>
  The recorded hole in the allow list: with a server "fetch" that has a tool "document", the name
  fetch_document passes the list, and the built-in tool, registered later, is what runs.
\<close>

lemma served_name_opens_builtin:
  assumes "ag_documents a \<noteq> []" "\<exists>u \<in> set served. t_name u = ''fetch_document''"
  shows "reg_get (build_registry allowed (map (Pair False) (early_tools h ws a) @ map (Pair True) served @ late_tools h a dir found))
      ''fetch_document'' = Some (fetch_document_tool (hs_web h) (hs_decode_error h) (ag_documents a))"
  using assms by (auto simp: reg_get_build callable_def late_tools_def)

text \<open>With a key but no constructor the build fails after the server is connected.\<close>

theorem build_accounts_for_sessions_witness:
  "case build_runtime demo_host (demo_settings ''key'') None demo_world of
     (Inl e, w1) \<Rightarrow> wo_net w1 = {#} | (Inr rt, w1) \<Rightarrow> False"
proof -
  have "session_book (hs_mcp demo_host) (\<lambda>w. (\<lambda>x. x) (wo_net w))"
    using demo_sessions.session_book_axioms by (simp add: demo_host_def)
  from build_accounts_for_sessions [OF this, where cfg = "demo_settings ''key''" and override = None and w = demo_world]
  have "case build_runtime demo_host (demo_settings ''key'') None demo_world of
      (Inl e, w1) \<Rightarrow> wo_net w1 = {#} | (Inr rt, w1) \<Rightarrow> True" by (auto simp: demo_world_def split: sum.splits prod.splits)
  moreover have "isl (fst (build_runtime demo_host (demo_settings ''key'') None demo_world))" by code_simp
  ultimately show ?thesis by (auto simp: isl_def split: sum.splits prod.splits)
qed

end
