(* ===== verification/Serve.thy ===== *)
theory Serve
  imports Runtime
begin

section \<open>The service: newServeHandler and runServe\<close>

text \<open>
  The routes of the main server, the session store behind the A2A executor, the middleware in front,
  and what runServe listens on. The A2A library is a parameter: given the executor it handles a
  JSON-RPC request. So are the JOSE library, the encoder of the card, opening the database, and the
  answer of \<open>ServeMux\<close> to a request no route takes (a redirect to the clean path, 404 or 405).
\<close>

subsection \<open>The session store\<close>

datatype session_state = NoSessions | InMemory memory_store | InDatabase sql_store

text \<open>The two stores behind one interface; the executor has none when there are no sessions.\<close>

definition lift_store ::
  "(sql_error \<Rightarrow> string) \<Rightarrow> (memory_store \<Rightarrow> (string + 'r) \<times> memory_store) \<Rightarrow> (sql_store \<Rightarrow> (sql_error + 'r) \<times> sql_store) \<Rightarrow>
   session_state \<Rightarrow> (string + 'r) \<times> session_state" where
  "lift_store err on_mem on_sql st =
     (case st of
        InMemory m \<Rightarrow> (let (r, m1) = on_mem m in (r, InMemory m1))
      | InDatabase d \<Rightarrow> (let (r, d1) = on_sql d in (case r of Inl e \<Rightarrow> Inl (err e) | Inr x \<Rightarrow> Inr x, InDatabase d1))
      | NoSessions \<Rightarrow> (Inl [], NoSessions))"

definition served_sessions :: "(sql_error \<Rightarrow> string) \<Rightarrow> (sql_faults, string, session_state) session_backend" where
  "served_sessions err =
     \<lparr>sb_get_or_create = (\<lambda>f k p now. lift_store err (mem_get_or_create k p now) (sql_get_or_create f k p now)),
      sb_append = (\<lambda>f k m now. lift_store err (mem_append k m now) (sql_append f k m now)),
      sb_append_and_snapshot = (\<lambda>f k m now. lift_store err (mem_append_and_snapshot k m now) (sql_append_and_snapshot f k m now)),
      sb_error_text = (\<lambda>e. e)\<rparr>"

subsection \<open>Parameters\<close>

text \<open>What a request brings besides its text: the keys and the clock, the random bytes of an id, and how it came.\<close>

record 'kk moment =
  mo_keys :: "string \<Rightarrow> key_error + 'kk"
  mo_now :: int
  mo_rand :: string
  mo_tls :: bool
  mo_host :: string
  mo_plain :: bool

type_synonym auth_request = "claims option http_request"

record ('kk, 'n) serve_lib =
  sl_jwt :: "string \<Rightarrow> 'kk \<Rightarrow> string \<Rightarrow> jwt option"
  sl_rpc :: "(sql_faults, string, session_state, 'n world) executor \<Rightarrow> auth_request \<Rightarrow> session_state \<times> 'n world \<Rightarrow>
    http_response \<times> session_state \<times> 'n world"
  sl_card :: "agent_card \<Rightarrow> string + string"
  sl_json :: json_errors
  sl_unmatched :: "auth_request \<Rightarrow> http_response"
  sl_open_db :: "string \<Rightarrow> int \<Rightarrow> 'n world \<Rightarrow> (string + sql_store) \<times> 'n world"
  sl_chmod :: "string \<Rightarrow> 'n world \<Rightarrow> string option \<times> 'n world"
  sl_sql_error :: "sql_error \<Rightarrow> string"
  sl_env :: "string \<Rightarrow> string"

subsection \<open>Handlers\<close>

definition health_response :: http_response where
  "health_response = \<lparr>rs_status = 200, rs_headers = header_set ''Content-Type'' ''application/json'' [],
     rs_body = json_body (JObj [(''status'', JStr ''healthy'')])\<rparr>"

definition served_card :: "('k, 's, 'n) agent_runtime \<Rightarrow> agent_card" where
  "served_card rt =
     (let ac = rn_card rt in
      if length (card_interfaces ac) = 0
      then ac\<lparr>card_interfaces := [jsonrpc_interface (''http://localhost:'' @ itoa (sc_port (st_service (rn_settings rt))))]\<rparr>
      else ac)"

definition serve_executor ::
  "('k, 's, 'n) host \<Rightarrow> ('kk, 'n) serve_lib \<Rightarrow> ('k, 's, 'n) agent_runtime \<Rightarrow> (sql_faults, string, session_state, 'n world) executor" where
  "serve_executor h lib rt =
     \<lparr>ex_process = Some (agent_run h rt None),
      ex_sessions = (if rn_registry rt = None then None else Some (served_sessions (sl_sql_error lib))),
      ex_system_prompt = rn_system_prompt rt\<rparr>"

definition openai_handler :: "('k, 's, 'n) agent_runtime \<Rightarrow> 'n world oai_handler" where
  "openai_handler rt =
     \<lparr>oh_provider = map_option lp_api (rn_provider rt), oh_system_prompt = rn_system_prompt rt, oh_registry = rn_registry rt,
      oh_loop_config = rn_loop rt,
      oh_agent_card = Some (map (\<lambda>s. \<lparr>sk_id = as_id s, sk_name = as_name s, sk_description = as_description s\<rparr>)
        (card_skills (served_card rt))),
      oh_agent_name = card_name (served_card rt)\<rparr>"

text \<open>
  The signed card is read once, when the handler is made; without one the card is made for each
  request.
\<close>

definition card_response :: "('kk, 'n) serve_lib \<Rightarrow> ('k, 's, 'n) agent_runtime \<Rightarrow> fs \<Rightarrow> 'kk moment \<Rightarrow> auth_request \<Rightarrow> http_response" where
  "card_response lib rt F m =
     signed_card_handler F (sl_env lib ''AGENT_CARD_SIGNED_PATH'')
       (\<lambda>r. dynamic_card_handler (sl_card lib) (served_card rt) (mo_tls m) (mo_host m) (rq_headers r))"

subsection \<open>Routes\<close>

datatype route = HealthRoute | CardRoute | RpcRoute | ChatRoute | ModelsRoute | SkillsRoute

text \<open>The patterns with their methods; a pattern without one takes every method.\<close>

definition serve_routes :: "(string option \<times> string \<times> route) list" where
  "serve_routes =
     [(None, ''/health'', HealthRoute),
      (Some ''GET'', ''/.well-known/agent-card.json'', CardRoute),
      (Some ''POST'', ''/a2a'', RpcRoute),
      (Some ''POST'', ''/'', RpcRoute),
      (Some ''POST'', ''/v1/chat/completions'', ChatRoute),
      (Some ''GET'', ''/v1/models'', ModelsRoute),
      (Some ''GET'', ''/v1/skills'', SkillsRoute)]"

text \<open>
  None of the patterns ends in a slash, so each takes one path; GET also takes HEAD. \<open>ServeMux\<close>
  compares the segments of the escaped path, so a path with an escaped slash (\<open>plain\<close> is false) takes no route.
\<close>

definition route_of :: "bool \<Rightarrow> 'c http_request \<Rightarrow> route option" where
  "route_of plain r =
     (if \<not> plain then None
      else map_option (snd \<circ> snd)
        (find (\<lambda>(meth, path, _). rq_path r = path \<and>
           (case meth of None \<Rightarrow> True
            | Some m \<Rightarrow> rq_method r = m \<or> (m = ''GET'' \<and> rq_method r = ''HEAD''))) serve_routes))"

definition serve_mux ::
  "('k, 's, 'n) host \<Rightarrow> ('kk, 'n) serve_lib \<Rightarrow> ('k, 's, 'n) agent_runtime \<Rightarrow> fs \<Rightarrow> 'kk moment \<Rightarrow> auth_request \<Rightarrow>
   session_state \<times> 'n world \<Rightarrow> http_response \<times> session_state \<times> 'n world" where
  "serve_mux h lib rt F m r sw =
     (case route_of (mo_plain m) r of
        None \<Rightarrow> (sl_unmatched lib r, sw)
      | Some HealthRoute \<Rightarrow> (health_response, sw)
      | Some CardRoute \<Rightarrow> (card_response lib rt F m r, sw)
      | Some RpcRoute \<Rightarrow> sl_rpc lib (serve_executor h lib rt) r sw
      | Some ChatRoute \<Rightarrow>
          (let (resp, w1) = chat_completion (sl_json lib) (openai_handler rt) (mo_rand m) (mo_now m) (rq_body r) (snd sw)
           in (resp, fst sw, w1))
      | Some ModelsRoute \<Rightarrow> (models_handler (quote_of h) (openai_handler rt) (mo_now m), sw)
      | Some SkillsRoute \<Rightarrow> (skills_handler (openai_handler rt), sw))"

subsection \<open>newServeHandler\<close>

record ('kk, 'n) served =
  sv_handler :: "'kk moment \<Rightarrow> auth_request \<Rightarrow> session_state \<times> 'n world \<Rightarrow> http_response \<times> session_state \<times> 'n world"
  sv_sessions :: session_state

definition exempt_paths :: "string list" where
  "exempt_paths = [''/.well-known/agent-card.json'', ''/health'']"

definition session_ttl :: int where "session_ttl = 30 * 60 * 10 ^ 9"

definition session_db :: "('kk, 'n) serve_lib \<Rightarrow> settings \<Rightarrow> string" where
  "session_db lib cfg = or_else (or_else (st_session_db cfg) (sl_env lib ''DOCSCLAW_SESSION_DB'')) ''memory''"

text \<open>The sessions of a runtime; the database directory is made, the file opened and closed to others.\<close>

definition open_sessions_of ::
  "('kk, 'n) serve_lib \<Rightarrow> ('k, 's, 'n) agent_runtime \<Rightarrow> 'n world \<Rightarrow> (string + session_state) \<times> 'n world" where
  "open_sessions_of lib rt w =
     (if rn_registry rt = None then (Inr NoSessions, w)
      else let db = session_db lib (rn_settings rt) in
        if db = ''memory'' then (Inr (InMemory (new_memory_store session_ttl)), w)
        else (let (err, F) = mkdir_all (wo_fs w) (path_dir db); w1 = w\<lparr>wo_fs := F\<rparr> in
          case err of
            Some e \<Rightarrow> (Inl (''failed to create session db directory: '' @ path_error_text e), w1)
          | None \<Rightarrow>
              (case sl_open_db lib db session_ttl w1 of
                 (Inl e, w2) \<Rightarrow> (Inl (''failed to open session database: '' @ e), w2)
               | (Inr s, w2) \<Rightarrow>
                   (case sl_chmod lib db w2 of
                      (Some e, w3) \<Rightarrow> (Inl (''failed to set session db permissions: '' @ e), w3)
                    | (None, w3) \<Rightarrow> (Inr (InDatabase s), w3)))))"

definition auth_config_error_text :: "auth_config_error \<Rightarrow> string" where
  "auth_config_error_text e =
     (case e of
        IssuerRequired \<Rightarrow> ''inboundauth: issuer is required''
      | JwksUrlRequired \<Rightarrow> ''inboundauth: jwks_url is required''
      | JwksUrlNotAbsolute \<Rightarrow> ''inboundauth: jwks_url must be an absolute http or https URL''
      | AudienceRequired \<Rightarrow> ''inboundauth: audience is required'')"

definition auth_block :: "('k, 's, 'n) agent_runtime \<Rightarrow> inbound_cfg option" where
  "auth_block rt =
     (case rn_config rt of
        None \<Rightarrow> None
      | Some a \<Rightarrow> (case ag_inbound a of None \<Rightarrow> None | Some b \<Rightarrow> if in_enabled b then Some b else None))"

definition guard_handler ::
  "('k, 's, 'n) host \<Rightarrow> ('kk, 'n) serve_lib \<Rightarrow> ('k, 's, 'n) agent_runtime \<Rightarrow>
   ('kk moment \<Rightarrow> auth_request \<Rightarrow> session_state \<times> 'n world \<Rightarrow> http_response \<times> session_state \<times> 'n world) \<Rightarrow>
   string + ('kk moment \<Rightarrow> auth_request \<Rightarrow> session_state \<times> 'n world \<Rightarrow> http_response \<times> session_state \<times> 'n world)" where
  "guard_handler h lib rt mux =
     (case auth_block rt of
        None \<Rightarrow> Inr mux
      | Some b \<Rightarrow>
          (case to_inbound_auth (hs_load h) (Some b) exempt_paths of
             Inl e \<Rightarrow> Inl (''inbound auth: '' @ e)
           | Inr cfg \<Rightarrow>
               (case auth_middleware (sl_jwt lib) cfg of
                  Inl e \<Rightarrow> Inl (''inbound auth: '' @ auth_config_error_text e)
                | Inr wrap \<Rightarrow> Inr (\<lambda>m. wrap (mo_keys m) (mo_now m) (mux m)))))"

definition new_serve_handler ::
  "('k, 's, 'n) host \<Rightarrow> ('kk, 'n) serve_lib \<Rightarrow> ('k, 's, 'n) agent_runtime \<Rightarrow> 'n world \<Rightarrow> (string + ('kk, 'n) served) \<times> 'n world" where
  "new_serve_handler h lib rt w =
     (case open_sessions_of lib rt w of
        (Inl e, w1) \<Rightarrow> (Inl e, w1)
      | (Inr st, w1) \<Rightarrow>
          (case guard_handler h lib rt (serve_mux h lib rt (wo_fs w1)) of
             Inl e \<Rightarrow> (Inl e, w1)
           | Inr handler \<Rightarrow> (Inr \<lparr>sv_handler = handler, sv_sessions = st\<rparr>, w1)))"

subsection \<open>runServe\<close>

text \<open>The health server answers three paths of its own address; \<open>metrics\<close> is the handler of the metrics package.\<close>

definition health_mux :: "(unit \<Rightarrow> http_response) \<Rightarrow> (auth_request \<Rightarrow> http_response) \<Rightarrow> auth_request \<Rightarrow> http_response" where
  "health_mux metrics unmatched r =
     (if rq_path r = ''/health'' \<or> rq_path r = ''/ready'' then health_response
      else if rq_path r = ''/metrics'' then metrics () else unmatched r)"

record ('k, 's, 'kk, 'n) running =
  ru_runtime :: "('k, 's, 'n) agent_runtime"
  ru_served :: "('kk, 'n) served"
  ru_addr :: string
  ru_health_addr :: string

text \<open>Up to the point where the servers listen; an error closes the runtime. \<open>otel\<close> is the error of the tracing set-up.\<close>

definition run_serve ::
  "('k, 's, 'n) host \<Rightarrow> ('kk, 'n) serve_lib \<Rightarrow> viper \<Rightarrow> string option \<Rightarrow> 'n world \<Rightarrow>
   (string + ('k, 's, 'kk, 'n) running) \<times> 'n world" where
  "run_serve h lib v otel w =
     (case load_config (sl_env lib) v of
        Inl e \<Rightarrow> (Inl e, w)
      | Inr cfg \<Rightarrow>
          (case build_runtime h cfg None w of
             (Inl e, w1) \<Rightarrow> (Inl e, w1)
           | (Inr rt0, w1) \<Rightarrow>
               (let bind_host = resolve_host (sc_host (st_service cfg)) (auth_block rt0 \<noteq> None);
                    service = (st_service cfg)\<lparr>sc_host := bind_host\<rparr>;
                    rt = rt0\<lparr>rn_settings := (rn_settings rt0)\<lparr>st_service := (st_service (rn_settings rt0))\<lparr>sc_host := bind_host\<rparr>\<rparr>\<rparr> in
                case otel of
                  Some e \<Rightarrow> (Inl (''failed to initialize OpenTelemetry: '' @ e), snd (close_runtime h rt w1))
                | None \<Rightarrow>
                    (case new_serve_handler h lib rt w1 of
                       (Inl e, w2) \<Rightarrow> (Inl e, snd (close_runtime h rt w2))
                     | (Inr s, w2) \<Rightarrow>
                         (Inr \<lparr>ru_runtime = rt, ru_served = s, ru_addr = service_addr service,
                            ru_health_addr = health_addr service\<rparr>, w2)))))"

subsection \<open>The guarded service\<close>

lemma exempt_route:
  "path_clean (rq_path r) \<in> set exempt_paths \<Longrightarrow> route_of plain r \<in> {None, Some HealthRoute, Some CardRoute}"
proof -
  assume a: "path_clean (rq_path r) \<in> set exempt_paths"
  have "path_clean ''/a2a'' \<notin> set exempt_paths" "path_clean ''/'' \<notin> set exempt_paths"
    "path_clean ''/v1/chat/completions'' \<notin> set exempt_paths" "path_clean ''/v1/models'' \<notin> set exempt_paths"
    "path_clean ''/v1/skills'' \<notin> set exempt_paths" by code_simp+
  with a have "rq_path r \<notin> {''/a2a'', ''/'', ''/v1/chat/completions'', ''/v1/models'', ''/v1/skills''}" by auto
  then show ?thesis by (auto simp: route_of_def serve_routes_def)
qed

lemma exempt_answers:
  assumes "path_clean (rq_path r) \<in> set exempt_paths"
  shows "snd (serve_mux h lib rt F m r sw) = sw
    \<and> fst (serve_mux h lib rt F m r sw) \<in> {health_response, card_response lib rt F m r, sl_unmatched lib r}"
  using exempt_route [OF assms, of "mo_plain m"] by (auto simp: serve_mux_def)

lemma auth_handler_cases:
  obtains (denied) "\<exists>e. denial e \<and> auth_handler J cfg keys now next_handler r w = (write_auth_error e, w)"
  | (exempt) "path_clean (rq_path r) \<in> set (ac_exempt_paths cfg)"
      "auth_handler J cfg keys now next_handler r w = next_handler (r\<lparr>rq_headers := header_del ''Authorization'' (rq_headers r)\<rparr>) w"
  | (verified) v token c where "header_values ''Authorization'' (rq_headers r) = [v]" "parse_bearer v = Some token"
      "verify_token J cfg keys now token = Inr c"
      "auth_handler J cfg keys now next_handler r w
        = next_handler (r\<lparr>rq_headers := header_del ''Authorization'' (rq_headers r), rq_context := Some c\<rparr>) w"
proof (cases "auth_decide J cfg keys now r")
  case (Inl e)
  then show ?thesis using auth_decide_denial [OF Inl] denied by (auto simp: auth_handler_def)
next
  case (Inr r1)
  then show ?thesis using exempt verified
    by (auto simp: auth_handler_def auth_decide_def is_exempt_iff split: if_splits list.splits option.splits sum.splits)
qed

lemma guarded_cases:
  assumes "guard_handler h lib rt mux = Inr handler" "auth_block rt = Some b"
  obtains cfg where "to_inbound_auth (hs_load h) (Some b) exempt_paths = Inr cfg" "ac_exempt_paths cfg = exempt_paths"
    "handler = (\<lambda>m. auth_handler (sl_jwt lib) (with_defaults cfg) (mo_keys m) (mo_now m) (mux m))"
proof -
  from assms obtain cfg where c: "to_inbound_auth (hs_load h) (Some b) exempt_paths = Inr cfg"
    "handler = (\<lambda>m. auth_handler (sl_jwt lib) (with_defaults cfg) (mo_keys m) (mo_now m) (mux m))"
    by (auto simp: guard_handler_def auth_middleware_def Let_def split: sum.splits option.splits)
  moreover from c(1) have "ac_exempt_paths cfg = exempt_paths"
    by (auto simp: to_inbound_auth_def Let_def split: if_splits option.splits)
  ultimately show thesis using that by blast
qed

lemma write_auth_error_status: "rs_status (write_auth_error e) = ae_status e"
  by (simp add: write_auth_error_def Let_def)

text \<open>
  C36. A service that runs with inbound authentication is guarded. For every request either it is
  denied with 401, 403 or 503; or its clean path is that of the card or of the health check and it
  is answered with these or with the library's answer to an unknown path, whatever its method and
  its spelling; or it carries one Authorization header whose token verifies under the configured
  issuer, audience and policy, and the routes see it without the header and with the verified
  claims. In the first two cases no session and nothing of the world changes. Without a
  configured host the service listens on the loopback address only.
\<close>

theorem running_service_guarded:
  assumes "run_serve h lib v otel w = (Inr ru, w1)" "auth_block (ru_runtime ru) = Some b"
  shows "\<exists>cfg. to_inbound_auth (hs_load h) (Some b) exempt_paths = Inr cfg \<and>
     (let (resp, sw1) = sv_handler (ru_served ru) m r sw; rt = ru_runtime ru;
          bare = r\<lparr>rq_headers := header_del ''Authorization'' (rq_headers r)\<rparr> in
        (rs_status resp \<in> {401, 403, 503} \<and> sw1 = sw)
      \<or> (path_clean (rq_path r) \<in> {''/.well-known/agent-card.json'', ''/health''} \<and> sw1 = sw
          \<and> resp \<in> {health_response, card_response lib rt (wo_fs w1) m bare, sl_unmatched lib bare})
      \<or> (\<exists>a token c. header_values ''Authorization'' (rq_headers r) = [a] \<and> parse_bearer a = Some token
          \<and> verify_token (sl_jwt lib) (with_defaults cfg) (mo_keys m) (mo_now m) token = Inr c
          \<and> (resp, sw1) = serve_mux h lib rt (wo_fs w1) m (bare\<lparr>rq_context := Some c\<rparr>) sw))
     \<and> (\<exists>st. load_config (sl_env lib) v = Inr st
          \<and> (if sc_host (st_service st) = [] then ru_addr ru = ''127.0.0.1:'' @ itoa (sc_port (st_service st)) else True))"
proof -
  from assms(1) obtain st rt0 w0 where run: "load_config (sl_env lib) v = Inr st"
    "build_runtime h st None w = (Inr rt0, w0)"
    "new_serve_handler h lib (ru_runtime ru) w0 = (Inr (ru_served ru), w1)"
    "auth_block (ru_runtime ru) = auth_block rt0"
    "ru_addr ru = service_addr ((st_service st)\<lparr>sc_host := resolve_host (sc_host (st_service st)) (auth_block rt0 \<noteq> None)\<rparr>)"
    by (auto simp: run_serve_def Let_def auth_block_def split: sum.splits prod.splits option.splits)
  let ?rt = "ru_runtime ru" and ?bare = "r\<lparr>rq_headers := header_del ''Authorization'' (rq_headers r)\<rparr>"
  let ?F = "wo_fs w1"
  have "guard_handler h lib ?rt (serve_mux h lib ?rt ?F) = Inr (sv_handler (ru_served ru))"
    using run(3) by (cases "ru_served ru") (auto simp: new_serve_handler_def split: sum.splits prod.splits)
  then obtain cfg where cfg: "to_inbound_auth (hs_load h) (Some b) exempt_paths = Inr cfg" "ac_exempt_paths cfg = exempt_paths"
    "sv_handler (ru_served ru) = (\<lambda>m. auth_handler (sl_jwt lib) (with_defaults cfg) (mo_keys m) (mo_now m) (serve_mux h lib ?rt ?F m))"
    using guarded_cases [OF _ assms(2)] by blast
  have ex: "set (ac_exempt_paths (with_defaults cfg)) = {''/.well-known/agent-card.json'', ''/health''}"
    by (simp add: with_defaults_def cfg(2) exempt_paths_def)
  have addr: "if sc_host (st_service st) = [] then ru_addr ru = ''127.0.0.1:'' @ itoa (sc_port (st_service st)) else True"
    using run(5) assms(2) unfolding run(4) by (simp add: service_addr_def resolve_host_def)
  obtain resp sw1 where call: "sv_handler (ru_served ru) m r sw = (resp, sw1)" by (cases "sv_handler (ru_served ru) m r sw") blast
  have "(rs_status resp \<in> {401, 403, 503} \<and> sw1 = sw)
      \<or> (path_clean (rq_path r) \<in> {''/.well-known/agent-card.json'', ''/health''} \<and> sw1 = sw
          \<and> resp \<in> {health_response, card_response lib ?rt ?F m ?bare, sl_unmatched lib ?bare})
      \<or> (\<exists>a token c. header_values ''Authorization'' (rq_headers r) = [a] \<and> parse_bearer a = Some token
          \<and> verify_token (sl_jwt lib) (with_defaults cfg) (mo_keys m) (mo_now m) token = Inr c
          \<and> (resp, sw1) = serve_mux h lib ?rt ?F m (?bare\<lparr>rq_context := Some c\<rparr>) sw)"
  proof (rule auth_handler_cases [of "sl_jwt lib" "with_defaults cfg" "mo_keys m" "mo_now m" "serve_mux h lib ?rt ?F m" r sw])
    assume "\<exists>e. denial e \<and> auth_handler (sl_jwt lib) (with_defaults cfg) (mo_keys m) (mo_now m) (serve_mux h lib ?rt ?F m) r sw = (write_auth_error e, sw)"
    then have "rs_status resp \<in> {401, 403, 503} \<and> sw1 = sw" using call cfg(3) by (auto simp: denial_def write_auth_error_status)
    then show ?thesis by blast
  next
    assume e: "path_clean (rq_path r) \<in> set (ac_exempt_paths (with_defaults cfg))"
      "auth_handler (sl_jwt lib) (with_defaults cfg) (mo_keys m) (mo_now m) (serve_mux h lib ?rt ?F m) r sw = serve_mux h lib ?rt ?F m ?bare sw"
    then have "serve_mux h lib ?rt ?F m ?bare sw = (resp, sw1)" using call cfg(3) by simp
    with exempt_answers [of ?bare h lib ?rt ?F m sw] e(1) show ?thesis unfolding ex exempt_paths_def by simp
  qed (use call cfg(3) in auto)
  then show ?thesis using cfg(1) run(1) addr by (intro exI [of _ cfg]) (simp add: call Let_def)
qed

definition guarded_host :: "(nat, nat, nat multiset) host" where
  "guarded_host = demo_host\<lparr>hs_load := demo_loading\<lparr>ll_yaml := (\<lambda>_. Inr (demo_agent\<lparr>ag_inbound := Some
     \<lparr>in_enabled = True, in_issuer = ''https://idp'', in_jwks_url = ''https://idp/keys'', in_audience = ''agent'',
      in_scopes = [], in_callers = [], in_clock_skew = []\<rparr>\<rparr>))\<rparr>\<rparr>"

definition demo_serving :: "(nat, nat multiset) serve_lib" where
  "demo_serving = \<lparr>sl_jwt = (\<lambda>_ _ _. None), sl_rpc = undefined, sl_card = (\<lambda>_. Inl []), sl_json = undefined, sl_unmatched = undefined,
     sl_open_db = undefined, sl_chmod = undefined, sl_sql_error = undefined, sl_env = (\<lambda>_. [])\<rparr>"

definition demo_viper :: viper where
  "demo_viper = \<lparr>vp_read = None, vp_unmarshal = (\<lambda>_. Inr (demo_settings []))\<rparr>"

definition bare_request :: auth_request where
  "bare_request = \<lparr>rq_method = ''POST'', rq_path = ''/v1/chat/completions'', rq_headers = [], rq_body = [], rq_context = None\<rparr>"

lemma guarded_runs:
  "case fst (run_serve guarded_host demo_serving demo_viper None demo_world) of
     Inl e \<Rightarrow> False | Inr ru \<Rightarrow> auth_block (ru_runtime ru) \<noteq> None"
  by code_simp

theorem running_service_guarded_witness:
  "case fst (run_serve guarded_host demo_serving demo_viper None demo_world) of
     Inl e \<Rightarrow> False
   | Inr ru \<Rightarrow> rs_status (fst (sv_handler (ru_served ru) undefined bare_request (NoSessions, demo_world))) \<in> {401, 403, 503}
       \<and> ru_addr ru = ''127.0.0.1:8000''"
proof -
  let ?run = "run_serve guarded_host demo_serving demo_viper None demo_world"
  from guarded_runs obtain ru b where ru: "?run = (Inr ru, snd ?run)" "auth_block (ru_runtime ru) = Some b"
    by (cases ?run) (auto split: sum.splits)
  have "load_config (sl_env demo_serving) demo_viper = Inr st \<Longrightarrow> service_addr ((st_service st)\<lparr>sc_host := ''127.0.0.1''\<rparr>) = ''127.0.0.1:8000''
      \<and> sc_host (st_service st) = []" for st
    by (auto simp: load_config_def load_settings_def demo_serving_def demo_viper_def demo_settings_def service_addr_def) code_simp
  moreover have "path_clean (rq_path bare_request) \<notin> {''/.well-known/agent-card.json'', ''/health''}" by code_simp
  moreover have "header_values ''Authorization'' (rq_headers bare_request) = []" by code_simp
  ultimately have "rs_status (fst (sv_handler (ru_served ru) undefined bare_request (NoSessions, demo_world))) \<in> {401, 403, 503}
      \<and> ru_addr ru = ''127.0.0.1:8000''"
    using running_service_guarded [OF ru, where m = undefined and r = bare_request and sw = "(NoSessions, demo_world)"]
    by (auto simp: Let_def service_addr_def case_prod_beta)
  moreover have "fst ?run = Inr ru" using arg_cong [OF ru(1), of fst] by simp
  ultimately show ?thesis by simp
qed

end
