(* ===== verification/Skill_Source.thy ===== *)
theory Skill_Source
  imports Web_Tools "HOL-Library.Word"
begin

section \<open>internal/skillpuller/source: where skills are fetched from\<close>

text \<open>
  The two sources of the skill puller, a URL and a path on GitHub, with the check of the addresses
  a host stands for. Name resolution, the HTTP exchange and the texts of library errors are
  parameters; the URL a request is made of is the parsed one.
\<close>

subsection \<open>Addresses\<close>

text \<open>A \<open>net.IP\<close> in its 16-byte form: an IPv4 address is the low half of ::ffff:0:0/96.\<close>

type_synonym ip = "128 word"

definition ip4_value :: "string \<Rightarrow> int" where
  "ip4_value s = foldl (\<lambda>n p. n * 256 + nat_val p) 0 (split_on (CHR ''.'') s)"

definition hex_group :: "string \<Rightarrow> int" where
  "hex_group s = foldl (\<lambda>n c. n * 16 + int (the (hex_val c))) 0 s"

definition group_values :: "string \<Rightarrow> int list" where
  "group_values s = (if s = [] then []
     else concat (map (\<lambda>f. if is_ip4 f then [ip4_value f div 2 ^ 16, ip4_value f mod 2 ^ 16] else [hex_group f]) (split_on (CHR '':'') s)))"

definition of_groups :: "int list \<Rightarrow> ip" where
  "of_groups gs = of_int (foldl (\<lambda>n g. n * 2 ^ 16 + g) 0 gs)"

definition ip_of_v4 :: "int \<Rightarrow> ip" where
  "ip_of_v4 n = of_int (0xFFFF * 2 ^ 32 + n)"

text \<open>\<open>net.ParseIP\<close>, which takes no zone.\<close>

definition parse_ip :: "string \<Rightarrow> ip option" where
  "parse_ip s =
     (if is_ip4 s then Some (ip_of_v4 (ip4_value s))
      else if CHR 0x25 \<in> set s \<or> \<not> is_ip6 s then None
      else (case str_index s ''::'' of
          None \<Rightarrow> Some (of_groups (group_values s))
        | Some i \<Rightarrow>
            (let l = group_values (take i s); r = group_values (drop (i + 2) s) in
             Some (of_groups (l @ replicate (8 - length l - length r) 0 @ r)))))"

definition is_v4 :: "ip \<Rightarrow> bool" where
  "is_v4 x \<longleftrightarrow> drop_bit 32 x = 0xFFFF"

definition v4_part :: "ip \<Rightarrow> ip" where
  "v4_part x = take_bit 32 x"

text \<open>A network of \<open>net.ParseCIDR\<close> holds addresses of its own kind only.\<close>

record network =
  nw_v4 :: bool
  nw_base :: ip
  nw_bits :: nat

definition network_contains :: "network \<Rightarrow> ip \<Rightarrow> bool" where
  "network_contains n x =
     (if nw_v4 n then is_v4 x \<and> drop_bit (32 - nw_bits n) (v4_part x) = drop_bit (32 - nw_bits n) (nw_base n)
      else \<not> is_v4 x \<and> drop_bit (128 - nw_bits n) x = drop_bit (128 - nw_bits n) (nw_base n))"

definition private_networks :: "network list" where
  "private_networks =
     [\<lparr>nw_v4 = True, nw_base = 0x0A000000, nw_bits = 8\<rparr>,
      \<lparr>nw_v4 = True, nw_base = 0xAC100000, nw_bits = 12\<rparr>,
      \<lparr>nw_v4 = True, nw_base = 0xC0A80000, nw_bits = 16\<rparr>,
      \<lparr>nw_v4 = True, nw_base = 0xA9FE0000, nw_bits = 16\<rparr>,
      \<lparr>nw_v4 = True, nw_base = 0x7F000000, nw_bits = 8\<rparr>,
      \<lparr>nw_v4 = False, nw_base = 1, nw_bits = 128\<rparr>,
      \<lparr>nw_v4 = False, nw_base = 0xFC000000000000000000000000000000, nw_bits = 7\<rparr>,
      \<lparr>nw_v4 = False, nw_base = 0xFE800000000000000000000000000000, nw_bits = 10\<rparr>]"

definition is_loopback :: "ip \<Rightarrow> bool" where
  "is_loopback x = (if is_v4 x then drop_bit 24 (v4_part x) = 127 else x = 1)"

definition is_link_local_unicast :: "ip \<Rightarrow> bool" where
  "is_link_local_unicast x = (if is_v4 x then drop_bit 16 (v4_part x) = 0xA9FE else drop_bit 118 x = 0x3FA)"

definition is_link_local_multicast :: "ip \<Rightarrow> bool" where
  "is_link_local_multicast x =
     (if is_v4 x then drop_bit 8 (v4_part x) = 0xE00000 else drop_bit 120 x = 0xFF \<and> take_bit 4 (drop_bit 112 x) = 2)"

definition reject_ip :: "(ip \<Rightarrow> string) \<Rightarrow> ip \<Rightarrow> string option" where
  "reject_ip show_ip x =
     (if is_loopback x \<or> is_link_local_unicast x \<or> is_link_local_multicast x
      then Some (''address '' @ show_ip x @ '' is not allowed'')
      else if list_ex (\<lambda>n. network_contains n x) private_networks
      then Some (''address '' @ show_ip x @ '' is in a private range'')
      else None)"

fun reject_ips :: "(ip \<Rightarrow> string) \<Rightarrow> ip list \<Rightarrow> string option" where
  "reject_ips show_ip [] = None"
| "reject_ips show_ip (x # xs) = (case reject_ip show_ip x of Some e \<Rightarrow> Some e | None \<Rightarrow> reject_ips show_ip xs)"

subsection \<open>The two sources\<close>

record 'n pull_env =
  pe_web :: "'n web_env"
  pe_lookup :: "string \<Rightarrow> 'n \<Rightarrow> (string + ip list) \<times> 'n"
  pe_show :: "ip \<Rightarrow> string"
  pe_fold :: "string \<Rightarrow> string \<Rightarrow> bool"

record skill =
  sk_skill_name :: string
  sk_content :: string

definition reject_private_host :: "'n pull_env \<Rightarrow> string \<Rightarrow> 'n \<Rightarrow> string option \<times> 'n" where
  "reject_private_host env host w =
     (case parse_ip host of
        Some x \<Rightarrow> (reject_ips (pe_show env) [x], w)
      | None \<Rightarrow>
          (case pe_lookup env host w of
             (Inr (x # xs), w1) \<Rightarrow> (reject_ips (pe_show env) (x # xs), w1)
           | (_, w1) \<Rightarrow> (Some (''cannot resolve host '' @ we_quote (pe_web env) host), w1)))"

text \<open>\<open>strings.EqualFold\<close>, exact on ASCII.\<close>

definition equal_fold :: "(string \<Rightarrow> string \<Rightarrow> bool) \<Rightarrow> string \<Rightarrow> string \<Rightarrow> bool" where
  "equal_fold uf s t = (if list_all ascii s \<and> list_all ascii t then map lower_char s = map lower_char t else uf s t)"

definition skill_name_from_url :: "(string \<Rightarrow> string \<Rightarrow> bool) \<Rightarrow> string \<Rightarrow> string" where
  "skill_name_from_url uf raw =
     (let p = path_base raw; parent = path_base (path_dir raw) in
      if equal_fold uf p ''SKILL.md'' \<and> parent \<noteq> [] \<and> parent \<noteq> ''.'' \<and> parent \<noteq> ''/'' \<and> \<not> str_contains parent ''.''
      then parent else trim_suffix p (path_ext p))"

definition max_skill_size :: nat where "max_skill_size = 2 ^ 20"

text \<open>The client follows redirects without a check of its own.\<close>

definition url_pull :: "'n pull_env \<Rightarrow> bool \<Rightarrow> string \<Rightarrow> 'n \<Rightarrow> (string + skill) \<times> 'n" where
  "url_pull env allow_private ref w =
     (let web = pe_web env; q = we_quote web in
      case url_parse ref of
        None \<Rightarrow> (Inl (''invalid URL '' @ q ref @ '': '' @ we_parse_error web ref), w)
      | Some u \<Rightarrow>
          if u_scheme u \<noteq> ''https'' \<and> u_scheme u \<noteq> ''http''
          then (Inl (''unsupported scheme '' @ q (u_scheme u) @ '': only http and https are allowed''), w)
          else
            (case (if allow_private then (None, w) else reject_private_host env (hostname u) w) of
               (Some e, w1) \<Rightarrow> (Inl (''blocked URL '' @ q ref @ '': '' @ e), w1)
             | (None, w1) \<Rightarrow>
                 (case http_do web (\<lambda>_. None) 10 ''stopped after 10 redirects'' [] 0 u w1 of
                    (Inl e, w2) \<Rightarrow> (Inl (''fetch '' @ q ref @ '': '' @ e), w2)
                  | (Inr r, w2) \<Rightarrow>
                      if status_of r \<noteq> 200 then (Inl (''fetch '' @ q ref @ '': status '' @ itoa (status_of r)), w2)
                      else (case read_limited (max_skill_size + 1) r of
                          Inl e \<Rightarrow> (Inl (''read '' @ q ref @ '': '' @ e), w2)
                        | Inr content \<Rightarrow>
                            if length content > max_skill_size
                            then (Inl (''skill from '' @ q ref @ '' exceeds size limit (1048576 bytes)''), w2)
                            else (Inr \<lparr>sk_skill_name = skill_name_from_url (pe_fold env) ref, sk_content = content\<rparr>, w2)))))"

definition safe_segment :: "string \<Rightarrow> bool" where
  "safe_segment s \<longleftrightarrow> s \<noteq> [] \<and> list_all (\<lambda>c. is_alnum c \<or> c \<in> set ''._-'') s"

text \<open>The part before the last SKILL.md that has one before it; without, the last part.\<close>

definition skill_name_from_path :: "(string \<Rightarrow> string \<Rightarrow> bool) \<Rightarrow> string \<Rightarrow> string" where
  "skill_name_from_path uf p =
     (let parts = split_on (CHR ''/'') p in
      case find (\<lambda>i. equal_fold uf (parts ! i) ''SKILL.md'') (rev [1..<length parts]) of
        Some i \<Rightarrow> parts ! (i - 1)
      | None \<Rightarrow> trim_suffix (last parts) ''.md'')"

definition github_raw_url ::
  "(string \<Rightarrow> string) \<Rightarrow> (string \<Rightarrow> string \<Rightarrow> bool) \<Rightarrow> string \<Rightarrow> string \<Rightarrow> string \<Rightarrow> string + string \<times> string" where
  "github_raw_url q uf ref version base =
     (case split_n (CHR ''/'') 3 ref of
        [owner, repo, path] \<Rightarrow>
          if \<not> safe_segment owner then Inl (''invalid owner '' @ q owner)
          else if \<not> safe_segment repo then Inl (''invalid repo '' @ q repo)
          else
            (let version1 = (if version = [] then ''main'' else version) in
             if \<not> safe_segment version1 then Inl (''invalid version '' @ q version1)
             else let path1 = (if has_suffix path ''SKILL.md'' then path else path @ ''/SKILL.md'') in
               Inr (base @ ''/'' @ owner @ ''/'' @ repo @ ''/'' @ version1 @ ''/'' @ path1, skill_name_from_path uf path1))
      | _ \<Rightarrow> Inl (''github ref must be owner/repo/path, got '' @ q ref))"

definition github_pull :: "'n pull_env \<Rightarrow> string \<Rightarrow> bool \<Rightarrow> string \<Rightarrow> string \<Rightarrow> 'n \<Rightarrow> (string + skill) \<times> 'n" where
  "github_pull env base allow_private ref version w =
     (let q = we_quote (pe_web env) in
      case github_raw_url q (pe_fold env) ref version (if base = [] then ''https://raw.githubusercontent.com'' else base) of
        Inl e \<Rightarrow> (Inl e, w)
      | Inr (raw, skill_name) \<Rightarrow>
          (case url_pull env allow_private raw w of
             (Inl e, w1) \<Rightarrow> (Inl (''github pull '' @ q ref @ '': '' @ e), w1)
           | (Inr sk, w1) \<Rightarrow> (Inr (sk\<lparr>sk_skill_name := skill_name\<rparr>), w1)))"

subsection \<open>Which addresses are rejected\<close>

text \<open>The rejected addresses as ranges of numbers.\<close>

definition blocked_range :: "ip \<Rightarrow> bool" where
  "blocked_range x \<longleftrightarrow>
     (let n = uint x; a = n mod 2 ^ 32 in
      if n div 2 ^ 32 = 0xFFFF
      then a div 2 ^ 24 = 10 \<or> a div 2 ^ 24 = 127 \<or> a div 2 ^ 16 = 169 * 256 + 254
        \<or> a div 2 ^ 20 = 172 * 16 + 1 \<or> a div 2 ^ 16 = 192 * 256 + 168
        \<or> a div 2 ^ 8 = 224 * 2 ^ 16
      else n = 1 \<or> n div 2 ^ 121 = 0xFC div 2 \<or> n div 2 ^ 118 = 0xFE8 div 4
        \<or> (n div 2 ^ 120 = 0xFF \<and> n div 2 ^ 112 mod 16 = 2))"

lemma uint_bits:
  "uint (drop_bit k (x :: ip)) = uint x div 2 ^ k" "uint (take_bit k (x :: ip)) = uint x mod 2 ^ k"
proof -
  show "uint (drop_bit k x) = uint x div 2 ^ k"
    by (simp only: unsigned_drop_bit_eq) (use uint_lt2p [of x] in \<open>simp add: drop_bit_eq_div take_bit_int_eq_self\<close>)
  show "uint (take_bit k x) = uint x mod 2 ^ k"
    by (simp only: unsigned_take_bit_eq) (simp add: take_bit_eq_mod)
qed

lemma word_eq_int: "(x :: ip) = c \<longleftrightarrow> uint x = uint c"
  by (simp add: word_uint_eq_iff)

lemma v4_iff: "is_v4 x \<longleftrightarrow> uint x div 2 ^ 32 = 0xFFFF"
  by (simp add: is_v4_def word_eq_int uint_bits)

lemma networks_contain:
  "list_ex (\<lambda>n. network_contains n x) private_networks \<longleftrightarrow>
     (let n = uint x; a = n mod 2 ^ 32 in
      if is_v4 x
      then a div 2 ^ 24 = 10 \<or> a div 2 ^ 20 = 172 * 16 + 1 \<or> a div 2 ^ 16 = 192 * 256 + 168 \<or> a div 2 ^ 16 = 169 * 256 + 254 \<or> a div 2 ^ 24 = 127
      else n = 1 \<or> n div 2 ^ 121 = 0xFC div 2 \<or> n div 2 ^ 118 = 0xFE8 div 4)"
  by (simp add: private_networks_def network_contains_def v4_part_def word_eq_int uint_bits Let_def)

lemma special_iff:
  "is_loopback x \<longleftrightarrow> (if is_v4 x then uint x mod 2 ^ 32 div 2 ^ 24 = 127 else uint x = 1)"
  "is_link_local_unicast x \<longleftrightarrow> (if is_v4 x then uint x mod 2 ^ 32 div 2 ^ 16 = 169 * 256 + 254 else uint x div 2 ^ 118 = 0xFE8 div 4)"
  "is_link_local_multicast x \<longleftrightarrow>
     (if is_v4 x then uint x mod 2 ^ 32 div 2 ^ 8 = 224 * 2 ^ 16 else uint x div 2 ^ 120 = 0xFF \<and> uint x div 2 ^ 112 mod 16 = 2)"
  by (simp_all add: is_loopback_def is_link_local_unicast_def is_link_local_multicast_def v4_part_def word_eq_int uint_bits)

lemma reject_iff_blocked: "reject_ip sh x = None \<longleftrightarrow> \<not> blocked_range x"
proof -
  have "reject_ip sh x = None \<longleftrightarrow> \<not> (is_loopback x \<or> is_link_local_unicast x \<or> is_link_local_multicast x
      \<or> list_ex (\<lambda>n. network_contains n x) private_networks)"
    by (simp add: reject_ip_def)
  then show ?thesis unfolding special_iff networks_contain blocked_range_def v4_iff [symmetric] Let_def
    by (cases "is_v4 x"; simp only: if_True if_False; blast)
qed

text \<open>
  The unspecified address, which reaches the host itself on Linux, and the shared address space of
  carriers are not rejected; an IPv4 address in IPv6 notation is treated as IPv4.
\<close>

lemma accepted_addresses:
  "map_option blocked_range (parse_ip ''0.0.0.0'') = Some False" "map_option blocked_range (parse_ip ''::'') = Some False"
  "map_option blocked_range (parse_ip ''100.64.0.1'') = Some False"
  "map_option blocked_range (parse_ip ''::ffff:127.0.0.1'') = Some True"
  "map_option blocked_range (parse_ip ''fe80::1'') = Some True"
  "map_option blocked_range (parse_ip ''172.31.255.255'') = Some True"
  by code_simp+

subsection \<open>Requests go to public hosts\<close>

definition traced_pull :: "'n pull_env \<Rightarrow> ('n \<times> http_call list) pull_env" where
  "traced_pull env = \<lparr>pe_web = traced (pe_web env),
     pe_lookup = (\<lambda>h (w, cs). (let (r, w1) = pe_lookup env h w in (r, (w1, cs)))), pe_show = pe_show env, pe_fold = pe_fold env\<rparr>"

text \<open>The addresses a host stands for when it is checked.\<close>

definition addresses_of :: "'n pull_env \<Rightarrow> string \<Rightarrow> 'n \<Rightarrow> ip list" where
  "addresses_of env host w =
     (case parse_ip host of Some x \<Rightarrow> [x] | None \<Rightarrow> (case fst (pe_lookup env host w) of Inr xs \<Rightarrow> xs | Inl _ \<Rightarrow> []))"

lemma reject_ips_None: "reject_ips sh xs = None \<longleftrightarrow> list_all (\<lambda>x. \<not> blocked_range x) xs"
proof (induction xs)
  case (Cons x xs)
  then show ?case using reject_iff_blocked [of sh x] by (cases "reject_ip sh x") auto
qed simp

lemma reject_private_traced:
  "\<exists>w1. snd (reject_private_host (traced_pull env) host (w, cs)) = (w1, cs)
     \<and> (fst (reject_private_host (traced_pull env) host (w, cs)) = None \<longleftrightarrow>
          addresses_of env host w \<noteq> [] \<and> list_all (\<lambda>x. \<not> blocked_range x) (addresses_of env host w))"
proof (cases "parse_ip host")
  case None
  obtain r w1 where r: "pe_lookup env host w = (r, w1)" by fastforce
  show ?thesis
  proof (cases r)
    case (Inr xs)
    with None r show ?thesis
      by (cases xs) (simp_all add: reject_private_host_def traced_pull_def addresses_of_def reject_ips_None del: reject_ips.simps)
  qed (use None r in \<open>simp add: reject_private_host_def traced_pull_def addresses_of_def\<close>)
qed (simp add: reject_private_host_def traced_pull_def addresses_of_def reject_ips_None del: reject_ips.simps)

text \<open>
  C37. What the skill puller requests first is outside the ranges the code lists. A pull of a URL
  makes no request and reports an error, or the URL is one of http or https whose host stood, when
  it was checked, for at least one address and for none that is loopback, private or link-local in
  the sense of those ranges (which leave out 0.0.0.0, :: and 100.64.0.0/10, see
  \<open>accepted_addresses\<close>); the first request goes to that URL, all are GET requests without headers of the puller,
  and there are at most ten.
\<close>

theorem pull_starts_at_public_host:
  "\<exists>calls. snd (snd (url_pull (traced_pull env) False ref (w, []))) = calls \<and> length calls \<le> 10
     \<and> list_all (\<lambda>c. hc_method c = ''GET'' \<and> hc_headers c = []) calls
     \<and> (if calls = [] then is_err (fst (url_pull (traced_pull env) False ref (w, [])))
        else \<exists>u. url_parse ref = Some u \<and> u_scheme u \<in> {''http'', ''https''} \<and> hc_url (hd calls) = u
          \<and> addresses_of env (hostname u) w \<noteq> []
          \<and> list_all (\<lambda>x. \<not> blocked_range x) (addresses_of env (hostname u) w))"
proof (cases "\<exists>u. url_parse ref = Some u \<and> u_scheme u \<in> {''http'', ''https''}
    \<and> addresses_of env (hostname u) w \<noteq> [] \<and> list_all (\<lambda>x. \<not> blocked_range x) (addresses_of env (hostname u) w)")
  case False
  let ?pull = "url_pull (traced_pull env) False ref (w, [])"
  have "snd (snd ?pull) = [] \<and> is_err (fst ?pull)"
  proof (cases "url_parse ref")
    case (Some u)
    obtain w1 where "snd (reject_private_host (traced_pull env) (hostname u) (w, [])) = (w1, [])"
      "fst (reject_private_host (traced_pull env) (hostname u) (w, [])) = None \<longleftrightarrow>
         addresses_of env (hostname u) w \<noteq> [] \<and> list_all (\<lambda>x. \<not> blocked_range x) (addresses_of env (hostname u) w)"
      using reject_private_traced [of env "hostname u" w "[]"] by (elim exE conjE) (rule that)
    with Some False show ?thesis
      by (cases "reject_private_host (traced_pull env) (hostname u) (w, [])") (auto simp: url_pull_def Let_def split: option.splits)
  qed (simp add: url_pull_def Let_def)
  then show ?thesis by simp
next
  case True
  then obtain u where u: "url_parse ref = Some u" "u_scheme u \<in> {''http'', ''https''}"
    "addresses_of env (hostname u) w \<noteq> []" "list_all (\<lambda>x. \<not> blocked_range x) (addresses_of env (hostname u) w)" by blast
  obtain w1 where w1: "reject_private_host (traced_pull env) (hostname u) (w, []) = (None, (w1, []))"
    using reject_private_traced [of env "hostname u" w "[]"] u(3,4) by (metis prod.collapse)
  let ?do = "http_do (traced (pe_web env)) (\<lambda>_. None) 10 ''stopped after 10 redirects'' [] 0 u (w1, [])"
  obtain cs where cs: "snd (snd ?do) = cs" "0 < length cs" "length cs \<le> 10" "hc_url (hd cs) = u"
    "list_all (call_ok (\<lambda>v. v = u \<or> (\<lambda>_. None :: string option) v = None) []) cs"
    using http_do_calls [of "pe_web env" "\<lambda>_. None" 10 "''stopped after 10 redirects''" "[]" 0 u w1 "[]"] by auto
  have "snd (url_pull (traced_pull env) False ref (w, [])) = snd ?do"
    using u(1,2) w1 by (auto simp: url_pull_def Let_def traced_pull_def split: prod.splits sum.splits)
  moreover have "list_all (\<lambda>c. hc_method c = ''GET'' \<and> hc_headers c = []) cs"
    using cs(5) by (auto simp: list_all_iff call_ok_def)
  ultimately show ?thesis using cs u by (intro exI [of _ cs]) auto
qed

text \<open>The check is of the first host only: a public server can redirect the puller to any other.\<close>

definition redirecting_env :: "unit pull_env" where
  "redirecting_env = \<lparr>pe_web = \<lparr>we_send = (\<lambda>c w.
       (if u_host (hc_url c) = ''127.0.0.1'' then HttpReply 200 [] ''secret''
        else HttpReply 302 [(''Location'', [''http://127.0.0.1/''])] [], w)),
     we_location = (\<lambda>_ loc. case url_parse loc of Some u \<Rightarrow> Inr u | None \<Rightarrow> Inl []), we_parse_error = (\<lambda>s. s),
     we_client_error = (\<lambda>_ e. e), we_quote = (\<lambda>s. s), we_lower = (\<lambda>s. s)\<rparr>,
     pe_lookup = (\<lambda>_ w. (Inl [], w)), pe_show = (\<lambda>_. []), pe_fold = (\<lambda>_ _. False)\<rparr>"

lemma redirect_reaches_loopback:
  "fst (url_pull redirecting_env False ''http://8.8.8.8/s/SKILL.md'' ()) = Inr \<lparr>sk_skill_name = ''s'', sk_content = ''secret''\<rparr>"
proof -
  obtain u where u: "url_parse ''http://8.8.8.8/s/SKILL.md'' = Some u" "u_scheme u = ''http''" "hostname u = ''8.8.8.8''"
    "fst (http_do (pe_web redirecting_env) (\<lambda>_. None) 10 ''stopped after 10 redirects'' [] 0 u ()) = Inr (HttpReply 200 [] ''secret'')"
  proof (cases "url_parse ''http://8.8.8.8/s/SKILL.md''")
    case None
    moreover have "url_parse ''http://8.8.8.8/s/SKILL.md'' \<noteq> None" by code_simp
    ultimately show thesis by blast
  next
    case (Some u)
    moreover have "case url_parse ''http://8.8.8.8/s/SKILL.md'' of None \<Rightarrow> False
        | Some u \<Rightarrow> u_scheme u = ''http'' \<and> hostname u = ''8.8.8.8''
          \<and> fst (http_do (pe_web redirecting_env) (\<lambda>_. None) 10 ''stopped after 10 redirects'' [] 0 u ()) = Inr (HttpReply 200 [] ''secret'')"
      by code_simp
    ultimately show thesis using that by simp
  qed
  have "reject_private_host redirecting_env ''8.8.8.8'' () = (None, ())" by code_simp
  moreover have "skill_name_from_url (pe_fold redirecting_env) ''http://8.8.8.8/s/SKILL.md'' = ''s''" by code_simp
  moreover have "read_limited (max_skill_size + 1) (HttpReply 200 [] ''secret'') = Inr ''secret''" "length ''secret'' \<le> max_skill_size"
    by (simp_all add: read_limited_def max_skill_size_def)
  ultimately show ?thesis using u
    by (cases "http_do (pe_web redirecting_env) (\<lambda>_. None) 10 ''stopped after 10 redirects'' [] 0 u ()")
      (simp add: url_pull_def Let_def status_of_def)
qed

end
