(* ===== verification/Skill_Puller.thy ===== *)
theory Skill_Puller
  imports Skills Skill_Source OpenAI_Api
begin

section \<open>internal/skillpuller/server.go: installing a fetched skill\<close>

text \<open>
  The handlers of the server over the file system model and a network \<open>'n\<close>. The random part of the
  name of a temporary file is taken from a list, and so is the order in which the sources are
  named in an error. Which of the system calls of an install fail is an argument (\<open>pull_faults\<close>);
  file modes are left out, and so are log lines and the life of the server; the errors of the
  request decoder are those of \<open>json_errors\<close>.
\<close>

subsection \<open>Calls of package os\<close>

text \<open>The directory and the name of a path, its last name not followed.\<close>

definition parent_of :: "fs \<Rightarrow> string \<Rightarrow> (string list \<times> string) option" where
  "parent_of F path =
     (let es = split_on (CHR ''/'') path in
      if path = [] \<or> last es \<in> {[], dot, dotdot} then None
      else (case namei F kernel_links (if is_abs path then [] else fs_cwd F) (butlast es) of
          Found d \<Rightarrow> if node_at F d = Some DirNode then Some (d, last es) else None
        | _ \<Rightarrow> None))"

definition drop_node :: "string list \<Rightarrow> fs \<Rightarrow> fs" where
  "drop_node p F = F\<lparr>fs_nodes := map_del p (fs_nodes F)\<rparr>"

text \<open>\<open>os.Rename\<close> of a file: what the new name is, if no directory, is replaced.\<close>

definition os_rename :: "fs \<Rightarrow> string \<Rightarrow> string \<Rightarrow> fs option" where
  "os_rename F old new =
     (case (parent_of F old, parent_of F new) of
        (Some (d, e), Some (d1, e1)) \<Rightarrow>
          (case node_at F (d @ [e]) of
             Some (FileNode c) \<Rightarrow>
               if node_at F (d1 @ [e1]) = Some DirNode then None
               else if d1 @ [e1] = d @ [e] then Some F
               else Some (put_node (d1 @ [e1]) (FileNode c) (drop_node (d @ [e]) F))
           | _ \<Rightarrow> None)
      | _ \<Rightarrow> None)"

definition os_remove_file :: "fs \<Rightarrow> string \<Rightarrow> fs" where
  "os_remove_file F path =
     (case parent_of F path of
        Some (d, e) \<Rightarrow> (case node_at F (d @ [e]) of Some DirNode \<Rightarrow> F | None \<Rightarrow> F | _ \<Rightarrow> drop_node (d @ [e]) F)
      | None \<Rightarrow> F)"

text \<open>\<open>os.CreateTemp\<close> tries the next random name while one exists.\<close>

fun create_temp :: "fs \<Rightarrow> string \<Rightarrow> string list \<Rightarrow> (string \<times> fs) option" where
  "create_temp F dir [] = None"
| "create_temp F dir (rand # rands) =
     (let path = dir @ ''/skill-'' @ rand @ ''.tmp'' in
      if os_lstat F path \<noteq> None then create_temp F dir rands
      else (case os_write_file F path [] of Inl _ \<Rightarrow> None | Inr F1 \<Rightarrow> Some (path, F1)))"

subsection \<open>handlePull\<close>

record pull_request =
  pq_source :: string
  pq_ref :: string
  pq_version :: string

definition pull_field :: "string \<Rightarrow> json \<Rightarrow> pull_request \<Rightarrow> pull_request option" where
  "pull_field k v r =
     (if field_is k ''source'' then string_field v (\<lambda>s r. r\<lparr>pq_source := s\<rparr>) r
      else if field_is k ''ref'' then string_field v (\<lambda>s r. r\<lparr>pq_ref := s\<rparr>) r
      else if field_is k ''version'' then string_field v (\<lambda>s r. r\<lparr>pq_version := s\<rparr>) r
      else Some r)"

definition decode_pull :: "string \<Rightarrow> pull_request option" where
  "decode_pull body =
     (let seen = take max_body body in
      case read_value (Suc (length seen)) seen of
        Some (v, _) \<Rightarrow> struct_of pull_field \<lparr>pq_source = [], pq_ref = [], pq_version = []\<rparr> v
      | None \<Rightarrow> None)"

definition error_reply :: "int \<Rightarrow> string \<Rightarrow> http_response" where
  "error_reply st e = json_response st (JObj [(''error'', JStr e)])"

type_synonym 'n source = "string \<Rightarrow> string \<Rightarrow> 'n \<Rightarrow> (string + skill) \<times> 'n"

definition puller_sources :: "'n pull_env \<Rightarrow> (string \<times> 'n source) list" where
  "puller_sources env =
     [(''url'', \<lambda>ref version. url_pull env False ref), (''github'', \<lambda>ref version. github_pull env [] False ref version)]"

definition invalid_name :: http_response where
  "invalid_name = error_reply 400 ''skill name contains invalid characters''"

text \<open>
  What the system may refuse while a skill is installed: the directory, the temporary file, a write
  (after so many bytes), the close, the change of the mode, the rename, the removal of the temporary
  file (whose error the code drops).
\<close>

record pull_faults =
  pf_mkdir :: bool
  pf_create :: bool
  pf_write :: "nat option"
  pf_close :: bool
  pf_chmod :: bool
  pf_rename :: bool
  pf_remove :: bool

definition give_up :: "pull_faults \<Rightarrow> string \<Rightarrow> string \<Rightarrow> fs \<Rightarrow> http_response option \<times> fs" where
  "give_up pf e tmp F = (Some (error_reply 500 e), if pf_remove pf then F else os_remove_file F tmp)"

text \<open>The file is written under another name in the directory of the skill and then renamed.\<close>

definition install_skill :: "pull_faults \<Rightarrow> string list \<Rightarrow> string \<Rightarrow> string \<Rightarrow> fs \<Rightarrow> http_response option \<times> fs" where
  "install_skill pf rands skill_dir content F =
     (if pf_mkdir pf then (Some (error_reply 500 ''failed to create skill directory''), F)
      else case mkdir_all F skill_dir of
        (Some _, F1) \<Rightarrow> (Some (error_reply 500 ''failed to create skill directory''), F1)
      | (None, F1) \<Rightarrow>
          (case if pf_create pf then None else create_temp F1 skill_dir rands of
             None \<Rightarrow> (Some (error_reply 500 ''failed to create temp file''), F1)
           | Some (tmp, F2) \<Rightarrow>
               (case os_write_file F2 tmp (case pf_write pf of Some n \<Rightarrow> take n content | None \<Rightarrow> content) of
                  Inl _ \<Rightarrow> give_up pf ''failed to write skill file'' tmp F2
                | Inr F3 \<Rightarrow>
                    if pf_write pf \<noteq> None then give_up pf ''failed to write skill file'' tmp F3
                    else if pf_close pf then give_up pf ''failed to write skill file'' tmp F3
                    else if pf_chmod pf then give_up pf ''failed to set file permissions'' tmp F3
                    else (case if pf_rename pf then None else os_rename F3 tmp (path_join [skill_dir, ''SKILL.md'']) of
                       None \<Rightarrow> give_up pf ''failed to install skill file'' tmp F3
                     | Some F4 \<Rightarrow> (None, F4)))))"

definition store_skill :: "pull_faults \<Rightarrow> string list \<Rightarrow> string \<Rightarrow> string \<Rightarrow> skill \<Rightarrow> fs \<Rightarrow> http_response \<times> fs" where
  "store_skill pf rands skills_dir source sk F =
     (let name = sk_skill_name sk; clean_name = path_base (path_clean name);
          skill_dir = path_join [skills_dir, clean_name] in
      if clean_name \<in> {''.'', ''..'', []} \<or> clean_name \<noteq> name then (invalid_name, F)
      else if \<not> has_prefix skill_dir (path_clean skills_dir @ ''/'') then (invalid_name, F)
      else (case install_skill pf rands skill_dir (sk_content sk) F of
          (Some reply, F1) \<Rightarrow> (reply, F1)
        | (None, F1) \<Rightarrow> (json_response 200 (JObj [(''name'', JStr name), (''source'', JStr source), (''status'', JStr ''ok''),
            (''path'', JStr (name @ ''/SKILL.md''))]), F1)))"

definition handle_pull ::
  "json_errors \<Rightarrow> 'n pull_env \<Rightarrow> string list \<Rightarrow> pull_faults \<Rightarrow> string list \<Rightarrow> string \<Rightarrow> string \<Rightarrow> fs \<times> 'n \<Rightarrow> http_response \<times> fs \<times> 'n" where
  "handle_pull je env order pf rands skills_dir body st =
     (let (F, w) = st in
      case decode_pull body of
        None \<Rightarrow> (error_reply 400 (''invalid JSON: '' @ je_text je body), st)
      | Some req \<Rightarrow>
          if pq_source req = [] \<or> pq_ref req = [] then (error_reply 400 ''source and ref are required'', st)
          else (case map_of (puller_sources env) (pq_source req) of
              None \<Rightarrow> (error_reply 400 (''unknown source '' @ we_quote (pe_web env) (pq_source req) @ '', supported: ''
                  @ str_join '', '' order), st)
            | Some src \<Rightarrow>
                (case src (pq_ref req) (pq_version req) w of
                   (Inl e, w1) \<Rightarrow> (error_reply 502 e, F, w1)
                 | (Inr sk, w1) \<Rightarrow>
                     (let (reply, F1) = store_skill pf rands skills_dir (pq_source req) sk F in (reply, F1, w1)))))"

subsection \<open>The other handlers\<close>

definition handle_list :: "string \<Rightarrow> fs \<Rightarrow> http_response" where
  "handle_list skills_dir F =
     (case os_read_dir F skills_dir of
        Inl e \<Rightarrow> if pe_err e = NotExist then json_response 200 (JObj [(''skills'', JArr [])])
          else error_reply 500 ''failed to read skills directory''
      | Inr d \<Rightarrow> json_response 200 (JObj [(''skills'', JArr (map JStr
          (filter (\<lambda>e. node_at F (d @ [e]) = Some DirNode \<and> stat_dir F (path_join [skills_dir, e, ''SKILL.md'']) \<noteq> None)
            (dir_entries F d))))]))"

definition healthz_response :: http_response where
  "healthz_response = \<lparr>rs_status = 200, rs_headers = header_set ''Content-Type'' ''text/plain; charset=utf-8'' [], rs_body = ''ok'' @ nl\<rparr>"

definition puller_addr :: "int \<Rightarrow> string" where
  "puller_addr port = ''127.0.0.1:'' @ itoa port"

subsection \<open>A name in a directory that exists\<close>

lemma child_path:
  assumes "list_all name_ok d" "name_ok e"
  shows "split_on (CHR ''/'') (path_string (d @ [e])) = [] # d @ [e]"
    "trim_right_set {CHR ''/''} (path_string (d @ [e])) = path_string (d @ [e])"
proof -
  have e: "e \<noteq> []" "CHR ''/'' \<notin> set e" using assms(2) by (auto simp: name_ok_def elem_ok_def)
  then have "last e \<noteq> CHR ''/''" using last_in_set by metis
  then have l: "last (path_string (d @ [e])) \<noteq> CHR ''/''" using e by (simp add: path_string_def join_snoc)
  obtain u v where uv: "path_string (d @ [e]) = u @ [v]" by (metis path_string_not_Nil rev_exhaust)
  then have "v \<noteq> CHR ''/''" using l by simp
  then show "trim_right_set {CHR ''/''} (path_string (d @ [e])) = path_string (d @ [e])"
    by (simp add: uv trim_right_set_def)
  show "split_on (CHR ''/'') (path_string (d @ [e])) = [] # d @ [e]"
    using assms by (auto simp: path_string_def split_on_join list_all_iff name_ok_def elem_ok_def)
qed

text \<open>A directory of the tree and a name in it, with no links about.\<close>

definition child_of :: "fs \<Rightarrow> string list \<Rightarrow> string \<Rightarrow> bool" where
  "child_of F d e \<longleftrightarrow> fs_wf F \<and> no_links F \<and> node_at F d = Some DirNode \<and> name_ok e"

lemma child_of_names: "child_of F d e \<Longrightarrow> list_all name_ok d \<and> name_ok e"
  by (auto simp: child_of_def dest: fs_wf_names)

lemma child_parent: "child_of F d e \<Longrightarrow> namei F k [] ([] # d) = Found d"
  using namei_down [of F "[]" d k "[]"] by (simp add: child_of_def namei_skip)

lemma child_ordinary: "child_of F d e \<Longrightarrow> e \<notin> {[], dot, dotdot}"
  by (simp add: child_of_def name_ok_def elem_ok_def)

lemma resolve_child:
  assumes "child_of F d e"
  shows "resolve F k (path_string (d @ [e])) = (if node_at F (d @ [e]) = None then Absent d e else Found (d @ [e]))"
proof -
  have "namei F k [] (d @ [e]) = namei F k d [e]"
    using namei_down [of F "[]" d k "[e]"] assms by (simp add: child_of_def)
  also have "\<dots> = (if node_at F (d @ [e]) = None then Absent d e else Found (d @ [e]))"
    using assms no_links_node [of F "d @ [e]"]
    by (auto simp: child_of_def namei_name split: option.splits node.splits)
  finally show ?thesis
    using resolve_path_string [of "d @ [e]" F k] child_of_names [OF assms] by simp
qed

lemma parent_child: "child_of F d e \<Longrightarrow> parent_of F (path_string (d @ [e])) = Some (d, e)"
  using child_parent [of F d e kernel_links] child_ordinary [of F d e] child_of_names [of F d e]
  by (simp add: parent_of_def child_path Let_def) (simp add: child_of_def)

lemma lstat_child:
  "child_of F d e \<Longrightarrow> os_lstat F (path_string (d @ [e])) = (if node_at F (d @ [e]) = None then None else Some (d @ [e]))"
  using child_parent [of F d e kernel_links] child_ordinary [of F d e] child_of_names [of F d e]
  by (simp add: os_lstat_def child_path Let_def)

lemma sys_mkdir_child:
  "child_of F d e \<Longrightarrow> node_at F (d @ [e]) = None \<Longrightarrow> sys_mkdir F (path_string (d @ [e])) = Inr (put_node (d @ [e]) DirNode F)"
  using child_parent [of F d e kernel_links] child_ordinary [of F d e] child_of_names [of F d e]
  by (simp add: sys_mkdir_def child_path Let_def) (simp add: child_of_def)

lemma stat_here:
  assumes "fs_wf F" "node_at F d = Some DirNode"
  shows "stat_dir F (path_string d) = Some True"
proof -
  have "namei F kernel_links [] d = Found d"
    using namei_down [OF assms(1), of "[]" d kernel_links "[]"] assms(2) by simp
  then show ?thesis
    using resolve_path_string [OF fs_wf_names [OF assms], of F kernel_links] assms(2) by (simp add: stat_dir_def)
qed

lemma mkdir_all_child:
  assumes c: "child_of F d e"
  shows "mkdir_all F (path_string (d @ [e])) =
    (case node_at F (d @ [e]) of
       None \<Rightarrow> (None, put_node (d @ [e]) DirNode F)
     | Some n \<Rightarrow> (if n = DirNode then None else Some \<lparr>pe_op = ''mkdir'', pe_path = path_string (d @ [e]), pe_err = NotDir\<rparr>, F))"
proof -
  have ok: "list_all name_ok (d @ [e])" using child_of_names [OF c] by simp
  then have sp: "split_on (CHR ''/'') (tl (path_string (d @ [e]))) = d @ [e]"
    by (auto simp: path_string_def split_on_join list_all_iff name_ok_def elem_ok_def)
  have je: "join_elems True xs = path_string xs" for xs by (simp add: join_elems_def path_string_def)
  have st: "stat_dir F (path_string (d @ [e])) =
      (if node_at F (d @ [e]) = None then None else Some (node_at F (d @ [e]) = Some DirNode))"
    by (simp add: stat_dir_def resolve_child [OF c])
  have up: "mkdir_all_elems F True d = (None, F)" if "d \<noteq> []"
    using stat_here [of F d] c by (subst mkdir_all_elems.simps) (simp add: je child_of_def)
  show ?thesis
  proof (cases "node_at F (d @ [e])")
    case None
    have "(if length (d @ [e]) \<le> 1 then (None, F) else mkdir_all_elems F True d) = (None, F)"
      using up by auto
    then have "mkdir_all_elems F True (d @ [e]) = (None, put_node (d @ [e]) DirNode F)"
      using None st sys_mkdir_child [OF c None] by (subst mkdir_all_elems.simps) (cases "d = []"; simp add: je Let_def)
    then show ?thesis using sp None by (simp add: mkdir_all_def)
  next
    case (Some n)
    then have "mkdir_all_elems F True (d @ [e]) =
        (if n = DirNode then None else Some \<lparr>pe_op = ''mkdir'', pe_path = path_string (d @ [e]), pe_err = NotDir\<rparr>, F)"
      using st by (subst mkdir_all_elems.simps) (simp add: je)
    then show ?thesis using sp Some by (simp add: mkdir_all_def)
  qed
qed

lemma put_put: "put_node p n (put_node p m F) = put_node p n F"
  by (simp add: put_node_def)

lemma write_child:
  assumes "child_of F d e" "node_at F (d @ [e]) \<noteq> Some DirNode"
  shows "os_write_file F (path_string (d @ [e])) content = Inr (put_node (d @ [e]) (FileNode content) F)"
proof (cases "node_at F (d @ [e])")
  case None
  then show ?thesis
    by (simp add: os_write_file_def open_create_def resolve_child [OF assms(1)] put_node_def)
next
  case (Some n)
  then obtain c where "n = FileNode c"
    using assms no_links_node [of F "d @ [e]"] by (cases n) (auto simp: child_of_def)
  with Some show ?thesis by (simp add: os_write_file_def open_create_def resolve_child [OF assms(1)])
qed

lemma child_put:
  assumes "child_of F d e" "n = DirNode \<or> node_at F (d @ [e]) \<noteq> Some DirNode" "\<And>t. n \<noteq> LinkNode t"
  shows "fs_wf (put_node (d @ [e]) n F)" "no_links (put_node (d @ [e]) n F)"
  using assms by (auto simp: child_of_def intro: fs_wf_put no_links_put)

lemma node_at_drop: "p \<noteq> [] \<Longrightarrow> node_at (drop_node p F) q = (if q = p then None else node_at F q)"
  by (auto simp: node_at_def drop_node_def)

subsection \<open>Installing\<close>

definition temp_names :: "string list \<Rightarrow> string set" where
  "temp_names rands = (\<lambda>r. ''skill-'' @ r @ ''.tmp'') ` set rands"

lemma create_temp_child:
  assumes "fs_wf F" "no_links F" "node_at F p = Some DirNode" "p \<noteq> []"
  shows "list_all (\<lambda>r. CHR ''/'' \<notin> set r) rands \<Longrightarrow> create_temp F (path_string p) rands = Some (tmp, F1) \<Longrightarrow>
    \<exists>n. tmp = path_string (p @ [n]) \<and> child_of F p n \<and> node_at F (p @ [n]) = None \<and> n \<noteq> ''SKILL.md''
      \<and> n \<in> temp_names rands \<and> F1 = put_node (p @ [n]) (FileNode []) F"
proof (induction rands)
  case (Cons r rands)
  let ?n = "''skill-'' @ r @ ''.tmp''"
  have path: "path_string p @ ''/skill-'' @ r @ ''.tmp'' = path_string (p @ [?n])"
    using assms(4) by (simp add: path_string_def join_snoc)
  have "name_ok ?n" using Cons.prems(1) by (simp add: name_ok_def elem_ok_def dot_def dotdot_def)
  then have c: "child_of F p ?n" using assms by (simp add: child_of_def)
  note run = Cons.prems(2) [unfolded create_temp.simps path Let_def]
  show ?case
  proof (cases "node_at F (p @ [?n])")
    case None
    then have "tmp = path_string (p @ [?n]) \<and> F1 = put_node (p @ [?n]) (FileNode []) F"
      using run lstat_child [OF c] write_child [OF c, of "[]"] by simp
    moreover have "?n \<noteq> ''SKILL.md''" "?n \<in> temp_names (r # rands)" by (simp_all add: temp_names_def)
    ultimately show ?thesis using c None by blast
  next
    case (Some n)
    moreover have "temp_names rands \<subseteq> temp_names (r # rands)" by (auto simp: temp_names_def)
    ultimately show ?thesis using Cons.IH Cons.prems(1) run lstat_child [OF c] by auto
  qed
qed simp

lemma map_del_put: "p \<notin> fst ` set m \<Longrightarrow> map_del p (map_put p v m) = m"
  by (induction m) (auto simp: map_del_def filter_id_conv)

lemma drop_new: "node_at F p = None \<Longrightarrow> drop_node p (put_node p n F) = F"
  by (auto simp: drop_node_def put_node_def node_at_def map_del_put map_of_eq_None_iff split: if_splits)

text \<open>The temporary file that is left, perhaps with part of the content, when it cannot be removed.\<close>

definition left_over :: "pull_faults \<Rightarrow> string list \<Rightarrow> string \<Rightarrow> string list \<Rightarrow> fs \<Rightarrow> fs \<Rightarrow> bool" where
  "left_over pf rands content p F F1 \<longleftrightarrow> pf_remove pf \<and> (\<exists>n \<in> temp_names rands. \<exists>part. prefix part content
     \<and> node_at F (p @ [n]) = None \<and> F1 = put_node (p @ [n]) (FileNode part) F)"

lemma give_up_temp:
  assumes "child_of F p n" "node_at F (p @ [n]) = None" "n \<in> temp_names rands" "prefix part content"
    "give_up pf e (path_string (p @ [n])) (put_node (p @ [n]) (FileNode part) F) = (r, F1)"
  shows "r \<noteq> None \<and> (F1 = F \<or> left_over pf rands content p F F1)"
proof -
  let ?G = "put_node (p @ [n]) (FileNode part) F"
  have "child_of ?G p n" using child_put [OF assms(1), of "FileNode part"] assms(1,2) by (simp add: child_of_def)
  then have "os_remove_file ?G (path_string (p @ [n])) = F"
    using assms(2) parent_child [of ?G p n] by (simp add: os_remove_file_def drop_new)
  with assms(5) have "r \<noteq> None" and F1: "F1 = (if pf_remove pf then ?G else F)" by (auto simp: give_up_def)
  moreover have "left_over pf rands content p F ?G" if "pf_remove pf"
    unfolding left_over_def using assms(2-4) that by (intro conjI bexI [of _ n] exI [of _ part]) simp_all
  ultimately show ?thesis by simp
qed

lemma gave_up_early:
  "(if a then give_up pf e1 tmp G else if b then give_up pf e2 tmp G else if c then give_up pf e3 tmp G else x) = y \<Longrightarrow>
    a \<or> b \<or> c \<Longrightarrow> \<exists>e. give_up pf e tmp G = y"
  by (auto split: if_splits)

text \<open>Installing into a directory that exists: the file is there, or nothing happened but for a temporary file.\<close>

lemma install_in_dir:
  assumes "fs_wf F" "no_links F" "node_at F p = Some DirNode" "p \<noteq> []" "list_all (\<lambda>r. CHR ''/'' \<notin> set r) rands"
  shows "install_skill pf rands (path_string p) content F = (r, F1) \<Longrightarrow>
    (if r = None then \<forall>q. node_at F1 q = (if q = p @ [''SKILL.md''] then Some (FileNode content) else node_at F q)
     else F1 = F \<or> left_over pf rands content p F F1)"
proof -
  assume run: "install_skill pf rands (path_string p) content F = (r, F1)"
  obtain d e where de: "p = d @ [e]" using assms(4) by (cases p rule: rev_cases) auto
  have nodes: "node_at F d = Some DirNode" "name_ok e"
    using fs_wf_node [OF assms(1,3,4)] by (simp_all add: de)
  then have "mkdir_all F (path_string p) = (None, F)"
    using mkdir_all_child [of F d e] assms by (simp add: de child_of_def)
  note run = run [unfolded install_skill_def this prod.case option.case]
  show ?thesis
  proof (cases "pf_mkdir pf \<or> pf_create pf \<or> create_temp F (path_string p) rands = None")
    case True
    with run show ?thesis by (auto split: if_splits)
  next
    case False
    then obtain tf where tf: "\<not> pf_mkdir pf" "\<not> pf_create pf" "create_temp F (path_string p) rands = Some tf" by auto
    then obtain n where n: "fst tf = path_string (p @ [n])" "child_of F p n" "node_at F (p @ [n]) = None" "n \<noteq> ''SKILL.md''"
      "n \<in> temp_names rands" "snd tf = put_node (p @ [n]) (FileNode []) F"
      using create_temp_child [OF assms(1-4) assms(5), of "fst tf" "snd tf"] by auto
    let ?part = "case pf_write pf of Some n \<Rightarrow> take n content | None \<Rightarrow> content"
    let ?tmp = "path_string (p @ [n])" and ?G = "\<lambda>c. put_node (p @ [n]) (FileNode c) F"
    have made: "create_temp F (path_string p) rands = Some (?tmp, ?G [])" using tf(3) n(1,6) by (cases tf) simp
    have c2: "child_of (?G []) p n" using child_put [OF n(2), of "FileNode []"] n assms by (simp add: child_of_def)
    have G: "os_write_file (?G []) ?tmp ?part = Inr (?G ?part)"
      using write_child [OF c2, of ?part] by (simp add: put_put)
    have part: "prefix ?part content" by (simp add: take_is_prefix split: option.splits)
    note gave_up = give_up_temp [OF n(2,3,5) part, of pf _ r F1]
    have skill: "name_ok ''SKILL.md''" by code_simp
    have c3: "child_of (?G content) p n" "child_of (?G content) p ''SKILL.md''"
      using child_put [OF n(2), of "FileNode content"] n skill assms by (simp_all add: child_of_def)
    have "list_all name_ok (p @ [''SKILL.md''])" using fs_wf_names [OF assms(1,3)] skill by simp
    note dest = path_join_string [OF this]
    have ren: "os_rename (?G content) ?tmp (path_string (p @ [''SKILL.md''])) =
        (if node_at F (p @ [''SKILL.md'']) = Some DirNode then None
         else Some (put_node (p @ [''SKILL.md'']) (FileNode content) F))"
      using n(3,4) parent_child [OF c3(1)] parent_child [OF c3(2)] by (simp add: os_rename_def drop_new)
    have run: "(if pf_write pf \<noteq> None then give_up pf ''failed to write skill file'' ?tmp (?G ?part)
        else if pf_close pf then give_up pf ''failed to write skill file'' ?tmp (?G ?part)
        else if pf_chmod pf then give_up pf ''failed to set file permissions'' ?tmp (?G ?part)
        else (case if pf_rename pf then None else os_rename (?G ?part) ?tmp (path_string (p @ [''SKILL.md''])) of
            None \<Rightarrow> give_up pf ''failed to install skill file'' ?tmp (?G ?part) | Some F4 \<Rightarrow> (None, F4))) = (r, F1)"
      using run tf(1,2) by (simp only: made G dest if_False option.case prod.case sum.case)
    show ?thesis
    proof (cases "pf_write pf \<noteq> None \<or> pf_close pf \<or> pf_chmod pf \<or> pf_rename pf
        \<or> node_at F (p @ [''SKILL.md'']) = Some DirNode")
      case True
      have "\<exists>e. give_up pf e ?tmp (?G ?part) = (r, F1)"
      proof (cases "pf_write pf \<noteq> None \<or> pf_close pf \<or> pf_chmod pf")
        case True
        from gave_up_early [OF run this] show ?thesis .
      next
        case False
        with True have "(if pf_rename pf then None else os_rename (?G ?part) ?tmp (path_string (p @ [''SKILL.md'']))) = None"
          using ren by auto
        with False run show ?thesis by auto
      qed
      then show ?thesis using gave_up by auto
    next
      case False
      with run ren show ?thesis by auto
    qed
  qed
qed

lemma install_error: "install_skill pf rands dir content F = (Some reply, F1) \<Longrightarrow> rs_status reply = 500"
  by (auto simp: install_skill_def give_up_def error_reply_def json_response_def split: option.splits sum.splits prod.splits if_splits)

lemma install_skill_at:
  assumes c: "child_of F d e" and r: "list_all (\<lambda>r. CHR ''/'' \<notin> set r) rands"
    and run: "install_skill pf rands (path_string (d @ [e])) content F = (r, F1)"
  shows "if r = None
    then \<forall>q. node_at F1 q = (if q = d @ [e, ''SKILL.md''] then Some (FileNode content)
        else if q = d @ [e] then Some DirNode else node_at F q)
    else F1 = F \<or> (\<exists>G. (G = F \<and> node_at F (d @ [e]) = Some DirNode \<or> node_at F (d @ [e]) = None \<and> G = put_node (d @ [e]) DirNode F)
        \<and> (F1 = G \<or> left_over pf rands content (d @ [e]) G F1))"
proof -
  have ne: "d @ [e] \<noteq> []" by simp
  consider "pf_mkdir pf" | "node_at F (d @ [e]) = None" "\<not> pf_mkdir pf" | "node_at F (d @ [e]) = Some DirNode"
    | n where "node_at F (d @ [e]) = Some n" "n \<noteq> DirNode" by (cases "node_at F (d @ [e])") auto
  then show ?thesis
  proof cases
    case 1
    with run show ?thesis by (auto simp: install_skill_def)
  next
    case 2
    let ?G = "put_node (d @ [e]) DirNode F"
    note G = child_put [OF c, of DirNode, simplified]
    have "child_of ?G d e" using G c by (simp add: child_of_def)
    then have "mkdir_all F (path_string (d @ [e])) = mkdir_all ?G (path_string (d @ [e]))"
      using 2 by (simp add: mkdir_all_child [OF c] mkdir_all_child)
    then have "install_skill pf rands (path_string (d @ [e])) content ?G = (r, F1)"
      using run 2(2) by (simp only: install_skill_def if_False)
    from install_in_dir [OF G _ ne r this] 2 show ?thesis by (cases r) auto
  next
    case 3
    from install_in_dir [OF _ _ 3 ne r run] c 3 show ?thesis by (cases r) (auto simp: child_of_def)
  next
    case 4
    with run show ?thesis by (auto simp: install_skill_def mkdir_all_child [OF c] split: if_splits)
  qed
qed

text \<open>
  C38. A pulled skill is installed under the skills directory. With a skills directory that is there,
  given by its absolute path and not the root, no symbolic links (through which a write can leave
  it) and random parts of temporary names without a slash, whatever of the system calls fails: a pull answered with 200 has put exactly the fetched
  content into the file SKILL.md of a directory whose name is a plain name, made if it was not
  there, and left every other path as it was. A pull answered otherwise has changed nothing, or
  has made the directory of the skill where none was, and below that directory nothing is new
  unless the removal of the temporary file failed too; then just that file, with at most a first
  part of the content, is left in it. SKILL.md itself is never partly written.
\<close>

theorem pulled_skill_installed:
  assumes "fs_wf F" "no_links F" "node_at F D = Some DirNode" "D \<noteq> []" "list_all (\<lambda>r. CHR ''/'' \<notin> set r) rands"
  shows "case store_skill pf rands (path_string D) source sk F of (reply, F1) \<Rightarrow>
    let p = D @ [sk_skill_name sk] in
    if rs_status reply = 200
    then name_ok (sk_skill_name sk) \<and> (\<forall>q. node_at F1 q =
        (if q = p @ [''SKILL.md''] then Some (FileNode (sk_content sk)) else if q = p then Some DirNode else node_at F q))
    else F1 = F \<or> (\<exists>G. (G = F \<and> node_at F p = Some DirNode \<or> node_at F p = None \<and> G = put_node p DirNode F)
      \<and> (F1 = G \<or> pf_remove pf \<and> (\<exists>r \<in> set rands. \<exists>part. prefix part (sk_content sk)
            \<and> node_at G (p @ [''skill-'' @ r @ ''.tmp'']) = None
            \<and> F1 = put_node (p @ [''skill-'' @ r @ ''.tmp'']) (FileNode part) G)))"
proof -
  let ?name = "sk_skill_name sk"
  let ?p = "D @ [?name]"
  have D: "list_all name_ok D" using fs_wf_names [OF assms(1,3)] .
  have cl: "path_clean (path_string D) = path_string D"
    using clean_path_string [OF plain_path_string [OF D]] path_string_names [OF D] by simp
  have slash: "path_join [path_string D, ''/''] = path_string D"
  proof -
    have "plain_path (path_string D @ ''//'')" "path_names (path_string D @ ''//'') = D" "is_abs (path_string D @ ''//'')"
      using plain_path_string [OF D] path_string_names [OF D]
      by (simp_all add: plain_path_def path_names_def split_on_append_sep dotdot_def is_elem_def is_abs_def path_string_def has_prefix_def)
    then show ?thesis by (simp add: path_join_def clean_path_string)
  qed
  have plain: "path_base (path_clean ?name) = ?name \<Longrightarrow> ?name = path_base ?name" by (metis path_base_idem)
  consider "path_base (path_clean ?name) \<in> {''.'', ''..'', []} \<or> path_base (path_clean ?name) \<noteq> ?name" | "?name = ''/''"
    | "path_base (path_clean ?name) = ?name" "name_ok ?name"
    using base_name_ok [of ?name] plain unfolding dot_def dotdot_def by (metis insert_iff)
  then show ?thesis
  proof cases
    case 1
    then show ?thesis by (auto simp: store_skill_def Let_def invalid_name_def error_reply_def json_response_def)
  next
    case 2
    have "\<not> has_prefix (path_string D) (path_string D @ ''/'')" by (simp add: has_prefix_iff prefix_def)
    then have "store_skill pf rands (path_string D) source sk F = (invalid_name, F)"
      by (auto simp: store_skill_def Let_def 2 cl slash)
    then show ?thesis by (simp add: invalid_name_def error_reply_def json_response_def)
  next
    case 3
    then have c: "child_of F D ?name" using assms by (simp add: child_of_def)
    have join: "path_join [path_string D, ?name] = path_string ?p" using path_join_string [of D ?name] D 3 by simp
    have "has_prefix (path_string ?p) (path_string D @ ''/'')"
      using assms(4) by (simp add: has_prefix_iff path_string_def join_snoc)
    moreover have "path_base (path_clean ?name) \<notin> {''.'', ''..'', []}"
      using 3 by (auto simp: name_ok_def elem_ok_def dot_def dotdot_def)
    ultimately have run: "store_skill pf rands (path_string D) source sk F =
        (case install_skill pf rands (path_string ?p) (sk_content sk) F of
          (Some reply, F1) \<Rightarrow> (reply, F1)
        | (None, F1) \<Rightarrow> (json_response 200 (JObj [(''name'', JStr ?name), (''source'', JStr source), (''status'', JStr ''ok''),
            (''path'', JStr (?name @ ''/SKILL.md''))]), F1))"
      using 3(1) by (simp add: store_skill_def Let_def cl join)
    show ?thesis
    proof (cases "install_skill pf rands (path_string ?p) (sk_content sk) F")
      case (Pair r F1)
      note at = install_skill_at [OF c assms(5) Pair]
      show ?thesis
      proof (cases r)
        case None
        with at 3(2) run Pair show ?thesis by (simp add: Let_def json_response_def)
      next
        case (Some reply)
        then have st: "rs_status reply = 500" using Pair install_error by blast
        have "store_skill pf rands (path_string D) source sk F = (reply, F1)" using run Pair Some by simp
        with at Some st show ?thesis by (auto simp: Let_def left_over_def temp_names_def)
      qed
    qed
  qed
qed

definition no_pull_faults :: pull_faults where
  "no_pull_faults = \<lparr>pf_mkdir = False, pf_create = False, pf_write = None, pf_close = False, pf_chmod = False,
     pf_rename = False, pf_remove = False\<rparr>"

text \<open>A disk that fills up, and does not let the temporary file be removed either.\<close>

lemma failed_pull_leaves_temp:
  "(let (reply, F1) = store_skill (no_pull_faults\<lparr>pf_write := Some 3, pf_remove := True\<rparr>) [''7''] ''/s/hr'' ''url''
        \<lparr>sk_skill_name = ''new'', sk_content = ''# New''\<rparr> skills_fs
    in rs_status reply = 500 \<and> node_at F1 [''s'', ''hr'', ''new'', ''skill-7.tmp''] = Some (FileNode ''# N'')
      \<and> node_at F1 [''s'', ''hr'', ''new'', ''SKILL.md''] = None)"
  by code_simp

theorem pulled_skill_installed_witness:
  "case store_skill no_pull_faults [''7''] ''/s/hr'' ''url'' \<lparr>sk_skill_name = ''new'', sk_content = ''# New''\<rparr> skills_fs of
    (reply, F1) \<Rightarrow> rs_status reply = 200 \<and> node_at F1 [''s'', ''hr'', ''new'', ''SKILL.md''] = Some (FileNode ''# New'')
      \<and> node_at F1 [''s'', ''hr'', ''new'', ''skill-7.tmp''] = None"
proof -
  have wf: "fs_wf skills_fs" by (simp add: fs_wf_def skills_fs_def node_at_def name_ok_def elem_ok_def dot_def dotdot_def)
  have nl: "no_links skills_fs" by (simp add: no_links_def skills_fs_def)
  have p: "path_string [''s'', ''hr''] = ''/s/hr''" "node_at skills_fs [''s'', ''hr''] = Some DirNode"
    "node_at skills_fs [''s'', ''hr'', ''new'', ''skill-7.tmp''] = None" by code_simp+
  have ok: "rs_status (fst (store_skill no_pull_faults [''7''] ''/s/hr'' ''url'' \<lparr>sk_skill_name = ''new'', sk_content = ''# New''\<rparr> skills_fs)) = 200"
    by code_simp
  from pulled_skill_installed [OF wf nl p(2), where pf = no_pull_faults and rands = "[''7'']" and source = "''url''" and sk = "\<lparr>sk_skill_name = ''new'', sk_content = ''# New''\<rparr>"] ok
  show ?thesis by (auto simp: p Let_def split: prod.splits)
qed

end
