(* ===== verification/Observability.thy ===== *)
theory Observability
  imports Llm Go_Json_Text Go_Http
begin

section \<open>internal/logger and internal/telemetry: what the program says about its work\<close>

text \<open>
  The logger: which handler it picks, the lines its text handler writes, and the wrappers. A line of
  the JSON handler of the standard library is given with the quoting of strings and the time stamp
  as parameters. The telemetry: the texts attached to spans and how they are cut, the writer that
  remembers the status of a response, and the set-up of the exporters, whose constructors are
  parameters. Locks, spans as such and the propagation of trace contexts are left out.
\<close>

subsection \<open>Records and components\<close>

datatype log_component =
    ComponentUserService | ComponentAgentSvc | ComponentDocService | ComponentDashboard | ComponentMTLS
  | ComponentSummarizer | ComponentReviewer | ComponentCredGateway | ComponentAgent

fun component_name :: "log_component \<Rightarrow> string" where
  "component_name ComponentUserService = ''USER-SERVICE''"
| "component_name ComponentAgentSvc = ''AGENT-SERVICE''"
| "component_name ComponentDocService = ''DOC-SERVICE''"
| "component_name ComponentDashboard = ''DASHBOARD''"
| "component_name ComponentMTLS = ''mTLS''"
| "component_name ComponentSummarizer = ''SUMMARIZER''"
| "component_name ComponentReviewer = ''REVIEWER''"
| "component_name ComponentCredGateway = ''CRED-GATEWAY''"
| "component_name ComponentAgent = ''DOCSCLAW''"

definition sgr :: "string \<Rightarrow> string" where
  "sgr code = [CHR 0x1B] @ ''['' @ code @ ''m''"

fun component_color :: "log_component \<Rightarrow> string" where
  "component_color ComponentUserService = sgr ''34''"
| "component_color ComponentAgentSvc = sgr ''35''"
| "component_color ComponentDocService = sgr ''33''"
| "component_color ComponentDashboard = sgr ''37''"
| "component_color ComponentMTLS = sgr ''33''"
| "component_color ComponentSummarizer = sgr ''36''"
| "component_color ComponentReviewer = sgr ''35''"
| "component_color ComponentCredGateway = sgr ''32''"
| "component_color ComponentAgent = sgr ''36''"

text \<open>An attribute value: an int, a string, or another value with its texts for \<open>%v\<close> and for JSON.\<close>

datatype log_value = LogInt int | LogStr string | LogOther string string

record log_record =
  lr_level :: int
  lr_message :: string
  lr_attrs :: "(string \<times> log_value) list"

definition level_info :: int where "level_info = 0"
definition level_warn :: int where "level_warn = 4"
definition level_error :: int where "level_error = 8"

fun value_text :: "log_value \<Rightarrow> string" where
  "value_text (LogInt i) = itoa i"
| "value_text (LogStr s) = s"
| "value_text (LogOther t _) = t"

subsection \<open>The text handler\<close>

text \<open>The red, yellow, blue and purple circle in UTF-8.\<close>

definition level_emoji :: "int \<Rightarrow> string" where
  "level_emoji level =
     (if level \<ge> level_error then [CHR 0xF0, CHR 0x9F, CHR 0x94, CHR 0xB4]
      else if level \<ge> level_warn then [CHR 0xF0, CHR 0x9F, CHR 0x9F, CHR 0xA1]
      else if level \<ge> level_info then [CHR 0xF0, CHR 0x9F, CHR 0x94, CHR 0xB5]
      else [CHR 0xF0, CHR 0x9F, CHR 0x9F, CHR 0xA3])"

text \<open>The attributes given to \<open>With\<close> are kept by an embedded handler that \<open>Handle\<close> does not ask.\<close>

record color_handler =
  ch_inner :: "(string \<times> log_value) list"
  ch_groups :: "string list"
  ch_component :: log_component
  ch_colors :: bool

definition new_color_handler :: "log_component \<Rightarrow> bool \<Rightarrow> color_handler" where
  "new_color_handler c colors = \<lparr>ch_inner = [], ch_groups = [], ch_component = c, ch_colors = colors\<rparr>"

definition handle_record :: "color_handler \<Rightarrow> log_record \<Rightarrow> string" where
  "handle_record h r =
     (let color = (if ch_colors h then component_color (ch_component h) else []);
          reset = (if ch_colors h then sgr ''0'' else []) in
      color @ level_emoji (lr_level r) @ '' ['' @ component_name (ch_component h) @ '']'' @ reset @ '' '' @ lr_message r
        @ concat (map (\<lambda>(k, v). '' '' @ k @ ''='' @ value_text v) (lr_attrs r)) @ nl)"

definition with_attrs :: "color_handler \<Rightarrow> (string \<times> log_value) list \<Rightarrow> color_handler" where
  "with_attrs h attrs = h\<lparr>ch_inner := ch_inner h @ attrs\<rparr>"

definition with_group :: "color_handler \<Rightarrow> string \<Rightarrow> color_handler" where
  "with_group h name = h\<lparr>ch_groups := ch_groups h @ [name]\<rparr>"

subsection \<open>The JSON handler and the choice of a handler\<close>

fun value_json :: "(string \<Rightarrow> string) \<Rightarrow> log_value \<Rightarrow> string" where
  "value_json q (LogInt i) = itoa i"
| "value_json q (LogStr s) = q s"
| "value_json q (LogOther _ j) = j"

definition level_name :: "int \<Rightarrow> string" where
  "level_name level =
     (let show_from = (\<lambda>base d. base @ (if d = 0 then [] else (if d > 0 then ''+'' else []) @ itoa d)) in
      if level < level_info then show_from ''DEBUG'' (level + 4)
      else if level < level_warn then show_from ''INFO'' (level - level_info)
      else if level < level_error then show_from ''WARN'' (level - level_warn)
      else show_from ''ERROR'' (level - level_error))"

definition json_line :: "(string \<Rightarrow> string) \<Rightarrow> string \<Rightarrow> log_component \<Rightarrow> log_record \<Rightarrow> string" where
  "json_line q stamp c r =
     ''{'' @ str_join '','' (map (\<lambda>(k, t). q k @ '':'' @ t)
       ([(''time'', q stamp), (''level'', q (level_name (lr_level r))), (''msg'', q (lr_message r)), (''component'', q (component_name c))]
        @ map (\<lambda>(k, v). (k, value_json q v)) (lr_attrs r))) @ ''}'' @ nl"

datatype log_handler = JsonHandler log_component | TextHandler color_handler

text \<open>The environment maps an unset variable to the empty string.\<close>

definition new_logger :: "(string \<Rightarrow> string) \<Rightarrow> bool \<Rightarrow> log_component \<Rightarrow> log_handler" where
  "new_logger getenv terminal c =
     (let format = (if getenv ''LOG_FORMAT'' = [] then getenv ''DOCSCLAW_LOG_FORMAT'' else getenv ''LOG_FORMAT'');
          use_json = (format = ''json''); use_text = (format = ''text'') in
      if use_json \<or> \<not> use_text \<and> \<not> terminal then JsonHandler c
      else TextHandler (new_color_handler c (getenv ''NO_COLOR'' = [] \<and> getenv ''TERM'' \<noteq> ''dumb'')))"

definition new_with_writer :: "log_component \<Rightarrow> bool \<Rightarrow> log_handler" where
  "new_with_writer c colors = TextHandler (new_color_handler c colors)"

fun log_output :: "(string \<Rightarrow> string) \<Rightarrow> string \<Rightarrow> log_handler \<Rightarrow> log_record \<Rightarrow> string" where
  "log_output q stamp (JsonHandler c) r = json_line q stamp c r"
| "log_output q stamp (TextHandler h) r = handle_record h r"

subsection \<open>The wrappers\<close>

datatype log_direction = DirectionOutgoing | DirectionIncoming | DirectionNone

fun direction_text :: "log_direction \<Rightarrow> string" where
  "direction_text DirectionOutgoing = ''->''"
| "direction_text DirectionIncoming = ''<-''"
| "direction_text DirectionNone = []"

definition info_record :: "string \<Rightarrow> (string \<times> log_value) list \<Rightarrow> log_record" where
  "info_record msg attrs = \<lparr>lr_level = level_info, lr_message = msg, lr_attrs = attrs\<rparr>"

text \<open>\<open>Flow\<close> does not pass its attributes on.\<close>

definition log_flow :: "log_direction \<Rightarrow> string \<Rightarrow> (string \<times> log_value) list \<Rightarrow> log_record" where
  "log_flow d msg attrs = info_record ((if d \<noteq> DirectionNone then direction_text d @ '' '' else []) @ msg) []"

definition tick_mark :: string where "tick_mark = [CHR 0xE2, CHR 0x9C, CHR 0x85]"

definition log_success :: "string \<Rightarrow> (string \<times> log_value) list \<Rightarrow> log_record" where
  "log_success msg attrs = info_record (tick_mark @ '' '' @ msg) attrs"

definition log_deny :: "string \<Rightarrow> (string \<times> log_value) list \<Rightarrow> log_record" where
  "log_deny msg attrs = \<lparr>lr_level = level_error, lr_message = [CHR 0xE2, CHR 0x9D, CHR 0x8C] @ '' '' @ msg, lr_attrs = attrs\<rparr>"

definition log_allow :: "string \<Rightarrow> (string \<times> log_value) list \<Rightarrow> log_record" where
  "log_allow msg attrs = info_record (tick_mark @ '' ALLOW: '' @ msg) attrs"

definition section_rule :: string where
  "section_rule = concat (replicate 50 [CHR 0xE2, CHR 0x95, CHR 0x90])"

definition log_section :: "string \<Rightarrow> log_record list" where
  "log_section title = map (\<lambda>m. info_record m []) [[], section_rule, '' '' @ title, section_rule, []]"

definition log_document :: "string \<Rightarrow> string \<Rightarrow> log_record" where
  "log_document doc msg = info_record ([CHR 0xF0, CHR 0x9F, CHR 0x93, CHR 0x84] @ '' ['' @ doc @ ''] '' @ msg) []"

definition log_policy :: "string \<Rightarrow> (string \<times> log_value) list \<Rightarrow> log_record" where
  "log_policy msg attrs = info_record ([CHR 0xF0, CHR 0x9F, CHR 0x93, CHR 0x8B] @ '' '' @ msg) attrs"

lemma with_attrs_lost: "handle_record (with_attrs h attrs) r = handle_record h r"
  by (simp add: handle_record_def with_attrs_def)

subsection \<open>The log line of an iteration of the loop\<close>

definition usage_record :: "string \<Rightarrow> string \<Rightarrow> nat \<Rightarrow> usage \<Rightarrow> string \<Rightarrow> log_record" where
  "usage_record provider model i u stop = info_record ''LLM response received''
     ([(''provider'', LogStr provider), (''model'', LogStr model), (''iteration'', LogInt (int i + 1)),
       (''input_tokens'', LogInt (input_tokens u)), (''output_tokens'', LogInt (output_tokens u)),
       (''total_tokens'', LogInt (total_tokens u)), (''stop_reason'', LogStr stop)]
      @ (if cache_read_tokens u > 0 then [(''cache_read_tokens'', LogInt (cache_read_tokens u))] else [])
      @ (if cache_write_tokens u > 0 then [(''cache_write_tokens'', LogInt (cache_write_tokens u))] else []))"

subsection \<open>Texts on spans\<close>

definition max_event_bytes :: int where "max_event_bytes = 10240"

text \<open>The bytes that do not make a valid text are dropped from the end, one by one.\<close>

function drop_invalid :: "string \<Rightarrow> string" where
  "drop_invalid s = (if valid_utf8 s then s else drop_invalid (butlast s))"
  by pat_completeness auto
termination
proof (relation "measure length")
  fix s assume "\<not> valid_utf8 s"
  then have "s \<noteq> []" by auto
  then show "(butlast s, s) \<in> measure length" by simp
qed simp

declare drop_invalid.simps [simp del]

definition truncated_mark :: string where "truncated_mark = ''...[truncated]''"

definition telemetry_truncate :: "string \<Rightarrow> int \<Rightarrow> string" where
  "telemetry_truncate s max_bytes =
     (if int (length s) \<le> max_bytes then s
      else if max_bytes \<le> int (length truncated_mark) then take (nat max_bytes) truncated_mark
      else trim_right_set {CHR 0x00} (drop_invalid (take (nat max_bytes - length truncated_mark) s)) @ truncated_mark)"

datatype span_attr = StringAttr string string | BoolAttr string bool | IntAttr string int

record span_event =
  ev_name :: string
  ev_attrs :: "span_attr list"

definition add_message_event :: "bool \<Rightarrow> string \<Rightarrow> string \<Rightarrow> string \<Rightarrow> span_event list" where
  "add_message_event recording event_name role content =
     (if \<not> recording then []
      else [\<lparr>ev_name = event_name, ev_attrs = [StringAttr ''message.role'' role,
          StringAttr ''message.content'' (telemetry_truncate content max_event_bytes)]\<rparr>])"

definition add_tool_args_event :: "(rat \<Rightarrow> string) \<Rightarrow> bool \<Rightarrow> string \<Rightarrow> (string \<times> json) list \<Rightarrow> span_event list" where
  "add_tool_args_event ft recording tool_name args =
     (if \<not> recording then []
      else [\<lparr>ev_name = ''tool.args'', ev_attrs = [StringAttr ''tool.name'' tool_name,
          StringAttr ''tool.args'' (telemetry_truncate (json_text ft (JObj args)) max_event_bytes)]\<rparr>])"

definition add_tool_result_event :: "bool \<Rightarrow> string \<Rightarrow> string \<Rightarrow> bool \<Rightarrow> span_event list" where
  "add_tool_result_event recording tool_name out is_error =
     (if \<not> recording then []
      else [\<lparr>ev_name = ''tool.result'', ev_attrs = [StringAttr ''tool.name'' tool_name,
          StringAttr ''tool.output'' (telemetry_truncate out max_event_bytes), BoolAttr ''tool.is_error'' is_error]\<rparr>])"

lemma drop_invalid_prefix: "\<exists>t. s = drop_invalid s @ t"
proof (induction s rule: drop_invalid.induct)
  case (1 s)
  show ?case
  proof (cases "valid_utf8 s")
    case True
    then show ?thesis by (subst drop_invalid.simps) simp
  next
    case False
    then obtain t where "butlast s = drop_invalid (butlast s) @ t" using "1.IH" by blast
    moreover have "s = butlast s @ [last s]" using False by (cases "s = []") auto
    ultimately have "s = drop_invalid (butlast s) @ t @ [last s]" by (metis append.assoc)
    then show ?thesis using False by (subst drop_invalid.simps) auto
  qed
qed

lemma trim_right_prefix: "\<exists>t. s = trim_right_set cs s @ t"
proof -
  have "s = rev (takeWhile (\<lambda>c. c \<in> cs) (rev s) @ dropWhile (\<lambda>c. c \<in> cs) (rev s))" by simp
  then have "s = trim_right_set cs s @ rev (takeWhile (\<lambda>c. c \<in> cs) (rev s))"
    by (simp only: trim_right_set_def rev_append)
  then show ?thesis ..
qed

text \<open>What is put on a span is no longer than the limit: the text or a beginning of it and a mark.\<close>

lemma telemetry_truncate_bounds:
  assumes "int (length truncated_mark) < max_bytes"
  shows "int (length (telemetry_truncate s max_bytes)) \<le> max_bytes
    \<and> (telemetry_truncate s max_bytes = s \<or> (\<exists>a b. s = a @ b \<and> telemetry_truncate s max_bytes = a @ truncated_mark))"
proof (cases "int (length s) \<le> max_bytes")
  case True
  then show ?thesis by (simp add: telemetry_truncate_def)
next
  case False
  let ?cut = "take (nat max_bytes - length truncated_mark) s"
  obtain t u where "?cut = drop_invalid ?cut @ t" "drop_invalid ?cut = trim_right_set {CHR 0x00} (drop_invalid ?cut) @ u"
    using drop_invalid_prefix [of ?cut] trim_right_prefix [of "drop_invalid ?cut" "{CHR 0x00}"] by blast
  then have cut: "?cut = trim_right_set {CHR 0x00} (drop_invalid ?cut) @ u @ t" by (metis append.assoc)
  then have "s = trim_right_set {CHR 0x00} (drop_invalid ?cut) @ u @ t @ drop (nat max_bytes - length truncated_mark) s"
    by (metis append.assoc append_take_drop_id)
  moreover have "length (trim_right_set {CHR 0x00} (drop_invalid ?cut)) \<le> nat max_bytes - length truncated_mark"
    using arg_cong [OF cut, of length] by simp
  ultimately show ?thesis using False assms by (auto simp: telemetry_truncate_def)
qed

text \<open>One byte that is no UTF-8 at the start of a long text, and nothing of it is left.\<close>

lemma invalid_start_loses_all: "drop_invalid (CHR 0xFF # s) = []"
proof (induction s rule: rev_induct)
  case Nil
  have "\<not> valid_utf8 [CHR 0xFF]" by code_simp
  then show ?case by (subst drop_invalid.simps) (simp add: drop_invalid.simps [of "[]"])
next
  case (snoc x s)
  have "rune_len (CHR 0xFF # s @ [x]) = 0" by (simp add: rune_len_def lead_len_def)
  then have "\<not> valid_utf8 (CHR 0xFF # s @ [x])" by (subst valid_utf8.simps) simp
  then show ?case using snoc.IH by (subst drop_invalid.simps) simp
qed

subsection \<open>The middleware and the set-up\<close>

record status_writer =
  sw_status :: int
  sw_wrote :: bool

definition write_header :: "int \<Rightarrow> status_writer \<Rightarrow> status_writer" where
  "write_header code sw = (if sw_wrote sw then sw else \<lparr>sw_status = code, sw_wrote = True\<rparr>)"

text \<open>The name and the attributes of the span of a request whose handler wrote these headers.\<close>

definition http_span :: "string \<Rightarrow> string \<Rightarrow> int list \<Rightarrow> string \<times> span_attr list" where
  "http_span verb path codes =
     (''HTTP '' @ verb @ '' '' @ path,
      [StringAttr ''http.method'' verb, StringAttr ''http.route'' path,
       IntAttr ''http.status_code'' (sw_status (fold write_header codes \<lparr>sw_status = 200, sw_wrote = False\<rparr>))])"

lemma http_span_status:
  "snd (http_span verb path codes) = [StringAttr ''http.method'' verb, StringAttr ''http.route'' path,
     IntAttr ''http.status_code'' (case codes of [] \<Rightarrow> 200 | c # _ \<Rightarrow> c)]"
proof -
  have "fold write_header cs \<lparr>sw_status = c, sw_wrote = True\<rparr> = \<lparr>sw_status = c, sw_wrote = True\<rparr>" for c cs
    by (induction cs) (simp_all add: write_header_def)
  then show ?thesis by (cases codes) (simp_all add: http_span_def write_header_def)
qed

record tracing_config =
  tg_enabled :: bool
  tg_endpoint :: string
  tg_stdout :: bool
  tg_version :: string

text \<open>An exporter over OTLP with the endpoint set by the configuration, if any, and whether it is without TLS.\<close>

datatype span_exporter = OtlpExporter "string option" bool | StdoutExporter

record exporter_lib =
  el_resource :: "string option"
  el_otlp :: "string option \<Rightarrow> bool \<Rightarrow> string option"
  el_stdout :: "string option"

definition otlp_part :: "exporter_lib \<Rightarrow> (string \<Rightarrow> string) \<Rightarrow> tracing_config \<Rightarrow> string + span_exporter list" where
  "otlp_part lib getenv cfg =
     (if tg_endpoint cfg \<noteq> [] \<or> getenv ''OTEL_EXPORTER_OTLP_ENDPOINT'' \<noteq> []
      then let endpoint = (if tg_endpoint cfg \<noteq> [] then Some (tg_endpoint cfg) else None);
               insecure = (getenv ''OTEL_EXPORTER_OTLP_INSECURE'' = ''true'') in
        (case el_otlp lib endpoint insecure of
           Some e \<Rightarrow> Inl (''creating OTLP exporter: '' @ e)
         | None \<Rightarrow> Inr [OtlpExporter endpoint insecure])
      else Inr [])"

text \<open>The exporters of the tracer provider that is installed, if one is.\<close>

definition init_tracing :: "exporter_lib \<Rightarrow> (string \<Rightarrow> string) \<Rightarrow> tracing_config \<Rightarrow> string + span_exporter list option" where
  "init_tracing lib getenv cfg =
     (if \<not> tg_enabled cfg then Inr None
      else (case el_resource lib of
          Some e \<Rightarrow> Inl (''creating OTel resource: '' @ e)
        | None \<Rightarrow>
            bind_res (otlp_part lib getenv cfg) (\<lambda>es.
              if tg_stdout cfg
              then (case el_stdout lib of
                  Some e \<Rightarrow> Inl (''creating stdout exporter: '' @ e)
                | None \<Rightarrow> Inr (Some (es @ [StdoutExporter])))
              else Inr (Some es))))"

text \<open>Spans leave the process without TLS only when the environment says so.\<close>

lemma tracing_is_tls:
  assumes "init_tracing lib getenv cfg = Inr (Some es)" "OtlpExporter endpoint True \<in> set es"
  shows "getenv ''OTEL_EXPORTER_OTLP_INSECURE'' = ''true''"
  using assms by (auto simp: init_tracing_def otlp_part_def bind_res_def Let_def split: option.splits if_splits sum.splits)

end
