(* ===== verification/Dash_K8s.thy ===== *)
theory Dash_K8s
  imports "HOL-Library.Word" Observability Build_Deploy Go_Url
begin

section \<open>demo/batch/dashboard/k8s.go: the client of the cluster\<close>

text \<open>
  The Kubernetes client of the dashboard over a world \<open>'n\<close>. Parameters: sending a request (the HTTP
  client with its redirects, its time limit and the TLS settings of the record), the YAML codec, the
  number reader of strconv and the texts of library errors. Objects are the JSON values the code
  marshals; log lines are left out.
\<close>

subsection \<open>The client\<close>

datatype tls_roots = ClusterRoots string | SystemRoots | NoVerification

record k8s_client =
  kc_base :: string
  kc_token :: string
  kc_tls :: tls_roots
  kc_namespace :: string

definition sa_dir :: string where "sa_dir = ''/var/run/secrets/kubernetes.io/serviceaccount/''"

definition read_as :: "string \<Rightarrow> path_error + string \<Rightarrow> string + string" where
  "read_as what r = (case r of Inl e \<Rightarrow> Inl (what @ '': '' @ path_error_text e) | Inr s \<Rightarrow> Inr s)"

definition new_in_cluster :: "fs \<Rightarrow> string \<Rightarrow> string + k8s_client" where
  "new_in_cluster F namespace =
     bind_res (read_as ''read SA token'' (os_read_file F (sa_dir @ ''token''))) (\<lambda>token.
     bind_res (read_as ''read SA CA'' (os_read_file F (sa_dir @ ''ca.crt''))) (\<lambda>ca.
     bind_res (if namespace = [] then read_as ''read SA namespace'' (os_read_file F (sa_dir @ ''namespace'')) else Inr namespace) (\<lambda>ns.
     Inr \<lparr>kc_base = ''https://kubernetes.default.svc'', kc_token = token, kc_tls = ClusterRoots ca, kc_namespace = ns\<rparr>)))"

record kube_cluster =
  kl_name :: string
  kl_server :: string
  kl_ca_file :: string
  kl_ca_data :: string
  kl_insecure :: bool

record kube_context =
  kx_name :: string
  kx_cluster :: string
  kx_user :: string
  kx_namespace :: string

record kube_config =
  kf_current :: string
  kf_clusters :: "kube_cluster list"
  kf_contexts :: "kube_context list"
  kf_users :: "(string \<times> string) list"

record 'n kube_env =
  ke_send :: "string \<Rightarrow> string \<Rightarrow> headers \<Rightarrow> string option \<Rightarrow> 'n \<Rightarrow> http_result \<times> 'n"
  ke_url_error :: "string \<Rightarrow> string"
  ke_kubeconfig :: "string \<Rightarrow> string + kube_config"
  ke_b64_error :: "string \<Rightarrow> string"
  ke_json_error :: "string \<Rightarrow> string"
  ke_yaml_decode :: "string \<Rightarrow> string + args"
  ke_yaml_encode :: "args \<Rightarrow> string + string"
  ke_number :: "rat \<Rightarrow> string"
  ke_float :: "string \<Rightarrow> rat"
  ke_quote :: "string \<Rightarrow> string"

text \<open>\<open>base64.StdEncoding\<close>: line breaks are skipped, padding is required.\<close>

definition b64_std_read :: "string \<Rightarrow> string option" where
  "b64_std_read s =
     (let t = filter (\<lambda>c. c \<noteq> CHR 0x0A \<and> c \<noteq> CHR 0x0D) s;
          ds = map b64_std_val (takeWhile (\<lambda>c. c \<noteq> CHR ''='') t) in
      if length t mod 4 = 0 \<and> dropWhile (\<lambda>c. c \<noteq> CHR ''='') t \<in> {[], ''='', ''==''} \<and> list_all (\<lambda>d. d \<noteq> None) ds
      then b64_bytes (map the ds) else None)"

text \<open>The roots of a cluster: data before a file before the switch.\<close>

definition cluster_roots :: "'n kube_env \<Rightarrow> fs \<Rightarrow> kube_cluster \<Rightarrow> string + tls_roots" where
  "cluster_roots env F c =
     (if kl_ca_data c \<noteq> [] then
        (case b64_std_read (kl_ca_data c) of
           None \<Rightarrow> Inl (''decode certificate-authority-data: '' @ ke_b64_error env (kl_ca_data c))
         | Some pem \<Rightarrow> Inr (ClusterRoots pem))
      else if kl_ca_file c \<noteq> [] then
        bind_res (read_as ''read certificate-authority'' (os_read_file F (kl_ca_file c))) (\<lambda>pem. Inr (ClusterRoots pem))
      else if kl_insecure c then Inr NoVerification
      else Inr SystemRoots)"

definition new_from_kubeconfig :: "'n kube_env \<Rightarrow> fs \<Rightarrow> string \<Rightarrow> string \<Rightarrow> string + k8s_client" where
  "new_from_kubeconfig env F namespace path =
     bind_res (read_as ''read kubeconfig'' (os_read_file F path)) (\<lambda>data.
       case ke_kubeconfig env data of
         Inl e \<Rightarrow> Inl (''parse kubeconfig: '' @ e)
       | Inr kc \<Rightarrow>
           (let ctx = find (\<lambda>x. kx_name x = kf_current kc) (kf_contexts kc);
                cluster_name = (case ctx of Some x \<Rightarrow> kx_cluster x | None \<Rightarrow> []);
                user_name = (case ctx of Some x \<Rightarrow> kx_user x | None \<Rightarrow> []);
                ns = (case ctx of Some x \<Rightarrow> if namespace = [] then kx_namespace x else namespace | None \<Rightarrow> namespace);
                token = (case map_of (kf_users kc) user_name of Some t \<Rightarrow> t | None \<Rightarrow> []) in
            case find (\<lambda>c. kl_name c = cluster_name) (kf_clusters kc) of
              None \<Rightarrow> Inl (''no server found for context '' @ ke_quote env (kf_current kc))
            | Some c \<Rightarrow>
                if kl_server c = [] then Inl (''no server found for context '' @ ke_quote env (kf_current kc))
                else bind_res (cluster_roots env F c) (\<lambda>roots.
                  Inr \<lparr>kc_base = trim_right_set {CHR ''/''} (kl_server c), kc_token = token, kc_tls = roots, kc_namespace = ns\<rparr>)))"

definition new_k8s_client :: "'n kube_env \<Rightarrow> fs \<Rightarrow> string \<Rightarrow> string \<Rightarrow> string + k8s_client" where
  "new_k8s_client env F namespace kubeconfig =
     (if kubeconfig \<noteq> [] then new_from_kubeconfig env F namespace kubeconfig else new_in_cluster F namespace)"

subsection \<open>Requests\<close>

text \<open>The body and the status, or an error before or while the body was read.\<close>

definition kube_headers :: "k8s_client \<Rightarrow> bool \<Rightarrow> headers" where
  "kube_headers c with_body =
     (if with_body then header_set ''Content-Type'' ''application/json'' else id)
       ((if kc_token c \<noteq> [] then header_set ''Authorization'' (''Bearer '' @ kc_token c) else id) [])"

definition kube_do ::
  "'n kube_env \<Rightarrow> k8s_client \<Rightarrow> string \<Rightarrow> string \<Rightarrow> string option \<Rightarrow> 'n \<Rightarrow> (string + string \<times> int) \<times> 'n" where
  "kube_do env c verb path body w =
     (let url = kc_base c @ path in
      if url_parse url = None then (Inl (ke_url_error env url), w)
      else (let (r, w1) = ke_send env verb url (kube_headers c (body \<noteq> None)) body w in
        (case r of
           HttpFailed e \<Rightarrow> Inl e
         | HttpReply st _ data \<Rightarrow> Inr (data, st)
         | HttpBroken st _ _ e \<Rightarrow> Inl e, w1)))"

definition deployments_path :: "k8s_client \<Rightarrow> string" where
  "deployments_path c = ''/apis/apps/v1/namespaces/'' @ kc_namespace c @ ''/deployments''"

definition services_path :: "k8s_client \<Rightarrow> string" where
  "services_path c = ''/api/v1/namespaces/'' @ kc_namespace c @ ''/services''"

definition routes_path :: "k8s_client \<Rightarrow> string" where
  "routes_path c = ''/apis/route.openshift.io/v1/namespaces/'' @ kc_namespace c @ ''/routes''"

text \<open>A creation: an object that is there already is no error.\<close>

definition kube_create ::
  "'n kube_env \<Rightarrow> k8s_client \<Rightarrow> string \<Rightarrow> string \<Rightarrow> string \<Rightarrow> json \<Rightarrow> 'n \<Rightarrow> string option \<times> 'n" where
  "kube_create env c kind name path doc w =
     (case kube_do env c ''POST'' path (Some (json_text (ke_number env) doc)) w of
        (Inl e, w1) \<Rightarrow> (Some (''create '' @ kind @ '': '' @ e), w1)
      | (Inr (_, code), w1) \<Rightarrow>
          (if code \<noteq> 409 \<and> code \<ge> 300 then Some (''create '' @ kind @ '' '' @ name @ '': HTTP '' @ itoa code) else None, w1))"

subsection \<open>The objects\<close>

definition str_obj :: "(string \<times> string) list \<Rightarrow> json" where
  "str_obj kvs = JObj (map (\<lambda>(k, v). (k, JStr v)) kvs)"

definition agent_labels :: "string \<Rightarrow> json" where
  "agent_labels name = str_obj [(''app'', name), (''batch-role'', ''agent''), (''managed-by'', ''dashboard'')]"

definition agent_container :: "int \<Rightarrow> json" where
  "agent_container llm_timeout = JObj
     [(''name'', JStr ''docsclaw''), (''image'', JStr ''ghcr.io/redhat-et/docsclaw:latest''),
      (''args'', JArr (map JStr (''serve'' # (if llm_timeout > 0 then [''--llm-timeout'', itoa llm_timeout] else [])))),
      (''ports'', JArr [JObj [(''containerPort'', JNum 8000), (''name'', JStr ''http'')],
         JObj [(''containerPort'', JNum 8100), (''name'', JStr ''health'')]]),
      (''envFrom'', JArr [JObj [(''secretRef'', str_obj [(''name'', ''llm-secret'')])]]),
      (''resources'', JObj [(''requests'', str_obj [(''cpu'', ''50m''), (''memory'', ''32Mi'')]),
         (''limits'', str_obj [(''cpu'', ''500m''), (''memory'', ''256Mi'')])]),
      (''livenessProbe'', JObj [(''httpGet'', str_obj [(''path'', ''/health''), (''port'', ''health'')]), (''initialDelaySeconds'', JNum 5)]),
      (''readinessProbe'', JObj [(''httpGet'', str_obj [(''path'', ''/ready''), (''port'', ''health'')]), (''initialDelaySeconds'', JNum 3)]),
      (''volumeMounts'', JArr [JObj [(''name'', JStr ''agent-config''), (''mountPath'', JStr ''/config/agent''), (''readOnly'', JBool True)],
         str_obj [(''name'', ''workspace''), (''mountPath'', ''/workspace'')]]),
      (''securityContext'', JObj [(''allowPrivilegeEscalation'', JBool False),
         (''capabilities'', JObj [(''drop'', JArr [JStr ''ALL''])]), (''readOnlyRootFilesystem'', JBool True),
         (''seccompProfile'', str_obj [(''type'', ''RuntimeDefault'')])])]"

definition build_deployment_json :: "string \<Rightarrow> string \<Rightarrow> string \<Rightarrow> int \<Rightarrow> json" where
  "build_deployment_json name namespace config_map llm_timeout = JObj
     [(''apiVersion'', JStr ''apps/v1''), (''kind'', JStr ''Deployment''),
      (''metadata'', JObj [(''name'', JStr name), (''namespace'', JStr namespace), (''labels'', agent_labels name)]),
      (''spec'', JObj
        [(''replicas'', JNum 1), (''selector'', JObj [(''matchLabels'', str_obj [(''app'', name)])]),
         (''template'', JObj
           [(''metadata'', JObj [(''labels'', agent_labels name)]),
            (''spec'', JObj
              [(''securityContext'', JObj [(''runAsNonRoot'', JBool True)]),
               (''containers'', JArr [agent_container llm_timeout]),
               (''volumes'', JArr [JObj [(''name'', JStr ''agent-config''), (''configMap'', str_obj [(''name'', config_map)])],
                  JObj [(''name'', JStr ''workspace''), (''emptyDir'', JObj [])]])])])])]"

definition build_service_json :: "string \<Rightarrow> string \<Rightarrow> json" where
  "build_service_json name namespace = JObj
     [(''apiVersion'', JStr ''v1''), (''kind'', JStr ''Service''),
      (''metadata'', JObj [(''name'', JStr name), (''namespace'', JStr namespace), (''labels'', agent_labels name)]),
      (''spec'', JObj [(''selector'', str_obj [(''app'', name)]),
         (''ports'', JArr [JObj [(''port'', JNum 8080), (''targetPort'', JNum 8000), (''name'', JStr ''http'')]])])]"

definition build_route_json :: "string \<Rightarrow> string \<Rightarrow> json" where
  "build_route_json name namespace = JObj
     [(''apiVersion'', JStr ''route.openshift.io/v1''), (''kind'', JStr ''Route''),
      (''metadata'', JObj [(''name'', JStr name), (''namespace'', JStr namespace), (''labels'', agent_labels name),
         (''annotations'', str_obj [(''haproxy.router.openshift.io/timeout'', ''120s'')])]),
      (''spec'', JObj [(''to'', str_obj [(''kind'', ''Service''), (''name'', name)]), (''port'', str_obj [(''targetPort'', ''http'')]),
         (''tls'', str_obj [(''termination'', ''edge''), (''insecureEdgeTerminationPolicy'', ''Redirect'')])])]"

subsection \<open>Reading objects\<close>

definition is_true_field :: "json \<Rightarrow> (bool \<Rightarrow> 'a \<Rightarrow> 'a) \<Rightarrow> 'a \<Rightarrow> 'a option" where
  "is_true_field v upd x = (case v of JBool b \<Rightarrow> Some (upd b x) | JNull \<Rightarrow> Some x | _ \<Rightarrow> None)"

text \<open>A struct or a slice of structs as a field: null leaves the struct alone, and makes the slice nil.\<close>

definition struct_field :: "json \<Rightarrow> (string \<Rightarrow> json \<Rightarrow> 'a \<Rightarrow> 'a option) \<Rightarrow> 'a \<Rightarrow> 'a option" where
  "struct_field v f x = (case v of JObj kvs \<Rightarrow> fold_fields f kvs x | JNull \<Rightarrow> Some x | _ \<Rightarrow> None)"

definition name_field :: "string \<Rightarrow> json \<Rightarrow> string \<Rightarrow> string option" where
  "name_field k v s = (if field_is k ''name'' then string_field v (\<lambda>m _. m) s else Some s)"

definition host_field :: "string \<Rightarrow> json \<Rightarrow> string \<Rightarrow> string option" where
  "host_field k v s = (if field_is k ''host'' then string_field v (\<lambda>m _. m) s else Some s)"

definition route_field :: "string \<Rightarrow> json \<Rightarrow> string \<Rightarrow> string option" where
  "route_field k v s = (if field_is k ''spec'' then struct_field v host_field s else Some s)"

text \<open>The JSON of a reply into a struct, with the error of the library.\<close>

definition decode_into :: "'n kube_env \<Rightarrow> (string \<Rightarrow> json \<Rightarrow> 'a \<Rightarrow> 'a option) \<Rightarrow> 'a \<Rightarrow> string \<Rightarrow> string + 'a" where
  "decode_into env f zero data =
     (case Option.bind (json_parse data) (struct_of f zero) of None \<Rightarrow> Inl (ke_json_error env data) | Some x \<Rightarrow> Inr x)"

definition get_route_host :: "'n kube_env \<Rightarrow> k8s_client \<Rightarrow> string \<Rightarrow> 'n \<Rightarrow> (string + string) \<times> 'n" where
  "get_route_host env c name w =
     (case kube_do env c ''GET'' (routes_path c @ ''/'' @ name) None w of
        (Inl e, w1) \<Rightarrow> (Inl e, w1)
      | (Inr (data, code), w1) \<Rightarrow>
          (if code \<ge> 300 then Inl (''get route '' @ name @ '': HTTP '' @ itoa code) else decode_into env route_field [] data, w1))"

record pod_info =
  pi_name :: string
  pi_phase :: string
  pi_ready :: bool

record pod_item =
  po_name :: string
  po_phase :: string
  po_containers :: "bool list"

definition ready_field :: "string \<Rightarrow> json \<Rightarrow> bool \<Rightarrow> bool option" where
  "ready_field k v b = (if field_is k ''ready'' then is_true_field v (\<lambda>m _. m) b else Some b)"

definition pod_status_field :: "string \<Rightarrow> json \<Rightarrow> pod_item \<Rightarrow> pod_item option" where
  "pod_status_field k v p =
     (if field_is k ''phase'' then string_field v (\<lambda>s p. p\<lparr>po_phase := s\<rparr>) p
      else if field_is k ''containerstatuses'' then map_option (\<lambda>bs. p\<lparr>po_containers := bs\<rparr>) (struct_list ready_field False v)
      else Some p)"

definition pod_meta_field :: "string \<Rightarrow> json \<Rightarrow> pod_item \<Rightarrow> pod_item option" where
  "pod_meta_field k v p = map_option (\<lambda>n. p\<lparr>po_name := n\<rparr>) (name_field k v (po_name p))"

definition pod_field :: "string \<Rightarrow> json \<Rightarrow> pod_item \<Rightarrow> pod_item option" where
  "pod_field k v p =
     (if field_is k ''metadata'' then struct_field v pod_meta_field p
      else if field_is k ''status'' then struct_field v pod_status_field p
      else Some p)"

definition items_field :: "(string \<Rightarrow> json \<Rightarrow> 'a \<Rightarrow> 'a option) \<Rightarrow> 'a \<Rightarrow> string \<Rightarrow> json \<Rightarrow> 'a list \<Rightarrow> 'a list option" where
  "items_field f zero k v xs = (if field_is k ''items'' then struct_list f zero v else Some xs)"

definition pod_of_item :: "pod_item \<Rightarrow> pod_info" where
  "pod_of_item p = \<lparr>pi_name = po_name p, pi_phase = po_phase p, pi_ready = po_containers p \<noteq> [] \<and> list_all id (po_containers p)\<rparr>"

definition list_pods :: "'n kube_env \<Rightarrow> k8s_client \<Rightarrow> string \<Rightarrow> 'n \<Rightarrow> (string + pod_info list) \<times> 'n" where
  "list_pods env c selector w =
     (case kube_do env c ''GET'' (''/api/v1/namespaces/'' @ kc_namespace c @ ''/pods?labelSelector='' @ selector) None w of
        (Inl e, w1) \<Rightarrow> (Inl e, w1)
      | (Inr (data, code), w1) \<Rightarrow>
          (if code \<ge> 300 then Inl (''list pods: HTTP '' @ itoa code)
           else bind_res (decode_into env (items_field pod_field \<lparr>po_name = [], po_phase = [], po_containers = []\<rparr>) [] data)
             (\<lambda>items. Inr (map pod_of_item items)), w1))"

subsection \<open>Metrics\<close>

definition parse_memory :: "(string \<Rightarrow> rat) \<Rightarrow> string \<Rightarrow> rat" where
  "parse_memory float s =
     (let t = trim_space s in
      if has_suffix t ''Ki'' then float (trim_suffix t ''Ki'') / 1024
      else if has_suffix t ''Mi'' then float (trim_suffix t ''Mi'')
      else if has_suffix t ''Gi'' then float (trim_suffix t ''Gi'') * 1024
      else float t / (1024 * 1024))"

definition parse_cpu :: "(string \<Rightarrow> rat) \<Rightarrow> string \<Rightarrow> rat" where
  "parse_cpu float s =
     (let t = trim_space s in
      if has_suffix t ''n'' then float (trim_suffix t ''n'') / 10 ^ 6
      else if has_suffix t ''m'' then float (trim_suffix t ''m'')
      else float t * 1000)"

record pod_metrics =
  pm_name :: string
  pm_memory :: rat
  pm_cpu :: rat

text \<open>A container as the pair of its CPU and memory text, a pod as its name and its containers.\<close>

definition pod_usage_field :: "string \<Rightarrow> json \<Rightarrow> string \<times> string \<Rightarrow> (string \<times> string) option" where
  "pod_usage_field k v u =
     (if field_is k ''cpu'' then string_field v (\<lambda>s u. (s, snd u)) u
      else if field_is k ''memory'' then string_field v (\<lambda>s u. (fst u, s)) u
      else Some u)"

definition container_field :: "string \<Rightarrow> json \<Rightarrow> string \<times> string \<Rightarrow> (string \<times> string) option" where
  "container_field k v u = (if field_is k ''usage'' then struct_field v pod_usage_field u else Some u)"

definition metric_field :: "string \<Rightarrow> json \<Rightarrow> string \<times> (string \<times> string) list \<Rightarrow> (string \<times> (string \<times> string) list) option" where
  "metric_field k v p =
     (if field_is k ''metadata'' then map_option (\<lambda>n. (n, snd p)) (struct_field v name_field (fst p))
      else if field_is k ''containers'' then map_option (Pair (fst p)) (struct_list container_field ([], []) v)
      else Some p)"

definition metrics_of :: "(string \<Rightarrow> rat) \<Rightarrow> string \<times> (string \<times> string) list \<Rightarrow> pod_metrics" where
  "metrics_of float p = \<lparr>pm_name = fst p,
     pm_memory = foldl (\<lambda>m u. m + parse_memory float (snd u)) 0 (snd p),
     pm_cpu = foldl (\<lambda>m u. m + parse_cpu float (fst u)) 0 (snd p)\<rparr>"

definition get_pod_metrics :: "'n kube_env \<Rightarrow> k8s_client \<Rightarrow> string \<Rightarrow> 'n \<Rightarrow> (string + pod_metrics list) \<times> 'n" where
  "get_pod_metrics env c selector w =
     (case kube_do env c ''GET'' (''/apis/metrics.k8s.io/v1beta1/namespaces/'' @ kc_namespace c @ ''/pods?labelSelector='' @ selector) None w of
        (Inl e, w1) \<Rightarrow> (Inl e, w1)
      | (Inr (data, code), w1) \<Rightarrow>
          (if code \<ge> 300 then Inl (''get pod metrics: HTTP '' @ itoa code)
           else bind_res (decode_into env (items_field metric_field ([], [])) [] data)
             (\<lambda>items. Inr (map (metrics_of (ke_float env)) items)), w1))"

definition get_pod_logs :: "'n kube_env \<Rightarrow> k8s_client \<Rightarrow> string \<Rightarrow> int \<Rightarrow> 'n \<Rightarrow> (string + string) \<times> 'n" where
  "get_pod_logs env c pod since w =
     (case kube_do env c ''GET'' (''/api/v1/namespaces/'' @ kc_namespace c @ ''/pods/'' @ pod @ ''/log?sinceSeconds='' @ itoa since) None w of
        (Inl e, w1) \<Rightarrow> (Inl e, w1)
      | (Inr (data, code), w1) \<Rightarrow> (if code \<ge> 300 then Inl (''get logs for '' @ pod @ '': HTTP '' @ itoa code) else Inr data, w1))"

subsection \<open>Tokens in logs\<close>

definition log_space :: "char \<Rightarrow> bool" where
  "log_space c \<longleftrightarrow> c \<in> {CHR 0x09, CHR 0x0A, CHR 0x0C, CHR 0x0D, CHR '' ''}"

text \<open>\<open>input_tokens=(\d+)\s+output_tokens=(\d+)\<close> at the start of a text: the groups and the rest.\<close>

definition token_match :: "string \<Rightarrow> (string \<times> string \<times> string) option" where
  "token_match s =
     (let r1 = drop (length ''input_tokens='') s; ins = takeWhile is_digit r1;
          r2 = dropWhile is_digit r1; gap = takeWhile log_space r2; r3 = dropWhile log_space r2;
          r4 = drop (length ''output_tokens='') r3; outs = takeWhile is_digit r4 in
      if has_prefix s ''input_tokens='' \<and> ins \<noteq> [] \<and> gap \<noteq> [] \<and> has_prefix r3 ''output_tokens='' \<and> outs \<noteq> []
      then Some (ins, outs, dropWhile is_digit r4) else None)"

lemma token_match_shorter: "token_match s = Some (a, b, r) \<Longrightarrow> length r < length s"
proof -
  assume "token_match s = Some (a, b, r)"
  then have "s \<noteq> []" and r: "r = dropWhile is_digit (drop (length ''output_tokens='') (dropWhile log_space
      (dropWhile is_digit (drop (length ''input_tokens='') s))))"
    by (auto simp: token_match_def Let_def has_prefix_def split: if_splits)
  have dw: "length x \<le> n \<Longrightarrow> length (dropWhile P x) \<le> n" for P and x :: string and n
    by (meson length_dropWhile_le order_trans)
  have dr: "length x \<le> n \<Longrightarrow> length (drop k x) \<le> n" for x :: string and n k by simp
  have "length r \<le> length s - 13"
    unfolding r by (rule dw, rule dr, rule dw, rule dw) simp
  then show ?thesis using \<open>s \<noteq> []\<close> by (cases s) auto
qed

text \<open>\<open>FindAllStringSubmatch\<close>: the matches from the left, none overlapping.\<close>

function find_tokens :: "string \<Rightarrow> (string \<times> string) list" where
  "find_tokens s =
     (if s = [] then []
      else (case token_match s of Some (a, b, r) \<Rightarrow> (a, b) # find_tokens r | None \<Rightarrow> find_tokens (tl s)))"
  by pat_completeness auto
termination
  by (relation "measure length") (auto dest: token_match_shorter)

declare find_tokens.simps [simp del]

text \<open>\<open>strconv.Atoi\<close> of digits with its error ignored: a number too large is the largest one.\<close>

definition atoi64 :: "string \<Rightarrow> 64 word" where
  "atoi64 ds = word_of_int (min (nat_val ds) (2 ^ 63 - 1))"

record token_usage =
  tu_input :: "64 word"
  tu_output :: "64 word"

definition parse_tokens_from_logs :: "string \<Rightarrow> token_usage" where
  "parse_tokens_from_logs logs =
     fold (\<lambda>(a, b) u. \<lparr>tu_input = tu_input u + atoi64 a, tu_output = tu_output u + atoi64 b\<rparr>)
       (find_tokens logs) \<lparr>tu_input = 0, tu_output = 0\<rparr>"

subsection \<open>Agents\<close>

text \<open>
  The document service is added to the agent configuration in the ConfigMap. A value that is no
  object counts as none, as the type assertions have it.
\<close>

definition with_service :: "string \<Rightarrow> string \<Rightarrow> args \<Rightarrow> args" where
  "with_service name url cfg =
     (let services = (case get_obj ''document_services'' cfg of Some m \<Rightarrow> m | None \<Rightarrow> []) in
      map_put ''document_services'' (JObj (map_put name (JStr url) services)) cfg)"

definition updated_config_map :: "'n kube_env \<Rightarrow> string \<Rightarrow> string \<Rightarrow> string \<Rightarrow> string \<Rightarrow> string + args" where
  "updated_config_map env config_map name url data =
     (case json_parse data of
        Some (JObj kvs) \<Rightarrow>
          (let cm = of_pairs kvs in
           case get_obj ''data'' cm of
             None \<Rightarrow> Inl (''configmap '' @ config_map @ '' has no data'')
           | Some entries \<Rightarrow>
               (let cm_data = of_pairs entries; raw = str_or_empty ''agent-config.yaml'' cm_data in
                case (if raw = [] then Inr [] else ke_yaml_decode env raw) of
                  Inl e \<Rightarrow> Inl (''parse agent-config.yaml in '' @ config_map @ '': '' @ e)
                | Inr cfg \<Rightarrow>
                    (case ke_yaml_encode env (with_service name url cfg) of
                       Inl e \<Rightarrow> Inl (''marshal agent-config.yaml: '' @ e)
                     | Inr updated \<Rightarrow> Inr (map_put ''data'' (JObj (map_put ''agent-config.yaml'' (JStr updated) cm_data)) cm))))
      | Some JNull \<Rightarrow> Inl (''configmap '' @ config_map @ '' has no data'')
      | _ \<Rightarrow> Inl (''decode configmap '' @ config_map @ '': '' @ ke_json_error env data))"

definition set_document_service :: "'n kube_env \<Rightarrow> k8s_client \<Rightarrow> string \<Rightarrow> string \<Rightarrow> string \<Rightarrow> 'n \<Rightarrow> string option \<times> 'n" where
  "set_document_service env c config_map name url w =
     (let path = ''/api/v1/namespaces/'' @ kc_namespace c @ ''/configmaps/'' @ config_map in
      case kube_do env c ''GET'' path None w of
        (Inl e, w1) \<Rightarrow> (Some (''get configmap '' @ config_map @ '': '' @ e), w1)
      | (Inr (data, code), w1) \<Rightarrow>
          if code \<noteq> 200 then (Some (''get configmap '' @ config_map @ '': HTTP '' @ itoa code), w1)
          else (case updated_config_map env config_map name url data of
              Inl e \<Rightarrow> (Some e, w1)
            | Inr cm \<Rightarrow>
                (case kube_do env c ''PUT'' path (Some (json_text (ke_number env) (JObj cm))) w1 of
                   (Inl e, w2) \<Rightarrow> (Some (''update configmap '' @ config_map @ '': '' @ e), w2)
                 | (Inr (_, code2), w2) \<Rightarrow>
                     (if code2 \<ge> 300 then Some (''update configmap '' @ config_map @ '': HTTP '' @ itoa code2) else None, w2))))"

definition create_agent_deployment ::
  "'n kube_env \<Rightarrow> k8s_client \<Rightarrow> string \<Rightarrow> string \<Rightarrow> string \<Rightarrow> string \<Rightarrow> int \<Rightarrow> 'n \<Rightarrow> string option \<times> 'n" where
  "create_agent_deployment env c name config_map service_name doc_url llm_timeout w =
     (case set_document_service env c config_map service_name doc_url w of
        (Some e, w1) \<Rightarrow> (Some e, w1)
      | (None, w1) \<Rightarrow>
          (case kube_create env c ''deployment'' (deployments_path c) name
              (build_deployment_json name (kc_namespace c) config_map llm_timeout) w1 of
             (Some e, w2) \<Rightarrow> (Some e, w2)
           | (None, w2) \<Rightarrow> kube_create env c ''service'' (services_path c) name (build_service_json name (kc_namespace c)) w2))"

definition create_route :: "'n kube_env \<Rightarrow> k8s_client \<Rightarrow> string \<Rightarrow> 'n \<Rightarrow> string option \<times> 'n" where
  "create_route env c name w = kube_create env c ''route'' (routes_path c) name (build_route_json name (kc_namespace c)) w"

text \<open>A deletion: an object that is gone is no error.\<close>

definition kube_delete :: "'n kube_env \<Rightarrow> k8s_client \<Rightarrow> string \<Rightarrow> string \<Rightarrow> string \<Rightarrow> 'n \<Rightarrow> string option \<times> 'n" where
  "kube_delete env c kind path name w =
     (case kube_do env c ''DELETE'' (path @ ''/'' @ name) None w of
        (Inl e, w1) \<Rightarrow> (Some e, w1)
      | (Inr (_, code), w1) \<Rightarrow>
          (if code \<ge> 300 \<and> code \<noteq> 404 then Some (''delete '' @ kind @ '' '' @ name @ '': HTTP '' @ itoa code) else None, w1))"

definition delete_agent :: "'n kube_env \<Rightarrow> k8s_client \<Rightarrow> string \<Rightarrow> 'n \<Rightarrow> string option \<times> 'n" where
  "delete_agent env c name w =
     (case kube_delete env c ''deployment'' (deployments_path c) name w of
        (Some e, w1) \<Rightarrow> (Some e, w1)
      | (None, w1) \<Rightarrow>
          (case kube_delete env c ''service'' (services_path c) name w1 of
             (Some e, w2) \<Rightarrow> (Some e, w2)
           | (None, w2) \<Rightarrow> (None, snd (kube_do env c ''DELETE'' (routes_path c @ ''/'' @ name) None w2))))"

text \<open>Setting a document service keeps the rest of the configuration and the other services.\<close>

lemma with_service_keeps:
  "k \<noteq> ''document_services'' \<Longrightarrow> map_of (with_service name url cfg) k = map_of cfg k"
  "get_obj ''document_services'' (with_service name url cfg) =
     Some (map_put name (JStr url) (case get_obj ''document_services'' cfg of Some m \<Rightarrow> m | None \<Rightarrow> []))"
  by (auto simp: with_service_def get_obj_def Let_def)

lemma with_service_again: "with_service name url (with_service name url' cfg) = with_service name url cfg"
  unfolding with_service_def [of name url "with_service name url' cfg"] with_service_keeps(2)
  by (simp add: with_service_def Let_def)

subsection \<open>What the dashboard reads of the logs of an agent\<close>

lemma take_first_eq: "c \<notin> set a \<Longrightarrow> c \<notin> set p \<Longrightarrow> take (Suc (length p)) (a @ c # r) = p @ [c] \<longleftrightarrow> a = p"
proof
  assume "c \<notin> set a" "c \<notin> set p" and t: "take (Suc (length p)) (a @ c # r) = p @ [c]"
  then have "a @ c # r = p @ c # drop (Suc (length p)) (a @ c # r)"
    by (metis append_Cons append_assoc append_self_conv2 append_take_drop_id)
  moreover have "takeWhile (\<lambda>x. x \<noteq> c) (x @ c # y) = x" if "c \<notin> set x" for x y using that by (induction x) auto
  ultimately show "a = p" using \<open>c \<notin> set a\<close> \<open>c \<notin> set p\<close> by metis
qed simp

lemma token_match_key: "token_match s \<noteq> None \<Longrightarrow> has_prefix s ''input_tokens=''"
  by (auto simp: token_match_def Let_def split: if_splits)

text \<open>Up to the first equals sign nothing matches, unless the key stands right before it.\<close>

lemma find_tokens_skip:
  "CHR ''='' \<notin> set a \<Longrightarrow> \<not> has_suffix a ''input_tokens'' \<Longrightarrow> find_tokens (a @ CHR ''='' # r) = find_tokens r"
proof (induction a)
  case Nil
  have "\<not> has_prefix (CHR ''='' # r) ''input_tokens=''" by (simp add: has_prefix_def)
  then have "token_match (CHR ''='' # r) = None" using token_match_key by blast
  then show ?case by (subst find_tokens.simps) simp
next
  case (Cons x a)
  have "\<not> has_prefix ((x # a) @ CHR ''='' # r) ''input_tokens=''"
  proof
    assume "has_prefix ((x # a) @ CHR ''='' # r) ''input_tokens=''"
    then have "take (Suc (length ''input_tokens'')) ((x # a) @ CHR ''='' # r) = ''input_tokens'' @ [CHR ''='']"
      by (simp add: has_prefix_def)
    then have "x # a = ''input_tokens''" using Cons.prems(1) by (subst (asm) take_first_eq) auto
    with Cons.prems(2) show False by (simp add: has_suffix_def)
  qed
  then have "token_match ((x # a) @ CHR ''='' # r) = None" using token_match_key by blast
  moreover have "\<not> has_suffix a ''input_tokens''" using Cons.prems(2) by (auto simp: has_suffix_iff)
  ultimately show ?case using Cons by (subst find_tokens.simps) simp
qed

lemma find_tokens_plain: "CHR ''='' \<notin> set s \<Longrightarrow> find_tokens s = []"
proof (induction s)
  case (Cons x s)
  have "\<not> has_prefix (x # s) ''input_tokens=''"
  proof
    assume "has_prefix (x # s) ''input_tokens=''"
    then have "CHR ''='' \<in> set (x # s)" by (auto simp: has_prefix_iff)
    with Cons.prems show False by simp
  qed
  then have "token_match (x # s) = None" using token_match_key by blast
  then show ?case using Cons by (subst find_tokens.simps) simp
qed (subst find_tokens.simps, simp)

lemma find_tokens_key:
  assumes "CHR ''='' \<notin> set a" "has_suffix a '' input_tokens''" "0 \<le> i" "0 \<le> j" "r = [] \<or> \<not> is_digit (hd r)"
  shows "find_tokens (a @ CHR ''='' # itoa i @ '' output_tokens='' @ itoa j @ r) = (itoa i, itoa j) # find_tokens r"
proof -
  obtain b where b: "a = b @ '' input_tokens''" using assms(2) by (auto simp: has_suffix_iff)
  let ?m = "itoa i @ '' output_tokens='' @ itoa j @ r"
  have d: "list_all is_digit (itoa i)" "list_all is_digit (itoa j)"
    using assms(3,4) digits_all by (simp_all add: itoa_def)
  have tw: "takeWhile is_digit (x @ y) = x @ takeWhile is_digit y" "dropWhile is_digit (x @ y) = dropWhile is_digit y"
    if "list_all is_digit x" for x y using that by (induction x) auto
  have r: "takeWhile is_digit r = []" "dropWhile is_digit r = r" using assms(5) by (cases r; simp)+
  have sp: "\<not> is_digit (CHR '' '')" "log_space (CHR '' '')" "\<not> log_space (CHR ''o'')"
    by (simp_all add: is_digit_def log_space_def)
  have "token_match (''input_tokens='' @ ?m) = Some (itoa i, itoa j, r)"
    by (simp add: token_match_def Let_def has_prefix_def tw d r sp)
  then have "find_tokens (''input_tokens='' @ ?m) = (itoa i, itoa j) # find_tokens r"
    by (subst find_tokens.simps) simp
  moreover have "find_tokens (c @ ''input_tokens='' @ ?m) = find_tokens (''input_tokens='' @ ?m)" if "CHR ''='' \<notin> set c" for c
    using that
  proof (induction c)
    case (Cons x c)
    have "\<not> has_prefix ((x # c) @ ''input_tokens='' @ ?m) ''input_tokens=''"
    proof
      assume "has_prefix ((x # c) @ ''input_tokens='' @ ?m) ''input_tokens=''"
      then have "take (Suc (length ''input_tokens'')) ((x # c @ ''input_tokens'') @ CHR ''='' # ?m) = ''input_tokens'' @ [CHR ''='']"
        by (simp add: has_prefix_def)
      then have "x # c @ ''input_tokens'' = ''input_tokens''" using Cons.prems by (subst (asm) take_first_eq) auto
      from arg_cong [OF this, of length] show False by simp
    qed
    then have "token_match ((x # c) @ ''input_tokens='' @ ?m) = None" using token_match_key by blast
    then show ?case using Cons by (subst find_tokens.simps) simp
  qed simp
  moreover have "CHR ''='' \<notin> set (b @ '' '')" using assms(1) b by simp
  moreover have "a @ CHR ''='' # ?m = (b @ '' '') @ ''input_tokens='' @ ?m" by (simp add: b)
  ultimately show ?thesis by metis
qed

text \<open>The log lines of iterations of the loop, and their token counts.\<close>

record iteration_log =
  lg_provider :: string
  lg_model :: string
  lg_iteration :: nat
  lg_usage :: usage
  lg_stop :: string

definition logged_line :: "iteration_log \<Rightarrow> log_record" where
  "logged_line e = usage_record (lg_provider e) (lg_model e) (lg_iteration e) (lg_usage e) (lg_stop e)"

definition plain_logged :: "iteration_log \<Rightarrow> bool" where
  "plain_logged e \<longleftrightarrow> CHR ''='' \<notin> set (lg_provider e @ lg_model e @ lg_stop e)
     \<and> 0 \<le> input_tokens (lg_usage e) \<and> 0 \<le> output_tokens (lg_usage e)"

lemma itoa_no_eq: "CHR ''='' \<notin> set (itoa i)"
proof
  assume "CHR ''='' \<in> set (itoa i)"
  then have "CHR ''='' \<in> set (digits (if i < 0 then - i else i))" by (auto simp: itoa_def split: if_splits)
  then have "is_digit (CHR ''='')" by (intro digits_digits) auto
  then show False by (simp add: is_digit_def)
qed

lemma suffix_end: "length p \<le> length y \<Longrightarrow> has_suffix (x @ y) p \<longleftrightarrow> has_suffix y p"
  by (auto simp: has_suffix_def)

lemma head_no_eq:
  "CHR ''='' \<notin> set (component_name c)" "CHR ''='' \<notin> set (component_color c)" "CHR ''='' \<notin> set (level_emoji l)"
  "CHR ''='' \<notin> set (sgr ''0'')"
  by (cases c; simp add: sgr_def level_emoji_def)+

text \<open>Past one attribute that is not the input tokens.\<close>

lemma skip_attr:
  assumes "CHR ''='' \<notin> set x" "CHR ''='' \<notin> set k" "k \<noteq> []"
    "last k \<noteq> CHR ''s'' \<or> length ''input_tokens'' \<le> length k \<and> \<not> has_suffix k ''input_tokens''"
  shows "find_tokens (x @ k @ CHR ''='' # r) = find_tokens r"
proof -
  have "\<not> has_suffix (x @ k) ''input_tokens''"
  proof
    assume s: "has_suffix (x @ k) ''input_tokens''"
    then obtain u where u: "x @ k = u @ ''input_tokens''" by (auto simp: has_suffix_iff)
    have "last (x @ k) = CHR ''s''" unfolding u by simp
    with assms(3) have "last k = CHR ''s''" by simp
    with assms(4) s show False by (simp add: suffix_end)
  qed
  then show ?thesis using find_tokens_skip [of "x @ k" r] assms by simp
qed

lemma find_tokens_line:
  assumes "plain_logged e" "CHR ''='' \<notin> set g"
  shows "\<exists>g1. CHR ''='' \<notin> set g1 \<and> (\<forall>r. find_tokens (g @ handle_record h (logged_line e) @ r) =
     (itoa (input_tokens (lg_usage e)), itoa (output_tokens (lg_usage e))) # find_tokens (g1 @ r))"
proof -
  let ?u = "lg_usage e"
  define A where "A = g @ (if ch_colors h then component_color (ch_component h) else []) @ level_emoji level_info @ '' ['' @ component_name (ch_component h)
    @ '']'' @ (if ch_colors h then sgr ''0'' else []) @ '' LLM response received''"
  have no: "CHR ''='' \<notin> set A" "CHR ''='' \<notin> set (lg_provider e)" "CHR ''='' \<notin> set (lg_model e)" "CHR ''='' \<notin> set (lg_stop e)"
    and pos: "0 \<le> input_tokens ?u" "0 \<le> output_tokens ?u"
    using assms head_no_eq by (auto simp: plain_logged_def A_def)
  define reads where "reads = (if cache_read_tokens ?u > 0 then '' cache_read_tokens='' @ itoa (cache_read_tokens ?u) else [])"
  define writes where "writes = (if cache_write_tokens ?u > 0 then '' cache_write_tokens='' @ itoa (cache_write_tokens ?u) else [])"
  define R4 where "R4 r = lg_stop e @ reads @ writes @ nl @ r" for r
  define R3 where "R3 r = '' total_tokens'' @ CHR ''='' # itoa (total_tokens ?u) @ '' stop_reason'' @ CHR ''='' # R4 r" for r
  define R2 where "R2 r = (itoa (int (lg_iteration e) + 1) @ '' input_tokens'') @ CHR ''='' # itoa (input_tokens ?u) @ '' output_tokens=''
      @ itoa (output_tokens ?u) @ R3 r" for r
  have line: "g @ handle_record h (logged_line e) @ r = A @ '' provider'' @ CHR ''='' # lg_provider e @ '' model'' @ CHR ''=''
      # lg_model e @ '' iteration'' @ CHR ''='' # R2 r" for r
    by (simp add: handle_record_def logged_line_def usage_record_def info_record_def reads_def writes_def R2_def R3_def R4_def A_def)
  have "find_tokens (g @ handle_record h (logged_line e) @ r) = find_tokens (R2 r)" for r
    unfolding line using skip_attr [OF no(1), of "'' provider''"] skip_attr [OF no(2), of "'' model''"]
      skip_attr [OF no(3), of "'' iteration''"] by simp
  moreover have "R3 r = [] \<or> \<not> is_digit (hd (R3 r))" for r by (simp add: R3_def is_digit_def)
  then have "find_tokens (R2 r) = (itoa (input_tokens ?u), itoa (output_tokens ?u)) # find_tokens (R3 r)" for r
    unfolding R2_def using pos itoa_no_eq by (intro find_tokens_key) (auto simp: has_suffix_iff)
  moreover have "find_tokens (R3 r) = find_tokens (R4 r)" for r
  proof -
    have "find_tokens (R3 r) = find_tokens (itoa (total_tokens ?u) @ '' stop_reason'' @ CHR ''='' # R4 r)"
      unfolding R3_def using skip_attr [of "[]" "'' total_tokens''"] by (simp add: has_suffix_def)
    then show ?thesis using itoa_no_eq by (simp only:) (subst skip_attr; simp)
  qed
  moreover have "\<exists>g1. CHR ''='' \<notin> set g1 \<and> (\<forall>r. find_tokens (R4 r) = find_tokens (g1 @ r))"
  proof -
    have rd: "find_tokens (x @ reads @ y) = find_tokens ((if cache_read_tokens ?u > 0 then itoa (cache_read_tokens ?u) else x) @ y)"
      if "CHR ''='' \<notin> set x" for x y
      using that skip_attr [of x "'' cache_read_tokens''"] by (simp add: reads_def has_suffix_def)
    have wr: "find_tokens (x @ writes @ y) = find_tokens ((if cache_write_tokens ?u > 0 then itoa (cache_write_tokens ?u) else x) @ y)"
      if "CHR ''='' \<notin> set x" for x y
      using that skip_attr [of x "'' cache_write_tokens''"] by (simp add: writes_def has_suffix_def)
    let ?x = "if cache_read_tokens ?u > 0 then itoa (cache_read_tokens ?u) else lg_stop e"
    let ?y = "if cache_write_tokens ?u > 0 then itoa (cache_write_tokens ?u) else ?x"
    have xy: "CHR ''='' \<notin> set ?x" "CHR ''='' \<notin> set ?y" using no itoa_no_eq by auto
    have "find_tokens (R4 r) = find_tokens (?x @ writes @ nl @ r)" for r unfolding R4_def by (rule rd [OF no(4)])
    moreover have "find_tokens (?x @ writes @ nl @ r) = find_tokens (?y @ nl @ r)" for r by (rule wr [OF xy(1)])
    ultimately have "find_tokens (R4 r) = find_tokens ((?y @ nl) @ r)" for r by simp
    moreover have "CHR ''='' \<notin> set (?y @ nl)" using xy(2) by (simp add: nl_def)
    ultimately show ?thesis by blast
  qed
  ultimately show ?thesis by auto
qed

lemma find_tokens_lines:
  "list_all plain_logged es \<Longrightarrow> CHR ''='' \<notin> set g \<Longrightarrow>
   find_tokens (g @ concat (map (\<lambda>e. handle_record h (logged_line e)) es))
     = map (\<lambda>e. (itoa (input_tokens (lg_usage e)), itoa (output_tokens (lg_usage e)))) es"
proof (induction es arbitrary: g)
  case Nil
  then show ?case by (simp add: find_tokens_plain)
next
  case (Cons e es)
  then obtain g1 where "CHR ''='' \<notin> set g1"
    "\<forall>r. find_tokens (g @ handle_record h (logged_line e) @ r) =
       (itoa (input_tokens (lg_usage e)), itoa (output_tokens (lg_usage e))) # find_tokens (g1 @ r)"
    using find_tokens_line [of e g h] by auto
  with Cons show ?case by simp
qed

lemma sint_of_int_value: "0 \<le> i \<Longrightarrow> i < 2 ^ 63 \<Longrightarrow> sint (word_of_int i :: 64 word) = i"
  by (simp add: sint_sbintrunc' signed_take_bit_int_eq_self)

lemma json_line_no_eq:
  assumes "plain_logged e" "CHR ''='' \<notin> set stamp" "\<And>s. CHR ''='' \<notin> set s \<Longrightarrow> CHR ''='' \<notin> set (q s)"
  shows "CHR ''='' \<notin> set (json_line q stamp c (logged_line e))"
proof -
  have lv: "level_name level_info = ''INFO''" by code_simp
  have k: "CHR ''='' \<notin> set (q k)" if "CHR ''='' \<notin> set k" for k by (rule assms(3) [OF that])
  have "CHR ''='' \<notin> set (str_join '','' xs)" if "\<And>x. x \<in> set xs \<Longrightarrow> CHR ''='' \<notin> set x" for xs
    using that set_str_join [of "'',''" xs] by auto
  then show ?thesis
    using assms(1,2) itoa_no_eq head_no_eq(1) unfolding json_line_def
    by (auto simp: logged_line_def usage_record_def info_record_def plain_logged_def nl_def lv intro!: k)
qed

lemma atoi_itoa: "0 \<le> x \<Longrightarrow> x < 2 ^ 63 \<Longrightarrow> atoi64 (itoa x) = word_of_int x"
  by (simp add: atoi64_def itoa_def nat_val_digits)

definition add_match :: "string \<times> string \<Rightarrow> token_usage \<Rightarrow> token_usage" where
  "add_match ab u = \<lparr>tu_input = tu_input u + atoi64 (fst ab), tu_output = tu_output u + atoi64 (snd ab)\<rparr>"

lemma fold_matches:
  assumes "list_all (\<lambda>(i, j). 0 \<le> i \<and> 0 \<le> j) xs" "sum_list (map fst xs) < 2 ^ 63" "sum_list (map snd xs) < 2 ^ 63"
  shows "fold add_match (map (\<lambda>(i, j). (itoa i, itoa j)) xs) u =
    \<lparr>tu_input = tu_input u + word_of_int (sum_list (map fst xs)), tu_output = tu_output u + word_of_int (sum_list (map snd xs))\<rparr>"
  using assms
proof (induction xs arbitrary: u)
  case (Cons x xs)
  have nn: "0 \<le> sum_list (map fst xs)" "0 \<le> sum_list (map snd xs)"
    using Cons.prems(1) by (fastforce simp: list_all_iff intro!: sum_list_nonneg)+
  obtain i j where x: "x = (i, j)" by fastforce
  with Cons.prems nn have b: "0 \<le> i" "i < 2 ^ 63" "0 \<le> j" "j < 2 ^ 63"
    "sum_list (map fst xs) < 2 ^ 63" "sum_list (map snd xs) < 2 ^ 63" "list_all (\<lambda>(i, j). 0 \<le> i \<and> 0 \<le> j) xs" by auto
  show ?case using Cons.IH [OF b(7,5,6)] b by (simp add: x add_match_def atoi_itoa)
qed simp

text \<open>
  C40. The dashboard reads the tokens of an agent out of its log only if the log is text. From the
  lines the loop writes for its iterations through the text handler (provider, model and reason
  free of equals signs, counts not negative and their sums below 2^63) the dashboard gets exactly
  the sums of the input and of the output tokens; from the lines of the JSON handler, which the
  logger takes by itself when its output is no terminal, as in a pod, it always gets zero.
\<close>

theorem logged_tokens_read:
  assumes "list_all (\<lambda>(stamp, e). plain_logged e \<and> CHR ''='' \<notin> set stamp) es"
    "(\<Sum>(stamp, e)\<leftarrow>es. input_tokens (lg_usage e)) < 2 ^ 63" "(\<Sum>(stamp, e)\<leftarrow>es. output_tokens (lg_usage e)) < 2 ^ 63"
    "\<And>s. CHR ''='' \<notin> set s \<Longrightarrow> CHR ''='' \<notin> set (q s)"
  shows "let read = parse_tokens_from_logs (concat (map (\<lambda>(stamp, e). log_output q stamp handler (logged_line e)) es)) in
    (sint (tu_input read), sint (tu_output read)) =
      (case handler of
         TextHandler h \<Rightarrow> (\<Sum>(stamp, e)\<leftarrow>es. input_tokens (lg_usage e), \<Sum>(stamp, e)\<leftarrow>es. output_tokens (lg_usage e))
       | JsonHandler c \<Rightarrow> (0, 0))
    \<and> (case new_logger (\<lambda>_. []) False ComponentAgent of JsonHandler c \<Rightarrow> True | TextHandler h \<Rightarrow> False)"
proof (cases handler)
  case (JsonHandler c)
  have "CHR ''='' \<notin> set (concat (map (\<lambda>(stamp, e). json_line q stamp c (logged_line e)) es))"
    using assms(1,4) json_line_no_eq [of _ _ q c] by (fastforce simp: list_all_iff)
  then show ?thesis
    by (simp add: JsonHandler parse_tokens_from_logs_def find_tokens_plain new_logger_def split_beta)
next
  case (TextHandler h)
  let ?xs = "map (\<lambda>(stamp, e). (input_tokens (lg_usage e), output_tokens (lg_usage e))) es"
  have plain: "list_all plain_logged (map snd es)" using assms(1) by (auto simp: list_all_iff)
  have "concat (map (\<lambda>(stamp, e). log_output q stamp handler (logged_line e)) es)
      = concat (map (\<lambda>e. handle_record h (logged_line e)) (map snd es))"
    by (induction es) (auto simp: TextHandler)
  then have "find_tokens (concat (map (\<lambda>(stamp, e). log_output q stamp handler (logged_line e)) es))
      = map (\<lambda>(i, j). (itoa i, itoa j)) ?xs"
    using find_tokens_lines [OF plain, of "[]" h] by (simp add: split_beta comp_def)
  moreover have "(\<lambda>(a, b) u. \<lparr>tu_input = tu_input u + atoi64 a, tu_output = tu_output u + atoi64 b\<rparr>) = add_match"
    by (auto simp: fun_eq_iff add_match_def)
  moreover have sums: "sum_list (map fst ?xs) = (\<Sum>(stamp, e)\<leftarrow>es. input_tokens (lg_usage e))"
    "sum_list (map snd ?xs) = (\<Sum>(stamp, e)\<leftarrow>es. output_tokens (lg_usage e))"
    by (induction es; auto)+
  moreover have nn: "list_all (\<lambda>(i, j). 0 \<le> i \<and> 0 \<le> j) ?xs" using plain by (auto simp: list_all_iff plain_logged_def)
  ultimately have "parse_tokens_from_logs (concat (map (\<lambda>(stamp, e). log_output q stamp handler (logged_line e)) es)) =
      \<lparr>tu_input = word_of_int (\<Sum>(stamp, e)\<leftarrow>es. input_tokens (lg_usage e)), tu_output = word_of_int (\<Sum>(stamp, e)\<leftarrow>es. output_tokens (lg_usage e))\<rparr>"
    using fold_matches [OF nn] assms(2,3) by (simp add: parse_tokens_from_logs_def)
  moreover have "0 \<le> (\<Sum>(stamp, e)\<leftarrow>es. input_tokens (lg_usage e))" "0 \<le> (\<Sum>(stamp, e)\<leftarrow>es. output_tokens (lg_usage e))"
    using nn unfolding sums [symmetric] by (fastforce simp: list_all_iff intro!: sum_list_nonneg)+
  ultimately show ?thesis using assms(2,3)
    by (simp add: TextHandler new_logger_def sint_of_int_value)
qed

theorem logged_tokens_read_witness:
  "let e = \<lparr>lg_provider = ''anthropic'', lg_model = ''m'', lg_iteration = 0,
        lg_usage = zero_usage\<lparr>input_tokens := 12, output_tokens := 5, cache_read_tokens := 3\<rparr>, lg_stop = ''end_turn''\<rparr>;
      logs = concat (map (\<lambda>(stamp, e). log_output (\<lambda>s. [CHR 0x22] @ s @ [CHR 0x22]) stamp
        (TextHandler (new_color_handler ComponentAgent True)) (logged_line e)) [(''t'', e), (''u'', e)]) in
    sint (tu_input (parse_tokens_from_logs logs)) = 24 \<and> sint (tu_output (parse_tokens_from_logs logs)) = 10"
proof -
  let ?e = "\<lparr>lg_provider = ''anthropic'', lg_model = ''m'', lg_iteration = 0,
        lg_usage = zero_usage\<lparr>input_tokens := 12, output_tokens := 5, cache_read_tokens := 3\<rparr>, lg_stop = ''end_turn''\<rparr>"
  have "plain_logged ?e" by (simp add: plain_logged_def zero_usage_def)
  then show ?thesis
    using logged_tokens_read [of "[(''t'', ?e), (''u'', ?e)]" "\<lambda>s. [CHR 0x22] @ s @ [CHR 0x22]" "TextHandler (new_color_handler ComponentAgent True)"]
    by (simp add: Let_def)
qed

end
