(* ===== verification/Dashboard.thy ===== *)
theory Dashboard
  imports "HOL-Library.Multiset" Dash_K8s Go_Time OpenAI_Api Go_Url
begin

section \<open>demo/batch/dashboard: the A2A client, the scenarios and the server\<close>

text \<open>
  The dashboard deploys the agents of a scenario, waits for their pods, sends each its prompt and
  shows what became of them. Every section under the lock is one operation on the state, every call
  of the cluster or of an agent one transition of the world \<open>'n\<close>; \<open>dash_step\<close> interleaves
  the goroutines of the runs with the requests. A run is a cell of a list, as the code keeps a
  pointer to it beyond its place in the map of states. The clock, the HTTP client and the shuffle of
  the resumes are parameters; log lines and static files are left out.
\<close>

subsection \<open>a2a.go\<close>

record 'n peer_env =
  ae_post :: "string \<Rightarrow> string \<Rightarrow> string \<Rightarrow> 'n \<Rightarrow> http_result \<times> 'n"
  ae_json_error :: "string \<Rightarrow> string"
  ae_number :: "rat \<Rightarrow> string"

record task_status =
  tk_id :: string
  tk_status :: string
  tk_artifact :: string

definition send_request :: "int \<Rightarrow> string \<Rightarrow> json" where
  "send_request n msg = JObj
     [(''jsonrpc'', JStr ''2.0''), (''method'', JStr ''SendMessage''), (''id'', JStr (itoa n)),
      (''params'', JObj [(''message'', JObj
        [(''messageId'', JStr (''dash-'' @ itoa n)), (''role'', JStr ''user''),
         (''parts'', JArr [str_obj [(''kind'', ''text''), (''text'', msg)]])])])]"

definition task_request :: "int \<Rightarrow> string \<Rightarrow> json" where
  "task_request n task = JObj
     [(''jsonrpc'', JStr ''2.0''), (''method'', JStr ''GetTask''), (''id'', JStr (itoa n)), (''params'', str_obj [(''id'', task)])]"

text \<open>A raw message is nil or the value of its text, null included.\<close>

record rpc_answer =
  rp_result :: "json option"
  rp_error :: "string option"

definition error_text_field :: "string \<Rightarrow> json \<Rightarrow> string \<Rightarrow> string option" where
  "error_text_field k v s = (if field_is k ''message'' then string_field v (\<lambda>m _. m) s else Some s)"

definition rpc_field :: "string \<Rightarrow> json \<Rightarrow> rpc_answer \<Rightarrow> rpc_answer option" where
  "rpc_field k v r =
     (if field_is k ''result'' then Some (r\<lparr>rp_result := Some v\<rparr>)
      else if field_is k ''error'' then
        (if v = JNull then Some (r\<lparr>rp_error := None\<rparr>)
         else map_option (\<lambda>m. r\<lparr>rp_error := Some m\<rparr>)
           (struct_of error_text_field (case rp_error r of Some m \<Rightarrow> m | None \<Rightarrow> []) v))
      else Some r)"

definition decode_rpc :: "string \<Rightarrow> rpc_answer option" where
  "decode_rpc data = Option.bind (json_parse data) (struct_of rpc_field \<lparr>rp_result = None, rp_error = None\<rparr>)"

text \<open>A value as a map, and an entry of it as a string; null is an empty map and an empty string.\<close>

definition as_map :: "json \<Rightarrow> (string \<times> json) list option" where
  "as_map v = (case v of JObj kvs \<Rightarrow> Some (of_pairs kvs) | JNull \<Rightarrow> Some [] | _ \<Rightarrow> None)"

definition as_string :: "json \<Rightarrow> string option" where
  "as_string v = (case v of JStr s \<Rightarrow> Some s | JNull \<Rightarrow> Some [] | _ \<Rightarrow> None)"

definition extract_field :: "json option \<Rightarrow> string \<Rightarrow> string option" where
  "extract_field data k = Option.bind (Option.bind data as_map) (\<lambda>m. Option.bind (map_of m k) as_string)"

fun extract_nested_field :: "json option \<Rightarrow> string list \<Rightarrow> string option" where
  "extract_nested_field data [] = None"
| "extract_nested_field data [k] = extract_field data k"
| "extract_nested_field data (k # ks) = extract_nested_field (Option.bind (Option.bind data as_map) (\<lambda>m. map_of m k)) ks"

definition part_text_field :: "string \<Rightarrow> json \<Rightarrow> string \<Rightarrow> string option" where
  "part_text_field k v s = (if field_is k ''text'' then string_field v (\<lambda>m _. m) s else Some s)"

definition parts_field :: "string \<Rightarrow> json \<Rightarrow> string list \<Rightarrow> string list option" where
  "parts_field k v ps = (if field_is k ''parts'' then struct_list part_text_field [] v else Some ps)"

definition artifacts_field :: "string \<Rightarrow> json \<Rightarrow> string list list \<Rightarrow> string list list option" where
  "artifacts_field k v xs = (if field_is k ''artifacts'' then struct_list parts_field [] v else Some xs)"

definition extract_artifact_text :: "json option \<Rightarrow> string" where
  "extract_artifact_text data =
     (case Option.bind data (struct_of artifacts_field []) of
        None \<Rightarrow> []
      | Some arts \<Rightarrow> (case find (\<lambda>t. t \<noteq> []) (concat arts) of Some t \<Rightarrow> t | None \<Rightarrow> []))"

definition or_empty :: "string option \<Rightarrow> string" where
  "or_empty s = (case s of Some t \<Rightarrow> t | None \<Rightarrow> [])"

definition task_of :: "json option \<Rightarrow> task_status" where
  "task_of data = \<lparr>tk_id = or_empty (extract_field data ''id''), tk_status = or_empty (extract_nested_field data [''status'', ''state'']),
     tk_artifact = extract_artifact_text data\<rparr>"

definition task_field :: "string \<Rightarrow> json \<Rightarrow> json option \<Rightarrow> json option option" where
  "task_field k v t = (if field_is k ''task'' then Some (Some v) else Some t)"

text \<open>The answer to a message: a task, in a wrapper or bare.\<close>

definition read_send_answer :: "'n peer_env \<Rightarrow> int \<Rightarrow> string \<Rightarrow> string + task_status" where
  "read_send_answer env st data =
     (if st \<ge> 500 \<or> data \<noteq> [] \<and> hd data = CHR ''<'' then Inl (''agent not ready (HTTP '' @ itoa st @ '')'')
      else (case decode_rpc data of
          None \<Rightarrow> Inl (''parse response: '' @ ae_json_error env data)
        | Some r \<Rightarrow>
            (case rp_error r of
               Some m \<Rightarrow> Inl (''A2A error: '' @ m)
             | None \<Rightarrow>
                 (case Option.bind (rp_result r) (struct_of task_field None) of
                    None \<Rightarrow> Inl (''parse task wrapper: '' @ ae_json_error env data)
                  | Some wrapped \<Rightarrow> Inr (task_of (case wrapped of Some t \<Rightarrow> Some t | None \<Rightarrow> rp_result r))))))"

text \<open>The counter of requests is part of the state.\<close>

definition send_once :: "'n peer_env \<Rightarrow> string \<Rightarrow> string \<Rightarrow> int \<times> 'n \<Rightarrow> (string + task_status) \<times> int \<times> 'n" where
  "send_once env url msg nw =
     (let n = fst nw + 1;
          (r, w1) = ae_post env (url @ ''/a2a'') ''application/json'' (json_text (ae_number env) (send_request n msg)) (snd nw) in
      (case r of
         HttpFailed e \<Rightarrow> Inl (''send to '' @ url @ '': '' @ e)
       | HttpBroken _ _ _ e \<Rightarrow> Inl e
       | HttpReply st _ data \<Rightarrow> read_send_answer env st data, n, w1))"

text \<open>A message is tried up to \<open>k\<close> times.\<close>

fun send_retry :: "'n peer_env \<Rightarrow> string \<Rightarrow> string \<Rightarrow> nat \<Rightarrow> int \<times> 'n \<Rightarrow> (string + task_status) \<times> int \<times> 'n" where
  "send_retry env url msg k nw =
     (case send_once env url msg nw of
        (Inr s, nw1) \<Rightarrow> (Inr s, nw1)
      | (Inl e, nw1) \<Rightarrow> (case k of 0 \<Rightarrow> (Inl e, nw1) | Suc k1 \<Rightarrow> send_retry env url msg k1 nw1))"

declare send_retry.simps [simp del]

definition send_message :: "'n peer_env \<Rightarrow> string \<Rightarrow> string \<Rightarrow> int \<times> 'n \<Rightarrow> (string + task_status) \<times> int \<times> 'n" where
  "send_message env url msg nw = send_retry env url msg 4 nw"

definition cut_text :: "string \<Rightarrow> nat \<Rightarrow> string" where
  "cut_text s n = (if length s \<le> n then s else take n s @ ''...'')"

definition get_task_status :: "'n peer_env \<Rightarrow> string \<Rightarrow> string \<Rightarrow> int \<times> 'n \<Rightarrow> (string + task_status) \<times> int \<times> 'n" where
  "get_task_status env url task nw =
     (let n = fst nw + 1;
          (r, w1) = ae_post env (url @ ''/a2a'') ''application/json'' (json_text (ae_number env) (task_request n task)) (snd nw) in
      (case r of
         HttpFailed e \<Rightarrow> Inl e
       | HttpBroken _ _ _ e \<Rightarrow> Inl e
       | HttpReply st h data \<Rightarrow>
           (let ct = header_get ''Content-Type'' h in
            if st \<ge> 500 then Inl (''agent error (HTTP '' @ itoa st @ ''): '' @ cut_text data 200)
            else if \<not> str_contains ct ''application/json''
            then Inl (''non-JSON response (Content-Type: '' @ ct @ ''): '' @ cut_text data 200)
            else (case decode_rpc data of
                None \<Rightarrow> Inl (''parse response: '' @ ae_json_error env data)
              | Some a \<Rightarrow>
                  (case rp_error a of
                     Some m \<Rightarrow> Inl (''A2A error: '' @ m)
                   | None \<Rightarrow> Inr ((task_of (rp_result a))\<lparr>tk_id := task\<rparr>)))), n, w1))"

text \<open>A message goes out once, and again only after a failure, five times at most.\<close>

lemma send_retry_count:
  "send_retry env url msg k (n, w) = (r, n1, w1) \<Longrightarrow> n < n1 \<and> n1 \<le> n + 1 + int k \<and> (is_err r \<longrightarrow> n1 = n + 1 + int k)"
proof (induction k arbitrary: n w)
  case 0
  then show ?case
    by (subst (asm) send_retry.simps) (auto simp: send_once_def Let_def split: prod.splits sum.splits http_result.splits)
next
  case (Suc k)
  obtain r0 w0 where o: "send_once env url msg (n, w) = (r0, n + 1, w0)"
    by (cases "send_once env url msg (n, w)") (auto simp: send_once_def Let_def split: prod.splits)
  show ?case
  proof (cases r0)
    case (Inl e)
    with Suc.prems o have "send_retry env url msg k (n + 1, w0) = (r, n1, w1)" by (subst (asm) send_retry.simps) simp
    from Suc.IH [OF this] show ?thesis by auto
  next
    case (Inr s)
    with Suc.prems o show ?thesis by (subst (asm) send_retry.simps) auto
  qed
qed

subsection \<open>scenarios.go\<close>

record agent_assignment =
  aa_name :: string
  aa_label :: string
  aa_document :: string
  aa_prompt :: string

record scenario =
  sn_name :: string
  sn_title :: string
  sn_config_map :: string
  sn_doc_service :: string
  sn_llm_timeout :: int
  sn_agents :: "agent_assignment list"

definition document_service_url :: "string \<Rightarrow> string" where
  "document_service_url namespace = ''http://document-service.'' @ namespace @ ''.svc:8080''"

definition finance_contracts :: "(string \<times> string) list" where
  "finance_contracts = [(''CloudCompute Inc'', ''DOC-CTR-V001''), (''StorageMax Solutions'', ''DOC-CTR-V002''),
     (''BandwidthPro'', ''DOC-CTR-V003''), (''SupportFirst'', ''DOC-CTR-V004''), (''DataCenter Co'', ''DOC-CTR-V005'')]"

definition finance_scenario :: "string \<Rightarrow> scenario" where
  "finance_scenario namespace =
     \<lparr>sn_name = ''finance'', sn_title = ''Invoice Anomaly Detection'', sn_config_map = ''finance-analyst-config'',
      sn_doc_service = document_service_url namespace, sn_llm_timeout = 90,
      sn_agents = map (\<lambda>(i, vendor, doc). \<lparr>aa_name = ''finance-analyst-'' @ pad 3 (int i + 1), aa_label = vendor,
        aa_document = doc, aa_prompt = ''run analysis for document '' @ doc\<rparr>) (enumerate 0 finance_contracts)\<rparr>"

definition security_scenario :: "string \<Rightarrow> scenario" where
  "security_scenario namespace =
     \<lparr>sn_name = ''security'', sn_title = ''Vulnerability Triage'', sn_config_map = ''security-analyst-config'',
      sn_doc_service = document_service_url namespace, sn_llm_timeout = 120,
      sn_agents = [\<lparr>aa_name = ''security-analyst'', aa_label = ''Vuln scan + asset inventory'', aa_document = [],
        aa_prompt = ''triage the vulnerability scan report''\<rparr>]\<rparr>"

definition resume_ids :: "string list" where
  "resume_ids = map (\<lambda>i. ''DOC-R'' @ pad 3 (int i + 1)) [0..<100]"

definition join_ids :: "string list \<Rightarrow> string" where
  "join_ids ids = str_join '', '' ids"

definition hr_scenario :: "(string list \<Rightarrow> string list) \<Rightarrow> string \<Rightarrow> scenario" where
  "hr_scenario shuffle namespace =
     (let resumes = shuffle resume_ids in
      \<lparr>sn_name = ''hr'', sn_title = ''Resume Screening'', sn_config_map = ''hr-screener-config'',
       sn_doc_service = document_service_url namespace, sn_llm_timeout = 120,
       sn_agents = map (\<lambda>i. let num = pad 3 (int i + 1); batch = take 10 (drop (i * 10) resumes) in
         \<lparr>aa_name = ''hr-screener-'' @ num, aa_label = ''Batch '' @ num @ '' (10 resumes)'', aa_document = hd batch,
          aa_prompt = ''Evaluate resumes '' @ join_ids batch
            @ '' against job description DOC-JD001. Fetch the job description first, then fetch and score each resume.''\<rparr>) [0..<10]\<rparr>)"

definition all_scenarios :: "(string list \<Rightarrow> string list) \<Rightarrow> string \<Rightarrow> (string \<times> scenario) list" where
  "all_scenarios shuffle namespace =
     [(''finance'', finance_scenario namespace), (''security'', security_scenario namespace), (''hr'', hr_scenario shuffle namespace)]"

text \<open>However the resumes are shuffled, the batches of the agents hold each of them once.\<close>

lemma concat_chunks: "concat (map (\<lambda>i. take m (drop (i * m) xs)) [0..<n]) = take (n * m) xs"
  by (induction n) (simp_all add: take_add [symmetric] add.commute)

lemma hr_batches:
  assumes "mset (shuffle resume_ids) = mset resume_ids"
  shows "mset (concat (map (\<lambda>i. take 10 (drop (i * 10) (shuffle resume_ids))) [0..<10])) = mset resume_ids"
proof -
  have "length (shuffle resume_ids) = 100"
    using mset_eq_length [OF assms] by (simp add: resume_ids_def)
  then show ?thesis using assms by (simp add: concat_chunks)
qed

subsection \<open>main.go: the state\<close>

record agent_entry =
  ar_assign :: agent_assignment
  ar_status :: string
  ar_task :: string
  ar_result :: string
  ar_start :: "int option"
  ar_end :: "int option"
  ar_error :: string

text \<open>The statuses the server sets itself; an agent that answers brings its own.\<close>

definition st_pending :: string where "st_pending = ''pending''"
definition st_deploying :: string where "st_deploying = ''deploying''"
definition st_ready :: string where "st_ready = ''ready''"
definition st_working :: string where "st_working = ''working''"
definition st_failed :: string where "st_failed = ''failed''"

datatype run_phase = PhaseDeploying | PhaseWaiting | PhaseRunning | PhaseDone | PhaseFailed

fun phase_text :: "run_phase \<Rightarrow> string" where
  "phase_text PhaseDeploying = ''deploying''"
| "phase_text PhaseWaiting = ''waiting''"
| "phase_text PhaseRunning = ''running''"
| "phase_text PhaseDone = ''done''"
| "phase_text PhaseFailed = ''failed''"

text \<open>
  A run with the place its goroutine has reached: before the deployment of an agent, in it, waiting
  for the pods of some agents, sending to some agents (not yet begun, and begun with a URL), or at its end.
\<close>

datatype run_pc =
    Marking nat
  | Deploying nat
  | Awaiting "nat list"
  | Sending "nat list" "(nat \<times> string) list"
  | RunEnded

record scenario_run =
  sr_key :: string
  sr_scenario :: scenario
  sr_phase :: run_phase
  sr_start :: int
  sr_agents :: "agent_entry list"
  sr_pc :: run_pc

record 'n dashboard =
  db_states :: "(string \<times> nat) list"
  db_runs :: "scenario_run list"
  db_counter :: int
  db_world :: 'n

record 'n dash_env =
  de_kube :: "'n kube_env"
  de_client :: k8s_client
  de_a2a :: "'n peer_env"
  de_in_cluster :: bool
  de_scenarios :: "(string \<times> scenario) list"
  de_get :: "string \<Rightarrow> 'n \<Rightarrow> http_result \<times> 'n"
  de_zone :: "int \<Rightarrow> int"
  de_seconds :: "int \<Rightarrow> rat"

definition new_dashboard :: "'n \<Rightarrow> 'n dashboard" where
  "new_dashboard w = \<lparr>db_states = [], db_runs = [], db_counter = 0, db_world = w\<rparr>"

definition update_run :: "nat \<Rightarrow> (scenario_run \<Rightarrow> scenario_run) \<Rightarrow> 'n dashboard \<Rightarrow> 'n dashboard" where
  "update_run k f d = d\<lparr>db_runs := (db_runs d)[k := f (db_runs d ! k)]\<rparr>"

definition update_agent :: "nat \<Rightarrow> (agent_entry \<Rightarrow> agent_entry) \<Rightarrow> scenario_run \<Rightarrow> scenario_run" where
  "update_agent i f r = r\<lparr>sr_agents := (sr_agents r)[i := f (sr_agents r ! i)]\<rparr>"

definition agent_failed :: "string \<Rightarrow> agent_entry \<Rightarrow> agent_entry" where
  "agent_failed e a = a\<lparr>ar_status := st_failed, ar_error := e\<rparr>"

subsection \<open>Starting, showing and cleaning up\<close>

definition http_error :: "string \<Rightarrow> int \<Rightarrow> http_response" where
  "http_error msg st = \<lparr>rs_status = st, rs_headers = header_set ''Content-Type'' ''text/plain; charset=utf-8'' [], rs_body = msg @ nl\<rparr>"

definition new_run :: "string \<Rightarrow> scenario \<Rightarrow> int \<Rightarrow> scenario_run" where
  "new_run name s now = \<lparr>sr_key = name, sr_scenario = s, sr_phase = PhaseDeploying, sr_start = now,
     sr_agents = map (\<lambda>a. \<lparr>ar_assign = a, ar_status = st_pending, ar_task = [], ar_result = [], ar_start = None, ar_end = None, ar_error = []\<rparr>)
       (sn_agents s), sr_pc = Marking 0\<rparr>"

definition run_blocks :: "'n dashboard \<Rightarrow> string \<Rightarrow> bool" where
  "run_blocks d name \<longleftrightarrow>
     (case map_of (db_states d) name of Some k \<Rightarrow> sr_phase (db_runs d ! k) \<notin> {PhaseDone, PhaseFailed} | None \<Rightarrow> False)"

definition handle_run :: "'n dash_env \<Rightarrow> int \<Rightarrow> string \<Rightarrow> 'n dashboard \<Rightarrow> http_response \<times> 'n dashboard" where
  "handle_run env now name d =
     (case map_of (de_scenarios env) name of
        None \<Rightarrow> (http_error ''unknown scenario'' 404, d)
      | Some s \<Rightarrow>
          if sn_agents s = [] then (http_error ''scenario not configured'' 400, d)
          else if run_blocks d name then (http_error ''scenario already running'' 409, d)
          else (json_response 200 (str_obj [(''status'', ''started'')]),
            d\<lparr>db_runs := db_runs d @ [new_run name s now], db_states := map_put name (length (db_runs d)) (db_states d)\<rparr>))"

fun delete_agents :: "'n dash_env \<Rightarrow> agent_assignment list \<Rightarrow> 'n \<Rightarrow> 'n" where
  "delete_agents env [] w = w"
| "delete_agents env (a # as) w = delete_agents env as (snd (delete_agent (de_kube env) (de_client env) (aa_name a) w))"

text \<open>The agents are deleted one by one before the lock is taken.\<close>

definition handle_cleanup :: "'n dash_env \<Rightarrow> string \<Rightarrow> 'n dashboard \<Rightarrow> http_response \<times> 'n dashboard" where
  "handle_cleanup env name d =
     (case map_of (de_scenarios env) name of
        None \<Rightarrow> (http_error ''unknown scenario'' 404, d)
      | Some s \<Rightarrow> (json_response 200 (str_obj [(''status'', ''cleaned'')]),
          d\<lparr>db_world := delete_agents env (sn_agents s) (db_world d), db_states := map_del name (db_states d)\<rparr>))"

subsection \<open>The status with live figures\<close>

record agent_state =
  as_agent :: agent_entry
  as_memory :: rat
  as_cpu :: rat
  as_input :: "64 word"
  as_output :: "64 word"

definition time_field :: "'n dash_env \<Rightarrow> int option \<Rightarrow> string" where
  "time_field env t = (case t of Some x \<Rightarrow> rfc3339 (de_zone env x) x | None \<Rightarrow> [])"

definition agent_json :: "'n dash_env \<Rightarrow> agent_state \<Rightarrow> json" where
  "agent_json env s =
     (let a = as_agent s; asg = ar_assign a in JObj
       ([(''name'', JStr (aa_name asg)), (''label'', JStr (aa_label asg)), (''documentId'', JStr (aa_document asg)),
         (''status'', JStr (ar_status a)), (''taskId'', JStr (ar_task a)), (''result'', JStr (ar_result a)),
         (''startTime'', JStr (time_field env (ar_start a))), (''endTime'', JStr (time_field env (ar_end a))),
         (''memoryMiB'', JNum (as_memory s)), (''cpuMcpu'', JNum (as_cpu s)),
         (''inputTokens'', JNum (of_int (sint (as_input s)))), (''outputTokens'', JNum (of_int (sint (as_output s))))]
        @ (if ar_error a = [] then [] else [(''error'', JStr (ar_error a))])))"

text \<open>The last of the pods whose name starts with the name of the agent.\<close>

definition metrics_by_app :: "pod_metrics list \<Rightarrow> string \<Rightarrow> pod_metrics option" where
  "metrics_by_app ms app = find (\<lambda>m. has_prefix (pm_name m) app) (rev ms)"

definition enrich_agent :: "'n dash_env \<Rightarrow> pod_metrics list \<Rightarrow> agent_state \<Rightarrow> 'n \<Rightarrow> agent_state \<times> 'n" where
  "enrich_agent env ms s w =
     (let app = aa_name (ar_assign (as_agent s));
          s1 = (case metrics_by_app ms app of Some m \<Rightarrow> s\<lparr>as_memory := pm_memory m, as_cpu := pm_cpu m\<rparr> | None \<Rightarrow> s) in
      case list_pods (de_kube env) (de_client env) (''app='' @ app) w of
        (Inr (pod # _), w1) \<Rightarrow>
          (case get_pod_logs (de_kube env) (de_client env) (pi_name pod) 600 w1 of
             (Inr logs, w2) \<Rightarrow>
               (let u = parse_tokens_from_logs logs in (s1\<lparr>as_input := tu_input u, as_output := tu_output u\<rparr>, w2))
           | (Inl _, w2) \<Rightarrow> (s1, w2))
      | (_, w1) \<Rightarrow> (s1, w1))"

fun enrich_agents :: "'n dash_env \<Rightarrow> pod_metrics list \<Rightarrow> agent_state list \<Rightarrow> 'n \<Rightarrow> agent_state list \<times> 'n" where
  "enrich_agents env ms [] w = ([], w)"
| "enrich_agents env ms (s # ss) w =
     (let (s1, w1) = enrich_agent env ms s w; (ss1, w2) = enrich_agents env ms ss w1 in (s1 # ss1, w2))"

definition enrich_with_metrics :: "'n dash_env \<Rightarrow> agent_state list \<Rightarrow> 'n \<Rightarrow> agent_state list \<times> 'n" where
  "enrich_with_metrics env ss w =
     (case get_pod_metrics (de_kube env) (de_client env) ''managed-by=dashboard'' w of
        (Inl _, w1) \<Rightarrow> (ss, w1)
      | (Inr ms, w1) \<Rightarrow> enrich_agents env ms ss w1)"

definition handle_status :: "'n dash_env \<Rightarrow> int \<Rightarrow> string \<Rightarrow> 'n dashboard \<Rightarrow> http_response \<times> 'n dashboard" where
  "handle_status env now name d =
     (case map_of (db_states d) name of
        None \<Rightarrow> (json_response 200 (JObj [(''phase'', JStr ''idle''), (''startTime'', JStr []), (''elapsed'', JNum 0), (''agents'', JNull)]), d)
      | Some k \<Rightarrow>
          (let r = db_runs d ! k;
               (agents, w1) = enrich_with_metrics env
                 (map (\<lambda>a. \<lparr>as_agent = a, as_memory = 0, as_cpu = 0, as_input = 0, as_output = 0\<rparr>) (sr_agents r)) (db_world d) in
           (json_response 200 (JObj [(''phase'', JStr (phase_text (sr_phase r))), (''startTime'', JStr (rfc3339 (de_zone env (sr_start r)) (sr_start r))),
               (''elapsed'', JNum (de_seconds env (now - sr_start r))), (''agents'', JArr (map (agent_json env) agents))]),
            d\<lparr>db_world := w1\<rparr>)))"

definition scenarios_response :: "'n dash_env \<Rightarrow> http_response" where
  "scenarios_response env =
     json_response 200 (if de_scenarios env = [] then JNull else JArr (map (\<lambda>(_, s). JObj
       [(''name'', JStr (sn_name s)), (''title'', JStr (sn_title s)), (''agents'', JNum (of_nat (length (sn_agents s))))]) (de_scenarios env)))"

definition valid_doc_id :: "string \<Rightarrow> bool" where
  "valid_doc_id s \<longleftrightarrow> (case s of [] \<Rightarrow> False | c # cs \<Rightarrow> is_alnum c \<and> list_all (\<lambda>c. is_alnum c \<or> c = CHR ''-'') cs)"

definition handle_document :: "'n dash_env \<Rightarrow> string \<Rightarrow> 'n \<Rightarrow> http_response \<times> 'n" where
  "handle_document env doc w =
     (if \<not> valid_doc_id doc then (http_error ''invalid document ID'' 400, w)
      else
        (let (url, w1) = (if de_in_cluster env
            then (Inr (document_service_url (kc_namespace (de_client env)) @ ''/documents/'' @ doc), w)
            else (case get_route_host (de_kube env) (de_client env) ''document-service'' w of
                (Inl e, w1) \<Rightarrow> (Inl e, w1)
              | (Inr host, w1) \<Rightarrow> (Inr (''https://'' @ host @ ''/documents/'' @ doc), w1))) in
         case url of
           Inl _ \<Rightarrow> (http_error ''document-service route not found'' 502, w1)
         | Inr u \<Rightarrow>
             (case de_get env u w1 of
                (HttpFailed e, w2) \<Rightarrow> (http_error ''failed to reach document-service'' 502, w2)
              | (HttpReply st _ body, w2) \<Rightarrow>
                  (\<lparr>rs_status = st, rs_headers = header_set ''Content-Type'' ''application/json'' [], rs_body = body\<rparr>, w2)
              | (HttpBroken st _ body _, w2) \<Rightarrow>
                  (\<lparr>rs_status = st, rs_headers = header_set ''Content-Type'' ''application/json'' [], rs_body = body\<rparr>, w2))))"

subsection \<open>The goroutine of a run, by its sections\<close>

definition agent_name_of :: "scenario_run \<Rightarrow> nat \<Rightarrow> string" where
  "agent_name_of r i = aa_name (sn_agents (sr_scenario r) ! i)"

definition mark_deploying :: "nat \<Rightarrow> scenario_run \<Rightarrow> scenario_run" where
  "mark_deploying i r = (update_agent i (ar_status_update (\<lambda>_. st_deploying)) r)\<lparr>sr_pc := Deploying i\<rparr>"

definition deployed :: "nat \<Rightarrow> string option \<Rightarrow> scenario_run \<Rightarrow> scenario_run" where
  "deployed i err r = (case err of Some e \<Rightarrow> update_agent i (agent_failed e) r | None \<Rightarrow> r)\<lparr>sr_pc := Marking (Suc i)\<rparr>"

text \<open>The error of a route is only logged.\<close>

definition deploy_call :: "'n dash_env \<Rightarrow> scenario_run \<Rightarrow> nat \<Rightarrow> 'n \<Rightarrow> string option \<times> 'n" where
  "deploy_call env r i w =
     (let s = sr_scenario r; name = agent_name_of r i in
      case create_agent_deployment (de_kube env) (de_client env) name (sn_config_map s) (sn_name s) (sn_doc_service s) (sn_llm_timeout s) w of
        (Some e, w1) \<Rightarrow> (Some e, w1)
      | (None, w1) \<Rightarrow> (None, if de_in_cluster env then w1 else snd (create_route (de_kube env) (de_client env) name w1)))"

definition agents_with :: "(string \<Rightarrow> bool) \<Rightarrow> scenario_run \<Rightarrow> nat list" where
  "agents_with p r = filter (\<lambda>i. p (ar_status (sr_agents r ! i))) [0..<length (sr_agents r)]"

definition start_waiting :: "scenario_run \<Rightarrow> scenario_run" where
  "start_waiting r = r\<lparr>sr_phase := PhaseWaiting, sr_pc := Awaiting (agents_with (\<lambda>s. s \<noteq> st_failed) r)\<rparr>"

text \<open>The poll loop over the readings of the clock; \<open>None\<close> while the readings do not reach the deadline.\<close>

fun wait_for_agent :: "'n dash_env \<Rightarrow> string \<Rightarrow> int \<Rightarrow> int list \<Rightarrow> 'n \<Rightarrow> (string option \<times> 'n) option" where
  "wait_for_agent env name deadline [] w = None"
| "wait_for_agent env name deadline (t # ts) w =
     (if t < deadline
      then (case list_pods (de_kube env) (de_client env) (''app='' @ name) w of
          (Inr pods, w1) \<Rightarrow> if list_ex pi_ready pods then Some (None, w1) else wait_for_agent env name deadline ts w1
        | (Inl _, w1) \<Rightarrow> wait_for_agent env name deadline ts w1)
      else Some (Some ''timeout after 1m30s'', w))"

lemma wait_returns: "\<exists>t \<in> set ts. deadline \<le> t \<Longrightarrow> wait_for_agent env name deadline ts w \<noteq> None"
  by (induction ts arbitrary: w) (auto split: prod.splits sum.splits)

definition awaited :: "nat list \<Rightarrow> nat \<Rightarrow> string option \<Rightarrow> scenario_run \<Rightarrow> scenario_run" where
  "awaited js j err r =
     (case err of Some e \<Rightarrow> update_agent j (agent_failed (''pod not ready: '' @ e)) r
      | None \<Rightarrow> update_agent j (ar_status_update (\<lambda>_. st_ready)) r)\<lparr>sr_pc := Awaiting (remove1 j js)\<rparr>"

definition start_running :: "scenario_run \<Rightarrow> scenario_run" where
  "start_running r = r\<lparr>sr_phase := PhaseRunning, sr_pc := Sending (agents_with (\<lambda>s. s = st_ready) r) []\<rparr>"

definition agent_url :: "'n dash_env \<Rightarrow> string \<Rightarrow> 'n \<Rightarrow> (string + string) \<times> 'n" where
  "agent_url env name w =
     (if de_in_cluster env then (Inr (''http://'' @ name @ ''.'' @ kc_namespace (de_client env) @ ''.svc:8080''), w)
      else (case get_route_host (de_kube env) (de_client env) name w of
          (Inl e, w1) \<Rightarrow> (Inl (''no route: '' @ e), w1)
        | (Inr host, w1) \<Rightarrow> (Inr (''https://'' @ host), w1)))"

definition send_begun :: "nat list \<Rightarrow> (nat \<times> string) list \<Rightarrow> nat \<Rightarrow> string + string \<Rightarrow> int \<Rightarrow> scenario_run \<Rightarrow> scenario_run" where
  "send_begun ts ws j url now r =
     (case url of
        Inl e \<Rightarrow> (update_agent j (agent_failed e) r)\<lparr>sr_pc := Sending (remove1 j ts) ws\<rparr>
      | Inr u \<Rightarrow> (update_agent j (\<lambda>a. a\<lparr>ar_status := st_working, ar_start := Some now\<rparr>) r)\<lparr>sr_pc := Sending (remove1 j ts) (ws @ [(j, u)])\<rparr>)"

definition agent_answered :: "task_status \<Rightarrow> int \<Rightarrow> agent_entry \<Rightarrow> agent_entry" where
  "agent_answered t now a = a\<lparr>ar_task := tk_id t, ar_status := (if tk_status t = [] then ''completed'' else tk_status t),
     ar_result := tk_artifact t, ar_end := Some now\<rparr>"

definition send_ended :: "nat list \<Rightarrow> (nat \<times> string) list \<Rightarrow> nat \<times> string \<Rightarrow> string + task_status \<Rightarrow> int \<Rightarrow> scenario_run \<Rightarrow> scenario_run" where
  "send_ended ts ws ju answer now r =
     (case answer of
        Inl e \<Rightarrow> update_agent (fst ju) (agent_failed e) r
      | Inr t \<Rightarrow> update_agent (fst ju) (agent_answered t now) r)\<lparr>sr_pc := Sending ts (remove1 ju ws)\<rparr>"

definition finish_run :: "scenario_run \<Rightarrow> scenario_run" where
  "finish_run r = r\<lparr>sr_phase := (if list_ex (\<lambda>a. ar_status a = st_failed) (sr_agents r) then PhaseFailed else PhaseDone), sr_pc := RunEnded\<rparr>"

subsection \<open>Steps\<close>

text \<open>
  One step of the server. A goroutine of run \<open>k\<close> takes its next section, or a request is served;
  cleanups take part when \<open>cleanups\<close> is true. Calls of the cluster and of agents are one step each
  (a status request makes several), so that they interleave but do not overlap.
\<close>

inductive dash_step :: "'n dash_env \<Rightarrow> bool \<Rightarrow> 'n dashboard \<Rightarrow> 'n dashboard \<Rightarrow> bool"
  for env :: "'n dash_env" and cleanups :: bool where
  run: "dash_step env cleanups d (snd (handle_run env now name d))"
| status: "dash_step env cleanups d (snd (handle_status env now name d))"
| cleanup: "cleanups \<Longrightarrow> dash_step env cleanups d (snd (handle_cleanup env name d))"
| mark: "k < length (db_runs d) \<Longrightarrow> sr_pc (db_runs d ! k) = Marking i \<Longrightarrow> i < length (sr_agents (db_runs d ! k)) \<Longrightarrow>
    dash_step env cleanups d (update_run k (mark_deploying i) d)"
| deploy: "k < length (db_runs d) \<Longrightarrow> sr_pc (db_runs d ! k) = Deploying i \<Longrightarrow>
    deploy_call env (db_runs d ! k) i (db_world d) = (err, w1) \<Longrightarrow>
    dash_step env cleanups d ((update_run k (deployed i err) d)\<lparr>db_world := w1\<rparr>)"
| wait: "k < length (db_runs d) \<Longrightarrow> sr_pc (db_runs d ! k) = Marking (length (sr_agents (db_runs d ! k))) \<Longrightarrow>
    dash_step env cleanups d (update_run k start_waiting d)"
| ready: "k < length (db_runs d) \<Longrightarrow> sr_pc (db_runs d ! k) = Awaiting js \<Longrightarrow> j \<in> set js \<Longrightarrow>
    wait_for_agent env (agent_name_of (db_runs d ! k) j) (now + 90 * second_ns) clock (db_world d) = Some (err, w1) \<Longrightarrow>
    dash_step env cleanups d ((update_run k (awaited js j err) d)\<lparr>db_world := w1\<rparr>)"
| running: "k < length (db_runs d) \<Longrightarrow> sr_pc (db_runs d ! k) = Awaiting [] \<Longrightarrow>
    dash_step env cleanups d (update_run k start_running d)"
| send: "k < length (db_runs d) \<Longrightarrow> sr_pc (db_runs d ! k) = Sending ts ws \<Longrightarrow> j \<in> set ts \<Longrightarrow>
    agent_url env (agent_name_of (db_runs d ! k) j) (db_world d) = (url, w1) \<Longrightarrow>
    dash_step env cleanups d ((update_run k (send_begun ts ws j url now) d)\<lparr>db_world := w1\<rparr>)"
| answer: "k < length (db_runs d) \<Longrightarrow> sr_pc (db_runs d ! k) = Sending ts ws \<Longrightarrow> (j, url) \<in> set ws \<Longrightarrow>
    send_message (de_a2a env) url (aa_prompt (sn_agents (sr_scenario (db_runs d ! k)) ! j)) (db_counter d, db_world d) = (result, n1, w1) \<Longrightarrow>
    dash_step env cleanups d ((update_run k (send_ended ts ws (j, url) result now) d)\<lparr>db_counter := n1, db_world := w1\<rparr>)"
| finish: "k < length (db_runs d) \<Longrightarrow> sr_pc (db_runs d ! k) = Sending [] [] \<Longrightarrow>
    dash_step env cleanups d (update_run k finish_run d)"

inductive dash_reachable :: "'n dash_env \<Rightarrow> bool \<Rightarrow> 'n \<Rightarrow> 'n dashboard \<Rightarrow> bool"
  for env :: "'n dash_env" and cleanups :: bool and w :: 'n where
  new: "dash_reachable env cleanups w (new_dashboard w)"
| step: "dash_reachable env cleanups w d \<Longrightarrow> dash_step env cleanups d d' \<Longrightarrow> dash_reachable env cleanups w d'"

subsection \<open>What a run reports\<close>



lemma update_agent_sel [simp]:
  "sr_key (update_agent i f r) = sr_key r" "sr_scenario (update_agent i f r) = sr_scenario r"
  "sr_phase (update_agent i f r) = sr_phase r" "sr_pc (update_agent i f r) = sr_pc r"
  "length (sr_agents (update_agent i f r)) = length (sr_agents r)"
  "i < length (sr_agents r) \<Longrightarrow> sr_agents (update_agent i f r) ! j = (if j = i then f (sr_agents r ! i) else sr_agents r ! j)"
  by (simp_all add: update_agent_def)













subsection \<open>The invariant of the server\<close>







lemma pc_update [simp]:
  "sr_key (mark_deploying i r) = sr_key r" "sr_key (deployed i err r) = sr_key r" "sr_key (start_waiting r) = sr_key r"
  "sr_key (awaited js j err r) = sr_key r" "sr_key (start_running r) = sr_key r" "sr_key (send_begun ts ws j url now r) = sr_key r"
  "sr_key (send_ended ts ws ju answer now r) = sr_key r" "sr_key (finish_run r) = sr_key r"
  by (simp_all add: mark_deploying_def deployed_def start_waiting_def awaited_def start_running_def send_begun_def send_ended_def
      finish_run_def split: option.split sum.split)



subsection \<open>What the status page shows\<close>


text \<open>With a cleanup in between, two goroutines work on the agents of one scenario.\<close>

lemma cleanup_lets_runs_overlap:
  assumes "map_of (de_scenarios env) name = Some s" "sn_agents s \<noteq> []"
  shows "\<exists>d. dash_reachable env True w d \<and> length (db_runs d) = 2
    \<and> (\<forall>k < 2. sr_key (db_runs d ! k) = name \<and> sr_pc (db_runs d ! k) = Marking 0)"
proof -
  let ?d1 = "snd (handle_run env 0 name (new_dashboard w))"
  let ?d2 = "snd (handle_cleanup env name ?d1)"
  let ?d3 = "snd (handle_run env 1 name ?d2)"
  have "dash_reachable env True w ?d3"
    by (intro dash_reachable.step [OF dash_reachable.step [OF dash_reachable.step [OF dash_reachable.new dash_step.run] dash_step.cleanup] dash_step.run])
      simp
  moreover have d1: "db_runs ?d1 = [new_run name s 0]" "db_states ?d1 = [(name, 0)]"
    using assms by (simp_all add: handle_run_def new_dashboard_def run_blocks_def)
  then have d2: "db_runs ?d2 = [new_run name s 0]" "db_states ?d2 = []"
    using assms by (simp_all add: handle_cleanup_def map_del_def)
  then have "db_runs ?d3 = [new_run name s 0, new_run name s 1]"
    using assms by (simp add: handle_run_def run_blocks_def)
  ultimately show ?thesis
    by (intro exI [of _ ?d3]) (auto simp: less_2_cases_iff new_run_def)
qed



end
