(* ===== verification/Doc_Service.thy ===== *)
theory Doc_Service
  imports Skills Skill_Source Dashboard
begin

section \<open>demo/batch/document-service: the documents of the demo\<close>

text \<open>
  The service reads all JSON files of a directory and serves their documents. Parameters: the text
  of decoding errors, Go quoting, case folding outside ASCII and the order in which a map is ranged over.
  The pattern of the files is read for a directory whose name has no pattern characters.
\<close>

subsection \<open>Loading\<close>

record document =
  dc_id :: string
  dc_title :: string
  dc_sensitivity :: string
  dc_department :: string
  dc_content :: string

definition document_field :: "string \<Rightarrow> json \<Rightarrow> document \<Rightarrow> document option" where
  "document_field k v d =
     (if field_is k ''id'' then string_field v (\<lambda>s d. d\<lparr>dc_id := s\<rparr>) d
      else if field_is k ''title'' then string_field v (\<lambda>s d. d\<lparr>dc_title := s\<rparr>) d
      else if field_is k ''sensitivity'' then string_field v (\<lambda>s d. d\<lparr>dc_sensitivity := s\<rparr>) d
      else if field_is k ''required_department'' then string_field v (\<lambda>s d. d\<lparr>dc_department := s\<rparr>) d
      else if field_is k ''content'' then string_field v (\<lambda>s d. d\<lparr>dc_content := s\<rparr>) d
      else Some d)"

definition decode_documents :: "string \<Rightarrow> document list option" where
  "decode_documents data = Option.bind (json_parse data)
     (struct_list document_field \<lparr>dc_id = [], dc_title = [], dc_sensitivity = [], dc_department = [], dc_content = []\<rparr>)"

definition glob_json :: "fs \<Rightarrow> string \<Rightarrow> string list" where
  "glob_json F dir =
     (case os_read_dir F dir of
        Inl _ \<Rightarrow> []
      | Inr p \<Rightarrow> map (\<lambda>n. path_join [dir, n]) (filter (\<lambda>n. has_suffix n ''.json'') (dir_entries F p)))"

record doc_lib =
  dl_error :: "string \<Rightarrow> string"
  dl_quote :: "string \<Rightarrow> string"
  dl_fold :: "string \<Rightarrow> string \<Rightarrow> bool"

fun add_documents :: "doc_lib \<Rightarrow> string \<Rightarrow> document list \<Rightarrow> (string \<times> document) list \<Rightarrow> string + (string \<times> document) list" where
  "add_documents lib f [] docs = Inr docs"
| "add_documents lib f (d # ds) docs =
     (if map_of docs (dc_id d) \<noteq> None then Inl (''duplicate document ID '' @ dl_quote lib (dc_id d) @ '' in '' @ f)
      else add_documents lib f ds (map_put (dc_id d) d docs))"

fun load_files_into :: "doc_lib \<Rightarrow> fs \<Rightarrow> string list \<Rightarrow> (string \<times> document) list \<Rightarrow> string + (string \<times> document) list" where
  "load_files_into lib F [] docs = Inr docs"
| "load_files_into lib F (f # fs) docs =
     (case os_read_file F f of
        Inl e \<Rightarrow> Inl (''read '' @ f @ '': '' @ path_error_text e)
      | Inr data \<Rightarrow>
          (case decode_documents data of
             None \<Rightarrow> Inl (''parse '' @ f @ '': '' @ dl_error lib data)
           | Some batch \<Rightarrow> bind_res (add_documents lib f batch docs) (load_files_into lib F fs)))"

definition load_documents :: "doc_lib \<Rightarrow> fs \<Rightarrow> string \<Rightarrow> string + (string \<times> document) list" where
  "load_documents lib F dir =
     (let files = glob_json F dir in
      if files = [] then Inl (''no JSON files found in '' @ dir) else load_files_into lib F files [])"

subsection \<open>Serving\<close>

definition doc_health :: http_response where
  "doc_health = \<lparr>rs_status = 200, rs_headers = header_set ''Content-Type'' ''application/json'' [],
     rs_body = ''{'' @ [CHR 0x22] @ ''status'' @ [CHR 0x22] @ '':'' @ [CHR 0x22] @ ''healthy'' @ [CHR 0x22] @ ''}''\<rparr>"

definition document_json :: "document \<Rightarrow> json" where
  "document_json d = str_obj [(''id'', dc_id d), (''title'', dc_title d), (''sensitivity'', dc_sensitivity d),
     (''required_department'', dc_department d), (''content'', dc_content d)]"

definition not_found_body :: "doc_lib \<Rightarrow> string \<Rightarrow> string" where
  "not_found_body lib doc = ''{'' @ [CHR 0x22] @ ''error'' @ [CHR 0x22] @ '':'' @ [CHR 0x22] @ ''document '' @ dl_quote lib doc @ '' not found'' @ [CHR 0x22] @ ''}''"

definition serve_document :: "doc_lib \<Rightarrow> (string \<times> document) list \<Rightarrow> string \<Rightarrow> http_response" where
  "serve_document lib docs doc =
     (case map_of docs doc of
        None \<Rightarrow> http_error (not_found_body lib doc) 404
      | Some d \<Rightarrow> json_response 200 (JObj [(''document'', document_json d)]))"

text \<open>\<open>order\<close> ranges over the map; the list is null when nothing is left.\<close>

definition serve_list :: "doc_lib \<Rightarrow> document list \<Rightarrow> string \<Rightarrow> http_response" where
  "serve_list lib order dept =
     (let left = filter (\<lambda>d. dept = [] \<or> equal_fold (dl_fold lib) (dc_department d) dept) order in
      json_response 200 (JObj [(''documents'', if left = [] then JNull
        else JArr (map (\<lambda>d. str_obj [(''id'', dc_id d), (''title'', dc_title d)]) left))]))"

subsection \<open>Facts\<close>

definition keyed :: "(string \<times> document) list \<Rightarrow> bool" where
  "keyed docs \<longleftrightarrow> distinct (map fst docs) \<and> (\<forall>(k, d) \<in> set docs. dc_id d = k)"

lemma add_documents_keyed:
  "add_documents lib f ds docs = Inr docs1 \<Longrightarrow> keyed docs \<Longrightarrow> keyed docs1 \<and> map snd docs1 = map snd docs @ ds"
proof (induction ds arbitrary: docs)
  case (Cons d ds)
  then have new: "dc_id d \<notin> fst ` set docs" by (auto simp: map_of_eq_None_iff split: if_splits)
  with Cons.prems(2) have "keyed (map_put (dc_id d) d docs)" by (auto simp: keyed_def map_put_new)
  with Cons.IH [of "map_put (dc_id d) d docs"] Cons.prems(1) new show ?case
    by (simp add: map_put_new split: if_splits)
qed simp

text \<open>What is loaded is what the files hold, in order, each document under its own ID.\<close>

lemma load_files_keyed:
  "load_files_into lib F fs docs = Inr docs1 \<Longrightarrow> keyed docs \<Longrightarrow>
   keyed docs1 \<and> (\<exists>batches. map snd docs1 = map snd docs @ concat batches
     \<and> list_all2 (\<lambda>f batch. \<exists>data. os_read_file F f = Inr data \<and> decode_documents data = Some batch) fs batches)"
proof (induction fs arbitrary: docs)
  case Nil
  then show ?case by auto
next
  case (Cons f fs)
  from Cons.prems(1) obtain data batch docs0 where o: "os_read_file F f = Inr data" "decode_documents data = Some batch"
    "add_documents lib f batch docs = Inr docs0" "load_files_into lib F fs docs0 = Inr docs1"
    by (auto simp: bind_res_Inr_iff split: sum.splits option.splits)
  from add_documents_keyed [OF o(3) Cons.prems(2)] have k: "keyed docs0" "map snd docs0 = map snd docs @ batch" by auto
  from Cons.IH [OF o(4) k(1)] obtain batches where "keyed docs1" "map snd docs1 = map snd docs0 @ concat batches"
    "list_all2 (\<lambda>f batch. \<exists>data. os_read_file F f = Inr data \<and> decode_documents data = Some batch) fs batches" by blast
  then show ?case using k o by (intro conjI exI [of _ "batch # batches"]) auto
qed

lemma loaded_document_served:
  assumes "load_documents lib F dir = Inr docs" "d \<in> set (map snd docs)"
  shows "serve_document lib docs (dc_id d) = json_response 200 (JObj [(''document'', document_json d)])"
proof -
  have "keyed docs"
    using assms(1) load_files_keyed [of lib F "glob_json F dir" "[]" docs] by (auto simp: load_documents_def keyed_def Let_def split: if_splits)
  moreover from assms(2) obtain k where "(k, d) \<in> set docs" by auto
  ultimately have "map_of docs (dc_id d) = Some d" by (auto simp: keyed_def)
  then show ?thesis by (simp add: serve_document_def)
qed

text \<open>The answer for an unknown document is no JSON: the quotes of the ID end the string.\<close>

lemma not_found_is_no_json:
  "json_parse (not_found_body \<lparr>dl_error = id, dl_quote = \<lambda>s. [CHR 0x22] @ s @ [CHR 0x22], dl_fold = (=)\<rparr> ''x'') = None"
  by code_simp

end
