(* ===== verification/Batch_Command.thy ===== *)
theory Batch_Command
  imports Batch Bridge Go_Fs
begin

section \<open>internal/cmd/batch.go: the batch command\<close>

text \<open>
  The command around a batch run: the invoker that asks an agent through the A2A client of theory
  Bridge, the workers in any order, and the output file. The state is the file system and the
  world the A2A transport acts on. Each call of an agent is one step; the summary is the text on
  the error output, with the rendering of the duration left out.
\<close>

subsection \<open>Asking the agents\<close>

definition a2a_invoker :: "'w a2a_transport \<Rightarrow> string \<Rightarrow> string \<Rightarrow> 'w \<Rightarrow> (string + string) \<times> 'w" where
  "a2a_invoker tr url msg w =
     (case a2a_invoke tr \<lparr>iv_agent_url = url, iv_document_id = [], iv_message_text = msg, iv_session_id = []\<rparr> w of
        (Inl e, w1) \<Rightarrow> (Inl e, w1)
      | (Inr r, w1) \<Rightarrow> (Inr (iv_text r), w1))"

text \<open>Each worker writes the answer of its agent into its own slot.\<close>

fun ask_agents ::
  "'w a2a_transport \<Rightarrow> (string \<times> string) list \<Rightarrow> nat list \<Rightarrow> (string + string) list \<Rightarrow> 'w \<Rightarrow>
   (string + string) list \<times> 'w" where
  "ask_agents tr jobs [] answers w = (answers, w)"
| "ask_agents tr jobs (i # is) answers w =
     (let (a, w1) = a2a_invoker tr (fst (jobs ! i)) (snd (jobs ! i)) w in
      ask_agents tr jobs is (answers[i := a]) w1)"

definition batch_jobs :: "batch_config \<Rightarrow> string list list \<Rightarrow> (string \<times> string) list" where
  "batch_jobs cfg bs =
     map (\<lambda>i. (bc_agents cfg ! i, batch_message (bc_context_doc cfg) (bs ! i) (bc_prompt cfg))) [0..<length bs]"

definition asked_batch ::
  "'w a2a_transport \<Rightarrow> result_decoder \<Rightarrow> (candidate list \<Rightarrow> candidate list) \<Rightarrow> (nat \<Rightarrow> nat list) \<Rightarrow> batch_config \<Rightarrow> 'w \<Rightarrow>
   (batch_stats \<times> string) option \<times> 'w" where
  "asked_batch tr d sort_slice schedule cfg w =
     (case split_documents (bc_documents cfg) (length (bc_agents cfg)) of
        None \<Rightarrow> (None, w)
      | Some bs \<Rightarrow>
          (let (answers, w1) = ask_agents tr (batch_jobs cfg bs) (schedule (length bs)) (replicate (length bs) (Inl [])) w in
           (run_batch d sort_slice (\<lambda>i _ _. answers ! i) cfg, w1)))"

subsection \<open>runBatchCmd\<close>

record batch_flags =
  bg_agents :: "string list"
  bg_documents :: "string list"
  bg_context_doc :: string
  bg_prompt :: string
  bg_output :: string

definition batch_config_of :: "batch_flags \<Rightarrow> batch_config" where
  "batch_config_of f = \<lparr>bc_agents = bg_agents f, bc_documents = bg_documents f, bc_context_doc = bg_context_doc f,
     bc_prompt = bg_prompt f\<rparr>"

definition batch_summary :: "batch_flags \<Rightarrow> batch_stats \<Rightarrow> string list" where
  "batch_summary f s =
     [[], ''Batch complete.'',
      ''  Documents processed: '' @ itoa (bs_processed s) @ ''/'' @ itoa (int (length (bg_documents f))),
      ''  Agents used:         '' @ itoa (bs_agents s)]
     @ (if bs_failed s > 0 then [''  WARNING: '' @ itoa (bs_failed s) @ '' documents not processed''] else [])"

datatype batch_outcome =
    BatchPanic
  | BatchError string
  | BatchDone "string list" string

text \<open>
  The third component of \<open>BatchDone\<close> is what is printed on the standard output. The output file is
  created (or emptied) before any agent is asked.
\<close>

definition run_batch_cmd ::
  "'w a2a_transport \<Rightarrow> result_decoder \<Rightarrow> (candidate list \<Rightarrow> candidate list) \<Rightarrow> (nat \<Rightarrow> nat list) \<Rightarrow> batch_flags \<Rightarrow>
   fs \<times> 'w \<Rightarrow> batch_outcome \<times> fs \<times> 'w" where
  "run_batch_cmd tr d sort_slice schedule f Fw =
     (let (F, w) = Fw;
          opened = (if bg_output f \<noteq> [] then
              map_sum path_error_text (\<lambda>(p, F1). (Some p, put_node p (FileNode []) F1)) (open_create F (bg_output f))
            else Inr (None, F)) in
      case opened of
        Inl e \<Rightarrow> (BatchError (''failed to create output file: '' @ e), Fw)
      | Inr (target, F1) \<Rightarrow>
          (case asked_batch tr d sort_slice schedule (batch_config_of f) w of
             (None, w1) \<Rightarrow> (BatchPanic, F1, w1)
           | (Some (stats, report), w1) \<Rightarrow>
               (case target of
                  None \<Rightarrow> (BatchDone (batch_summary f stats) report, F1, w1)
                | Some p \<Rightarrow> (BatchDone (batch_summary f stats) [], put_node p (FileNode report) F1, w1))))"

subsection \<open>Each agent is asked once\<close>

text \<open>The transport that also notes each message it is given to send.\<close>

definition noting :: "'w a2a_transport \<Rightarrow> ('w \<times> a2a_call list) a2a_transport" where
  "noting tr = \<lparr>at_connect = at_connect tr,
     at_send = (\<lambda>call (w, sent). case at_send tr call w of (r, w1) \<Rightarrow> (r, (w1, sent @ [call]))),
     at_trace = at_trace tr, at_failed = at_failed tr, at_rejected = at_rejected tr\<rparr>"

definition job_call :: "'w a2a_transport \<Rightarrow> string \<times> string \<Rightarrow> a2a_call" where
  "job_call tr j = \<lparr>ac_url = fst j, ac_content = TextContent (snd j), ac_params = at_trace tr\<rparr>"

lemma noting_fields [simp]:
  "at_connect (noting tr) = at_connect tr" "at_trace (noting tr) = at_trace tr"
  "at_failed (noting tr) = at_failed tr" "at_rejected (noting tr) = at_rejected tr"
  "at_send (noting tr) call (w, sent) = (case at_send tr call w of (r, w1) \<Rightarrow> (r, (w1, sent @ [call])))"
  by (simp_all add: noting_def)

lemma noting_parses [simp]: "parse_result (noting tr) r = parse_result tr r"
  by (simp add: parse_result_def parse_task_def split: send_result.splits)

lemma noting_invoke:
  assumes "msg \<noteq> []"
  shows "a2a_invoker (noting tr) url msg (w, sent) =
    (case a2a_invoker tr url msg w of (a, w1) \<Rightarrow>
       (a, (w1, if at_connect tr url = None then sent @ [job_call tr (url, msg)] else sent)))"
proof (cases "at_connect tr url")
  case None
  obtain r w1 where "at_send tr (job_call tr (url, msg)) w = (r, w1)" by force
  moreover have "a2a_call_of (noting tr) \<lparr>iv_agent_url = url, iv_document_id = [], iv_message_text = msg, iv_session_id = []\<rparr>
      = job_call tr (url, msg)"
    "a2a_call_of tr \<lparr>iv_agent_url = url, iv_document_id = [], iv_message_text = msg, iv_session_id = []\<rparr>
      = job_call tr (url, msg)"
    using assms by (simp_all add: a2a_call_of_def job_call_def)
  ultimately show ?thesis
    using None by (auto simp: a2a_invoker_def a2a_invoke_def split: sum.splits)
qed (simp add: a2a_invoker_def a2a_invoke_def)

lemma noted_jobs:
  assumes "\<forall>i \<in> set order. snd (jobs ! i) \<noteq> []"
  shows "ask_agents (noting tr) jobs order answers (w, sent) =
    (case ask_agents tr jobs order answers w of (as, w1) \<Rightarrow>
       (as, (w1, sent @ map (job_call tr) (filter (\<lambda>j. at_connect tr (fst j) = None) (map ((!) jobs) order)))))"
  using assms
proof (induction order arbitrary: answers w sent)
  case (Cons i order)
  obtain a w1 where "a2a_invoker tr (fst (jobs ! i)) (snd (jobs ! i)) w = (a, w1)" by force
  then show ?case
    using Cons by (auto simp: noting_invoke split: prod.splits)
qed simp

lemma batch_message_not_Nil: "batch_message c ds p \<noteq> []"
  by (simp add: batch_message_def)

lemma batch_jobs_nth:
  "i < length bs \<Longrightarrow> batch_jobs cfg bs ! i = (bc_agents cfg ! i, batch_message (bc_context_doc cfg) (bs ! i) (bc_prompt cfg))"
  "length (batch_jobs cfg bs) = length bs"
  by (simp_all add: batch_jobs_def)

text \<open>
  In any order of the workers the messages sent are one for each batch whose agent can be
  connected to, to that agent and with the documents of that batch.
\<close>

lemma batch_asks_once:
  assumes "split_documents (bc_documents cfg) (length (bc_agents cfg)) = Some bs"
    "mset (schedule (length bs)) = mset [0..<length bs]" "\<forall>u \<in> set (bc_agents cfg). at_connect tr u = None"
    "length bs \<le> length (bc_agents cfg)"
  shows "mset (snd (snd (asked_batch (noting tr) d sort_slice schedule cfg (w, [])))) = mset (map (job_call tr) (batch_jobs cfg bs))"
proof -
  let ?order = "schedule (length bs)" and ?jobs = "batch_jobs cfg bs"
  have s: "set ?order = {0..<length bs}" using mset_eq_setD [OF assms(2)] by simp
  have ne: "\<forall>i \<in> set ?order. snd (?jobs ! i) \<noteq> []" using s by (simp add: batch_jobs_nth batch_message_not_Nil)
  have "at_connect tr (fst j) = None" if "j \<in> set (map ((!) ?jobs) ?order)" for j
    using that s assms(3,4) by (auto simp: batch_jobs_nth)
  then have "filter (\<lambda>j. at_connect tr (fst j) = None) (map ((!) ?jobs) ?order) = map ((!) ?jobs) ?order"
    by (rule filter_True [rule_format]) simp
  then have "snd (snd (asked_batch (noting tr) d sort_slice schedule cfg (w, []))) = map (job_call tr) (map ((!) ?jobs) ?order)"
    unfolding asked_batch_def assms(1) by (simp add: noted_jobs [OF ne] split: prod.splits)
  moreover have "mset (map ((!) ?jobs) ?order) = mset ?jobs"
    using arg_cong [OF assms(2), of "image_mset ((!) ?jobs)"] map_nth [of ?jobs] by (simp only: mset_map batch_jobs_nth(2)) (metis mset_map batch_jobs_nth(2))
  ultimately show ?thesis by (simp only: mset_map)
qed

subsection \<open>The output file\<close>

text \<open>
  If the output file cannot be created no agent is asked; otherwise it holds in the end exactly the
  report of the answers, empty when no agent gave a result, and nothing else changes.
\<close>

lemma batch_command_writes:
  assumes "bg_output f \<noteq> []"
  shows "case open_create F (bg_output f) of
      Inl e \<Rightarrow> run_batch_cmd tr d sort_slice schedule f (F, w)
        = (BatchError (''failed to create output file: '' @ path_error_text e), F, w)
    | Inr (p, F1) \<Rightarrow>
        (case asked_batch tr d sort_slice schedule (batch_config_of f) w of
           (None, w1) \<Rightarrow> run_batch_cmd tr d sort_slice schedule f (F, w) = (BatchPanic, put_node p (FileNode []) F1, w1)
         | (Some (stats, report), w1) \<Rightarrow> run_batch_cmd tr d sort_slice schedule f (F, w)
             = (BatchDone (batch_summary f stats) [], put_node p (FileNode report) F1, w1))"
  using assms by (auto simp: run_batch_cmd_def put_node_def split: sum.splits option.splits)

text \<open>With documents and no agents (an empty value of the flag) the command panics, the file already emptied.\<close>

lemma batch_without_agents_panics:
  "bg_agents f = [] \<Longrightarrow> bg_documents f \<noteq> [] \<Longrightarrow> bg_output f = []
   \<Longrightarrow> run_batch_cmd tr d sort_slice schedule f (F, w) = (BatchPanic, F, w)"
  by (simp add: run_batch_cmd_def asked_batch_def batch_config_of_def split_documents_def Let_def)

end
