(* ===== verification/Command_Line.thy ===== *)
theory Command_Line
  imports Settings
begin

section \<open>The flags of the commands and the settings they are bound to\<close>

text \<open>
  The flags \<open>internal/config\<close> and \<open>internal/cmd\<close> declare and the keys of viper they are bound to.
  viper keeps for each key the flag it was bound to last; what it makes of a bound flag is its own.
\<close>

datatype flag_value = FlagText string | FlagInt int | FlagBool bool | FlagList "string list" | FlagDuration int

definition common_flags :: "(string \<times> flag_value) list" where
  "common_flags =
     [(''port'', FlagInt 0), (''host'', FlagText []), (''listen-plain-http'', FlagBool True), (''log-level'', FlagText ''info''),
      (''otel-enabled'', FlagBool False), (''otel-collector-endpoint'', FlagText []), (''otel-stdout'', FlagBool False)]"

definition common_bindings :: "(string \<times> string) list" where
  "common_bindings =
     [(''service.port'', ''port''), (''service.host'', ''host''), (''service.listen_plain_http'', ''listen-plain-http''),
      (''service.log_level'', ''log-level''), (''otel.enabled'', ''otel-enabled''),
      (''otel.collector_endpoint'', ''otel-collector-endpoint''), (''otel.stdout_exporter'', ''otel-stdout'')]"

definition root_flags :: "(string \<times> flag_value) list" where
  "root_flags = (''config'', FlagText []) # common_flags"

definition agent_flags :: "(string \<times> flag_value) list" where
  "agent_flags =
     [(''config-dir'', FlagText ''/config/agent''), (''skills-dir'', FlagText []), (''llm-provider'', FlagText []),
      (''llm-api-key'', FlagText []), (''llm-base-url'', FlagText []), (''llm-model'', FlagText []),
      (''llm-max-tokens'', FlagInt 4096), (''llm-timeout'', FlagInt 45), (''workspace'', FlagText []),
      (''workspace-profile'', FlagText ''docsclaw''), (''session-db'', FlagText [])]"

definition agent_bindings :: "(string \<times> string) list" where
  "agent_bindings =
     [(''config_dir'', ''config-dir''), (''workspace'', ''workspace''), (''workspace_profile'', ''workspace-profile''),
      (''skills_dir'', ''skills-dir''), (''llm.provider'', ''llm-provider''), (''llm.api_key'', ''llm-api-key''),
      (''llm.base_url'', ''llm-base-url''), (''llm.model'', ''llm-model''), (''llm.max_tokens'', ''llm-max-tokens''),
      (''llm.timeout_seconds'', ''llm-timeout''), (''session_db'', ''session-db'')]"

definition ask_flags :: "(string \<times> flag_value) list" where
  "ask_flags = agent_flags @ [(''trace'', FlagBool False)]"

definition batch_cmd_flags :: "(string \<times> flag_value) list" where
  "batch_cmd_flags =
     [(''agents'', FlagList []), (''documents'', FlagList []), (''context-doc'', FlagText []), (''prompt'', FlagText []),
      (''output'', FlagText []), (''timeout'', FlagDuration (10 * 60 * 10 ^ 9))]"

definition build_cmd_flags :: "(string \<times> flag_value) list" where
  "build_cmd_flags =
     [(''manifest'', FlagText []), (''output'', FlagText []), (''only'', FlagText []), (''dry-run'', FlagBool False),
      (''catalog'', FlagText []), (''max-risk'', FlagInt 0)]"

definition deploy_cmd_flags :: "(string \<times> flag_value) list" where
  "deploy_cmd_flags = [(''manifest'', FlagText []), (''secret'', FlagList []), (''output'', FlagText [])]"

text \<open>The variable \<open>AutomaticEnv\<close> looks a key up in: the prefix, and the key with dots and dashes as underscores, in capitals.\<close>

definition ascii_upper :: "char \<Rightarrow> char" where
  "ascii_upper c = (let n = of_char c :: nat in if 97 \<le> n \<and> n \<le> 122 then char_of (n - 32) else c)"

definition env_variable :: "string \<Rightarrow> string" where
  "env_variable key = map (\<lambda>c. ascii_upper (if c = CHR ''.'' \<or> c = CHR ''-'' then CHR ''_'' else c)) (''DOCSCLAW_'' @ key)"

subsection \<open>The flag a key is bound to\<close>

datatype command = RootCommand | ServeCommand | AskCommand

definition bind_flags :: "command \<Rightarrow> (string \<times> string) list \<Rightarrow> (string \<times> command \<times> string) list \<Rightarrow> (string \<times> command \<times> string) list" where
  "bind_flags c bs m = fold (\<lambda>(key, flag). map_put key (c, flag)) bs m"

text \<open>At start the flags of the root and of \<open>serve\<close> are bound; \<open>ask\<close> binds its own when it runs.\<close>

definition bindings_at_start :: "(string \<times> command \<times> string) list" where
  "bindings_at_start = bind_flags ServeCommand agent_bindings (bind_flags RootCommand common_bindings [])"

definition bindings_of :: "command \<Rightarrow> (string \<times> command \<times> string) list" where
  "bindings_of c = (if c = AskCommand then bind_flags AskCommand agent_bindings bindings_at_start else bindings_at_start)"

definition flags_of :: "command \<Rightarrow> (string \<times> flag_value) list" where
  "flags_of c = (case c of RootCommand \<Rightarrow> root_flags | ServeCommand \<Rightarrow> agent_flags | AskCommand \<Rightarrow> ask_flags)"

text \<open>
  Each key is bound to a flag that exists, of the root or of the command that runs and of no other, and
  a command and the root share no flag.
\<close>

lemma bound_flags_exist:
  "c \<in> {ServeCommand, AskCommand} \<Longrightarrow>
    list_all (\<lambda>(key, owner, flag). owner \<in> {RootCommand, c} \<and> map_of (flags_of owner) flag \<noteq> None) (bindings_of c)
    \<and> distinct (map fst (bindings_of c)) \<and> distinct (map fst (root_flags @ flags_of c))"
  by (elim insertE emptyE; hypsubst) code_simp+

lemma ask_and_serve_keys: "map fst (bindings_of AskCommand) = map fst (bindings_of ServeCommand)"
  by code_simp

lemma session_db_variable: "env_variable ''session_db'' = ''DOCSCLAW_SESSION_DB''"
  by code_simp

end
