(* ===== verification/Prompts.thy ===== *)
theory Prompts
  imports Go_Prelude
begin

section \<open>pkg/llm/prompts.go: the prompts of the summarizer and reviewer agents\<close>

text \<open>
  The system prompts of the first agents and the functions that wrap a document into a request.
  The program no longer calls them.
\<close>

definition summarizer_system_prompt :: string where
  "summarizer_system_prompt = str_join nl
     [''You are a document summarizer agent specialized in analyzing and summarizing documents.'',
      [],
      ''Your task is to:'',
      ''1. Read the provided document carefully'',
      ''2. Create a clear, concise summary that captures the key points'',
      ''3. Highlight any important figures, dates, or decisions'',
      ''4. Format your response in markdown'',
      [],
      ''Guidelines:'',
      ''- Keep summaries concise but comprehensive (aim for 3-5 paragraphs)'',
      ''- Use bullet points for key takeaways'',
      ''- Preserve any critical numerical data'',
      ''- Maintain professional tone'',
      ''- Do not add information not present in the original document'']"

definition reviewer_system_prompt :: string where
  "reviewer_system_prompt = str_join nl
     [''You are a document reviewer agent specialized in analyzing documents for compliance, security, and general quality.'',
      [],
      ''Your task is to:'',
      ''1. Thoroughly analyze the provided document'',
      ''2. Identify potential issues, risks, or areas of concern'',
      ''3. Assess compliance with organizational policies'',
      ''4. Provide actionable recommendations'',
      [],
      ''Guidelines:'',
      ''- Be thorough but practical in your analysis'',
      ''- Categorize issues by severity (Critical, High, Medium, Low)'',
      ''- Provide specific recommendations for each issue'',
      ''- Format your response in markdown with clear sections'',
      ''- Include a summary section at the end with overall assessment'']"

definition reviewer_compliance_prompt :: string where
  "reviewer_compliance_prompt = str_join nl
     [''You are a compliance review agent specialized in analyzing documents for regulatory and policy compliance.'',
      [],
      ''Your task is to:'',
      ''1. Analyze the document for compliance issues'',
      ''2. Check against common regulatory frameworks (GDPR, SOC2, ISO 27001 principles)'',
      ''3. Identify any policy violations or gaps'',
      ''4. Provide specific remediation steps'',
      [],
      ''Format your response in markdown with:'',
      ''- Executive Summary'',
      ''- Compliance Findings (with severity levels)'',
      ''- Specific Violations'',
      ''- Remediation Recommendations'',
      ''- Overall Compliance Score (1-10)'']"

definition reviewer_security_prompt :: string where
  "reviewer_security_prompt = str_join nl
     [''You are a security review agent specialized in analyzing documents for security risks.'',
      [],
      ''Your task is to:'',
      ''1. Identify any security-sensitive information'',
      ''2. Check for potential data leakage risks'',
      ''3. Assess access control implications'',
      ''4. Identify any security policy violations'',
      [],
      ''Format your response in markdown with:'',
      ''- Security Risk Summary'',
      ''- Sensitive Data Identified'',
      ''- Access Control Concerns'',
      ''- Security Recommendations'',
      ''- Risk Level Assessment (Critical/High/Medium/Low)'']"

definition get_reviewer_prompt :: "string \<Rightarrow> string" where
  "get_reviewer_prompt review_type =
     (if review_type = ''compliance'' then reviewer_compliance_prompt
      else if review_type = ''security'' then reviewer_security_prompt
      else reviewer_system_prompt)"

definition format_summary_request :: "string \<Rightarrow> string \<Rightarrow> string" where
  "format_summary_request title content =
     ''Please summarize the following document:'' @ nl @ nl @ ''**Title:** '' @ title @ nl @ nl @ ''**Content:**'' @ nl @ content"

definition format_review_request :: "string \<Rightarrow> string \<Rightarrow> string \<Rightarrow> string" where
  "format_review_request title content review_type =
     ''Please perform a '' @ (if review_type \<noteq> [] then review_type else ''general'') @ '' review of the following document:'' @ nl @ nl
     @ ''**Title:** '' @ title @ nl @ nl @ ''**Content:**'' @ nl @ content"

text \<open>
  The content comes last and is not delimited: nothing tells a document that repeats the headings
  from a title that contains them.
\<close>

lemma requests_ambiguous:
  "format_summary_request (t @ nl @ nl @ ''**Content:**'' @ nl @ c) d = format_summary_request t (c @ nl @ nl @ ''**Content:**'' @ nl @ d)"
  by (simp add: format_summary_request_def)

text \<open>Requests of one title tell the contents apart.\<close>

lemma request_keeps_content:
  "format_review_request title c1 ty = format_review_request title c2 ty \<longleftrightarrow> c1 = c2"
  by (simp add: format_review_request_def)

end
