(* ===== verification/Agent_Safety.thy ===== *)
theory Agent_Safety
  imports Runtime Workspace_Safety
begin

section \<open>What a configured agent can change\<close>

text \<open>
  The runtime put together from its configuration (Runtime), its tools (Web_Tools, A2A_Call,
  Rag_Search, Memory_Store, Skills), the loop (Tool_Loop) and the workspace check
  (Workspace_Safety): an agent whose allow list leaves out exec and that has no MCP server changes
  no file outside its workspace. What lies outside the program (the network, the A2A library, the
  provider, the hook) is assumed to leave the files alone.
\<close>

subsection \<open>Calls that leave a view of the world alone\<close>

definition keeps_view :: "('w \<Rightarrow> 'v) \<Rightarrow> ('w \<Rightarrow> 'r \<times> 'w) \<Rightarrow> bool" where
  "keeps_view view f \<longleftrightarrow> (\<forall>w. view (snd (f w)) = view w)"

definition quiet_web :: "('w \<Rightarrow> 'v) \<Rightarrow> 'w web_env \<Rightarrow> bool" where
  "quiet_web view env \<longleftrightarrow> (\<forall>c. keeps_view view (we_send env c))"

definition quiet_a2a :: "('w \<Rightarrow> 'v) \<Rightarrow> 'w a2a_env \<Rightarrow> bool" where
  "quiet_a2a view env \<longleftrightarrow> quiet_web view (ae_web env) \<and> (\<forall>c. keeps_view view (ae_send env c))"

definition quiet_rag :: "('w \<Rightarrow> 'v) \<Rightarrow> 'w rag_env \<Rightarrow> bool" where
  "quiet_rag view env \<longleftrightarrow> (\<forall>u h b. keeps_view view (rv_post env u h b))"

definition quiet_hook :: "('w \<Rightarrow> 'v) \<Rightarrow> 'w tool_hook option \<Rightarrow> bool" where
  "quiet_hook view hook \<longleftrightarrow>
     (\<forall>h n a. hook = Some h \<longrightarrow> keeps_view view (before_tool_call h n a) \<and> (\<forall>r w. view (after_tool_call h n a r w) = view w))"

lemma keeps_viewD: "keeps_view view f \<Longrightarrow> f w = (r, w1) \<Longrightarrow> view w1 = view w"
  by (metis keeps_view_def snd_conv)

lemma http_do_view: "quiet_web view env \<Longrightarrow> http_do env check limit many hs via u w = (r, w1) \<Longrightarrow> view w1 = view w"
proof (induction "limit - via" arbitrary: via u w rule: less_induct)
  case less
  obtain a v where s: "we_send env \<lparr>hc_method = ''GET'', hc_url = u, hc_headers = hs\<rparr> w = (a, v)" by force
  have v: "view v = view w" using less.prems(1) s keeps_viewD by (fastforce simp: quiet_web_def)
  have "view w1 = view v" if "http_do env check limit many hs (Suc via) u1 v = (r, w1)" "Suc via < limit" for u1
    using less.hyps [OF _ less.prems(1) that(1)] that(2) by simp
  with less.prems(2) have "w1 = v \<or> view w1 = view v"
    by (subst (asm) http_do.simps)
      (auto simp: s not_le split: http_result.splits option.splits sum.splits if_splits)
  then show ?case using v by auto
qed

lemma web_fetch_view: "quiet_web view env \<Longrightarrow> web_fetch_execute env hosts a w = (r, w1) \<Longrightarrow> view w1 = view w"
  by (auto simp: web_fetch_execute_def Let_def split: if_splits option.splits prod.splits sum.splits dest: http_do_view)

lemma fetch_document_view:
  "quiet_web view env \<Longrightarrow> fetch_document_execute env de services a w = (r, w1) \<Longrightarrow> view w1 = view w"
  by (auto simp: fetch_document_execute_def Let_def split: if_splits option.splits prod.splits sum.splits dest: http_do_view)

lemma rag_search_view: "quiet_rag view env \<Longrightarrow> rag_search_execute env v cfg a w = (r, w1) \<Longrightarrow> view w1 = view w"
  by (auto simp: rag_search_execute_def weaviate_search_def quiet_rag_def Let_def
      split: if_splits option.splits prod.splits sum.splits dest: keeps_viewD)

lemma verify_card_view: "quiet_web view env \<Longrightarrow> verify_card lib env url key w = (r, w1) \<Longrightarrow> view w1 = view w"
  by (auto simp: verify_card_def fetch_card_def Let_def split: if_splits option.splits prod.splits sum.splits dest: http_do_view)

lemma call_peer_view: "quiet_a2a view env \<Longrightarrow> call_peer env p m w = (r, w1) \<Longrightarrow> view w1 = view w"
  by (auto simp: call_peer_def a2a_invoke_def capturing_def quiet_a2a_def Let_def
      split: if_splits option.splits prod.splits sum.splits dest: keeps_viewD)

lemma a2a_call_view:
  assumes "quiet_a2a view env" "a2a_call_execute lib env peers a (w, verified) = (r, w1, verified1)"
  shows "view w1 = view w"
proof -
  have web: "quiet_web view (ae_web env)" using assms(1) by (simp add: quiet_a2a_def)
  have "view v = view w" if "ensure_card lib env p (w, verified) = (e, v, vs)" for p e v vs
    using that by (auto simp: ensure_card_def split: if_splits option.splits prod.splits dest: verify_card_view [OF web])
  with assms(2) show ?thesis
    by (auto simp: a2a_call_execute_def Let_def split: if_splits option.splits prod.splits dest!: call_peer_view [OF assms(1)])
qed

subsection \<open>Each tool on its own\<close>

lemma memory_path_elems:
  assumes "fs_wf F" "ws \<noteq> []"
  shows "abs_elems F (path_join [ws, ''MEMORY.md'']) = abs_elems F ws @ [''MEMORY.md'']"
proof -
  have "path_join [ws, ''MEMORY.md''] = path_clean (ws @ ''/MEMORY.md'')" using assms(2) by (simp add: path_join_def)
  moreover have "start_dir F (ws @ ''/MEMORY.md'') = start_dir F ws"
    using assms(2) by (cases ws) (simp_all add: start_dir_def is_abs_def has_prefix_def)
  moreover have "split_on (CHR ''/'') (ws @ ''/MEMORY.md'') = split_on (CHR ''/'') ws @ [''MEMORY.md'']"
    by (simp add: split_on_append_sep)
  ultimately show ?thesis
    by (simp add: abs_elems_clean [OF assms(1)]) (simp add: abs_elems_def clean_elems_append dot_def dotdot_def)
qed

lemma memory_remember_below:
  assumes "fs_wf F" "no_links F" "abs_elems F ws = d" "d \<noteq> []" "ws \<noteq> []" "node_at F d = Some DirNode"
  shows "changed_below d F (snd (memory_remember (path_join [ws, ''MEMORY.md'']) now e F))"
proof -
  let ?p = "path_join [ws, ''MEMORY.md'']"
  have refl: "changed_below d F F" using assms(1,2) by (rule changed_below_refl)
  have r: "abs_elems F ?p = d @ [''MEMORY.md'']" using memory_path_elems [OF assms(1,5)] assms(3) by simp
  obtain q where q: "path_dir ?p = path_clean q" "(\<exists>r. abs_elems F q = d @ r) \<or> (\<exists>x. d = abs_elems F q @ [x])"
    by (rule dir_elems [OF assms(1) r assms(4)])
  obtain err F1 where mk: "mkdir_all F (path_dir ?p) = (err, F1)" by fastforce
  have F1: "changed_below d F F1" using mkdir_all_clean_below [OF assms(1,2,6) q(2)] mk q(1) by simp
  then have f1: "fs_wf F1" "no_links F1" "fs_cwd F1 = fs_cwd F" by (simp_all add: changed_below_def)
  have "changed_below d F1 (put_node p (FileNode c) F2)" if "open_create F1 ?p = Inr (p, F2)" for p F2 c
    using os_write_below [OF f1(1,2), of ?p c] r abs_elems_cwd [OF f1(3)] that by (simp add: os_write_file_def bind_res_def)
  then show ?thesis
    using refl F1 changed_below_trans [OF F1] by (auto simp: memory_remember_def Let_def mk split: option.splits sum.splits)
qed

text \<open>The state of the files between two calls: only what is below \<open>d\<close> has changed since \<open>F\<close>.\<close>

definition kept_files :: "string list \<Rightarrow> fs \<Rightarrow> 'n world \<Rightarrow> bool" where
  "kept_files d F w \<longleftrightarrow> changed_below d F (wo_fs w)"

lemma kept_view: "wo_fs w1 = wo_fs w \<Longrightarrow> kept_files d F w \<Longrightarrow> kept_files d F w1"
  by (simp add: kept_files_def)

text \<open>The parameters of a runtime that reach outside leave the files alone.\<close>

definition quiet_host :: "('k, 's, 'n) host \<Rightarrow> bool" where
  "quiet_host h \<longleftrightarrow> quiet_web wo_fs (hs_web h) \<and> quiet_a2a wo_fs (hs_a2a h) \<and> quiet_rag wo_fs (hs_rag h)"

lemma fs_tool_kept:
  assumes "kept_files d F w" "\<And>G. changed_below d F G \<Longrightarrow> changed_below d F (snd (f a G))"
  shows "kept_files d F (snd (on_fs f a w))"
  using assms(1) assms(2) [of "wo_fs w"] by (cases "f a (wo_fs w)") (simp add: on_fs_def kept_files_def)

lemma below_in:
  assumes "changed_below d F G" "node_at F d = Some DirNode" "abs_elems F ws = d"
  shows "fs_wf G" "no_links G" "node_at G d = Some DirNode" "abs_elems G ws = d"
proof -
  have G: "fs_wf G \<and> no_links G \<and> fs_cwd G = fs_cwd F \<and> node_at G d = Some DirNode"
    using assms(1,2) by (auto simp: changed_below_def)
  then show "fs_wf G" "no_links G" "node_at G d = Some DirNode" "abs_elems G ws = d"
    using abs_elems_cwd [of G F ws] assms(3) by simp_all
qed

lemma tool_executes:
  "t_execute (fs_tool (read_file_tool ws)) = on_fs (read_file_execute ws)"
  "t_execute (fs_tool (write_file_tool ws)) = on_fs (write_file_execute ws)"
  "t_execute (remember_runtime_tool h ws) =
     (\<lambda>a w. on_fs (remember_execute (new_file_store (path_join [ws, ''MEMORY.md''])) (hs_clock h w)) a w)"
  "t_execute (web_fetch_tool env hosts) = web_fetch_execute env hosts"
  "t_execute (fetch_document_tool env de ds) = fetch_document_execute env de ds"
  "t_execute (load_skill_tool h dir) = (\<lambda>a w. (load_skill_execute (quote_of h) dir a (wo_fs w), w))"
  "t_execute (rag_search_tool re v rc) = rag_search_execute re v rc"
  "t_execute (a2a_runtime_tool h peers) = (\<lambda>a w.
     let (r, w1, verified) = a2a_call_execute (hs_cards h) (hs_a2a h) peers a (w, wo_verified w) in (r, w1\<lparr>wo_verified := verified\<rparr>))"
  by (simp_all add: fs_tool_def with_execute_def read_file_tool_def write_file_tool_def remember_runtime_tool_def
      web_fetch_tool_def fetch_document_tool_def load_skill_tool_def rag_search_tool_def a2a_runtime_tool_def a2a_call_tool_def Let_def)

lemma early_tool_kept:
  assumes "t \<in> set (early_tools h ws a)" "t_name t \<noteq> ''exec''" "quiet_host h" "kept_files d F w"
    "node_at F d = Some DirNode" "abs_elems F ws = d" "d \<noteq> []" "ws \<noteq> []"
  shows "kept_files d F (snd (t_execute t args w))"
proof -
  have fs: "kept_files d F (snd (on_fs f args w))"
    if "\<And>H. fs_wf H \<Longrightarrow> no_links H \<Longrightarrow> abs_elems H ws = d \<Longrightarrow> node_at H d = Some DirNode \<Longrightarrow> changed_below d H (snd (f args H))"
    for f :: "args \<Rightarrow> fs \<Rightarrow> tool_result \<times> fs"
  proof (rule fs_tool_kept [OF assms(4)])
    fix G assume G: "changed_below d F G"
    from changed_below_trans [OF G that [OF below_in(1,2,4,3) [OF G assms(5,6)]]]
    show "changed_below d F (snd (f args G))" .
  qed
  have remember: "changed_below d H (snd (remember_execute (new_file_store (path_join [ws, ''MEMORY.md''])) now args H))"
    if "fs_wf H" "no_links H" "abs_elems H ws = d" "node_at H d = Some DirNode" for now H
    using memory_remember_below [OF that(1-3) assms(7,8) that(4), of now "str_or_empty ''entry'' args"] changed_below_refl [OF that(1,2), of d]
    by (auto simp: remember_execute_def new_file_store_def Let_def split: prod.splits option.splits)
  have wrt: "changed_below d H (snd (write_file_execute ws args H))"
    if "fs_wf H" "no_links H" "abs_elems H ws = d" "node_at H d = Some DirNode" for H
    using write_execute_below [OF that(1-3) assms(7,8) that(4)] .
  have read: "changed_below d H (snd (read_file_execute ws args H))" if "fs_wf H" "no_links H" for H
    using changed_below_refl [OF that] by simp
  have web: "quiet_web wo_fs (hs_web h)" using assms(3) by (simp add: quiet_host_def)
  obtain r w1 where f: "web_fetch_execute (hs_web h) (ag_allowed_hosts a) args w = (r, w1)" by force
  note fetch = kept_view [OF web_fetch_view [OF web f] assms(4)]
  from assms(1) consider "t = exec_runtime_tool h (ag_exec a)" | "t = web_fetch_tool (hs_web h) (ag_allowed_hosts a)"
    | "t = fs_tool (read_file_tool ws)" | "t = fs_tool (write_file_tool ws)" | "t = remember_runtime_tool h ws"
    unfolding early_tools_def by (simp only: set_simps insert_iff empty_iff) blast
  then show ?thesis
  proof cases
    case 1
    with assms(2) show ?thesis by simp
  next
    case 2
    with f fetch show ?thesis by (simp only: tool_executes snd_conv)
  next
    case 3
    then show ?thesis using fs [of "read_file_execute ws"] read by (simp only: tool_executes)
  next
    case 4
    then show ?thesis using fs [of "write_file_execute ws"] wrt by (simp only: tool_executes)
  next
    case 5
    then show ?thesis
      using fs [of "remember_execute (new_file_store (path_join [ws, ''MEMORY.md''])) (hs_clock h w)"] remember
      by (simp only: tool_executes)
  qed
qed

lemma late_tool_kept:
  assumes "(b, t) \<in> set (late_tools h a dir found)" "quiet_host h" "kept_files d F w"
  shows "kept_files d F (snd (t_execute t args w))"
proof -
  have q: "quiet_web wo_fs (hs_web h)" "quiet_a2a wo_fs (hs_a2a h)" using assms(2) by (simp_all add: quiet_host_def)
  obtain r1 w1 where d: "fetch_document_execute (hs_web h) (hs_decode_error h) (ag_documents a) args w = (r1, w1)" by force
  obtain r2 w2 vs where p: "a2a_call_execute (hs_cards h) (hs_a2a h) (map to_peer (ag_peers a)) args (w, wo_verified w) = (r2, w2, vs)"
    by (metis prod.exhaust)
  have kept: "kept_files d F w1" "kept_files d F (w2\<lparr>wo_verified := vs\<rparr>)"
    using kept_view [OF fetch_document_view [OF q(1) d] assms(3)] kept_view [OF a2a_call_view [OF q(2) p] assms(3)]
    by (simp_all add: kept_files_def)
  consider (doc) "t = fetch_document_tool (hs_web h) (hs_decode_error h) (ag_documents a)"
    | (peer) "t = a2a_runtime_tool h (map to_peer (ag_peers a))" | (skill) "t = load_skill_tool h dir"
    using assms(1) unfolding late_tools_def by (auto split: if_splits)
  then show ?thesis
  proof cases
    case doc
    then show ?thesis using d kept(1) by (simp add: tool_executes)
  next
    case peer
    then show ?thesis using p kept(2) by (simp add: tool_executes)
  next
    case skill
    then show ?thesis using assms(3) by (simp add: tool_executes)
  qed
qed

lemma rag_tool_kept:
  "quiet_host h \<Longrightarrow> kept_files d F w \<Longrightarrow> kept_files d F (snd (t_execute (rag_search_tool (hs_rag h) v rc) args w))"
  by (cases "rag_search_execute (hs_rag h) v rc args w")
    (auto simp: tool_executes quiet_host_def dest: rag_search_view intro: kept_view)

subsection \<open>The agent as a whole\<close>

definition quiet_provider :: "'n world llm_provider \<Rightarrow> bool" where
  "quiet_provider p \<longleftrightarrow> (\<forall>ms ds. keeps_view wo_fs (complete_with_tools (pv_env (lp_api p)) ms ds))
     \<and> (\<forall>s u. keeps_view wo_fs (lp_complete p s u))"

text \<open>Conversations answered one after the other.\<close>

fun agent_runs ::
  "('k, 's, 'n) host \<Rightarrow> ('k, 's, 'n) agent_runtime \<Rightarrow> 'n world tool_hook option \<Rightarrow> message list list \<Rightarrow> 'n world \<Rightarrow> 'n world" where
  "agent_runs h rt hook [] w = w"
| "agent_runs h rt hook (ms # mss) w = agent_runs h rt hook mss (snd (agent_run h rt hook ms w))"

lemma granted_tool_kept:
  assumes "build_runtime h cfg override w0 = (Inr rt, w1)" "rn_registry rt = Some R" "rn_config rt = Some a"
    "reg_get R n = Some t" "ag_allowed a \<noteq> []" "''exec'' \<notin> set (ag_allowed a)" "ag_mcp a = []" "quiet_host h"
    "node_at F d = Some DirNode" "abs_elems F (resolve_workspace (ag_workspace a) (st_workspace cfg)) = d" "d \<noteq> []"
    "kept_files d F w"
  shows "kept_files d F (snd (t_execute t args w))"
proof -
  obtain ws rag dir found where
    R: "R = build_registry (ag_allowed a) (map (Pair False) (early_tools h ws a) @ map (Pair True) (manager_tools (hs_mcp h) (rn_manager rt))
      @ rag @ late_tools h a dir found)" (is "R = build_registry _ ?regs")
    and rags: "\<forall>(b, t) \<in> set rag. b \<and> t_name t = ''rag_search'' \<and> ag_rag a \<noteq> None"
      "\<forall>(b, t) \<in> set rag. \<exists>v rc. t = rag_search_tool (hs_rag h) v rc"
    and ws: "ws = resolve_workspace (ag_workspace a) (st_workspace cfg)" and mgr: "ag_mcp a = [] \<longrightarrow> rn_manager rt = []"
    by (rule built_registrations [OF assms(1-3)])
  have none: "manager_tools (hs_mcp h) (rn_manager rt) = []" using mgr assms(7) by (simp add: manager_tools_def manager_refs_def)
  have ne: "ws \<noteq> []" by (simp add: ws resolve_workspace_def)
  have dir: "abs_elems F ws = d" using assms(10) by (simp add: ws)
  note reg = reg_get_registered [OF assms(4) [unfolded R]]
  have "t_name u \<noteq> ''exec''" if "(True, u) \<in> set ?regs" for u
    using that rags(1) none by (auto simp: late_tools_def split: if_splits)
  with reg(1,3) assms(5,6) have name: "t_name t \<noteq> ''exec''" by metis
  from reg(2) obtain b where "(b, t) \<in> set ?regs" ..
  then consider (early) "t \<in> set (early_tools h ws a)" | (rag) "(b, t) \<in> set rag" | (late) "(b, t) \<in> set (late_tools h a dir found)"
    using none by auto
  then show ?thesis
  proof cases
    case early
    then show ?thesis using early_tool_kept [OF early name assms(8,12,9) dir assms(11) ne] by simp
  next
    case rag
    with rags(2) obtain v rc where "t = rag_search_tool (hs_rag h) v rc" by blast
    then show ?thesis using rag_tool_kept [OF assms(8,12)] by simp
  next
    case late
    then show ?thesis using assms(8,12) by (rule late_tool_kept)
  qed
qed

lemma agent_run_kept:
  fixes h :: "('k, 's, 'n) host"
  assumes "build_runtime h cfg override w0 = (Inr rt, w1)" "rn_config rt = Some a"
    "ag_allowed a \<noteq> []" "''exec'' \<notin> set (ag_allowed a)" "ag_mcp a = []" "quiet_host h"
    "\<And>p. rn_provider rt = Some p \<Longrightarrow> quiet_provider p" "quiet_hook wo_fs hook"
    "node_at F d = Some DirNode" "abs_elems F (resolve_workspace (ag_workspace a) (st_workspace cfg)) = d" "d \<noteq> []"
    "kept_files d F w"
  shows "kept_files d F (snd (agent_run h rt hook messages w))"
proof (cases "rn_provider rt")
  case None
  then show ?thesis using assms(12) by (simp add: agent_run_def Let_def split: option.splits)
next
  case (Some p)
  have ask: "kept_files d F (snd (complete_with_tools (pv_env (lp_api p)) ms ds v))" if "kept_files d F v" for ms ds v
    using assms(7) [OF Some] that by (intro kept_view [OF _ that]) (simp add: quiet_provider_def keeps_view_def)
  have once: "kept_files d F (snd (lp_complete p s u v))" if "kept_files d F v" for s u v
    using assms(7) [OF Some] that by (intro kept_view [OF _ that]) (simp add: quiet_provider_def keeps_view_def)
  show ?thesis
  proof (cases "rn_registry rt")
    case None
    have "kept_files d F v" if "lp_complete p s u w = (r, v)" for s u r v
      using once [OF assms(12), of s u] that by simp
    then show ?thesis using None Some by (auto simp: agent_run_def Let_def split: prod.splits sum.splits)
  next
    case R: (Some R)
    have tool: "kept_files d F (snd (t_execute t args v))" if "reg_get R n = Some t" "kept_files d F v" for n t args v
      using granted_tool_kept [OF assms(1) R assms(2) that(1) assms(3-6,9-11) that(2)] .
    have ran: "kept_files d F (snd (execute_allowed R tc hook v))" if "kept_files d F v" for tc v
    proof (cases "reg_get R (tc_name tc)")
      case None
      then show ?thesis using that by (simp add: execute_allowed_def)
    next
      case (Some t)
      obtain r v1 where e: "t_execute t (tc_args tc) v = (r, v1)" by force
      with tool [OF Some that, of "tc_args tc"] have k: "kept_files d F v1" by simp
      then have "kept_files d F (after_tool_call hk (tc_name tc) (tc_args tc) r v1)" if "hook = Some hk" for hk
        using assms(8) that by (intro kept_view [OF _ k]) (simp add: quiet_hook_def)
      with k show ?thesis by (cases hook) (simp_all add: execute_allowed_def Some e)
    qed
    have "call_preserves R (loop_hook ((rn_loop rt)\<lparr>loop_hook := hook\<rparr>)) (kept_files d F)"
      unfolding call_preserves_def
    proof (intro allI impI)
      fix tc and v :: "'n world" assume v: "kept_files d F v"
      show "kept_files d F (snd (execute_tool R tc (loop_hook ((rn_loop rt)\<lparr>loop_hook := hook\<rparr>)) v))"
      proof (cases hook)
        case None
        then show ?thesis using ran [OF v, of tc] by (simp add: execute_tool_def)
      next
        case (Some hk)
        obtain allow reason v1 where b: "before_tool_call hk (tc_name tc) (tc_args tc) v = ((allow, reason), v1)" by (metis prod.exhaust)
        have "kept_files d F v1"
          using assms(8) Some b by (intro kept_view [OF _ v]) (auto simp: quiet_hook_def dest: keeps_viewD)
        with ran [of v1 tc] show ?thesis by (simp add: execute_tool_def Some b)
      qed
    qed
    then have "kept_files d F (snd (run_tool_loop (pv_env (lp_api p)) R ((rn_loop rt)\<lparr>loop_hook := hook\<rparr>) messages w))"
      unfolding run_tool_loop_def using ask assms(12) by (rule loop_from_preserves)
    then show ?thesis using Some R by (auto simp: agent_run_def split: prod.splits sum.splits)
  qed
qed

text \<open>
  C1. An agent without exec and without MCP servers changes nothing outside its workspace. Whatever
  the configuration allows besides (files, memory, fetching, peers, the document store, skills),
  whatever the model answers and whichever paths it asks for, over any series of conversations, in
  a file system without symbolic links the runtime built from the configuration changes only what is
  at or below its workspace directory, as long as the network, the provider and the hook leave the
  files alone.
\<close>

theorem configured_agent_contained:
  assumes "build_runtime h cfg override w0 = (Inr rt, w1)" "rn_config rt = Some a"
    "ag_allowed a \<noteq> []" "''exec'' \<notin> set (ag_allowed a)" "ag_mcp a = []" "quiet_host h"
    "\<And>p. rn_provider rt = Some p \<Longrightarrow> quiet_provider p" "quiet_hook wo_fs hook"
    "fs_wf (wo_fs w)" "no_links (wo_fs w)" "node_at (wo_fs w) d = Some DirNode" "d \<noteq> []"
    "abs_elems (wo_fs w) (resolve_workspace (ag_workspace a) (st_workspace cfg)) = d"
    "node_at (wo_fs (agent_runs h rt hook conversations w)) q \<noteq> node_at (wo_fs w) q"
  shows "\<exists>r. q = d @ r"
proof -
  have "kept_files d (wo_fs w) v \<Longrightarrow> kept_files d (wo_fs w) (agent_runs h rt hook mss v)" for mss v
    using agent_run_kept [OF assms(1-8,11,13,12)] by (induction mss arbitrary: v) simp_all
  moreover have "kept_files d (wo_fs w) w" using assms(9,10) by (simp add: kept_files_def changed_below_refl)
  ultimately have "changed_below d (wo_fs w) (wo_fs (agent_runs h rt hook conversations w))"
    by (simp add: kept_files_def)
  with assms(14) show ?thesis by (auto simp: changed_below_def)
qed

subsection \<open>An example\<close>

text \<open>
  An agent with files and memory, whose model writes a file above the workspace, one inside it and
  remembers something. Its network answers nothing.
\<close>

definition note_agent :: "nat agent_config" where
  "note_agent = demo_agent\<lparr>ag_allowed := [''write_file'', ''remember''], ag_mcp := []\<rparr>"

definition offline :: "nat world web_env" where
  "offline = \<lparr>we_send = (\<lambda>c w. (HttpFailed ''offline'', w)), we_location = (\<lambda>u s. Inl s), we_parse_error = id,
     we_client_error = (\<lambda>u e. e), we_quote = id, we_lower = id\<rparr>"

definition note_host :: "(nat, nat, nat) host" where
  "note_host = \<lparr>hs_load = demo_loading\<lparr>ll_yaml := (\<lambda>_. Inr note_agent)\<rparr>, hs_skill_yaml = (\<lambda>_. None), hs_shell = undefined,
     hs_panic = undefined, hs_web = offline, hs_decode_error = (\<lambda>_. []),
     hs_a2a = \<lparr>ae_web = offline, ae_connect = (\<lambda>_. None), ae_send = (\<lambda>c w. ((Inl ''offline'', []), w)), ae_trace = [],
       ae_failed = ''failed'', ae_rejected = ''rejected''\<rparr>, hs_cards = undefined,
     hs_rag = \<lparr>rv_post = (\<lambda>u hs b w. (HttpFailed ''offline'', w)), rv_number = (\<lambda>_. []), rv_show2 = (\<lambda>_. []), rv_huge = 0,
       rv_url_error = id, rv_decode_error = id\<rparr>,
     hs_mcp = undefined, hs_environ = [], hs_clock = (\<lambda>_. 0),
     hs_ctors = \<lparr>new_anthropic = None, new_openai_compat = None\<rparr>, hs_stderr = (\<lambda>_ w. w), hs_number = (\<lambda>_. [])\<rparr>"

definition note_model :: "nat world llm_provider" where
  "note_model = \<lparr>lp_api = \<lparr>pv_model = ''m'', pv_env =
       \<lparr>complete_with_tools = (\<lambda>ms ds w. (Inr (if length ms = 1
           then \<lparr>resp_stop_reason = StopReasonToolUse, resp_content = [],
             resp_tool_calls =
               [\<lparr>tc_id = ''a'', tc_name = ''write_file'', tc_args = path_args ''/ws/../etc/x'' ''out''\<rparr>,
                \<lparr>tc_id = ''b'', tc_name = ''write_file'', tc_args = path_args ''/ws/n/x'' ''in''\<rparr>,
                \<lparr>tc_id = ''c'', tc_name = ''remember'', tc_args = [(''entry'', JStr ''tea'')]\<rparr>], resp_usage = zero_usage\<rparr>
           else \<lparr>resp_stop_reason = StopReasonEndTurn, resp_content = ''ok'', resp_tool_calls = [], resp_usage = zero_usage\<rparr>), w)),
        ctx_err = (\<lambda>w. None), schedule = (\<lambda>i n. [0..<n])\<rparr>,
       pv_stream = (\<lambda>ms ds w. ([], Inl [], w))\<rparr>, lp_complete = (\<lambda>s u w. (Inr [], w))\<rparr>"

definition note_world :: "nat world" where
  "note_world = \<lparr>wo_fs = \<lparr>fs_nodes = [([''cfg''], DirNode), ([''cfg'', ''system-prompt.txt''], FileNode ''be brief''),
     ([''cfg'', ''agent-config.yaml''], FileNode ''tools''), ([''etc''], DirNode), ([''ws''], DirNode)], fs_cwd = []\<rparr>,
     wo_verified = [], wo_net = 0\<rparr>"

definition note_runtime :: "(nat, nat, nat) agent_runtime" where
  "note_runtime = projr (fst (build_runtime note_host (demo_settings []) (Some note_model) note_world))"

definition note_end :: "nat world" where
  "note_end = agent_runs note_host note_runtime None [[text_message ''user'' ''note'']] note_world"

lemma note_run:
  "(case fst (build_runtime note_host (demo_settings []) (Some note_model) note_world) of Inl e \<Rightarrow> None
    | Inr rt \<Rightarrow> map_option (\<lambda>a. (ag_allowed a, ag_mcp a, ag_workspace a)) (rn_config rt))
   = Some ([''write_file'', ''remember''], [], ''/ws'')"
  by code_simp

lemma note_written: "node_at (wo_fs note_end) [''ws'', ''n'', ''x''] = Some (FileNode ''in'')"
  by code_simp

lemma note_quiet: "quiet_host note_host" "quiet_provider note_model" "quiet_hook wo_fs None"
  by (simp_all add: quiet_host_def quiet_web_def quiet_a2a_def quiet_rag_def quiet_provider_def quiet_hook_def keeps_view_def
      note_host_def note_model_def offline_def)

theorem configured_agent_contained_witness:
  "node_at (wo_fs note_end) [''ws'', ''n'', ''x''] = Some (FileNode ''in'')
   \<and> (\<forall>q. node_at (wo_fs note_end) (''etc'' # q) = node_at (wo_fs note_world) (''etc'' # q))"
proof -
  let ?b = "build_runtime note_host (demo_settings []) (Some note_model) note_world"
  obtain rt where b: "?b = (Inr rt, snd ?b)" and rt: "note_runtime = rt"
    using note_run by (cases "fst ?b") (simp_all add: note_runtime_def prod_eq_iff)
  have "fst ?b = Inr rt" using b by (metis fst_conv)
  then obtain a where a: "rn_config rt = Some a" "ag_allowed a = [''write_file'', ''remember'']" "ag_mcp a = []" "ag_workspace a = ''/ws''"
    using note_run by auto
  have p: "quiet_provider p" if "rn_provider rt = Some p" for p
  proof -
    have "rn_provider rt = Some note_model"
      using b by (auto simp: build_runtime_def finish_runtime_def choose_provider_def Let_def bind_res_def split: sum.splits prod.splits option.splits)
    with that note_quiet(2) show ?thesis by simp
  qed
  have F: "fs_wf (wo_fs note_world)" "node_at (wo_fs note_world) [''ws''] = Some DirNode"
    "abs_elems (wo_fs note_world) (resolve_workspace ''/ws'' (st_workspace (demo_settings []))) = [''ws'']"
    by code_simp+
  have "no_links (wo_fs note_world)" by (simp add: no_links_def note_world_def)
  note safe = configured_agent_contained [OF b a(1) _ _ a(3) note_quiet(1) p note_quiet(3) F(1) this F(2), unfolded a(2,4), OF _ _ _ _ F(3),
      where conversations = "[[text_message ''user'' ''note'']]"]
  have "node_at (wo_fs note_end) (''etc'' # q) = node_at (wo_fs note_world) (''etc'' # q)" for q
    using safe [of "''etc'' # q"] by (auto simp: note_end_def rt)
  with note_written show ?thesis by blast
qed

end
