(* ===== verification/Spec2Isabelle.thy ===== *)
theory Spec2Isabelle
  imports Session_Sqlite Key_Source Workspace_Safety Memory_Store Agent_Context Exec_Tool OpenAI_Api Batch Build_Deploy A2A_Call
    OpenAI_Provider Anthropic_Provider Skills Go_Duration Mcp_Client Rag_Search Settings Agent_Config Runtime Serve Skill_Puller Doc_Service Batch_Command Command_Line Prompts Agent_Safety
begin

text \<open>
  docsclaw is an agent runtime in Go: a service (or a command, ask) whose personality is a directory
  of configuration files. A conversation comes in over A2A or an OpenAI-compatible API, a loop asks
  a language model and runs the tools it calls, and the answer goes back. Around it stand the access
  control of the service, the session stores, skills, peers, a builder of agent images, a batch
  command and the demo programs of a batch of agents. The library models these parts as they are in
  \<open>src/\<close>; where it says "the code", it means the Go files named.

  1. Go and its libraries (theories \<open>Go_*\<close>). Strings are lists of bytes (\<open>Go_Prelude\<close>: strings,
  strconv, sort; \<open>Go_Utf8\<close>), JSON values with the reader and writer of encoding/json (\<open>Go_Json\<close>,
  \<open>Go_Json_Text\<close>), base64 (\<open>Go_Encoding\<close>), paths (\<open>Go_Path\<close>), URLs (\<open>Go_Url\<close>), times and durations
  (\<open>Go_Time\<close>, \<open>Go_Duration\<close>), requests and responses (\<open>Go_Http\<close>), and a file system with symbolic
  links and the calls of package os (\<open>Go_Fs\<close>). Integers are \<open>int\<close> where the code cannot overflow
  within documented limits, and words where wrap-around matters (\<open>Dash_K8s\<close>, \<open>Skill_Source\<close>).

  2. The core. \<open>Llm\<close> has the messages and the provider factory (pkg/llm), \<open>Prompts\<close> its unused
  prompts. \<open>Tool_Registry\<close> and \<open>Tool_Loop\<close> are pkg/tools: the registry, the allow list, and
  \<open>RunToolLoop\<close> with its parallel tool calls under any schedule. \<open>Session_Store\<close> states the contract
  of a session store as a locale, proves the history of a conversation in it, and interprets it for
  the in-memory store; \<open>Session_Sqlite\<close> does the same for the tables and transactions of the database
  store, with a fault for any statement.

  3. Tools. \<open>Workspace_Tools\<close> and \<open>Workspace_Safety\<close> (internal/workspace, readfile, writefile),
  \<open>Memory_Store\<close> (pkg/memory, internal/memorytool), \<open>Exec_Tool\<close> (internal/exec, with the deny list as
  regular expressions), \<open>Web_Tools\<close> (internal/webfetch, fetchdoc, egress), \<open>Rag_Search\<close> (pkg/rag,
  internal/ragsearch), \<open>Mcp_Client\<close> (internal/mcpclient), \<open>A2A_Call\<close> (internal/a2acall: signed cards
  and the call of a peer), \<open>Skills\<close> (pkg/skills and the skill commands).

  4. Providers and interfaces. \<open>OpenAI_Provider\<close> and \<open>Anthropic_Provider\<close> (internal/openai,
  internal/anthropic), \<open>OpenAI_Api\<close> (internal/openaiapi), \<open>Bridge\<close> (internal/bridge: the A2A executor,
  client and cards), \<open>Inbound_Auth\<close> and \<open>Key_Source\<close> (pkg/inboundauth).

  5. The program put together. \<open>Settings\<close> and \<open>Command_Line\<close> (internal/config, the flags),
  \<open>Agent_Config\<close> (internal/cmd/agentconfig.go), \<open>Agent_Context\<close> (pkg/agentcontext), \<open>Runtime\<close>
  (runtime.go, ask.go: \<open>buildRuntime\<close>, \<open>Run\<close>, ask), \<open>Serve\<close> (serve.go: the routes, the guard and
  \<open>runServe\<close>), \<open>Agent_Safety\<close> (what a configured agent can change), \<open>Observability\<close>
  (internal/logger, internal/telemetry).

  6. Building and batches. \<open>Catalog\<close>, \<open>Manifest\<close>, \<open>Manifest_K8s\<close>, \<open>Build_Deploy\<close> (pkg/catalog,
  pkg/manifest, the build and deploy commands), \<open>Batch\<close> and \<open>Batch_Command\<close> (internal/cmd/batch.go),
  \<open>Skill_Source\<close> and \<open>Skill_Puller\<close> (internal/skillpuller), \<open>Dash_K8s\<close>, \<open>Dashboard\<close> and
  \<open>Doc_Service\<close> (demo/batch).

  How state and effects are modelled. A component's state is a record, an operation a function that
  returns the new state, an error the left side of a sum, a panic \<open>None\<close> or a constructor of its own. A
  section under a mutex is one operation; where goroutines or requests interleave, the theory has an
  inductive step relation over these operations (\<open>Key_Source\<close>, \<open>Bridge\<close>, \<open>Dashboard\<close>) or a schedule
  as an argument (\<open>Tool_Loop\<close>, \<open>Batch_Command\<close>). What is not under \<open>src/\<close> is an argument: the HTTP
  transport, the language model, the shell, the clock and the random numbers, the YAML and JOSE
  libraries, viper, the A2A and MCP packages, Kubernetes, and the texts of library errors. Such
  arguments act on a world the caller chooses, so a theorem holds for every network and model; where
  one needs something of them (a lower-casing that is idempotent, a network that leaves the files
  alone), it is a named hypothesis, and the witness gives a concrete one.

  What the lemmas show. The loop only sends well-formed conversations, ends, and never runs a denied
  call; the stores keep conversations and the bridge keeps them apart per session key. The tools the
  model can call are exactly those the configuration and the MCP servers give. Requests pass the
  guard only with a verified token, keys come from the issuer, and refreshes are limited. The
  file tools stay in the workspace, as far as links and ".." allow, and a configured agent without
  exec and MCP servers does as a whole. Fetches stay on allowed hosts, peers are verified before they
  are written to, a pull starts at a host outside the ranges the code lists and installs one file,
  whichever system calls fail. Texts survive their
  encodings: streams, CSV, Secrets, ConfigMaps, GraphQL literals, token counts in logs. Labels of an
  image bound its risk, a build passes its gates, and the dashboard's phases say what became of its
  agents. Each theory also has the lemmas that show where the code does less than it means to.

  Bounds and fuel. Functions are total. The reader of JSON takes the length of the text as fuel, one
  unit for each value, which is enough because every value takes at least one byte (\<open>Go_Json\<close>
  proves that written values read back). Walks of the file system follow at most 40 links (the kernel)
  and 255 (\<open>EvalSymlinks\<close>), as the code's callees do; running out is their error. Redirects are
  bounded by 10 (5 for cards), sends of the dashboard by 5, the loop by MaxIterations; these are the
  bounds of the code. The matcher of regular expressions recurses on the expression and the
  positions left. Polling for the pods of an agent takes the instants of its polls; with one past the
  deadline among them it returns.

  Not modelled. The bodies of the libraries named above; the opening of sockets, signals and
  shutdown; locks as such (only what they protect); file modes and permissions; failures of the disk, except
  those of the database, of skill delete and of the install of a pulled skill; races
  between a check of the file system and the use of its result; log lines, except those the
  dashboard reads back; spans and metrics (internal/metrics registers two vectors nothing records
  to; internal/telemetry/attributes.go names keys); internal/egress/client.go, which clones the
  default transport of net/http; the registration of commands with cobra; the main packages, which
  only call into what is modelled; static files, shell scripts, container files and the sample
  data of the demos, which are not Go. Floats are rational numbers, so
  that a JSON number is not told from another spelling of it (1.0 is read into an integer field, which
  encoding/json rejects); the Referer header that net/http adds to a redirected request is left out;
  and a map that the code ranges over in random order is an association list or comes with the order
  as an argument.
\<close>

end
